(* ===== verification/Prelude.thy ===== *)
theory Prelude
  imports Main
begin

text \<open>
  What every component of the model shares: the error values of the Go code
  (the error types of bosh-utils, and the two error types bosh-init adds), the
  outcome of running a piece of code, programs as state transformers with their
  sequencing, error wrapping and deferred clean-up, and the rules (weakest
  preconditions, invariants, traces) by which the components are verified.
\<close>

named_theorems wp_simps "weakest preconditions of the program combinators"
named_theorems keeps_intros "preservation of an invariant through the program combinators"
named_theorems prog_defs "definitions of the program combinators"

section \<open>Errors\<close>

text \<open>
  The error a CPI reports (\<^verbatim>\<open>CmdError\<close> of cloud/cpi_cmd_runner.go).
\<close>

record cmd_error =
  ce_Type :: string
  ce_Message :: string
  ce_OkToRetry :: bool

text \<open>
  The errors that flow through the program. \<open>Errorf fmt args\<close> is an error
  made with \<^verbatim>\<open>bosherr.Error\<close>, \<^verbatim>\<open>bosherr.Errorf\<close>, \<^verbatim>\<open>errors.New\<close> or
  \<^verbatim>\<open>fmt.Errorf\<close>, kept as its format and arguments (a \<^verbatim>\<open>%#v\<close> dump of a value is
  \<open>ADump\<close>). \<open>ComplexError\<close> is what \<^verbatim>\<open>bosherr.WrapError\<close> makes: a type
  assertion on the wrapped value no longer sees the cause. \<open>CpiError\<close> is the
  only error that implements \<^verbatim>\<open>bicloud.Error\<close>; \<open>External\<close> is an error raised by
  code outside the repository.
\<close>

datatype goerr =
    Errorf string "fmt_arg list"
  | ComplexError string "fmt_arg list" goerr
  | MultiError "goerr list"
  | CpiError string cmd_error
  | SkipStageError goerr string
  | ErrNotFound
  | External string
and fmt_arg = AStr string | AInt int | AErr goerr | ADump

definition GoError :: "string \<Rightarrow> goerr" where
  "GoError msg = Errorf msg []"

definition WrapErrorf :: "goerr \<Rightarrow> string \<Rightarrow> fmt_arg list \<Rightarrow> goerr" where
  "WrapErrorf cause msg args = ComplexError msg args cause"

definition WrapError :: "goerr \<Rightarrow> string \<Rightarrow> goerr" where
  "WrapError cause msg = WrapErrorf cause msg []"

text \<open>Type assertions: \<^verbatim>\<open>err.(bicloud.Error)\<close> with a given \<^verbatim>\<open>Type()\<close>, and \<^verbatim>\<open>err.(SkipStageError)\<close>.\<close>

fun cloud_error_type :: "goerr \<Rightarrow> string option" where
  "cloud_error_type (CpiError method ce) = Some (ce_Type ce)"
| "cloud_error_type _ = None"

fun is_skip :: "goerr \<Rightarrow> bool" where
  "is_skip (SkipStageError cause msg) = True"
| "is_skip _ = False"

lemma cloud_error_type_wrapped [simp]: "cloud_error_type (WrapErrorf e m as) = None"
  by (simp add: WrapErrorf_def)

lemma cloud_error_type_wrapped0 [simp]: "cloud_error_type (WrapError e m) = None"
  by (simp add: WrapError_def)

lemma is_skip_wrapped [simp]: "\<not> is_skip (WrapErrorf e m as)"
  by (simp add: WrapErrorf_def)

lemma is_skip_wrapped0 [simp]: "\<not> is_skip (WrapError e m)"
  by (simp add: WrapError_def)

lemma is_skip_cloud [simp]: "cloud_error_type e = Some t \<Longrightarrow> \<not> is_skip e"
  by (cases e) auto

section \<open>Outcomes and programs\<close>

text \<open>
  A Go call returns a value (\<open>Ok\<close>), returns a non-nil error (\<open>Err\<close>), panics,
  or does not return (\<open>Hang\<close>, produced only by loops whose exit depends on the
  outside). The state reached so far is kept in every case: files written before
  an error stay written.
\<close>

datatype 'a outcome = Ok 'a | Err goerr | Panic string | Hang

type_synonym ('w, 'a) prog = "'w \<Rightarrow> 'a outcome \<times> 'w"

definition ret :: "'a \<Rightarrow> ('w, 'a) prog" where
  "ret x w = (Ok x, w)"

definition fail :: "goerr \<Rightarrow> ('w, 'a) prog" where
  "fail e w = (Err e, w)"

definition panic :: "string \<Rightarrow> ('w, 'a) prog" where
  "panic s w = (Panic s, w)"

definition gets :: "('w \<Rightarrow> 'a) \<Rightarrow> ('w, 'a) prog" where
  "gets f w = (Ok (f w), w)"

definition modify :: "('w \<Rightarrow> 'w) \<Rightarrow> ('w, unit) prog" where
  "modify f w = (Ok (), f w)"

definition bnd :: "('w, 'a) prog \<Rightarrow> ('a \<Rightarrow> ('w, 'b) prog) \<Rightarrow> ('w, 'b) prog" where
  "bnd m f w = (case m w of
      (Ok x, w') \<Rightarrow> f x w'
    | (Err e, w') \<Rightarrow> (Err e, w')
    | (Panic s, w') \<Rightarrow> (Panic s, w')
    | (Hang, w') \<Rightarrow> (Hang, w'))"

definition seq :: "('w, 'a) prog \<Rightarrow> ('w, 'b) prog \<Rightarrow> ('w, 'b) prog" where
  "seq m n = bnd m (\<lambda>_. n)"

text \<open>
  \<open>attempt m\<close> hands the error of \<open>m\<close> on as a value (\<^verbatim>\<open>x, err := m\<close> with the error
  inspected by the caller); \<open>wrapf\<close> is the ubiquitous
  \<^verbatim>\<open>if err != nil { return bosherr.WrapErrorf(err, ...) }\<close>; \<open>deferred m d\<close> runs
  \<open>m\<close> and then the deferred \<open>d\<close>, whose own error is dropped (a logged warning)
  and which also runs when \<open>m\<close> panics.
\<close>

definition attempt :: "('w, 'a) prog \<Rightarrow> ('w, goerr + 'a) prog" where
  "attempt m w = (case m w of
      (Ok x, w') \<Rightarrow> (Ok (Inr x), w')
    | (Err e, w') \<Rightarrow> (Ok (Inl e), w')
    | (Panic s, w') \<Rightarrow> (Panic s, w')
    | (Hang, w') \<Rightarrow> (Hang, w'))"

definition wrapf :: "string \<Rightarrow> fmt_arg list \<Rightarrow> ('w, 'a) prog \<Rightarrow> ('w, 'a) prog" where
  "wrapf msg args m w = (case m w of
      (Err e, w') \<Rightarrow> (Err (WrapErrorf e msg args), w')
    | r \<Rightarrow> r)"

definition wrap :: "string \<Rightarrow> ('w, 'a) prog \<Rightarrow> ('w, 'a) prog" where
  "wrap msg m = wrapf msg [] m"

definition deferred :: "('w, 'a) prog \<Rightarrow> ('w, unit) prog \<Rightarrow> ('w, 'a) prog" where
  "deferred m d w = (case m w of
      (Hang, w') \<Rightarrow> (Hang, w')
    | (r, w') \<Rightarrow> (case d w' of
          (Panic s, w'') \<Rightarrow> (Panic s, w'')
        | (Hang, w'') \<Rightarrow> (Hang, w'')
        | (_, w'') \<Rightarrow> (r, w'')))"

definition check :: "bool \<Rightarrow> goerr \<Rightarrow> ('w, unit) prog" where
  "check b e = (if b then ret () else fail e)"

definition lift_sum :: "goerr + 'a \<Rightarrow> ('w, 'a) prog" where
  "lift_sum r = (case r of Inl e \<Rightarrow> fail e | Inr x \<Rightarrow> ret x)"

text \<open>\<^verbatim>\<open>for _, x := range xs { if err := f(x); err != nil { return err } }\<close>, without and with results.\<close>

primrec for_each :: "('a \<Rightarrow> ('w, unit) prog) \<Rightarrow> 'a list \<Rightarrow> ('w, unit) prog" where
  "for_each f [] = ret ()"
| "for_each f (x # xs) = seq (f x) (for_each f xs)"

primrec map_prog :: "('a \<Rightarrow> ('w, 'b) prog) \<Rightarrow> 'a list \<Rightarrow> ('w, 'b list) prog" where
  "map_prog f [] = ret []"
| "map_prog f (x # xs) = bnd (f x) (\<lambda>y. bnd (map_prog f xs) (\<lambda>ys. ret (y # ys)))"

lemmas [prog_defs] = ret_def fail_def panic_def gets_def modify_def bnd_def seq_def attempt_def
  wrapf_def wrap_def deferred_def check_def lift_sum_def

text \<open>The monad laws by which a proof exposes the first call of an operation.\<close>

lemma bnd_assoc: "bnd (bnd m f) g = bnd m (\<lambda>x. bnd (f x) g)"
  by (rule ext) (simp add: bnd_def split: prod.splits outcome.splits)

lemma bnd_ret: "bnd (ret x) f = f x"
  by (rule ext) (simp add: bnd_def ret_def)

lemma seq_assoc: "seq (seq m n) k = seq m (seq n k)"
  by (simp add: seq_def bnd_assoc)

lemma bnd_seq: "bnd (seq m n) f = seq m (bnd n f)"
  by (simp add: seq_def bnd_assoc)

lemma seq_bnd: "seq (bnd m f) n = bnd m (\<lambda>x. seq (f x) n)"
  by (simp add: seq_def bnd_assoc)

lemma seq_ret: "seq (ret x) n = n"
  by (simp add: seq_def bnd_ret)

lemma bnd_fail: "bnd (fail e) f = fail e"
  by (rule ext) (simp add: bnd_def fail_def)

lemma seq_fail: "seq (fail e) n = fail e"
  by (simp add: seq_def bnd_fail)

lemma seq_check: "seq (check b e) n = (if b then n else fail e)"
  by (simp add: check_def seq_ret seq_fail)

lemmas prog_norm = bnd_assoc bnd_ret seq_assoc bnd_seq seq_bnd seq_ret bnd_fail seq_fail seq_check

text \<open>Pure code that may fail: sequencing and mapping over a list up to the first error.\<close>

definition sbind :: "goerr + 'a \<Rightarrow> ('a \<Rightarrow> goerr + 'b) \<Rightarrow> goerr + 'b" where
  "sbind r f = (case r of Inl e \<Rightarrow> Inl e | Inr x \<Rightarrow> f x)"

primrec map_sum_list :: "('a \<Rightarrow> goerr + 'b) \<Rightarrow> 'a list \<Rightarrow> goerr + 'b list" where
  "map_sum_list f [] = Inr []"
| "map_sum_list f (x # xs) = sbind (f x) (\<lambda>y. sbind (map_sum_list f xs) (\<lambda>ys. Inr (y # ys)))"

definition wraps :: "string \<Rightarrow> fmt_arg list \<Rightarrow> goerr + 'a \<Rightarrow> goerr + 'a" where
  "wraps msg args r = (case r of Inl e \<Rightarrow> Inl (WrapErrorf e msg args) | Inr x \<Rightarrow> Inr x)"

text \<open>Pure code that may also panic: its outcome, and the program that has it.\<close>

definition obind :: "'a outcome \<Rightarrow> ('a \<Rightarrow> 'b outcome) \<Rightarrow> 'b outcome" where
  "obind r f = (case r of Ok x \<Rightarrow> f x | Err e \<Rightarrow> Err e | Panic s \<Rightarrow> Panic s | Hang \<Rightarrow> Hang)"

definition of_sum :: "goerr + 'a \<Rightarrow> 'a outcome" where
  "of_sum r = (case r of Inl e \<Rightarrow> Err e | Inr x \<Rightarrow> Ok x)"

definition lift_outcome :: "'a outcome \<Rightarrow> ('w, 'a) prog" where
  "lift_outcome r w = (r, w)"

definition wrap_outcome :: "string \<Rightarrow> fmt_arg list \<Rightarrow> 'a outcome \<Rightarrow> 'a outcome" where
  "wrap_outcome msg args r = (case r of Err e \<Rightarrow> Err (WrapErrorf e msg args) | _ \<Rightarrow> r)"

lemma obind_simps [simp]:
  "obind (Ok x) f = f x" "obind (Err e) f = Err e" "obind (Panic s) f = Panic s" "obind Hang f = Hang"
  by (simp_all add: obind_def)

lemma of_sum_simps [simp]: "of_sum (Inl e) = Err e" "of_sum (Inr x) = Ok x"
  by (simp_all add: of_sum_def)

lemma wrap_outcome_simps [simp]:
  "wrap_outcome m a (Ok x) = Ok x" "wrap_outcome m a (Err e) = Err (WrapErrorf e m a)"
  "wrap_outcome m a (Panic s) = Panic s" "wrap_outcome m a Hang = Hang"
  by (simp_all add: wrap_outcome_def)

lemma obind_Ok_iff: "obind r f = Ok y \<longleftrightarrow> (\<exists>x. r = Ok x \<and> f x = Ok y)"
  by (cases r) simp_all

lemma sbind_simps [simp]: "sbind (Inl e) f = Inl e" "sbind (Inr x) f = f x"
  by (simp_all add: sbind_def)

lemma sbind_Inr_iff: "sbind r f = Inr y \<longleftrightarrow> (\<exists>x. r = Inr x \<and> f x = Inr y)"
  by (cases r) simp_all

lemma wraps_simps [simp]: "wraps m as (Inl e) = Inl (WrapErrorf e m as)" "wraps m as (Inr x) = Inr x"
  by (simp_all add: wraps_def)

lemma wraps_Inr_iff: "wraps m as r = Inr y \<longleftrightarrow> r = Inr y"
  by (cases r) simp_all

lemma map_sum_list_map: "(\<And>x. x \<in> set xs \<Longrightarrow> f (g x) = Inr (h x)) \<Longrightarrow> map_sum_list f (map g xs) = Inr (map h xs)"
  by (induction xs) auto

lemma map_sum_list_Inr: "map_sum_list f xs = Inr ys \<longleftrightarrow> list_all2 (\<lambda>x y. f x = Inr y) xs ys"
  by (induction xs arbitrary: ys) (auto simp: sbind_Inr_iff list_all2_Cons1)

text \<open>The element \<open>find\<close> returns, and when there is one.\<close>

lemma find_SomeD: "find P l = Some v \<Longrightarrow> v \<in> set l \<and> P v"
  by (auto simp: find_Some_iff in_set_conv_nth)

lemma find_ex: "x \<in> set l \<Longrightarrow> P x \<Longrightarrow> \<exists>v. find P l = Some v \<and> v \<in> set l \<and> P v"
  by (cases "find P l") (auto simp: find_None_iff dest: find_SomeD)

section \<open>Weakest preconditions\<close>

text \<open>
  \<open>wp m Q w\<close>: running \<open>m\<close> from \<open>w\<close> ends with an outcome and a state that
  satisfy \<open>Q\<close>. The equations turn a goal about a program into one about its
  primitive calls, branch by branch.
\<close>

definition wp :: "('w, 'a) prog \<Rightarrow> ('a outcome \<Rightarrow> 'w \<Rightarrow> bool) \<Rightarrow> 'w \<Rightarrow> bool" where
  "wp m Q w = (case m w of (r, w') \<Rightarrow> Q r w')"

lemma wp_iff: "wp m Q w \<longleftrightarrow> Q (fst (m w)) (snd (m w))"
  by (simp add: wp_def split: prod.splits)

lemma wpD: "wp m Q w \<Longrightarrow> m w = (r, w') \<Longrightarrow> Q r w'"
  by (simp add: wp_def)

lemma wpI: "(\<And>r w'. m w = (r, w') \<Longrightarrow> Q r w') \<Longrightarrow> wp m Q w"
  by (cases "m w") (simp add: wp_def)

lemma wp_mono: "wp m P w \<Longrightarrow> (\<And>r w'. P r w' \<Longrightarrow> Q r w') \<Longrightarrow> wp m Q w"
  by (simp add: wp_def split: prod.splits)

lemma wp_conj: "wp m (\<lambda>r w'. P r w' \<and> Q r w') w \<longleftrightarrow> wp m P w \<and> wp m Q w"
  by (simp add: wp_def split: prod.splits)

lemma wp_ret [wp_simps]: "wp (ret x) Q w = Q (Ok x) w"
  by (simp add: wp_def ret_def)

lemma wp_fail [wp_simps]: "wp (fail e) Q w = Q (Err e) w"
  by (simp add: wp_def fail_def)

lemma wp_panic [wp_simps]: "wp (panic s) Q w = Q (Panic s) w"
  by (simp add: wp_def panic_def)

lemma wp_gets [wp_simps]: "wp (gets f) Q w = Q (Ok (f w)) w"
  by (simp add: wp_def gets_def)

lemma wp_modify [wp_simps]: "wp (modify f) Q w = Q (Ok ()) (f w)"
  by (simp add: wp_def modify_def)

lemma wp_bnd [wp_simps]: "wp (bnd m f) Q w =
    wp m (\<lambda>r w'. case r of Ok x \<Rightarrow> wp (f x) Q w' | Err e \<Rightarrow> Q (Err e) w'
       | Panic s \<Rightarrow> Q (Panic s) w' | Hang \<Rightarrow> Q Hang w') w"
  by (simp add: wp_def bnd_def split: prod.splits outcome.splits)

lemma wp_seq [wp_simps]: "wp (seq m n) Q w =
    wp m (\<lambda>r w'. case r of Ok x \<Rightarrow> wp n Q w' | Err e \<Rightarrow> Q (Err e) w'
       | Panic s \<Rightarrow> Q (Panic s) w' | Hang \<Rightarrow> Q Hang w') w"
  by (simp add: seq_def wp_bnd)

lemma wp_attempt [wp_simps]: "wp (attempt m) Q w =
    wp m (\<lambda>r w'. case r of Ok x \<Rightarrow> Q (Ok (Inr x)) w' | Err e \<Rightarrow> Q (Ok (Inl e)) w'
       | Panic s \<Rightarrow> Q (Panic s) w' | Hang \<Rightarrow> Q Hang w') w"
  by (simp add: wp_def attempt_def split: prod.splits outcome.splits)

lemma wp_wrapf [wp_simps]: "wp (wrapf msg args m) Q w =
    wp m (\<lambda>r w'. case r of Err e \<Rightarrow> Q (Err (WrapErrorf e msg args)) w' | _ \<Rightarrow> Q r w') w"
  by (simp add: wp_def wrapf_def split: prod.splits outcome.splits)

lemma wp_wrap [wp_simps]: "wp (wrap msg m) Q w =
    wp m (\<lambda>r w'. case r of Err e \<Rightarrow> Q (Err (WrapErrorf e msg [])) w' | _ \<Rightarrow> Q r w') w"
  by (simp add: wrap_def wp_wrapf)

lemma wp_check [wp_simps]: "wp (check b e) Q w = (if b then Q (Ok ()) w else Q (Err e) w)"
  by (simp add: check_def wp_simps)

lemma wp_lift_sum [wp_simps]:
  "wp (lift_sum r) Q w = (case r of Inl e \<Rightarrow> Q (Err e) w | Inr x \<Rightarrow> Q (Ok x) w)"
  by (simp add: lift_sum_def wp_simps split: sum.splits)

lemma wp_lift_outcome [wp_simps]: "wp (lift_outcome r) Q w = Q r w"
  by (simp add: wp_def lift_outcome_def)

lemma wp_deferred [wp_simps]: "wp (deferred m d) Q w =
    wp m (\<lambda>r w'. case r of Hang \<Rightarrow> Q Hang w' | _ \<Rightarrow>
       wp d (\<lambda>q w''. case q of Panic s \<Rightarrow> Q (Panic s) w'' | Hang \<Rightarrow> Q Hang w'' | _ \<Rightarrow> Q r w'') w') w"
  by (simp add: wp_def deferred_def split: prod.splits outcome.splits)

text \<open>The same as rules, for chaining facts about the parts.\<close>

lemma wp_bnd_rule:
  assumes "wp m P w"
    and "\<And>x w'. P (Ok x) w' \<Longrightarrow> wp (f x) Q w'" and "\<And>e w'. P (Err e) w' \<Longrightarrow> Q (Err e) w'"
    and "\<And>s w'. P (Panic s) w' \<Longrightarrow> Q (Panic s) w'" and "\<And>w'. P Hang w' \<Longrightarrow> Q Hang w'"
  shows "wp (bnd m f) Q w"
  unfolding wp_bnd using assms(1) by (rule wp_mono) (auto intro: assms(2-) split: outcome.splits)

lemma wp_seq_rule:
  assumes "wp m P w"
    and "\<And>x w'. P (Ok x) w' \<Longrightarrow> wp n Q w'" and "\<And>e w'. P (Err e) w' \<Longrightarrow> Q (Err e) w'"
    and "\<And>s w'. P (Panic s) w' \<Longrightarrow> Q (Panic s) w'" and "\<And>w'. P Hang w' \<Longrightarrow> Q Hang w'"
  shows "wp (seq m n) Q w"
  using assms unfolding seq_def by (rule wp_bnd_rule)

lemma wp_if [wp_simps]: "wp (if b then m else n) Q w = (if b then wp m Q w else wp n Q w)"
  by simp

lemma wp_for_each_Nil [wp_simps]: "wp (for_each f []) Q w = Q (Ok ()) w"
  by (simp add: wp_ret)

lemma wp_for_each_Cons [wp_simps]: "wp (for_each f (x # xs)) Q w = wp (seq (f x) (for_each f xs)) Q w"
  by simp

text \<open>A success of a sequence is one of both of its parts.\<close>

lemma bnd_OkE:
  assumes "bnd m f w = (Ok y, w')"
  obtains x v where "m w = (Ok x, v)" "f x v = (Ok y, w')"
  using assms by (auto simp: bnd_def split: prod.splits outcome.splits)

lemma wrapf_OkE: "wrapf msg a m w = (Ok x, w') \<Longrightarrow> m w = (Ok x, w')"
  by (auto simp: wrapf_def split: prod.splits outcome.splits)

section \<open>Invariants of programs\<close>

text \<open>\<open>keeps P m\<close>: whatever its outcome, \<open>m\<close> leads from a state with \<open>P\<close> to a state with \<open>P\<close>.\<close>

definition keeps :: "('w \<Rightarrow> bool) \<Rightarrow> ('w, 'a) prog \<Rightarrow> bool" where
  "keeps P m \<longleftrightarrow> (\<forall>w. P w \<longrightarrow> P (snd (m w)))"

lemma keepsI: "(\<And>w. P w \<Longrightarrow> wp m (\<lambda>_. P) w) \<Longrightarrow> keeps P m"
  by (simp add: keeps_def wp_iff)

lemma keepsD: "keeps P m \<Longrightarrow> P w \<Longrightarrow> wp m (\<lambda>_. P) w"
  by (simp add: keeps_def wp_iff)

lemma keeps_snd: "keeps P m \<Longrightarrow> P w \<Longrightarrow> m w = (r, w') \<Longrightarrow> P w'"
  by (metis keeps_def snd_conv)

lemma keeps_ret [keeps_intros]: "keeps P (ret x)"
  by (simp add: keeps_def ret_def)

lemma keeps_fail [keeps_intros]: "keeps P (fail e)"
  by (simp add: keeps_def fail_def)

lemma keeps_panic [keeps_intros]: "keeps P (panic s)"
  by (simp add: keeps_def panic_def)

lemma keeps_gets [keeps_intros]: "keeps P (gets f)"
  by (simp add: keeps_def gets_def)

lemma keeps_check [keeps_intros]: "keeps P (check b e)"
  by (simp add: check_def keeps_ret keeps_fail)

lemma keeps_lift_sum [keeps_intros]: "keeps P (lift_sum r)"
  by (simp add: lift_sum_def keeps_ret keeps_fail split: sum.splits)

lemma keeps_bnd [keeps_intros]: "keeps P m \<Longrightarrow> (\<And>x. keeps P (f x)) \<Longrightarrow> keeps P (bnd m f)"
  by (fastforce simp: keeps_def bnd_def split: prod.splits outcome.splits)

lemma keeps_seq [keeps_intros]: "keeps P m \<Longrightarrow> keeps P n \<Longrightarrow> keeps P (seq m n)"
  by (simp add: seq_def keeps_bnd)

lemma keeps_attempt [keeps_intros]: "keeps P m \<Longrightarrow> keeps P (attempt m)"
  by (fastforce simp: keeps_def attempt_def split: prod.splits outcome.splits)

lemma keeps_wrapf [keeps_intros]: "keeps P m \<Longrightarrow> keeps P (wrapf msg args m)"
  by (fastforce simp: keeps_def wrapf_def split: prod.splits outcome.splits)

lemma keeps_wrap [keeps_intros]: "keeps P m \<Longrightarrow> keeps P (wrap msg m)"
  by (simp add: wrap_def keeps_wrapf)

lemma keeps_deferred [keeps_intros]: "keeps P m \<Longrightarrow> keeps P d \<Longrightarrow> keeps P (deferred m d)"
  by (fastforce simp: keeps_def deferred_def split: prod.splits outcome.splits)

lemma keeps_if [keeps_intros]: "(b \<Longrightarrow> keeps P m) \<Longrightarrow> (\<not> b \<Longrightarrow> keeps P n) \<Longrightarrow> keeps P (if b then m else n)"
  by simp

lemma keeps_option [keeps_intros]:
  "(x = None \<Longrightarrow> keeps P m) \<Longrightarrow> (\<And>y. x = Some y \<Longrightarrow> keeps P (f y)) \<Longrightarrow> keeps P (case x of None \<Rightarrow> m | Some y \<Rightarrow> f y)"
  by (cases x) auto

lemma keeps_sum [keeps_intros]:
  "(\<And>e. x = Inl e \<Longrightarrow> keeps P (g e)) \<Longrightarrow> (\<And>y. x = Inr y \<Longrightarrow> keeps P (f y)) \<Longrightarrow> keeps P (case x of Inl e \<Rightarrow> g e | Inr y \<Rightarrow> f y)"
  by (cases x) auto

lemma keeps_for_each [keeps_intros]: "(\<And>x. x \<in> set xs \<Longrightarrow> keeps P (f x)) \<Longrightarrow> keeps P (for_each f xs)"
  by (induction xs) (simp_all add: keeps_ret keeps_seq)

lemma keeps_map_prog [keeps_intros]: "(\<And>x. x \<in> set xs \<Longrightarrow> keeps P (f x)) \<Longrightarrow> keeps P (map_prog f xs)"
  by (induction xs) (simp_all add: keeps_ret keeps_bnd)

text \<open>\<open>safe P m\<close>: from a state with \<open>P\<close>, \<open>m\<close> returns (no panic, no hang) in a state with \<open>P\<close>.\<close>

definition returns :: "'a outcome \<Rightarrow> bool" where
  "returns r = (case r of Ok x \<Rightarrow> True | Err e \<Rightarrow> True | _ \<Rightarrow> False)"

lemma returns_simps [simp]: "returns (Ok x)" "returns (Err e)" "\<not> returns (Panic s)" "\<not> returns Hang"
  by (simp_all add: returns_def)

lemma returnsE: "returns r \<Longrightarrow> (\<And>x. r = Ok x \<Longrightarrow> R) \<Longrightarrow> (\<And>e. r = Err e \<Longrightarrow> R) \<Longrightarrow> R"
  by (cases r) auto

definition safe :: "('w \<Rightarrow> bool) \<Rightarrow> ('w, 'a) prog \<Rightarrow> bool" where
  "safe P m \<longleftrightarrow> (\<forall>w. P w \<longrightarrow> P (snd (m w)) \<and> returns (fst (m w)))"

lemma safeI: "(\<And>w. P w \<Longrightarrow> wp m (\<lambda>r w'. P w' \<and> returns r) w) \<Longrightarrow> safe P m"
  by (simp add: safe_def wp_iff)

lemma safeD: "safe P m \<Longrightarrow> P w \<Longrightarrow> wp m (\<lambda>r w'. P w' \<and> returns r) w"
  by (simp add: safe_def wp_iff)

lemma safe_keeps: "safe P m \<Longrightarrow> keeps P m"
  by (simp add: safe_def keeps_def)

named_theorems safe_intros "returning and preservation of an invariant through the program combinators"

lemma safe_ret [safe_intros]: "safe P (ret x)"
  by (simp add: safe_def ret_def)

lemma safe_fail [safe_intros]: "safe P (fail e)"
  by (simp add: safe_def fail_def)

lemma safe_gets [safe_intros]: "safe P (gets f)"
  by (simp add: safe_def gets_def)

lemma safe_modify: "(\<And>w. P w \<Longrightarrow> P (f w)) \<Longrightarrow> safe P (modify f)"
  by (simp add: safe_def modify_def)

lemma safe_check [safe_intros]: "safe P (check b e)"
  by (simp add: check_def safe_ret safe_fail)

lemma safe_lift_sum [safe_intros]: "safe P (lift_sum r)"
  by (simp add: lift_sum_def safe_ret safe_fail split: sum.splits)

lemma safe_bnd [safe_intros]: "safe P m \<Longrightarrow> (\<And>x. safe P (f x)) \<Longrightarrow> safe P (bnd m f)"
  by (rule safeI, rule wp_bnd_rule, erule (1) safeD) (auto intro: safeD)

lemma safe_seq [safe_intros]: "safe P m \<Longrightarrow> safe P n \<Longrightarrow> safe P (seq m n)"
  by (simp add: seq_def safe_bnd)

lemma safe_attempt [safe_intros]: "safe P m \<Longrightarrow> safe P (attempt m)"
  by (rule safeI, unfold wp_attempt, rule wp_mono, erule (1) safeD) (auto split: outcome.splits)

lemma safe_wrapf [safe_intros]: "safe P m \<Longrightarrow> safe P (wrapf msg args m)"
  by (rule safeI, unfold wp_wrapf, rule wp_mono, erule (1) safeD) (auto split: outcome.splits)

lemma safe_wrap [safe_intros]: "safe P m \<Longrightarrow> safe P (wrap msg m)"
  by (simp add: wrap_def safe_wrapf)

lemma safe_deferred [safe_intros]:
  assumes m: "safe P m" and d: "safe P d"
  shows "safe P (deferred m d)"
proof (rule safeI, unfold wp_deferred, rule wp_mono, erule safeD[OF m])
  fix w r w' assume r: "P w' \<and> returns r"
  then have "wp d (\<lambda>q w''. case q of Panic s \<Rightarrow> P w'' \<and> returns (Panic s :: 'b outcome) | Hang \<Rightarrow> P w'' \<and> returns (Hang :: 'b outcome)
      | _ \<Rightarrow> P w'' \<and> returns r) w'"
    by (intro wp_mono[OF safeD[OF d]]) (auto elim: returnsE)
  then show "case r of Hang \<Rightarrow> P w' \<and> returns (Hang :: 'b outcome)
      | _ \<Rightarrow> wp d (\<lambda>q w''. case q of Panic s \<Rightarrow> P w'' \<and> returns (Panic s :: 'b outcome)
          | Hang \<Rightarrow> P w'' \<and> returns (Hang :: 'b outcome) | _ \<Rightarrow> P w'' \<and> returns r) w'"
    using r by (auto elim!: returnsE)
qed

lemma safe_if [safe_intros]: "(b \<Longrightarrow> safe P m) \<Longrightarrow> (\<not> b \<Longrightarrow> safe P n) \<Longrightarrow> safe P (if b then m else n)"
  by simp

lemma safe_option [safe_intros]:
  "(x = None \<Longrightarrow> safe P m) \<Longrightarrow> (\<And>y. x = Some y \<Longrightarrow> safe P (f y)) \<Longrightarrow> safe P (case x of None \<Rightarrow> m | Some y \<Rightarrow> f y)"
  by (cases x) auto

lemma safe_sum [safe_intros]:
  "(\<And>e. x = Inl e \<Longrightarrow> safe P (g e)) \<Longrightarrow> (\<And>y. x = Inr y \<Longrightarrow> safe P (f y)) \<Longrightarrow> safe P (case x of Inl e \<Rightarrow> g e | Inr y \<Rightarrow> f y)"
  by (cases x) auto

lemma safe_pair [safe_intros]: "(\<And>a b. x = (a, b) \<Longrightarrow> safe P (f a b)) \<Longrightarrow> safe P (case x of (a, b) \<Rightarrow> f a b)"
  by (cases x) auto

lemma safe_for_each [safe_intros]: "(\<And>x. x \<in> set xs \<Longrightarrow> safe P (f x)) \<Longrightarrow> safe P (for_each f xs)"
  by (induction xs) (simp_all add: safe_ret safe_seq)

lemma safe_map_prog [safe_intros]: "(\<And>x. x \<in> set xs \<Longrightarrow> safe P (f x)) \<Longrightarrow> safe P (map_prog f xs)"
  by (induction xs) (simp_all add: safe_ret safe_bnd)

text \<open>Chaining: the next call after a wrapped or a safe one.\<close>

lemma wp_bnd_wrapf:
  assumes "wp m P w"
    and "\<And>x w'. P (Ok x) w' \<Longrightarrow> wp (f x) Q w'" and "\<And>e w'. P (Err e) w' \<Longrightarrow> Q (Err (WrapErrorf e msg args)) w'"
    and "\<And>s w'. P (Panic s) w' \<Longrightarrow> Q (Panic s) w'" and "\<And>w'. P Hang w' \<Longrightarrow> Q Hang w'"
  shows "wp (bnd (wrapf msg args m) f) Q w"
  unfolding wp_bnd wp_wrapf using assms(1)
  by (rule wp_mono) (auto intro: assms(2-) split: outcome.splits)

lemma wp_seq_wrapf:
  assumes "wp m P w"
    and "\<And>x w'. P (Ok x) w' \<Longrightarrow> wp n Q w'" and "\<And>e w'. P (Err e) w' \<Longrightarrow> Q (Err (WrapErrorf e msg args)) w'"
    and "\<And>s w'. P (Panic s) w' \<Longrightarrow> Q (Panic s) w'" and "\<And>w'. P Hang w' \<Longrightarrow> Q Hang w'"
  shows "wp (seq (wrapf msg args m) n) Q w"
  using assms unfolding seq_def by (rule wp_bnd_wrapf)

lemmas wp_bnd_wrap = wp_bnd_wrapf[where args = "[]", folded wrap_def]
lemmas wp_seq_wrap = wp_seq_wrapf[where args = "[]", folded wrap_def]

lemma wp_safe_bnd:
  assumes "safe P m" "P w" "\<And>x w'. P w' \<Longrightarrow> wp (f x) Q w'" "\<And>e w'. P w' \<Longrightarrow> Q (Err e) w'"
  shows "wp (bnd m f) Q w"
  using safeD[OF assms(1,2)] by (rule wp_bnd_rule) (use assms(3,4) in auto)

lemma wp_safe_bnd_wrapf:
  assumes "safe P m" "P w" "\<And>x w'. P w' \<Longrightarrow> wp (f x) Q w'"
    "\<And>e w'. P w' \<Longrightarrow> Q (Err (WrapErrorf e msg args)) w'"
  shows "wp (bnd (wrapf msg args m) f) Q w"
  using safeD[OF assms(1,2)] by (rule wp_bnd_wrapf) (use assms(3,4) in auto)

lemmas wp_safe_bnd_wrap = wp_safe_bnd_wrapf[where args = "[]", folded wrap_def]

text \<open>
  Triples for loops: when every round from a state with \<open>P\<close> ends \<open>Ok\<close> with \<open>P\<close>
  or otherwise with \<open>E\<close>, so does the loop.
\<close>

definition post :: "('w \<Rightarrow> bool) \<Rightarrow> ('w \<Rightarrow> bool) \<Rightarrow> 'a outcome \<Rightarrow> 'w \<Rightarrow> bool" where
  "post P E r w = (case r of Ok x \<Rightarrow> P w | _ \<Rightarrow> E w)"

lemma post_simps [simp]:
  "post P E (Ok x) w = P w" "post P E (Err e) w = E w"
  "post P E (Panic s) w = E w" "post P E Hang w = E w"
  by (simp_all add: post_def)

lemma wp_for_each_post:
  assumes "P w"
    and step: "\<And>x w. x \<in> set xs \<Longrightarrow> P w \<Longrightarrow> wp (f x) (post P E) w"
  shows "wp (for_each f xs) (post P E) w"
  using assms
proof (induction xs arbitrary: w)
  case Nil
  then show ?case by (simp add: wp_ret)
next
  case (Cons x xs)
  have "wp (f x) (post P E) w" using Cons.prems by simp
  moreover have "P w' \<Longrightarrow> wp (for_each f xs) (post P E) w'" for w'
    using Cons by simp
  ultimately show ?case
    by (auto simp: wp_seq elim!: wp_mono split: outcome.splits)
qed

end
