(* ===== verification/GoStrings.thy ===== *)
theory GoStrings
  imports Prelude
begin

text \<open>
  The functions of Go's standard library on strings, numbers and slash-separated
  paths that bosh-init calls (packages strings, strconv, path and path/filepath),
  for byte strings; white space and letter case are those of ASCII.
\<close>

section \<open>Package strings\<close>

definition HasPrefix :: "string \<Rightarrow> string \<Rightarrow> bool" where
  "HasPrefix s p \<longleftrightarrow> take (length p) s = p"

definition HasSuffix :: "string \<Rightarrow> string \<Rightarrow> bool" where
  "HasSuffix s p \<longleftrightarrow> length p \<le> length s \<and> drop (length s - length p) s = p"

definition TrimPrefix :: "string \<Rightarrow> string \<Rightarrow> string" where
  "TrimPrefix s p = (if HasPrefix s p then drop (length p) s else s)"

definition TrimSuffix :: "string \<Rightarrow> string \<Rightarrow> string" where
  "TrimSuffix s p = (if HasSuffix s p then take (length s - length p) s else s)"

definition is_space :: "char \<Rightarrow> bool" where
  "is_space c \<longleftrightarrow> c = CHR '' '' \<or> c = CHR 0x09 \<or> c = CHR 0x0A \<or> c = CHR 0x0B \<or> c = CHR 0x0C \<or> c = CHR 0x0D"

definition trim_while :: "(char \<Rightarrow> bool) \<Rightarrow> string \<Rightarrow> string" where
  "trim_while f s = rev (dropWhile f (rev (dropWhile f s)))"

definition TrimSpace :: "string \<Rightarrow> string" where
  "TrimSpace s = trim_while is_space s"

definition TrimChar :: "char \<Rightarrow> string \<Rightarrow> string" where
  "TrimChar c s = trim_while (\<lambda>d. d = c) s"

text \<open>\<^verbatim>\<open>strings.Split\<close> with a one-character separator: never the empty list.\<close>

fun SplitChar :: "char \<Rightarrow> string \<Rightarrow> string list" where
  "SplitChar c [] = [[]]"
| "SplitChar c (d # s) =
     (if d = c then [] # SplitChar c s
      else case SplitChar c s of [] \<Rightarrow> [[d]] | p # ps \<Rightarrow> (d # p) # ps)"

fun Join :: "string list \<Rightarrow> string \<Rightarrow> string" where
  "Join [] sep = []"
| "Join [s] sep = s"
| "Join (s # t # ss) sep = s @ sep @ Join (t # ss) sep"

fun Contains :: "string \<Rightarrow> string \<Rightarrow> bool" where
  "Contains [] p = (p = [])"
| "Contains (c # s) p = (HasPrefix (c # s) p \<or> Contains s p)"

definition lower_char :: "char \<Rightarrow> char" where
  "lower_char c = (let n = (of_char c :: nat) in if 65 \<le> n \<and> n \<le> 90 then char_of (n + 32) else c)"

definition ToLower :: "string \<Rightarrow> string" where
  "ToLower s = map lower_char s"

text \<open>The \<^verbatim>\<open>isBlank\<close> helper that three validators of the repository define alike.\<close>

definition isBlank :: "string \<Rightarrow> bool" where
  "isBlank str \<longleftrightarrow> str = '''' \<or> TrimSpace str = ''''"

lemma HasPrefix_append [simp]: "HasPrefix (p @ s) p"
  by (simp add: HasPrefix_def)

lemma HasPrefixD: "HasPrefix s p \<Longrightarrow> \<exists>t. s = p @ t"
  by (metis HasPrefix_def append_take_drop_id)

lemma HasPrefix_iff: "HasPrefix s p \<longleftrightarrow> (\<exists>t. s = p @ t)"
  using HasPrefixD HasPrefix_append by blast

lemma TrimPrefix_append [simp]: "TrimPrefix (p @ s) p = s"
  by (simp add: TrimPrefix_def)

lemma isBlank_empty [simp]: "isBlank ''''"
  by (simp add: isBlank_def)

lemma trim_while_eq_Nil: "trim_while f s = [] \<longleftrightarrow> (\<forall>c \<in> set s. f c)"
proof -
  have "dropWhile f (rev (dropWhile f s)) = [] \<longleftrightarrow> (\<forall>c \<in> set (dropWhile f s). f c)"
    by (simp add: dropWhile_eq_Nil_conv)
  also have "\<dots> \<longleftrightarrow> dropWhile f s = []"
    by (metis dropWhile_eq_Nil_conv hd_dropWhile list.set_sel(1) empty_iff list.set(1))
  finally show ?thesis by (simp add: trim_while_def dropWhile_eq_Nil_conv)
qed

lemma isBlank_iff: "isBlank s \<longleftrightarrow> (\<forall>c \<in> set s. is_space c)"
  by (auto simp: isBlank_def TrimSpace_def trim_while_eq_Nil)

lemma SplitChar_nonempty [simp]: "SplitChar c s \<noteq> []"
  by (induction s) (auto split: list.splits)

lemma Join_SplitChar: "Join (SplitChar c s) [c] = s"
proof (induction s)
  case Nil
  then show ?case by simp
next
  case (Cons d s)
  then show ?case by (cases "SplitChar c s"; cases "tl (SplitChar c s)") (auto split: list.splits)
qed

lemma SplitChar_sep_free: "p \<in> set (SplitChar c s) \<Longrightarrow> c \<notin> set p"
  by (induction s arbitrary: p) (auto split: list.splits if_splits)

lemma SplitChar_no_sep: "c \<notin> set s \<Longrightarrow> SplitChar c s = [s]"
  by (induction s) auto

lemma SplitChar_append: "c \<notin> set s \<Longrightarrow> SplitChar c (s @ c # t) = s # SplitChar c t"
  by (induction s) auto

section \<open>Package strconv\<close>

definition digit_val :: "char \<Rightarrow> nat option" where
  "digit_val c = (let n = (of_char c :: nat) in if 48 \<le> n \<and> n \<le> 57 then Some (n - 48) else None)"

definition digit_char :: "nat \<Rightarrow> char" where
  "digit_char d = char_of (48 + d)"

fun parse_digits :: "nat \<Rightarrow> string \<Rightarrow> nat option" where
  "parse_digits acc [] = Some acc"
| "parse_digits acc (c # s) =
     (case digit_val c of None \<Rightarrow> None | Some d \<Rightarrow> parse_digits (10 * acc + d) s)"

definition parse_nat :: "string \<Rightarrow> nat option" where
  "parse_nat s = (if s = [] then None else parse_digits 0 s)"

text \<open>\<^verbatim>\<open>strconv.Atoi\<close> on a 64-bit platform: an optional sign, decimal digits, and the range of \<^verbatim>\<open>int\<close>.\<close>

definition Atoi :: "string \<Rightarrow> goerr + int" where
  "Atoi s = (let (neg, ds) = (case s of
        [] \<Rightarrow> (False, [])
      | c # t \<Rightarrow> if c = CHR ''-'' then (True, t) else if c = CHR ''+'' then (False, t) else (False, s))
    in case parse_nat ds of
        None \<Rightarrow> Inl (External ''invalid syntax'')
      | Some n \<Rightarrow>
          let v = (if neg then - int n else int n) in
          if - (2 ^ 63) \<le> v \<and> v < 2 ^ 63 then Inr v else Inl (External ''value out of range''))"

fun show_nat :: "nat \<Rightarrow> string" where
  "show_nat n = (if n < 10 then [digit_char n] else show_nat (n div 10) @ [digit_char (n mod 10)])"

declare show_nat.simps [simp del]

lemma digit_val_char [simp]: "d < 10 \<Longrightarrow> digit_val (digit_char d) = Some d"
  by (simp add: digit_val_def digit_char_def Let_def)

lemma digit_val_bound: "digit_val c = Some d \<Longrightarrow> d < 10"
  by (auto simp: digit_val_def Let_def split: if_splits)

lemma parse_digits_append:
  "parse_digits acc (s @ t) = (case parse_digits acc s of None \<Rightarrow> None | Some a \<Rightarrow> parse_digits a t)"
  by (induction s arbitrary: acc) (auto split: option.splits)

lemma show_nat_nonempty [simp]: "show_nat n \<noteq> []"
  by (subst show_nat.simps) simp

lemma parse_digits_show_nat: "parse_digits 0 (show_nat n) = Some n"
proof (induction n rule: show_nat.induct)
  case (1 n)
  then show ?case
    by (subst show_nat.simps) (auto simp: parse_digits_append)
qed

lemma parse_nat_show_nat [simp]: "parse_nat (show_nat n) = Some n"
  by (simp add: parse_nat_def parse_digits_show_nat)

lemma digit_char_in_show_nat: "c \<in> set (show_nat n) \<Longrightarrow> \<exists>d < 10. c = digit_char d"
proof (induction n rule: show_nat.induct)
  case (1 n)
  show ?case
  proof (cases "n < 10")
    case True
    with "1.prems" show ?thesis by (subst (asm) show_nat.simps) auto
  next
    case False
    with "1.prems" have "c \<in> set (show_nat (n div 10)) \<or> c = digit_char (n mod 10)"
      by (subst (asm) show_nat.simps) auto
    with "1.IH" False show ?thesis by (auto intro: exI[of _ "n mod 10"])
  qed
qed

lemma digit_char_not:
  "d < 10 \<Longrightarrow> digit_char d \<noteq> CHR ''-''" "d < 10 \<Longrightarrow> digit_char d \<noteq> CHR ''+''"
  "d < 10 \<Longrightarrow> digit_char d \<noteq> CHR ''.''" "d < 10 \<Longrightarrow> digit_char d \<noteq> CHR '' ''"
  "d < 10 \<Longrightarrow> digit_char d \<noteq> CHR ''/''"
proof -
  have *: "d < 10 \<Longrightarrow> of_char c < (48::nat) \<Longrightarrow> digit_char d \<noteq> c" for c
    by (auto simp: digit_char_def)
  show "d < 10 \<Longrightarrow> digit_char d \<noteq> CHR ''-''" "d < 10 \<Longrightarrow> digit_char d \<noteq> CHR ''+''"
    "d < 10 \<Longrightarrow> digit_char d \<noteq> CHR ''.''" "d < 10 \<Longrightarrow> digit_char d \<noteq> CHR '' ''"
    "d < 10 \<Longrightarrow> digit_char d \<noteq> CHR ''/''"
    by (simp_all add: *)
qed

lemma show_nat_chars:
  "CHR ''-'' \<notin> set (show_nat n)" "CHR '' '' \<notin> set (show_nat n)" "CHR ''.'' \<notin> set (show_nat n)"
  "CHR ''+'' \<notin> set (show_nat n)" "CHR ''/'' \<notin> set (show_nat n)"
  using digit_char_in_show_nat digit_char_not by metis+

lemma Atoi_show_nat: "n < 2 ^ 63 \<Longrightarrow> Atoi (show_nat n) = Inr (int n)"
  using show_nat_chars[of n] parse_nat_show_nat[of n]
  by (cases "show_nat n") (auto simp: Atoi_def Let_def simp del: parse_nat_show_nat)

lemma Atoi_range: "Atoi s = Inr v \<Longrightarrow> - (2 ^ 63) \<le> v \<and> v < 2 ^ 63"
  by (auto simp: Atoi_def Let_def split: option.splits if_splits prod.splits)

lemma Atoi_nonneg: "CHR ''-'' \<notin> set s \<Longrightarrow> Atoi s = Inr v \<Longrightarrow> 0 \<le> v"
  by (auto simp: Atoi_def Let_def split: option.splits if_splits list.splits)

lemma trim_while_set: "set (trim_while f s) \<subseteq> set s"
  by (auto simp: trim_while_def dest!: set_dropWhileD)

section \<open>Packages path and path/filepath\<close>

text \<open>
  \<^verbatim>\<open>Clean\<close>: the path's elements are pushed on a stack (held in reverse), skipping
  empty elements and \<^verbatim>\<open>.\<close>, with \<^verbatim>\<open>..\<close> removing the element before it; at the root
  \<^verbatim>\<open>..\<close> disappears, and a relative path keeps the leading ones.
\<close>

definition clean_step :: "bool \<Rightarrow> string list \<Rightarrow> string \<Rightarrow> string list" where
  "clean_step rooted st e =
     (if e = '''' \<or> e = ''.'' then st
      else if e = ''..'' then
        (case st of
           [] \<Rightarrow> if rooted then [] else [''..'']
         | x # xs \<Rightarrow> if x = ''..'' then ''..'' # st else xs)
      else e # st)"

definition Clean :: "string \<Rightarrow> string" where
  "Clean p = (let rooted = HasPrefix p ''/'';
                  st = foldl (clean_step rooted) [] (SplitChar (CHR ''/'') p);
                  body = Join (rev st) ''/''
    in if rooted then CHR ''/'' # body else if st = [] then ''.'' else body)"

definition JoinPath :: "string list \<Rightarrow> string" where
  "JoinPath ps = (let qs = filter (\<lambda>p. p \<noteq> '''') ps in if qs = [] then '''' else Clean (Join qs ''/''))"

definition Dir :: "string \<Rightarrow> string" where
  "Dir p = Clean (rev (dropWhile (\<lambda>c. c \<noteq> CHR ''/'') (rev p)))"

definition Base :: "string \<Rightarrow> string" where
  "Base p = (if p = '''' then ''.''
     else let q = rev (dropWhile (\<lambda>c. c = CHR ''/'') (rev p))
          in if q = '''' then ''/'' else rev (takeWhile (\<lambda>c. c \<noteq> CHR ''/'') (rev q)))"

definition Ext :: "string \<Rightarrow> string" where
  "Ext p = (let b = rev (takeWhile (\<lambda>c. c \<noteq> CHR ''/'') (rev p))
     in if CHR ''.'' \<in> set b then CHR ''.'' # rev (takeWhile (\<lambda>c. c \<noteq> CHR ''.'') (rev b)) else '''')"

end
