(* ===== verification/Properties.thy ===== *)
theory Properties
  imports Complex_Main GoStrings "HOL-Library.AList"
begin

text \<open>
  Property values (\<^verbatim>\<open>biproperty.Property\<close> of bosh-utils, an untyped tree), the raw
  YAML values they are built from, the JSON values they are stored as, and
  \<^verbatim>\<open>reflect.DeepEqual\<close> on them. A Go map is an association list with one entry per
  key (\<open>map_of\<close> is the lookup, \<open>AList.update\<close> the assignment); its order stands
  for one of the iteration orders Go may choose.
\<close>

section \<open>Property values\<close>

text \<open>
  \<open>PMap\<close> and \<open>PList\<close> are the named types \<^verbatim>\<open>biproperty.Map\<close> and \<^verbatim>\<open>biproperty.List\<close>
  that the builders make; \<open>GMap\<close> and \<open>GList\<close> are the \<^verbatim>\<open>map[string]interface{}\<close> and
  \<^verbatim>\<open>[]interface{}\<close> that \<^verbatim>\<open>encoding/json\<close> makes when it decodes into an interface;
  \<open>PStrs\<close> is a \<^verbatim>\<open>[]string\<close>, \<open>PDefaults\<close> a \<^verbatim>\<open>[]NetworkDefault\<close>. Numbers are an
  \<^verbatim>\<open>int\<close> or a \<^verbatim>\<open>float64\<close>, the latter by its value.
\<close>

datatype property =
    PNil
  | PStr string
  | PBool bool
  | PInt int
  | PFloat rat
  | PMap "(string \<times> property) list"
  | PList "property list"
  | GMap "(string \<times> property) list"
  | GList "property list"
  | PStrs "string list"
  | PDefaults "string list"

type_synonym gomap = "(string \<times> property) list"

text \<open>
  \<^verbatim>\<open>reflect.DeepEqual\<close>: same dynamic type, and for maps the same number of keys
  and equal values under each.
\<close>

fun DeepEqual :: "property \<Rightarrow> property \<Rightarrow> bool"
  and DeepEqual_list :: "property list \<Rightarrow> property list \<Rightarrow> bool"
  and DeepEqual_entries :: "(string \<times> property) list \<Rightarrow> (string \<times> property) list \<Rightarrow> bool" where
  "DeepEqual PNil q = (q = PNil)"
| "DeepEqual (PStr s) q = (q = PStr s)"
| "DeepEqual (PBool b) q = (q = PBool b)"
| "DeepEqual (PInt n) q = (q = PInt n)"
| "DeepEqual (PFloat r) q = (q = PFloat r)"
| "DeepEqual (PMap m) q = (case q of PMap m' \<Rightarrow> length m = length m' \<and> DeepEqual_entries m m' | _ \<Rightarrow> False)"
| "DeepEqual (PList l) q = (case q of PList l' \<Rightarrow> DeepEqual_list l l' | _ \<Rightarrow> False)"
| "DeepEqual (GMap m) q = (case q of GMap m' \<Rightarrow> length m = length m' \<and> DeepEqual_entries m m' | _ \<Rightarrow> False)"
| "DeepEqual (GList l) q = (case q of GList l' \<Rightarrow> DeepEqual_list l l' | _ \<Rightarrow> False)"
| "DeepEqual (PStrs ss) q = (q = PStrs ss)"
| "DeepEqual (PDefaults ss) q = (q = PDefaults ss)"
| "DeepEqual_list [] l' = (l' = [])"
| "DeepEqual_list (p # l) l' = (case l' of [] \<Rightarrow> False | q # l'' \<Rightarrow> DeepEqual p q \<and> DeepEqual_list l l'')"
| "DeepEqual_entries [] m' = True"
| "DeepEqual_entries ((k, p) # m) m' =
     ((case map_of m' k of None \<Rightarrow> False | Some q \<Rightarrow> DeepEqual p q) \<and> DeepEqual_entries m m')"

text \<open>On possibly nil maps: a nil map is not deeply equal to an empty one.\<close>

definition DeepEqual_map :: "gomap option \<Rightarrow> gomap option \<Rightarrow> bool" where
  "DeepEqual_map m m' = (case m of
      None \<Rightarrow> m' = None
    | Some a \<Rightarrow> (case m' of None \<Rightarrow> False | Some b \<Rightarrow> length a = length b \<and> DeepEqual_entries a b))"

text \<open>Keys are unique at every level, as in a Go map.\<close>

fun wf_prop :: "property \<Rightarrow> bool" where
  "wf_prop (PMap m) = (distinct (map fst m) \<and> (\<forall>e \<in> set m. wf_prop (snd e)))"
| "wf_prop (GMap m) = (distinct (map fst m) \<and> (\<forall>e \<in> set m. wf_prop (snd e)))"
| "wf_prop (PList l) = (\<forall>p \<in> set l. wf_prop p)"
| "wf_prop (GList l) = (\<forall>p \<in> set l. wf_prop p)"
| "wf_prop _ = True"

definition wf_map :: "gomap \<Rightarrow> bool" where
  "wf_map m \<longleftrightarrow> distinct (map fst m) \<and> (\<forall>e \<in> set m. wf_prop (snd e))"

lemma DeepEqual_entries_iff:
  "DeepEqual_entries m m' \<longleftrightarrow> (\<forall>(k, p) \<in> set m. \<exists>q. map_of m' k = Some q \<and> DeepEqual p q)"
  by (induction m) (auto split: option.splits)

lemma DeepEqual_list_iff: "DeepEqual_list l l' \<longleftrightarrow> list_all2 DeepEqual l l'"
  by (induction l arbitrary: l') (auto simp: list_all2_Cons1 split: list.splits)

lemma DeepEqual_refl: "wf_prop p \<Longrightarrow> DeepEqual p p"
proof (induction p)
  case (PMap m)
  then show ?case by (fastforce simp: DeepEqual_entries_iff)
next
  case (GMap m)
  then show ?case by (fastforce simp: DeepEqual_entries_iff)
next
  case (PList l)
  then show ?case by (simp add: DeepEqual_list_iff list_all2_same)
next
  case (GList l)
  then show ?case by (simp add: DeepEqual_list_iff list_all2_same)
qed auto

lemma DeepEqual_map_refl: "(case m of None \<Rightarrow> True | Some a \<Rightarrow> wf_map a) \<Longrightarrow> DeepEqual_map m m"
  by (fastforce simp: DeepEqual_map_def wf_map_def DeepEqual_entries_iff DeepEqual_refl split: option.splits)

section \<open>From YAML: Build, BuildMap, BuildList\<close>

text \<open>
  What \<^verbatim>\<open>yaml.Unmarshal\<close> leaves in an \<^verbatim>\<open>interface{}\<close>: its maps are
  \<^verbatim>\<open>map[interface{}]interface{}\<close>, whose keys may be any scalar.
\<close>

datatype yaml =
    YNil
  | YStr string
  | YBool bool
  | YInt int
  | YFloat rat
  | YMap "(yaml \<times> yaml) list"
  | YSeq "yaml list"

type_synonym yamlmap = "(yaml \<times> yaml) list"

fun Build :: "yaml \<Rightarrow> goerr + property"
  and BuildMap :: "yamlmap \<Rightarrow> goerr + gomap"
  and BuildList :: "yaml list \<Rightarrow> goerr + property list" where
  "Build YNil = Inr PNil"
| "Build (YMap m) = (case BuildMap m of Inl e \<Rightarrow> Inl e | Inr r \<Rightarrow> Inr (PMap r))"
| "Build (YSeq l) = (case BuildList l of Inl e \<Rightarrow> Inl e | Inr r \<Rightarrow> Inr (PList r))"
| "Build (YStr s) = Inr (PStr s)"
| "Build (YBool b) = Inr (PBool b)"
| "Build (YInt n) = Inr (PInt n)"
| "Build (YFloat r) = Inr (PFloat r)"
| "BuildMap [] = Inr []"
| "BuildMap ((k, v) # m) = (case k of
      YStr s \<Rightarrow> (case Build v of
          Inl e \<Rightarrow> Inl e
        | Inr p \<Rightarrow> (case BuildMap m of Inl e \<Rightarrow> Inl e | Inr r \<Rightarrow> Inr ((s, p) # r)))
    | _ \<Rightarrow> Inl (Errorf ''Map contains non-string key %#v'' [ADump]))"
| "BuildList [] = Inr []"
| "BuildList (v # l) = (case Build v of
      Inl e \<Rightarrow> Inl e
    | Inr p \<Rightarrow> (case BuildList l of Inl e \<Rightarrow> Inl e | Inr r \<Rightarrow> Inr (p # r)))"

fun wf_yaml :: "yaml \<Rightarrow> bool" where
  "wf_yaml (YMap m) = (distinct (map fst m) \<and> (\<forall>e \<in> set m. wf_yaml (snd e)))"
| "wf_yaml (YSeq l) = (\<forall>v \<in> set l. wf_yaml v)"
| "wf_yaml _ = True"

lemma BuildMap_keys: "BuildMap m = Inr r \<Longrightarrow> map fst m = map (YStr \<circ> fst) r"
  by (induction m arbitrary: r) (auto split: yaml.splits sum.splits)

lemma Build_wf_aux:
  "wf_yaml v \<Longrightarrow> Build v = Inr p \<Longrightarrow> wf_prop p"
  "(\<forall>e \<in> set m. wf_yaml (snd e)) \<Longrightarrow> BuildMap m = Inr r \<Longrightarrow> (\<forall>e \<in> set r. wf_prop (snd e))"
  "(\<forall>v \<in> set l. wf_yaml v) \<Longrightarrow> BuildList l = Inr ps \<Longrightarrow> (\<forall>p \<in> set ps. wf_prop p)"
proof (induction v and m and l arbitrary: p and r and ps rule: Build_BuildMap_BuildList.induct)
  case (2 m)
  then obtain r where r: "BuildMap m = Inr r" "p = PMap r" by (auto split: sum.splits)
  have "distinct (map (YStr \<circ> fst) r)" using 2 BuildMap_keys[OF r(1)] by (simp del: map_map)
  then have "distinct (map fst r)" by (simp add: distinct_map inj_on_def)
  with 2 r show ?case by simp
next
  case (9 k v m)
  then obtain s q r' where q: "k = YStr s" "Build v = Inr q" "BuildMap m = Inr r'" "r = (s, q) # r'"
    by (auto split: yaml.splits sum.splits)
  moreover from 9 q have "wf_prop q" and "\<forall>e \<in> set r'. wf_prop (snd e)" by simp_all
  ultimately show ?case by simp
qed (auto split: sum.splits yaml.splits)

lemma BuildMap_wf: "distinct (map fst m) \<Longrightarrow> \<forall>e \<in> set m. wf_yaml (snd e) \<Longrightarrow> BuildMap m = Inr r \<Longrightarrow> wf_map r"
  using Build_wf_aux(1)[of "YMap m" "PMap r"] by (simp add: wf_map_def)

section \<open>JSON\<close>

text \<open>
  JSON values and the two conversions of encoding/json that matter here: encoding
  a property, and decoding into an interface, which makes every number a
  \<^verbatim>\<open>float64\<close>, every object a \<^verbatim>\<open>map[string]interface{}\<close> and every array a
  \<^verbatim>\<open>[]interface{}\<close>. (Integers beyond \<open>2^53\<close> would also be rounded; the model keeps
  their value, the type change is what matters below.)
\<close>

datatype json =
    JNull
  | JBool bool
  | JNum rat
  | JStr string
  | JArr "json list"
  | JObj "(string \<times> json) list"

fun marshal_prop :: "property \<Rightarrow> json" where
  "marshal_prop PNil = JNull"
| "marshal_prop (PStr s) = JStr s"
| "marshal_prop (PBool b) = JBool b"
| "marshal_prop (PInt n) = JNum (of_int n)"
| "marshal_prop (PFloat r) = JNum r"
| "marshal_prop (PMap m) = JObj (map (\<lambda>(k, p). (k, marshal_prop p)) m)"
| "marshal_prop (PList l) = JArr (map marshal_prop l)"
| "marshal_prop (GMap m) = JObj (map (\<lambda>(k, p). (k, marshal_prop p)) m)"
| "marshal_prop (GList l) = JArr (map marshal_prop l)"
| "marshal_prop (PStrs ss) = JArr (map JStr ss)"
| "marshal_prop (PDefaults ss) = JArr (map JStr ss)"

fun unmarshal_any :: "json \<Rightarrow> property" where
  "unmarshal_any JNull = PNil"
| "unmarshal_any (JBool b) = PBool b"
| "unmarshal_any (JNum r) = PFloat r"
| "unmarshal_any (JStr s) = PStr s"
| "unmarshal_any (JArr l) = GList (map unmarshal_any l)"
| "unmarshal_any (JObj m) = GMap (map (\<lambda>(k, p). (k, unmarshal_any p)) m)"

definition marshal_map :: "gomap option \<Rightarrow> json" where
  "marshal_map m = (case m of None \<Rightarrow> JNull | Some a \<Rightarrow> JObj (map (\<lambda>(k, p). (k, marshal_prop p)) a))"

definition reload_prop :: "property \<Rightarrow> property" where
  "reload_prop p = unmarshal_any (marshal_prop p)"

definition reload_map :: "gomap \<Rightarrow> gomap" where
  "reload_map m = map (\<lambda>(k, p). (k, reload_prop p)) m"

text \<open>The values that survive being written to JSON and read back.\<close>

fun json_stable :: "property \<Rightarrow> bool" where
  "json_stable PNil = True"
| "json_stable (PStr s) = True"
| "json_stable (PBool b) = True"
| "json_stable (PFloat r) = True"
| "json_stable (GMap m) = (\<forall>e \<in> set m. json_stable (snd e))"
| "json_stable (GList l) = (\<forall>p \<in> set l. json_stable p)"
| "json_stable _ = False"

lemma map_of_reload: "map_of (map (\<lambda>(k, p). (k, f p)) m) k = map_option f (map_of m k)"
  by (induction m) auto

lemma keys_reload_map [simp]: "map fst (reload_map m) = map fst m"
  by (induction m) (auto simp: reload_map_def)

lemma reload_prop_simps [simp]:
  "reload_prop PNil = PNil" "reload_prop (PStr s) = PStr s" "reload_prop (PBool b) = PBool b"
  "reload_prop (PInt n) = PFloat (of_int n)" "reload_prop (PFloat r) = PFloat r"
  "reload_prop (PMap m) = GMap (reload_map m)" "reload_prop (GMap m) = GMap (reload_map m)"
  "reload_prop (PList l) = GList (map reload_prop l)" "reload_prop (GList l) = GList (map reload_prop l)"
  "reload_prop (PStrs ss) = GList (map PStr ss)" "reload_prop (PDefaults ss) = GList (map PStr ss)"
  by (auto simp: reload_prop_def reload_map_def)

lemma DeepEqual_reload: "wf_prop p \<Longrightarrow> DeepEqual (reload_prop p) p \<longleftrightarrow> json_stable p"
proof (induction p)
  case (GMap m)
  have d: "distinct (map fst m)" using GMap.prems by simp
  have IH: "(k, p) \<in> set m \<Longrightarrow> DeepEqual (reload_prop p) p \<longleftrightarrow> json_stable p" for k p
    using GMap by fastforce
  have "DeepEqual_entries (reload_map m) m \<longleftrightarrow> (\<forall>(k, p) \<in> set m. DeepEqual (reload_prop p) p)"
  proof -
    have "DeepEqual_entries (reload_map m) m \<longleftrightarrow>
        (\<forall>(k, p) \<in> set m. \<exists>q. map_of m k = Some q \<and> DeepEqual (reload_prop p) q)"
      by (simp add: DeepEqual_entries_iff reload_map_def case_prod_beta)
    also have "\<dots> \<longleftrightarrow> (\<forall>(k, p) \<in> set m. DeepEqual (reload_prop p) p)"
      using d by (intro ball_cong) (auto dest: eq_key_imp_eq_value)
    finally show ?thesis .
  qed
  also have "\<dots> \<longleftrightarrow> (\<forall>e \<in> set m. json_stable (snd e))"
    using IH by auto
  finally show ?case by (simp add: reload_map_def)
next
  case (GList l)
  then show ?case
    by (auto simp: DeepEqual_list_iff list_all2_map1 list_all2_same)
qed auto

lemma DeepEqual_map_reload:
  "wf_map m \<Longrightarrow> DeepEqual_map (Some (reload_map m)) (Some m) \<longleftrightarrow> (\<forall>e \<in> set m. json_stable (snd e))"
  using DeepEqual_reload[of "GMap m"] by (simp add: DeepEqual_map_def wf_map_def reload_map_def)

end
