(* ===== verification/World.thy ===== *)
theory World
  imports Properties
begin

text \<open>
  The state every component runs in: the local files, the record of the calls made
  to the outside (the CPI binary, the agent on the VM, the blobstore, HTTP), the
  terminal, the clock, and an oracle with the answer the outside gives to the n-th
  request. The oracle is arbitrary, so a statement about every \<open>world\<close> covers every
  behaviour of the outside, each request failing or succeeding on its own; a run on
  a concrete oracle evaluates.
\<close>

section \<open>Data exchanged with the outside\<close>

text \<open>
  Arguments and results of CPI calls (\<^verbatim>\<open>CmdInput\<close>, \<^verbatim>\<open>CmdOutput\<close>), the agent's data
  (\<^verbatim>\<open>BlobRef\<close>, \<^verbatim>\<open>AgentState\<close>) and the apply spec sent to it.
\<close>

datatype cpi_arg =
    ArgStr string
  | ArgInt int
  | ArgProps "gomap option"
  | ArgNets "(string \<times> gomap) list"
  | ArgLocality "string list"
  | ArgMetadata string string string string

record cmd_input =
  ci_Method :: string
  ci_Arguments :: "cpi_arg list"
  ci_DirectorID :: string

record cmd_output =
  co_Result :: property
  co_Error :: "cmd_error option"
  co_Log :: string

record command =
  cmd_Name :: string
  cmd_Args :: "string list"
  cmd_Env :: "(string \<times> string) list"
  cmd_UseIsolatedEnv :: bool
  cmd_WorkingDir :: string

record blob_ref =
  br_Name :: string
  br_Version :: string
  br_SHA1 :: string
  br_BlobstoreID :: string

record agent_state =
  as_JobState :: string
  as_NetworkSpecs :: "(string \<times> string) list"

record apply_blob =
  ab_Name :: string
  ab_Version :: string
  ab_SHA1 :: string
  ab_BlobstoreID :: string

record apply_spec =
  sp_Deployment :: string
  sp_Index :: int
  sp_Networks :: "(string \<times> gomap) list"
  sp_JobName :: string
  sp_Templates :: "apply_blob list"
  sp_Packages :: "(string \<times> apply_blob) list"
  sp_ArchiveBlobstoreID :: string
  sp_ArchiveSHA1 :: string
  sp_ConfigurationHash :: string

datatype call =
    CallCpi command cmd_input
  | CallRun command
  | CallPing
  | CallStop
  | CallStart
  | CallApply apply_spec
  | CallGetState
  | CallMountDisk string
  | CallUnmountDisk string
  | CallListDisk
  | CallMigrateDisk
  | CallCompilePackage blob_ref "blob_ref list"
  | CallRunScript string
  | CallBlobPut string string
  | CallExt string "string list"
  | CallHttpGet string
  | CallStartRegistry string string string int
  | CallStopRegistry
  | CallStartTunnel

text \<open>
  One answer of the oracle; a request reads the fields of its kind. \<open>a_torn\<close> is
  what a failed write leaves in the file (\<open>None\<close>: the old contents).
\<close>

datatype content = CJson json | CBytes string | CDir

record answer =
  a_err :: "goerr option"
  a_torn :: "content option"
  a_str :: "goerr + string"
  a_uuid :: "goerr + string"
  a_cpi :: "goerr + (goerr + cmd_output)"
  a_state :: "goerr + agent_state"
  a_strs :: "goerr + string list"
  a_blob :: "goerr + blob_ref"
  a_files :: "(string \<times> content) list"
  a_elapsed :: nat

datatype ui_event =
    UiError string
  | UiPrint string
  | UiBegin string
  | UiEnd string

section \<open>The world\<close>

record world =
  files :: "string \<rightharpoonup> content"
  calls :: "call list"
  tick :: nat
  clock :: int
  answers :: "nat \<Rightarrow> answer"
  simple_mode :: "nat \<Rightarrow> bool"
  ui :: "ui_event list"
  mem_index :: "json \<rightharpoonup> json"

definition ask :: "(answer \<Rightarrow> 'a) \<Rightarrow> (world, 'a) prog" where
  "ask f w = (let a = answers w (tick w)
              in (Ok (f a), w\<lparr>tick := Suc (tick w), clock := clock w + int (a_elapsed a)\<rparr>))"

definition note_call :: "call \<Rightarrow> (world, unit) prog" where
  "note_call c = modify (\<lambda>w. w\<lparr>calls := calls w @ [c]\<rparr>)"

definition request :: "call \<Rightarrow> (answer \<Rightarrow> 'a) \<Rightarrow> (world, 'a) prog" where
  "request c f = seq (note_call c) (ask f)"

text \<open>Requests that return a value or an error, and requests that return only an error.\<close>

definition request_val :: "call \<Rightarrow> (answer \<Rightarrow> goerr + 'a) \<Rightarrow> (world, 'a) prog" where
  "request_val c f = bnd (request c f) lift_sum"

definition or_err :: "goerr option \<Rightarrow> (world, unit) prog" where
  "or_err e = (case e of None \<Rightarrow> ret () | Some x \<Rightarrow> fail x)"

definition request_unit :: "call \<Rightarrow> (world, unit) prog" where
  "request_unit c = bnd (request c a_err) or_err"

text \<open>
  Calls of library code named by package and function (the compressor, the local
  blobstore, the file opener), whose results are paths or identifiers.
\<close>

definition ext :: "string \<Rightarrow> string list \<Rightarrow> (world, string) prog" where
  "ext f args = request_val (CallExt f args) a_str"

definition ext_unit :: "string \<Rightarrow> string list \<Rightarrow> (world, unit) prog" where
  "ext_unit f args = request_unit (CallExt f args)"

definition Generate :: "(world, string) prog" where
  "Generate = bnd (ask a_uuid) lift_sum"

definition Now :: "(world, int) prog" where
  "Now = gets clock"

definition Sleep :: "int \<Rightarrow> (world, unit) prog" where
  "Sleep d = modify (\<lambda>w. w\<lparr>clock := clock w + max 0 d\<rparr>)"

section \<open>The file system\<close>

text \<open>
  The operations of \<^verbatim>\<open>boshsys.FileSystem\<close>. A write that fails leaves the file as
  the oracle says; \<^verbatim>\<open>RemoveAll\<close> removes a path and all below it.
\<close>

definition below :: "string \<Rightarrow> string \<Rightarrow> bool" where
  "below dir p \<longleftrightarrow> p = dir \<or> HasPrefix p (dir @ ''/'')"

definition set_file :: "string \<Rightarrow> content \<Rightarrow> world \<Rightarrow> world" where
  "set_file p c w = w\<lparr>files := (files w)(p \<mapsto> c)\<rparr>"

definition del_files :: "string \<Rightarrow> world \<Rightarrow> world" where
  "del_files dir w = w\<lparr>files := (\<lambda>p. if below dir p then None else files w p)\<rparr>"

definition FileExists :: "string \<Rightarrow> (world, bool) prog" where
  "FileExists p = gets (\<lambda>w. files w p \<noteq> None)"

definition ReadFile :: "string \<Rightarrow> (world, content) prog" where
  "ReadFile p = bnd (ask a_err) (\<lambda>e. seq (or_err e) (bnd (gets (\<lambda>w. files w p)) (\<lambda>c. case c of
      None \<Rightarrow> fail (External ''no such file or directory'')
    | Some CDir \<Rightarrow> fail (External ''is a directory'')
    | Some c \<Rightarrow> ret c)))"

definition WriteFile :: "string \<Rightarrow> content \<Rightarrow> (world, unit) prog" where
  "WriteFile p c = bnd (ask (\<lambda>a. (a_err a, a_torn a))) (\<lambda>(e, t). case e of
      None \<Rightarrow> modify (set_file p c)
    | Some x \<Rightarrow> seq (case t of None \<Rightarrow> ret () | Some c' \<Rightarrow> modify (set_file p c')) (fail x))"

definition RemoveAll :: "string \<Rightarrow> (world, unit) prog" where
  "RemoveAll p = bnd (ask a_err) (\<lambda>e. case e of None \<Rightarrow> modify (del_files p) | Some x \<Rightarrow> fail x)"

definition MkdirAll :: "string \<Rightarrow> (world, unit) prog" where
  "MkdirAll p = bnd (ask a_err) (\<lambda>e. case e of
      None \<Rightarrow> modify (\<lambda>w. if files w p = None then set_file p CDir w else w)
    | Some x \<Rightarrow> fail x)"

definition RenameFile :: "string \<Rightarrow> string \<Rightarrow> (world, unit) prog" where
  "RenameFile p q = bnd (ask a_err) (\<lambda>e. case e of
      Some x \<Rightarrow> fail x
    | None \<Rightarrow> bnd (gets (\<lambda>w. files w p)) (\<lambda>c. case c of
          None \<Rightarrow> fail (External ''no such file or directory'')
        | Some c' \<Rightarrow> seq (modify (del_files p)) (modify (set_file q c'))))"

definition TempPath :: "content \<Rightarrow> (world, string) prog" where
  "TempPath c = bnd (bnd (ask a_str) lift_sum) (\<lambda>p. seq (modify (set_file p c)) (ret p))"

text \<open>
  \<^verbatim>\<open>Compressor.DecompressFileToDir\<close> of bosh-utils: on success the files of the archive,
  which the oracle gives by their paths relative to the directory, are there.
\<close>

definition DecompressFileToDir :: "string \<Rightarrow> string \<Rightarrow> (world, unit) prog" where
  "DecompressFileToDir tarball dir =
     bnd (request (CallExt ''compressor.DecompressFileToDir'' [tarball, dir]) (\<lambda>a. (a_err a, a_files a))) (\<lambda>(e, fs).
     case e of Some x \<Rightarrow> fail x
     | None \<Rightarrow> for_each (\<lambda>(p, c). modify (set_file (JoinPath [dir, p]) c)) fs)"

definition ExpandPath :: "string \<Rightarrow> (world, string) prog" where
  "ExpandPath p = bnd (ask a_str) lift_sum"

lemmas world_defs = ext_def ext_unit_def ask_def note_call_def request_def request_val_def or_err_def request_unit_def
  Generate_def Now_def Sleep_def FileExists_def ReadFile_def WriteFile_def RemoveAll_def MkdirAll_def
  RenameFile_def TempPath_def ExpandPath_def set_file_def del_files_def

section \<open>What the requests leave alone\<close>

text \<open>
  \<open>ticked w w'\<close>: between \<open>w\<close> and \<open>w'\<close> there were only requests to the file system
  or the UUID generator that changed nothing, so only the request counter and the
  clock have moved.
\<close>

definition ticked :: "world \<Rightarrow> world \<Rightarrow> bool" where
  "ticked w w' \<longleftrightarrow> tick w \<le> tick w' \<and> w' = w\<lparr>tick := tick w', clock := clock w'\<rparr>"

lemma ticked_refl [simp]: "ticked w w"
  by (simp add: ticked_def)

lemma ticked_trans: "ticked a b \<Longrightarrow> ticked b c \<Longrightarrow> ticked a c"
  by (cases a; cases b; cases c) (simp add: ticked_def)

lemma ticked_step [simp]: "ticked w (w\<lparr>tick := Suc (tick w), clock := k\<rparr>)"
  by (simp add: ticked_def)

lemma ticked_called [simp]:
  "ticked (w\<lparr>calls := c\<rparr>) (w\<lparr>calls := c, tick := Suc (tick w), clock := k\<rparr>)"
  by (simp add: ticked_def)

lemma ticked_frame:
  assumes "ticked w w'"
  shows "files w' = files w" "calls w' = calls w" "answers w' = answers w" "ui w' = ui w"
    "simple_mode w' = simple_mode w" "tick w \<le> tick w'" "mem_index w' = mem_index w"
  using assms by (cases w; cases w'; simp add: ticked_def)+

lemma wp_ask [wp_simps]: "wp (ask f) Q w =
    (let a = answers w (tick w)
     in Q (Ok (f a)) (w\<lparr>tick := Suc (tick w), clock := clock w + int (a_elapsed a)\<rparr>))"
  by (simp add: wp_def ask_def Let_def)

lemma wp_or_err [wp_simps]: "wp (or_err e) Q w = (case e of None \<Rightarrow> Q (Ok ()) w | Some x \<Rightarrow> Q (Err x) w)"
  by (simp add: or_err_def wp_simps split: option.splits)

lemma keeps_ask: "(\<And>w. P w \<Longrightarrow> P (w\<lparr>tick := Suc (tick w), clock := clock w + int (a_elapsed (answers w (tick w)))\<rparr>)) \<Longrightarrow> keeps P (ask f)"
  by (simp add: keeps_def ask_def Let_def)

lemma keeps_or_err [keeps_intros]: "keeps P (or_err e)"
  by (simp add: or_err_def keeps_ret keeps_fail split: option.splits)

lemma safe_or_err [safe_intros]: "safe P (or_err e)"
  by (simp add: or_err_def safe_ret safe_fail split: option.splits)

text \<open>\<open>steady P\<close>: \<open>P\<close> does not depend on the request counter, the clock or the calls.\<close>

definition steady :: "(world \<Rightarrow> bool) \<Rightarrow> bool" where
  "steady P \<longleftrightarrow> (\<forall>w c t k. P (w\<lparr>calls := c, tick := t, clock := k\<rparr>) = P w)"

lemma steadyD:
  assumes "steady P"
  shows "P (w\<lparr>tick := t, clock := k\<rparr>) = P w" "P (w\<lparr>calls := c\<rparr>) = P w"
proof -
  have *: "P (w\<lparr>calls := c, tick := t, clock := k\<rparr>) = P w" for c t k using assms by (simp add: steady_def)
  show "P (w\<lparr>tick := t, clock := k\<rparr>) = P w" using *[where c = "calls w"] by simp
  show "P (w\<lparr>calls := c\<rparr>) = P w" using *[where c = c and t = "tick w" and k = "clock w"] by simp
qed

lemma safe_ask: "steady P \<Longrightarrow> safe P (ask f)"
  by (auto intro!: safeI simp: wp_ask Let_def steadyD)

lemma safe_request: "steady P \<Longrightarrow> safe P (request c f)"
  unfolding request_def note_call_def by (intro safe_intros safe_ask safe_modify) (simp_all add: steadyD)

lemma safe_request_val: "steady P \<Longrightarrow> safe P (request_val c f)"
  unfolding request_val_def by (intro safe_intros safe_request)

lemma safe_request_unit: "steady P \<Longrightarrow> safe P (request_unit c)"
  unfolding request_unit_def by (intro safe_intros safe_request)

lemma safe_ext: "steady P \<Longrightarrow> safe P (ext f args)" "steady P \<Longrightarrow> safe P (ext_unit f args)"
  by (simp_all add: ext_def ext_unit_def safe_request_val safe_request_unit)

lemma safe_Generate: "steady P \<Longrightarrow> safe P Generate"
  unfolding Generate_def by (intro safe_intros safe_ask)

lemma safe_Now [safe_intros]: "safe P Now"
  by (simp add: Now_def safe_gets)

lemma safe_Sleep: "steady P \<Longrightarrow> safe P (Sleep d)"
  unfolding Sleep_def
proof (rule safe_modify)
  fix w assume "steady P" "P w"
  moreover have "P (w\<lparr>clock := k\<rparr>) = P w" for k
    using steadyD(1)[OF \<open>steady P\<close>, where w = w and t = "tick w" and k = k] by simp
  ultimately show "P (w\<lparr>clock := clock w + max 0 d\<rparr>)" by simp
qed

lemmas safe_requests = safe_ask safe_request_val safe_request_unit safe_ext safe_Generate safe_Sleep

lemma keeps_modify: "(\<And>w. P w \<Longrightarrow> P (f w)) \<Longrightarrow> keeps P (modify f)"
  by (simp add: keeps_def modify_def)

text \<open>Answers under which no file operation fails half-way.\<close>

definition atomic_writes :: "world \<Rightarrow> bool" where
  "atomic_writes w \<longleftrightarrow> (\<forall>n. a_torn (answers w n) = None)"

lemma atomic_writes_update [simp]:
  "atomic_writes (w\<lparr>files := f\<rparr>) = atomic_writes w"
  "atomic_writes (w\<lparr>calls := c\<rparr>) = atomic_writes w"
  "atomic_writes (w\<lparr>tick := t\<rparr>) = atomic_writes w"
  "atomic_writes (w\<lparr>clock := k\<rparr>) = atomic_writes w"
  "atomic_writes (w\<lparr>ui := u\<rparr>) = atomic_writes w"
  "atomic_writes (w\<lparr>simple_mode := s\<rparr>) = atomic_writes w"
  "atomic_writes (w\<lparr>mem_index := i\<rparr>) = atomic_writes w"
  by (simp_all add: atomic_writes_def)

lemma atomic_writes_ticked: "ticked w w' \<Longrightarrow> atomic_writes w' = atomic_writes w"
  by (simp add: atomic_writes_def ticked_frame)

end
