(* ===== verification/StateFile.thy ===== *)
theory StateFile
  imports World
begin

text \<open>
  The deployment state file (config/deployment_state_service.go and
  config/file_system_deployment_state_service.go): its records, their JSON form,
  loading and saving. \<open>loaded p w st\<close> says that the file at \<open>p\<close> holds \<open>st\<close>; the
  locale \<open>state_service\<close> is the contract the repositories rely on, and the file
  service interprets it.
\<close>

section \<open>The records\<close>

record StemcellRecord =
  sr_ID :: string
  sr_Name :: string
  sr_Version :: string
  sr_CID :: string

record DiskRecord =
  dr_ID :: string
  dr_CID :: string
  dr_Size :: int
  dr_CloudProperties :: "gomap option"

record ReleaseRecord =
  rr_ID :: string
  rr_Name :: string
  rr_Version :: string

record DeploymentState =
  DirectorID :: string
  InstallationID :: string
  CurrentVMCID :: string
  CurrentStemcellID :: string
  CurrentDiskID :: string
  CurrentReleaseIDs :: "string list"
  CurrentManifestSHA1 :: string
  Disks :: "DiskRecord list"
  Stemcells :: "StemcellRecord list"
  Releases :: "ReleaseRecord list"

text \<open>Go's zero values: what a failed or empty read returns.\<close>

definition zero_disk :: DiskRecord where
  "zero_disk = \<lparr>dr_ID = '''', dr_CID = '''', dr_Size = 0, dr_CloudProperties = None\<rparr>"

definition zero_stemcell :: StemcellRecord where
  "zero_stemcell = \<lparr>sr_ID = '''', sr_Name = '''', sr_Version = '''', sr_CID = ''''\<rparr>"

definition zero_release :: ReleaseRecord where
  "zero_release = \<lparr>rr_ID = '''', rr_Name = '''', rr_Version = ''''\<rparr>"

definition zero_state :: DeploymentState where
  "zero_state = \<lparr>DirectorID = '''', InstallationID = '''', CurrentVMCID = '''',
     CurrentStemcellID = '''', CurrentDiskID = '''', CurrentReleaseIDs = [],
     CurrentManifestSHA1 = '''', Disks = [], Stemcells = [], Releases = []\<rparr>"

section \<open>JSON form\<close>

text \<open>
  \<^verbatim>\<open>json.MarshalIndent\<close> and \<^verbatim>\<open>json.Unmarshal\<close> with the struct tags of the source: an
  absent key or a null leaves the zero value, a value of another type is an error.
  A nil slice and an empty one are the same list (no code tells them apart).
\<close>

definition json_of_stemcell :: "StemcellRecord \<Rightarrow> json" where
  "json_of_stemcell r = JObj [(''id'', JStr (sr_ID r)), (''name'', JStr (sr_Name r)),
     (''version'', JStr (sr_Version r)), (''cid'', JStr (sr_CID r))]"

definition json_of_disk :: "DiskRecord \<Rightarrow> json" where
  "json_of_disk r = JObj [(''id'', JStr (dr_ID r)), (''cid'', JStr (dr_CID r)),
     (''size'', JNum (of_int (dr_Size r))), (''cloud_properties'', marshal_map (dr_CloudProperties r))]"

definition json_of_release :: "ReleaseRecord \<Rightarrow> json" where
  "json_of_release r = JObj [(''id'', JStr (rr_ID r)), (''name'', JStr (rr_Name r)),
     (''version'', JStr (rr_Version r))]"

definition json_of_state :: "DeploymentState \<Rightarrow> json" where
  "json_of_state s = JObj
     [(''director_id'', JStr (DirectorID s)),
      (''installation_id'', JStr (InstallationID s)),
      (''current_vm_cid'', JStr (CurrentVMCID s)),
      (''current_stemcell_id'', JStr (CurrentStemcellID s)),
      (''current_disk_id'', JStr (CurrentDiskID s)),
      (''current_release_ids'', JArr (map JStr (CurrentReleaseIDs s))),
      (''current_manifest_sha1'', JStr (CurrentManifestSHA1 s)),
      (''disks'', JArr (map json_of_disk (Disks s))),
      (''stemcells'', JArr (map json_of_stemcell (Stemcells s))),
      (''releases'', JArr (map json_of_release (Releases s)))]"

definition type_error :: goerr where
  "type_error = External ''json: cannot unmarshal value into Go value''"

fun dec_fields :: "json \<Rightarrow> goerr + (string \<times> json) list" where
  "dec_fields JNull = Inr []"
| "dec_fields (JObj m) = Inr m"
| "dec_fields _ = Inl type_error"

definition jfield :: "string \<Rightarrow> (string \<times> json) list \<Rightarrow> json" where
  "jfield k m = (case map_of m k of None \<Rightarrow> JNull | Some v \<Rightarrow> v)"

fun dec_str :: "json \<Rightarrow> goerr + string" where
  "dec_str JNull = Inr ''''"
| "dec_str (JStr s) = Inr s"
| "dec_str _ = Inl type_error"

definition int64 :: "int \<Rightarrow> bool" where
  "int64 n \<longleftrightarrow> - (2 ^ 63) \<le> n \<and> n < 2 ^ 63"

fun dec_int :: "json \<Rightarrow> goerr + int" where
  "dec_int JNull = Inr 0"
| "dec_int (JNum r) = (if of_int \<lfloor>r\<rfloor> = r \<and> int64 \<lfloor>r\<rfloor> then Inr \<lfloor>r\<rfloor> else Inl type_error)"
| "dec_int _ = Inl type_error"

fun dec_list :: "(json \<Rightarrow> goerr + 'a) \<Rightarrow> json \<Rightarrow> goerr + 'a list" where
  "dec_list f JNull = Inr []"
| "dec_list f (JArr l) = map_sum_list f l"
| "dec_list f _ = Inl type_error"

fun dec_map :: "json \<Rightarrow> goerr + gomap option" where
  "dec_map JNull = Inr None"
| "dec_map (JObj m) = Inr (Some (map (\<lambda>(k, j). (k, unmarshal_any j)) m))"
| "dec_map _ = Inl type_error"

definition dec_stemcell :: "json \<Rightarrow> goerr + StemcellRecord" where
  "dec_stemcell j = sbind (dec_fields j) (\<lambda>m.
     sbind (dec_str (jfield ''id'' m)) (\<lambda>i. sbind (dec_str (jfield ''name'' m)) (\<lambda>n.
     sbind (dec_str (jfield ''version'' m)) (\<lambda>v. sbind (dec_str (jfield ''cid'' m)) (\<lambda>c.
     Inr \<lparr>sr_ID = i, sr_Name = n, sr_Version = v, sr_CID = c\<rparr>)))))"

definition dec_disk :: "json \<Rightarrow> goerr + DiskRecord" where
  "dec_disk j = sbind (dec_fields j) (\<lambda>m.
     sbind (dec_str (jfield ''id'' m)) (\<lambda>i. sbind (dec_str (jfield ''cid'' m)) (\<lambda>c.
     sbind (dec_int (jfield ''size'' m)) (\<lambda>n. sbind (dec_map (jfield ''cloud_properties'' m)) (\<lambda>ps.
     Inr \<lparr>dr_ID = i, dr_CID = c, dr_Size = n, dr_CloudProperties = ps\<rparr>)))))"

definition dec_release :: "json \<Rightarrow> goerr + ReleaseRecord" where
  "dec_release j = sbind (dec_fields j) (\<lambda>m.
     sbind (dec_str (jfield ''id'' m)) (\<lambda>i. sbind (dec_str (jfield ''name'' m)) (\<lambda>n.
     sbind (dec_str (jfield ''version'' m)) (\<lambda>v.
     Inr \<lparr>rr_ID = i, rr_Name = n, rr_Version = v\<rparr>))))"

definition state_of_json :: "json \<Rightarrow> goerr + DeploymentState" where
  "state_of_json j = sbind (dec_fields j) (\<lambda>m.
     sbind (dec_str (jfield ''director_id'' m)) (\<lambda>di.
     sbind (dec_str (jfield ''installation_id'' m)) (\<lambda>ii.
     sbind (dec_str (jfield ''current_vm_cid'' m)) (\<lambda>vm.
     sbind (dec_str (jfield ''current_stemcell_id'' m)) (\<lambda>si.
     sbind (dec_str (jfield ''current_disk_id'' m)) (\<lambda>dk.
     sbind (dec_list dec_str (jfield ''current_release_ids'' m)) (\<lambda>ri.
     sbind (dec_str (jfield ''current_manifest_sha1'' m)) (\<lambda>ms.
     sbind (dec_list dec_disk (jfield ''disks'' m)) (\<lambda>ds.
     sbind (dec_list dec_stemcell (jfield ''stemcells'' m)) (\<lambda>ss.
     sbind (dec_list dec_release (jfield ''releases'' m)) (\<lambda>rs.
     Inr \<lparr>DirectorID = di, InstallationID = ii, CurrentVMCID = vm, CurrentStemcellID = si,
          CurrentDiskID = dk, CurrentReleaseIDs = ri, CurrentManifestSHA1 = ms, Disks = ds,
          Stemcells = ss, Releases = rs\<rparr>)))))))))))"

section \<open>The state service\<close>

text \<open>\<^verbatim>\<open>DeploymentStatePath\<close>: the state file lies beside the manifest.\<close>

definition DeploymentStatePath :: "string \<Rightarrow> string" where
  "DeploymentStatePath mp =
     (let baseFileName = Base (TrimSuffix mp (Ext mp))
      in JoinPath [Dir mp, baseFileName @ ''-state.json''])"

definition StateService_Exists :: "string \<Rightarrow> (world, bool) prog" where
  "StateService_Exists configPath = FileExists configPath"

definition Save :: "string \<Rightarrow> DeploymentState \<Rightarrow> (world, unit) prog" where
  "Save configPath st =
     (if configPath = '''' then panic ''configPath not yet set!''
      else wrapf ''Writing deployment state file %s'' [AStr configPath]
             (WriteFile configPath (CJson (json_of_state st))))"

definition initDefaults :: "string \<Rightarrow> DeploymentState \<Rightarrow> (world, DeploymentState) prog" where
  "initDefaults configPath st =
     (if DirectorID st = '''' then
        bnd (wrap ''Generating DirectorID'' Generate) (\<lambda>uuid.
          let st' = st\<lparr>DirectorID := uuid\<rparr>
          in seq (wrap ''Saving deployment state'' (Save configPath st')) (ret st'))
      else ret st)"

fun unmarshal_state :: "content \<Rightarrow> goerr + DeploymentState" where
  "unmarshal_state (CJson j) = state_of_json j"
| "unmarshal_state _ = Inl (External ''invalid character'')"

definition Load :: "string \<Rightarrow> (world, DeploymentState) prog" where
  "Load configPath =
     (if configPath = '''' then panic ''configPath not yet set!''
      else bnd (FileExists configPath) (\<lambda>exists.
        bnd (if exists then
               bnd (wrapf ''Reading deployment state file %s'' [AStr configPath] (ReadFile configPath)) (\<lambda>c.
                 wrapf ''Unmarshalling deployment state file %s'' [AStr configPath] (lift_sum (unmarshal_state c)))
             else ret zero_state) (\<lambda>st.
        wrap ''Initializing deployment state defaults'' (initDefaults configPath st))))"

definition Cleanup :: "string \<Rightarrow> (world, unit) prog" where
  "Cleanup configPath =
     wrapf ''Could not delete deployment state file %s'' [AStr configPath] (RemoveAll configPath)"

section \<open>What is read back\<close>

text \<open>
  A state read back differs from the one saved only in its disks' cloud properties,
  whose values take their JSON form.
\<close>

definition reload_disk :: "DiskRecord \<Rightarrow> DiskRecord" where
  "reload_disk r = r\<lparr>dr_CloudProperties := map_option reload_map (dr_CloudProperties r)\<rparr>"

definition reload_state :: "DeploymentState \<Rightarrow> DeploymentState" where
  "reload_state s = s\<lparr>Disks := map reload_disk (Disks s)\<rparr>"

definition storable :: "DeploymentState \<Rightarrow> bool" where
  "storable s \<longleftrightarrow> (\<forall>r \<in> set (Disks s). int64 (dr_Size r))"

lemma dec_map_marshal: "dec_map (marshal_map m) = Inr (map_option reload_map m)"
  by (cases m) (auto simp: marshal_map_def reload_map_def reload_prop_def)

lemma dec_stemcell_json [simp]: "dec_stemcell (json_of_stemcell r) = Inr r"
  by (simp add: dec_stemcell_def json_of_stemcell_def jfield_def)

lemma dec_release_json [simp]: "dec_release (json_of_release r) = Inr r"
  by (simp add: dec_release_def json_of_release_def jfield_def)

lemma dec_disk_json: "int64 (dr_Size r) \<Longrightarrow> dec_disk (json_of_disk r) = Inr (reload_disk r)"
  by (simp add: dec_disk_def json_of_disk_def jfield_def dec_map_marshal reload_disk_def)

lemma state_json_roundtrip: "storable s \<Longrightarrow> state_of_json (json_of_state s) = Inr (reload_state s)"
  by (simp add: state_of_json_def json_of_state_def jfield_def storable_def reload_state_def
      dec_disk_json map_sum_list_map[where h = "\<lambda>x. x", simplified] map_sum_list_map[where h = reload_disk])

lemma reload_state_simps [simp]:
  "DirectorID (reload_state s) = DirectorID s" "InstallationID (reload_state s) = InstallationID s"
  "CurrentVMCID (reload_state s) = CurrentVMCID s" "CurrentStemcellID (reload_state s) = CurrentStemcellID s"
  "CurrentDiskID (reload_state s) = CurrentDiskID s" "CurrentReleaseIDs (reload_state s) = CurrentReleaseIDs s"
  "CurrentManifestSHA1 (reload_state s) = CurrentManifestSHA1 s" "Disks (reload_state s) = map reload_disk (Disks s)"
  "Stemcells (reload_state s) = Stemcells s" "Releases (reload_state s) = Releases s"
  by (simp_all add: reload_state_def)

lemma reload_disk_simps [simp]:
  "dr_ID (reload_disk r) = dr_ID r" "dr_CID (reload_disk r) = dr_CID r" "dr_Size (reload_disk r) = dr_Size r"
  "dr_CloudProperties (reload_disk r) = map_option reload_map (dr_CloudProperties r)"
  by (simp_all add: reload_disk_def)

lemma unmarshal_marshal_again: "reload_prop (unmarshal_any j) = unmarshal_any j"
proof (induction j)
  case (JArr l)
  then show ?case by simp
next
  case (JObj m)
  then show ?case by (fastforce simp: reload_map_def)
qed auto

lemma reload_prop_idem [simp]: "reload_prop (reload_prop p) = reload_prop p"
  by (simp add: reload_prop_def[of p] unmarshal_marshal_again)

lemma marshal_unmarshal [simp]: "marshal_prop (unmarshal_any j) = j"
proof (induction j)
  case (JArr l)
  then show ?case by (simp add: map_idI)
next
  case (JObj m)
  then show ?case by (fastforce intro: map_idI)
qed auto

lemma marshal_reload [simp]: "marshal_prop (reload_prop p) = marshal_prop p"
  by (simp add: reload_prop_def)

lemma marshal_reload_map [simp]: "marshal_map (map_option reload_map m) = marshal_map m"
  by (cases m) (simp_all add: marshal_map_def reload_map_def case_prod_beta comp_def)

lemma json_of_reload_disk [simp]: "json_of_disk (reload_disk r) = json_of_disk r"
  by (simp add: json_of_disk_def)

lemma json_of_reload [simp]: "json_of_state (reload_state s) = json_of_state s"
  by (simp add: json_of_state_def comp_def)

lemma reload_map_idem [simp]: "reload_map (reload_map m) = reload_map m"
  by (simp add: reload_map_def case_prod_beta)

lemma reload_disk_idem [simp]: "reload_disk (reload_disk r) = reload_disk r"
  by (cases "dr_CloudProperties r") (simp_all add: reload_disk_def)

lemma reload_state_idem [simp]: "reload_state (reload_state s) = reload_state s"
  by (simp add: reload_state_def comp_def)

lemma storable_reload [simp]: "storable (reload_state s) = storable s"
  by (simp add: storable_def)

section \<open>The contract of the service\<close>

text \<open>
  \<open>loaded p w st\<close>: the file at \<open>p\<close> holds the state \<open>st\<close>, with a director id, so that
  loading it writes nothing.
\<close>

definition loaded :: "string \<Rightarrow> world \<Rightarrow> DeploymentState \<Rightarrow> bool" where
  "loaded p w st \<longleftrightarrow> p \<noteq> '''' \<and> files w p = Some (CJson (json_of_state st)) \<and> storable st
     \<and> reload_state st = st \<and> DirectorID st \<noteq> ''''"

text \<open>\<open>saved p w st w'\<close>: \<open>w'\<close> is \<open>w\<close> with \<open>st\<close> written to \<open>p\<close>, as it will be read back.\<close>

definition saved :: "string \<Rightarrow> world \<Rightarrow> DeploymentState \<Rightarrow> world \<Rightarrow> bool" where
  "saved p w st w' \<longleftrightarrow> (\<exists>v. ticked w v \<and> w' = set_file p (CJson (json_of_state st)) v)"

lemma savedI: "ticked w v \<Longrightarrow> saved p w st (set_file p (CJson (json_of_state st)) v)"
  by (auto simp: saved_def)

locale state_service =
  fixes load :: "(world, DeploymentState) prog"
    and save :: "DeploymentState \<Rightarrow> (world, unit) prog"
    and holds :: "world \<Rightarrow> DeploymentState \<Rightarrow> bool"
    and storing :: "world \<Rightarrow> DeploymentState \<Rightarrow> world \<Rightarrow> bool"
  assumes load_holds:
      "holds w st \<Longrightarrow> wp load (\<lambda>r w'. ticked w w' \<and> (r = Ok st \<or> (\<exists>e. r = Err e))) w"
    and save_stores: "holds w st0 \<Longrightarrow> atomic_writes w \<Longrightarrow>
      wp (save st) (\<lambda>r w'. (r = Ok () \<and> storing w st w') \<or> (\<exists>e. r = Err e \<and> ticked w w')) w"
    and holds_ticked: "holds w st \<Longrightarrow> ticked w w' \<Longrightarrow> holds w' st"
    and storing_holds: "holds w st0 \<Longrightarrow> storing w st w' \<Longrightarrow> storable st \<Longrightarrow> DirectorID st \<noteq> '''' \<Longrightarrow>
      holds w' (reload_state st)"
    and storing_after: "ticked w w' \<Longrightarrow> storing w' st w'' \<Longrightarrow> storing w st w''"
begin

text \<open>Reading: a query of the loaded state changes nothing and answers from the state.\<close>

lemma query:
  assumes "holds w st"
  shows "wp (bnd (wrap msg load) (\<lambda>s. ret (f s)))
    (\<lambda>r w'. ticked w w' \<and> (r = Ok (f st) \<or> (\<exists>e. r = Err e))) w"
  using load_holds[OF assms] by (auto simp: wp_simps elim!: wp_mono split: outcome.splits)

text \<open>
  Writing: an update that loads, changes and saves either stores exactly the changed
  state, or reports an error and has changed nothing.
\<close>

lemma update:
  assumes h: "holds w st" and a: "atomic_writes w"
  shows "wp (bnd (wrap msg load) (\<lambda>s. seq (wrap msg' (save (f s))) (ret x)))
    (\<lambda>r w'. (r = Ok x \<and> storing w (f st) w') \<or> (\<exists>e. r = Err e \<and> ticked w w')) w"
proof -
  have "wp (save (f st)) (\<lambda>r w''. (r = Ok () \<and> storing w (f st) w'') \<or> (\<exists>e. r = Err e \<and> ticked w w'')) w'"
    if t: "ticked w w'" for w'
    by (rule wp_mono[OF save_stores[OF holds_ticked[OF h t]]])
      (use a t in \<open>auto simp: atomic_writes_ticked intro: storing_after ticked_trans\<close>)
  note S = this
  have "wp (seq (wrap msg' (save (f st))) (ret x))
      (\<lambda>r w''. (r = Ok x \<and> storing w (f st) w'') \<or> (\<exists>e. r = Err e \<and> ticked w w'')) w'"
    if "ticked w w'" for w'
    using S[OF that] by (auto simp: wp_simps elim!: wp_mono split: outcome.splits)
  moreover have "wp (wrap msg load) (\<lambda>r w'. ticked w w' \<and> (r = Ok st \<or> (\<exists>e. r = Err e))) w"
    using load_holds[OF h] by (auto simp: wp_simps elim!: wp_mono split: outcome.splits)
  ultimately show ?thesis by (auto elim!: wp_bnd_rule)
qed

end

lemma ticked_files_upd: "ticked w v \<Longrightarrow> files v = files w"
  by (simp add: ticked_frame)

lemma Load_loaded:
  assumes "loaded p w st"
  shows "wp (Load p) (\<lambda>r w'. ticked w w' \<and> (r = Ok st \<or> (\<exists>e. r = Err e))) w"
  using assms state_json_roundtrip[of st]
  by (auto simp: Load_def loaded_def FileExists_def ReadFile_def initDefaults_def wp_simps Let_def
      split: option.splits)

lemma Save_saved:
  assumes "p \<noteq> ''''" "atomic_writes w"
  shows "wp (Save p st) (\<lambda>r w'. (r = Ok () \<and> saved p w st w') \<or> (\<exists>e. r = Err e \<and> ticked w w')) w"
proof -
  have "a_torn (answers w (tick w)) = None" using assms(2) by (simp add: atomic_writes_def)
  then show ?thesis
    using assms(1) by (auto simp: Save_def WriteFile_def wp_simps Let_def savedI split: option.splits)
qed

interpretation state_file: state_service "Load p" "Save p" "loaded p" "saved p" for p
proof unfold_locales
  fix w st assume "loaded p w st"
  then show "wp (Load p) (\<lambda>r w'. ticked w w' \<and> (r = Ok st \<or> (\<exists>e. r = Err e))) w"
    by (rule Load_loaded)
next
  fix w st st0 assume "loaded p w st0" "atomic_writes w"
  then show "wp (Save p st) (\<lambda>r w'. (r = Ok () \<and> saved p w st w') \<or> (\<exists>e. r = Err e \<and> ticked w w')) w"
    by (intro Save_saved) (auto simp: loaded_def)
next
  fix w st w' assume "loaded p w st" "ticked w w'"
  then show "loaded p w' st" by (simp add: loaded_def ticked_frame)
next
  fix w st st0 w' assume "loaded p w st0" "saved p w st w'" "storable st" "DirectorID st \<noteq> ''''"
  then show "loaded p w' (reload_state st)"
    by (auto simp: loaded_def saved_def set_file_def)
next
  fix w st w' w'' assume "ticked w w'" "saved p w' st w''"
  then show "saved p w st w''" by (auto simp: saved_def intro: ticked_trans)
qed

end
