(* ===== verification/Repos.thy ===== *)
theory Repos
  imports StateFile
begin

text \<open>
  The repositories over the deployment state file (config/deployment_repo.go,
  vm_repo.go, disk_repo.go, stemcell_repo.go, release_repo.go): each operation loads
  the file, changes one part of the state and saves it. A \<^verbatim>\<open>(record, found)\<close> pair is
  an \<open>option\<close>. The theory shows what each operation stores, and the invariant of the
  record tables (unique ids and keys, a current id that names a record).
\<close>

section \<open>config/deployment_repo.go\<close>

definition DeploymentRepo_FindCurrent :: "string \<Rightarrow> (world, string option) prog" where
  "DeploymentRepo_FindCurrent p = bnd (wrap ''Loading existing config'' (Load p)) (\<lambda>st.
     ret (if CurrentManifestSHA1 st \<noteq> '''' then Some (CurrentManifestSHA1 st) else None))"

definition DeploymentRepo_UpdateCurrent :: "string \<Rightarrow> string \<Rightarrow> (world, unit) prog" where
  "DeploymentRepo_UpdateCurrent p manifestSHA1 = bnd (wrap ''Loading existing config'' (Load p)) (\<lambda>st.
     seq (wrap ''Saving new config'' (Save p (st\<lparr>CurrentManifestSHA1 := manifestSHA1\<rparr>))) (ret ()))"

section \<open>config/vm_repo.go\<close>

definition VMRepo_FindCurrent :: "string \<Rightarrow> (world, string option) prog" where
  "VMRepo_FindCurrent p = bnd (wrap ''Loading existing config'' (Load p)) (\<lambda>st.
     ret (if CurrentVMCID st \<noteq> '''' then Some (CurrentVMCID st) else None))"

definition VMRepo_UpdateCurrent :: "string \<Rightarrow> string \<Rightarrow> (world, unit) prog" where
  "VMRepo_UpdateCurrent p cid = bnd (wrap ''Loading existing config'' (Load p)) (\<lambda>st.
     seq (wrap ''Saving new config'' (Save p (st\<lparr>CurrentVMCID := cid\<rparr>))) (ret ()))"

definition VMRepo_ClearCurrent :: "string \<Rightarrow> (world, unit) prog" where
  "VMRepo_ClearCurrent p = bnd (wrap ''Loading existing config'' (Load p)) (\<lambda>st.
     seq (wrap ''Saving new config'' (Save p (st\<lparr>CurrentVMCID := ''''\<rparr>))) (ret ()))"

section \<open>config/disk_repo.go\<close>

definition DiskRepo_load :: "string \<Rightarrow> (world, DeploymentState \<times> DiskRecord list) prog" where
  "DiskRepo_load p = bnd (wrap ''Loading existing config'' (Load p)) (\<lambda>st. ret (st, Disks st))"

definition DiskRepo_find :: "DiskRecord list \<Rightarrow> string \<Rightarrow> DiskRecord option" where
  "DiskRepo_find records cid = find (\<lambda>r. dr_CID r = cid) records"

definition DiskRepo_Save :: "string \<Rightarrow> string \<Rightarrow> int \<Rightarrow> gomap option \<Rightarrow> (world, DiskRecord) prog" where
  "DiskRepo_Save p cid sz cloudProperties = bnd (DiskRepo_load p) (\<lambda>(config, records).
     case DiskRepo_find records cid of
       Some oldRecord \<Rightarrow>
         fail (Errorf ''Failed to save disk cid %s, existing record found %#v'' [AStr cid, ADump])
     | None \<Rightarrow> bnd (wrap ''Generating disk id'' Generate) (\<lambda>uuid.
         let newRecord = \<lparr>dr_ID = uuid, dr_CID = cid, dr_Size = sz, dr_CloudProperties = cloudProperties\<rparr>
         in seq (wrap ''Saving new config'' (Save p (config\<lparr>Disks := records @ [newRecord]\<rparr>)))
                (ret newRecord)))"

definition DiskRepo_FindCurrent :: "string \<Rightarrow> (world, DiskRecord option) prog" where
  "DiskRepo_FindCurrent p = bnd (wrap ''Loading existing config'' (Load p)) (\<lambda>st.
     ret (if CurrentDiskID st = '''' then None
          else find (\<lambda>r. dr_ID r = CurrentDiskID st) (Disks st)))"

definition DiskRepo_UpdateCurrent :: "string \<Rightarrow> string \<Rightarrow> (world, unit) prog" where
  "DiskRepo_UpdateCurrent p diskID = bnd (wrap ''Loading existing config'' (Load p)) (\<lambda>st.
     seq (check (\<exists>r \<in> set (Disks st). dr_ID r = diskID)
            (Errorf ''Verifying disk record exists with id %s'' [AStr diskID]))
         (seq (wrap ''Saving new config'' (Save p (st\<lparr>CurrentDiskID := diskID\<rparr>))) (ret ())))"

definition DiskRepo_Find :: "string \<Rightarrow> string \<Rightarrow> (world, DiskRecord option) prog" where
  "DiskRepo_Find p cid = bnd (DiskRepo_load p) (\<lambda>(config, records). ret (DiskRepo_find records cid))"

definition DiskRepo_All :: "string \<Rightarrow> (world, DiskRecord list) prog" where
  "DiskRepo_All p = bnd (wrap ''Loading existing config'' (Load p)) (\<lambda>st. ret (Disks st))"

definition DiskRepo_remove :: "DiskRecord \<Rightarrow> DeploymentState \<Rightarrow> DeploymentState" where
  "DiskRepo_remove diskRecord config =
     (let config' = config\<lparr>Disks := filter (\<lambda>r. dr_ID r \<noteq> dr_ID diskRecord) (Disks config)\<rparr>
      in if CurrentDiskID config' = dr_ID diskRecord then config'\<lparr>CurrentDiskID := ''''\<rparr> else config')"

definition DiskRepo_Delete :: "string \<Rightarrow> DiskRecord \<Rightarrow> (world, unit) prog" where
  "DiskRepo_Delete p diskRecord = bnd (DiskRepo_load p) (\<lambda>(config, records).
     seq (wrap ''Saving new config'' (Save p (DiskRepo_remove diskRecord config))) (ret ()))"

definition DiskRepo_ClearCurrent :: "string \<Rightarrow> (world, unit) prog" where
  "DiskRepo_ClearCurrent p = bnd (wrap ''Loading existing config'' (Load p)) (\<lambda>st.
     seq (wrap ''Saving new config'' (Save p (st\<lparr>CurrentDiskID := ''''\<rparr>))) (ret ()))"

section \<open>config/stemcell_repo.go\<close>

definition StemcellRepo_updateConfig ::
  "string \<Rightarrow> (DeploymentState \<Rightarrow> (world, DeploymentState \<times> 'a) prog) \<Rightarrow> (world, 'a) prog" where
  "StemcellRepo_updateConfig p updateFunc = bnd (wrap ''Loading existing config'' (Load p)) (\<lambda>st.
     bnd (updateFunc st) (\<lambda>(st', x). seq (wrap ''Saving new config'' (Save p st')) (ret x)))"

definition StemcellRepo_load :: "string \<Rightarrow> (world, DeploymentState \<times> StemcellRecord list) prog" where
  "StemcellRepo_load p = bnd (wrap ''Loading existing config'' (Load p)) (\<lambda>st. ret (st, Stemcells st))"

definition StemcellRepo_Save :: "string \<Rightarrow> string \<Rightarrow> string \<Rightarrow> string \<Rightarrow> (world, StemcellRecord) prog" where
  "StemcellRepo_Save p name version cid = StemcellRepo_updateConfig p (\<lambda>config.
     bnd (wrap ''Generating stemcell id'' Generate) (\<lambda>uuid.
       let newRecord = \<lparr>sr_ID = uuid, sr_Name = name, sr_Version = version, sr_CID = cid\<rparr> in
       if \<exists>r \<in> set (Stemcells config). sr_Name r = name \<and> sr_Version r = version
       then fail (Errorf ''Failed to save stemcell record %s (duplicate name/version), existing record found %s'' [ADump, ADump])
       else ret (config\<lparr>Stemcells := Stemcells config @ [newRecord]\<rparr>, newRecord)))"

definition StemcellRepo_Find :: "string \<Rightarrow> string \<Rightarrow> string \<Rightarrow> (world, StemcellRecord option) prog" where
  "StemcellRepo_Find p name version = bnd (StemcellRepo_load p) (\<lambda>(config, records).
     ret (find (\<lambda>r. sr_Name r = name \<and> sr_Version r = version) records))"

definition StemcellRepo_FindCurrent :: "string \<Rightarrow> (world, StemcellRecord option) prog" where
  "StemcellRepo_FindCurrent p = bnd (wrap ''Loading existing config'' (Load p)) (\<lambda>st.
     ret (if CurrentStemcellID st = '''' then None
          else find (\<lambda>r. sr_ID r = CurrentStemcellID st) (Stemcells st)))"

definition StemcellRepo_All :: "string \<Rightarrow> (world, StemcellRecord list) prog" where
  "StemcellRepo_All p = bnd (wrap ''Loading existing config'' (Load p)) (\<lambda>st. ret (Stemcells st))"

definition StemcellRepo_remove :: "StemcellRecord \<Rightarrow> DeploymentState \<Rightarrow> DeploymentState" where
  "StemcellRepo_remove stemcellRecord config =
     (let config' = config\<lparr>Stemcells := filter (\<lambda>r. sr_ID stemcellRecord \<noteq> sr_ID r) (Stemcells config)\<rparr>
      in if CurrentStemcellID config' = sr_ID stemcellRecord
         then config'\<lparr>CurrentStemcellID := ''''\<rparr> else config')"

definition StemcellRepo_Delete :: "string \<Rightarrow> StemcellRecord \<Rightarrow> (world, unit) prog" where
  "StemcellRepo_Delete p stemcellRecord = bnd (StemcellRepo_load p) (\<lambda>(config, records).
     seq (wrap ''Saving config'' (Save p (StemcellRepo_remove stemcellRecord config))) (ret ()))"

definition StemcellRepo_UpdateCurrent :: "string \<Rightarrow> string \<Rightarrow> (world, unit) prog" where
  "StemcellRepo_UpdateCurrent p recordID = StemcellRepo_updateConfig p (\<lambda>config.
     seq (check (\<exists>r \<in> set (Stemcells config). sr_ID r = recordID)
            (Errorf ''Verifying stemcell record exists with id %s'' [AStr recordID]))
         (ret (config\<lparr>CurrentStemcellID := recordID\<rparr>, ())))"

definition StemcellRepo_ClearCurrent :: "string \<Rightarrow> (world, unit) prog" where
  "StemcellRepo_ClearCurrent p = StemcellRepo_updateConfig p (\<lambda>config.
     ret (config\<lparr>CurrentStemcellID := ''''\<rparr>, ()))"

section \<open>config/release_repo.go\<close>

text \<open>A release is given by its name and version here.\<close>

definition ReleaseRepo_newRecord :: "string \<times> string \<Rightarrow> (world, ReleaseRecord) prog" where
  "ReleaseRepo_newRecord nv = bnd (wrap ''Generating release id'' Generate) (\<lambda>uuid.
     ret \<lparr>rr_ID = uuid, rr_Name = fst nv, rr_Version = snd nv\<rparr>)"

definition ReleaseRepo_Update :: "string \<Rightarrow> (string \<times> string) list \<Rightarrow> (world, unit) prog" where
  "ReleaseRepo_Update p releases = bnd (wrap ''Loading existing config'' (Load p)) (\<lambda>st.
     bnd (map_prog ReleaseRepo_newRecord releases) (\<lambda>newRecords.
       seq (wrap ''Updating current release record''
              (Save p (st\<lparr>CurrentReleaseIDs := map rr_ID newRecords, Releases := newRecords\<rparr>)))
           (ret ())))"

definition ReleaseRepo_List :: "string \<Rightarrow> (world, ReleaseRecord list) prog" where
  "ReleaseRepo_List p = bnd (wrap ''Loading existing config'' (Load p)) (\<lambda>st. ret (Releases st))"

section \<open>What the operations store\<close>

text \<open>
  \<open>writes p w st r w'\<close>: either \<open>st\<close> was stored, or an error was returned and nothing
  changed. \<open>reads w x r w'\<close>: the answer is \<open>x\<close>, or an error, and nothing changed.
\<close>

definition writes :: "string \<Rightarrow> world \<Rightarrow> DeploymentState \<Rightarrow> unit outcome \<Rightarrow> world \<Rightarrow> bool" where
  "writes p w st r w' \<longleftrightarrow> (r = Ok () \<and> saved p w st w') \<or> (\<exists>e. r = Err e \<and> ticked w w')"

definition reads :: "world \<Rightarrow> 'a \<Rightarrow> 'a outcome \<Rightarrow> world \<Rightarrow> bool" where
  "reads w x r w' \<longleftrightarrow> ticked w w' \<and> (r = Ok x \<or> (\<exists>e. r = Err e))"

lemma Load_wp:
  assumes "loaded p w st" and "\<And>w'. ticked w w' \<Longrightarrow> loaded p w' st \<Longrightarrow> wp (f st) Q w'"
    and "\<And>e w'. ticked w w' \<Longrightarrow> Q (Err e) w'"
  shows "wp (bnd (wrap msg (Load p)) f) Q w"
proof -
  have "wp (wrap msg (Load p)) (\<lambda>r w'. ticked w w' \<and> (r = Ok st \<or> (\<exists>e. r = Err e))) w"
    using state_file.load_holds[OF assms(1)] by (auto simp: wp_simps elim!: wp_mono split: outcome.splits)
  then show ?thesis
    by (rule wp_bnd_rule) (auto intro: assms(2,3) state_file.holds_ticked[OF assms(1)])
qed

lemma Save_wp:
  assumes "loaded p w st0" "atomic_writes w"
    and "\<And>w'. saved p w st w' \<Longrightarrow> wp n Q w'" and "\<And>e w'. ticked w w' \<Longrightarrow> Q (Err e) w'"
  shows "wp (seq (wrap msg (Save p st)) n) Q w"
proof -
  have "wp (wrap msg (Save p st)) (\<lambda>r w'. (r = Ok () \<and> saved p w st w') \<or> (\<exists>e. r = Err e \<and> ticked w w')) w"
    unfolding wp_wrap by (rule wp_mono[OF state_file.save_stores[OF assms(1,2)]]) auto
  then show ?thesis by (rule wp_seq_rule) (auto intro: assms(3,4))
qed

text \<open>The ids that the UUID generator yields between two worlds.\<close>

definition generated :: "world \<Rightarrow> world \<Rightarrow> string set" where
  "generated w w' = {u. \<exists>n \<ge> tick w. n < tick w' \<and> a_uuid (answers w n) = Inr u}"

lemma generated_mono: "ticked w v \<Longrightarrow> ticked v v' \<Longrightarrow> u \<in> generated v v' \<Longrightarrow> u \<in> generated w v'"
proof -
  assume t: "ticked w v" and u: "u \<in> generated v v'"
  have "tick w \<le> tick v" "answers v = answers w" using t by (auto dest: ticked_frame)
  moreover obtain n where "tick v \<le> n" "n < tick v'" "a_uuid (answers v n) = Inr u"
    using u by (auto simp: generated_def)
  ultimately show "u \<in> generated w v'" by (auto simp: generated_def intro!: exI[of _ n])
qed

lemma generated_earlier: "ticked v v' \<Longrightarrow> u \<in> generated w v \<Longrightarrow> u \<in> generated w v'"
  by (auto simp: generated_def dest!: ticked_frame(6))

lemma gen_savedI: "ticked w w1 \<Longrightarrow> ticked w1 v \<Longrightarrow> U \<subseteq> generated w1 v \<Longrightarrow> saved p v st w' \<Longrightarrow>
    \<exists>v. ticked w v \<and> U \<subseteq> generated w v \<and> saved p v st w'"
  by (metis generated_mono subset_iff ticked_trans)

lemma Generate_wp:
  assumes "\<And>u w'. ticked w w' \<Longrightarrow> u \<in> generated w w' \<Longrightarrow> wp (f u) Q w'"
    and "\<And>e w'. ticked w w' \<Longrightarrow> Q (Err e) w'"
  shows "wp (bnd (wrap msg Generate) f) Q w"
proof -
  have "u \<in> generated w (w\<lparr>tick := Suc (tick w), clock := k\<rparr>)" if "a_uuid (answers w (tick w)) = Inr u" for u k
    using that by (auto simp: generated_def)
  then show ?thesis
    using assms by (auto simp: Generate_def wp_simps Let_def split: sum.splits)
qed

lemmas repo_query = state_file.query[folded reads_def]
lemmas repo_update = state_file.update[where x = "()", folded writes_def]

lemma DeploymentRepo_FindCurrent_reads: "loaded p w st \<Longrightarrow> wp (DeploymentRepo_FindCurrent p)
    (reads w (if CurrentManifestSHA1 st \<noteq> '''' then Some (CurrentManifestSHA1 st) else None)) w"
  unfolding DeploymentRepo_FindCurrent_def reads_def by (rule state_file.query)

lemma DeploymentRepo_UpdateCurrent_writes: "loaded p w st \<Longrightarrow> atomic_writes w \<Longrightarrow>
    wp (DeploymentRepo_UpdateCurrent p sha) (writes p w (st\<lparr>CurrentManifestSHA1 := sha\<rparr>)) w"
  unfolding DeploymentRepo_UpdateCurrent_def writes_def by (rule state_file.update)

lemma VMRepo_FindCurrent_reads: "loaded p w st \<Longrightarrow> wp (VMRepo_FindCurrent p)
    (reads w (if CurrentVMCID st \<noteq> '''' then Some (CurrentVMCID st) else None)) w"
  unfolding VMRepo_FindCurrent_def reads_def by (rule state_file.query)

lemma VMRepo_UpdateCurrent_writes: "loaded p w st \<Longrightarrow> atomic_writes w \<Longrightarrow>
    wp (VMRepo_UpdateCurrent p cid) (writes p w (st\<lparr>CurrentVMCID := cid\<rparr>)) w"
  unfolding VMRepo_UpdateCurrent_def writes_def by (rule state_file.update)

lemma VMRepo_ClearCurrent_writes: "loaded p w st \<Longrightarrow> atomic_writes w \<Longrightarrow>
    wp (VMRepo_ClearCurrent p) (writes p w (st\<lparr>CurrentVMCID := ''''\<rparr>)) w"
  unfolding VMRepo_ClearCurrent_def writes_def by (rule state_file.update)

lemma DiskRepo_FindCurrent_reads: "loaded p w st \<Longrightarrow> wp (DiskRepo_FindCurrent p)
    (reads w (if CurrentDiskID st = '''' then None else find (\<lambda>r. dr_ID r = CurrentDiskID st) (Disks st))) w"
  unfolding DiskRepo_FindCurrent_def reads_def by (rule state_file.query)

lemma DiskRepo_Find_reads: "loaded p w st \<Longrightarrow>
    wp (DiskRepo_Find p cid) (reads w (find (\<lambda>r. dr_CID r = cid) (Disks st))) w"
  unfolding DiskRepo_Find_def DiskRepo_load_def bnd_assoc
  by (erule Load_wp) (auto simp: DiskRepo_find_def reads_def wp_simps)

lemma DiskRepo_All_reads: "loaded p w st \<Longrightarrow> wp (DiskRepo_All p) (reads w (Disks st)) w"
  unfolding DiskRepo_All_def reads_def by (rule state_file.query)

lemma DiskRepo_ClearCurrent_writes: "loaded p w st \<Longrightarrow> atomic_writes w \<Longrightarrow>
    wp (DiskRepo_ClearCurrent p) (writes p w (st\<lparr>CurrentDiskID := ''''\<rparr>)) w"
  unfolding DiskRepo_ClearCurrent_def writes_def by (rule state_file.update)

lemma StemcellRepo_Find_reads: "loaded p w st \<Longrightarrow> wp (StemcellRepo_Find p name version)
    (reads w (find (\<lambda>r. sr_Name r = name \<and> sr_Version r = version) (Stemcells st))) w"
  unfolding StemcellRepo_Find_def StemcellRepo_load_def bnd_assoc
  by (erule Load_wp) (auto simp: reads_def wp_simps)

lemma StemcellRepo_FindCurrent_reads: "loaded p w st \<Longrightarrow> wp (StemcellRepo_FindCurrent p)
    (reads w (if CurrentStemcellID st = '''' then None
              else find (\<lambda>r. sr_ID r = CurrentStemcellID st) (Stemcells st))) w"
  unfolding StemcellRepo_FindCurrent_def reads_def by (rule state_file.query)

lemma StemcellRepo_All_reads: "loaded p w st \<Longrightarrow> wp (StemcellRepo_All p) (reads w (Stemcells st)) w"
  unfolding StemcellRepo_All_def reads_def by (rule state_file.query)

lemma ReleaseRepo_List_reads: "loaded p w st \<Longrightarrow> wp (ReleaseRepo_List p) (reads w (Releases st)) w"
  unfolding ReleaseRepo_List_def reads_def by (rule state_file.query)

lemma StemcellRepo_ClearCurrent_writes: "loaded p w st \<Longrightarrow> atomic_writes w \<Longrightarrow>
    wp (StemcellRepo_ClearCurrent p) (writes p w (st\<lparr>CurrentStemcellID := ''''\<rparr>)) w"
  unfolding StemcellRepo_ClearCurrent_def StemcellRepo_updateConfig_def bnd_ret writes_def prod.case
  by (rule state_file.update)

lemma DiskRepo_Delete_writes: "loaded p w st \<Longrightarrow> atomic_writes w \<Longrightarrow>
    wp (DiskRepo_Delete p r) (writes p w (DiskRepo_remove r st)) w"
  unfolding DiskRepo_Delete_def DiskRepo_load_def bnd_assoc bnd_ret writes_def prod.case
  by (rule state_file.update)

lemma StemcellRepo_Delete_writes: "loaded p w st \<Longrightarrow> atomic_writes w \<Longrightarrow>
    wp (StemcellRepo_Delete p r) (writes p w (StemcellRepo_remove r st)) w"
  unfolding StemcellRepo_Delete_def StemcellRepo_load_def bnd_assoc bnd_ret writes_def prod.case
  by (rule state_file.update)

section \<open>The invariant of the record tables\<close>

text \<open>
  \<open>wf_state\<close>: the records of each table have distinct non-empty ids and distinct
  keys (the CID of a disk, the name and version of a stemcell), and the current disk
  and stemcell, when set, name a record. \<open>record_ids\<close> are the ids in use.
\<close>

definition record_ids :: "DeploymentState \<Rightarrow> string set" where
  "record_ids st = dr_ID ` set (Disks st) \<union> sr_ID ` set (Stemcells st) \<union> rr_ID ` set (Releases st)"

definition wf_disks :: "string \<Rightarrow> DiskRecord list \<Rightarrow> bool" where
  "wf_disks cur ds \<longleftrightarrow> distinct (map dr_ID ds) \<and> distinct (map dr_CID ds) \<and> '''' \<notin> dr_ID ` set ds
     \<and> (cur = '''' \<or> cur \<in> dr_ID ` set ds)"

definition stemcell_key :: "StemcellRecord \<Rightarrow> string \<times> string" where
  "stemcell_key r = (sr_Name r, sr_Version r)"

definition wf_stemcells :: "string \<Rightarrow> StemcellRecord list \<Rightarrow> bool" where
  "wf_stemcells cur ss \<longleftrightarrow> distinct (map sr_ID ss) \<and> distinct (map stemcell_key ss) \<and> '''' \<notin> sr_ID ` set ss
     \<and> (cur = '''' \<or> cur \<in> sr_ID ` set ss)"

definition wf_releases :: "string list \<Rightarrow> ReleaseRecord list \<Rightarrow> bool" where
  "wf_releases cur rs \<longleftrightarrow> distinct (map rr_ID rs) \<and> '''' \<notin> rr_ID ` set rs \<and> set cur \<subseteq> rr_ID ` set rs"

definition wf_state :: "DeploymentState \<Rightarrow> bool" where
  "wf_state st \<longleftrightarrow> wf_disks (CurrentDiskID st) (Disks st)
     \<and> wf_stemcells (CurrentStemcellID st) (Stemcells st)
     \<and> wf_releases (CurrentReleaseIDs st) (Releases st)"

text \<open>
  UUIDs: from now on the generator yields no empty, used or repeated id.
\<close>

definition fresh_ids :: "world \<Rightarrow> string set \<Rightarrow> bool" where
  "fresh_ids w S \<longleftrightarrow> (\<forall>n \<ge> tick w. \<forall>u. a_uuid (answers w n) = Inr u \<longrightarrow>
     u \<noteq> '''' \<and> u \<notin> S \<and> (\<forall>m \<ge> tick w. a_uuid (answers w m) = Inr u \<longrightarrow> m = n))"

text \<open>The invariant of a world whose state file is at \<open>p\<close>.\<close>

definition repo_inv :: "string \<Rightarrow> world \<Rightarrow> bool" where
  "repo_inv p w \<longleftrightarrow> atomic_writes w \<and>
     (\<exists>st. loaded p w st \<and> wf_state st \<and> fresh_ids w (record_ids st))"

lemma record_ids_reload [simp]: "record_ids (reload_state st) = record_ids st"
  by (simp add: record_ids_def image_image)

lemma wf_state_reload [simp]: "wf_state (reload_state st) = wf_state st"
  by (simp add: wf_state_def wf_disks_def comp_def image_image)

lemma fresh_ids_mono:
  assumes "fresh_ids w S" "answers w' = answers w" "tick w \<le> tick w'" "S' \<subseteq> S \<union> generated w w'"
  shows "fresh_ids w' S'"
  unfolding fresh_ids_def
proof (intro allI impI)
  fix n u assume n: "tick w' \<le> n" and u: "a_uuid (answers w' n) = Inr u"
  have "tick w \<le> n" "a_uuid (answers w n) = Inr u" using assms(2,3) n u by auto
  then have F: "u \<noteq> ''''" "u \<notin> S" "\<And>m. tick w \<le> m \<Longrightarrow> a_uuid (answers w m) = Inr u \<Longrightarrow> m = n"
    using assms(1) unfolding fresh_ids_def by blast+
  have "u \<notin> generated w w'"
    using F(3) n by (fastforce simp: generated_def)
  then show "u \<noteq> '''' \<and> u \<notin> S' \<and> (\<forall>m\<ge>tick w'. a_uuid (answers w' m) = Inr u \<longrightarrow> m = n)"
    using F assms(2-4) by auto
qed

lemma saved_frame:
  assumes "saved p w st w'"
  shows "answers w' = answers w" "calls w' = calls w" "ui w' = ui w" "tick w \<le> tick w'"
    "atomic_writes w' = atomic_writes w" "q \<noteq> p \<Longrightarrow> files w' q = files w q"
    "files w' p = Some (CJson (json_of_state st))"
  using assms by (auto simp: saved_def set_file_def ticked_frame atomic_writes_def)

lemma repo_inv_saved:
  assumes l: "loaded p w0 st0" and i: "fresh_ids w0 (record_ids st0)" and t: "ticked w0 w" and a: "atomic_writes w"
    and s: "saved p w st w'" and wf: "wf_state st" and st: "storable st" and d: "DirectorID st \<noteq> ''''"
    and ids: "record_ids st \<subseteq> record_ids st0 \<union> generated w0 w"
  shows "repo_inv p w'"
proof -
  have L: "loaded p w' (reload_state st)"
    using state_file.storing_holds[OF state_file.holds_ticked[OF l t] s st d] .
  have "tick w0 \<le> tick w'" "answers w' = answers w0"
    using saved_frame(1,4)[OF s] t by (auto simp: ticked_frame dest: ticked_frame(6))
  moreover have "generated w0 w \<subseteq> generated w0 w'"
    using saved_frame(4)[OF s] by (auto simp: generated_def)
  ultimately have "fresh_ids w' (record_ids st)"
    using fresh_ids_mono[OF i] ids by blast
  then show ?thesis using L wf a saved_frame(5)[OF s]
    by (auto simp: repo_inv_def)
qed

lemma repo_inv_ticked: "repo_inv p w \<Longrightarrow> ticked w w' \<Longrightarrow> repo_inv p w'"
  unfolding repo_inv_def
  by (metis atomic_writes_ticked fresh_ids_mono state_file.holds_ticked sup_ge1 ticked_frame(3,6))

lemma repo_inv_reads: "repo_inv p w \<Longrightarrow> reads w x r w' \<Longrightarrow> repo_inv p w'"
  by (auto simp: reads_def intro: repo_inv_ticked)

text \<open>
  An update that keeps the tables well formed and invents no ids keeps the invariant.
\<close>

lemma repo_inv_writes:
  assumes "loaded p w st" "fresh_ids w (record_ids st)" "atomic_writes w" "wf_state st"
    and "writes p w st' r w'" "wf_state st'" "storable st'" "DirectorID st' = DirectorID st"
    and "record_ids st' \<subseteq> record_ids st"
  shows "repo_inv p w'"
  using assms(5) unfolding writes_def
proof (elim disjE conjE exE)
  assume "saved p w st' w'"
  then show ?thesis
    by (rule repo_inv_saved[OF assms(1,2) ticked_refl assms(3)]) (use assms in \<open>auto simp: loaded_def\<close>)
next
  assume "ticked w w'"
  moreover have "repo_inv p w" using assms(1-4) by (auto simp: repo_inv_def)
  ultimately show ?thesis by (rule repo_inv_ticked[rotated])
qed

lemma keeps_repo_inv:
  assumes "\<And>w st. loaded p w st \<Longrightarrow> atomic_writes w \<Longrightarrow> wp m (writes p w (f st)) w"
    and "\<And>st. wf_state st \<Longrightarrow> wf_state (f st) \<and> DirectorID (f st) = DirectorID st \<and>
      record_ids (f st) \<subseteq> record_ids st \<and> set (Disks (f st)) \<subseteq> set (Disks st)"
  shows "keeps (repo_inv p) m"
proof (rule keepsI)
  fix w assume "repo_inv p w"
  then obtain st where a: "atomic_writes w" and st: "loaded p w st" "wf_state st" "fresh_ids w (record_ids st)"
    by (auto simp: repo_inv_def)
  have "storable (f st)"
    using st assms(2)[OF st(2)] by (auto simp: loaded_def storable_def)
  then show "wp m (\<lambda>_. repo_inv p) w"
    using assms(2)[OF st(2)]
    by (intro wp_mono[OF assms(1)[OF st(1) a]]) (auto intro: repo_inv_writes[OF st(1,3) a st(2)])
qed

text \<open>The operations that only change the state.\<close>

lemma wf_disks_remove: "wf_disks cur ds \<Longrightarrow>
    wf_disks (if cur = i then '''' else cur) (filter (\<lambda>r. dr_ID r \<noteq> i) ds)"
  by (auto simp: wf_disks_def distinct_map inj_on_def)

lemma wf_stemcells_remove: "wf_stemcells cur ss \<Longrightarrow>
    wf_stemcells (if cur = i then '''' else cur) (filter (\<lambda>r. i \<noteq> sr_ID r) ss)"
  by (auto simp: wf_stemcells_def distinct_map inj_on_def)

lemma wf_DiskRepo_remove: "wf_state st \<Longrightarrow> wf_state (DiskRepo_remove r st)"
  using wf_disks_remove[of "CurrentDiskID st" "Disks st" "dr_ID r"]
  by (auto simp: wf_state_def DiskRepo_remove_def Let_def split: if_splits)

lemma wf_StemcellRepo_remove: "wf_state st \<Longrightarrow> wf_state (StemcellRepo_remove r st)"
  using wf_stemcells_remove[of "CurrentStemcellID st" "Stemcells st" "sr_ID r"]
  by (auto simp: wf_state_def StemcellRepo_remove_def Let_def split: if_splits)

lemma remove_frame [simp]:
  "DirectorID (DiskRepo_remove r st) = DirectorID st"
  "record_ids (DiskRepo_remove r st) \<subseteq> record_ids st"
  "set (Disks (DiskRepo_remove r st)) \<subseteq> set (Disks st)"
  "DirectorID (StemcellRepo_remove q st) = DirectorID st"
  "record_ids (StemcellRepo_remove q st) \<subseteq> record_ids st"
  "Disks (StemcellRepo_remove q st) = Disks st"
  by (auto simp: DiskRepo_remove_def StemcellRepo_remove_def Let_def record_ids_def)

lemma keeps_simple_updates:
  "keeps (repo_inv p) (DeploymentRepo_UpdateCurrent p sha)"
  "keeps (repo_inv p) (VMRepo_UpdateCurrent p cid)"
  "keeps (repo_inv p) (VMRepo_ClearCurrent p)"
  "keeps (repo_inv p) (DiskRepo_ClearCurrent p)"
  "keeps (repo_inv p) (StemcellRepo_ClearCurrent p)"
  by (rule keeps_repo_inv, erule (1) DeploymentRepo_UpdateCurrent_writes VMRepo_UpdateCurrent_writes
        VMRepo_ClearCurrent_writes DiskRepo_ClearCurrent_writes StemcellRepo_ClearCurrent_writes,
      simp add: wf_state_def record_ids_def wf_disks_def wf_stemcells_def)+

lemma keeps_DiskRepo_Delete: "keeps (repo_inv p) (DiskRepo_Delete p r)"
  by (rule keeps_repo_inv, erule (1) DiskRepo_Delete_writes) (simp add: wf_DiskRepo_remove)

lemma keeps_StemcellRepo_Delete: "keeps (repo_inv p) (StemcellRepo_Delete p r)"
  by (rule keeps_repo_inv, erule (1) StemcellRepo_Delete_writes) (simp add: wf_StemcellRepo_remove)

section \<open>The operations that create or select records\<close>

text \<open>\<open>stores p w U g r w'\<close>: \<open>r\<close> is an error and nothing changed, or a value \<open>x\<close> with
  the state \<open>g x\<close> stored and the ids \<open>U x\<close> newly generated.\<close>

definition stores :: "string \<Rightarrow> world \<Rightarrow> ('a \<Rightarrow> string set) \<Rightarrow> ('a \<Rightarrow> bool) \<Rightarrow> ('a \<Rightarrow> DeploymentState)
    \<Rightarrow> 'a outcome \<Rightarrow> world \<Rightarrow> bool" where
  "stores p w U R g r w' \<longleftrightarrow> (case r of
      Ok x \<Rightarrow> R x \<and> (\<exists>v. ticked w v \<and> U x \<subseteq> generated w v \<and> saved p v (g x) w')
    | Err e \<Rightarrow> ticked w w' | _ \<Rightarrow> False)"

lemma stores_simps [simp]:
  "stores p w U R g (Ok x) w' \<longleftrightarrow> R x \<and> (\<exists>v. ticked w v \<and> U x \<subseteq> generated w v \<and> saved p v (g x) w')"
  "stores p w U R g (Err e) w' \<longleftrightarrow> ticked w w'"
  "\<not> stores p w U R g (Panic s) w'" "\<not> stores p w U R g Hang w'"
  by (simp_all add: stores_def)

lemma keeps_stores:
  assumes "\<And>w st. loaded p w st \<Longrightarrow> atomic_writes w \<Longrightarrow> wp m (stores p w U (R st) (g st)) w"
    and "\<And>w v st x. wf_state st \<Longrightarrow> fresh_ids w (record_ids st) \<Longrightarrow> loaded p w st \<Longrightarrow> R st x \<Longrightarrow> U x \<subseteq> generated w v \<Longrightarrow>
      wf_state (g st x) \<and> DirectorID (g st x) = DirectorID st \<and> storable (g st x) \<and>
      record_ids (g st x) \<subseteq> record_ids st \<union> U x"
  shows "keeps (repo_inv p) m"
proof (rule keepsI)
  fix w assume inv: "repo_inv p w"
  then obtain st where a: "atomic_writes w" and st: "loaded p w st" "wf_state st" "fresh_ids w (record_ids st)"
    by (auto simp: repo_inv_def)
  have "repo_inv p w'" if "stores p w U (R st) (g st) r w'" for r w'
  proof (cases r)
    case (Ok x)
    with that obtain v where v: "R st x" "ticked w v" "U x \<subseteq> generated w v" "saved p v (g st x) w'"
      by auto
    have "atomic_writes v" "DirectorID st \<noteq> ''''" using a v st by (simp_all add: atomic_writes_ticked loaded_def)
    then show ?thesis using assms(2)[OF st(2,3,1) v(1,3)] v
      by (intro repo_inv_saved[OF st(1,3) v(2) _ v(4)]) auto
  qed (use that inv in \<open>auto intro: repo_inv_ticked\<close>)
  then show "wp m (\<lambda>_. repo_inv p) w" by (rule wp_mono[OF assms(1)[OF st(1) a]])
qed

lemma DiskRepo_Save_stores:
  assumes "loaded p w st" "atomic_writes w"
  shows "wp (DiskRepo_Save p cid sz props) (stores p w (\<lambda>r. {dr_ID r})
    (\<lambda>r. r = \<lparr>dr_ID = dr_ID r, dr_CID = cid, dr_Size = sz, dr_CloudProperties = props\<rparr> \<and> cid \<notin> dr_CID ` set (Disks st))
    (\<lambda>r. st\<lparr>Disks := Disks st @ [r]\<rparr>)) w"
  unfolding DiskRepo_Save_def DiskRepo_load_def bnd_assoc bnd_ret prod.case
proof (rule Load_wp[OF assms(1)], goal_cases)
  case (1 w1)
  show ?case
  proof (cases "DiskRepo_find (Disks st) cid")
    case None
    then have "cid \<notin> dr_CID ` set (Disks st)" by (auto simp: DiskRepo_find_def find_None_iff)
    then show ?thesis unfolding None option.case Let_def
      apply (intro Generate_wp Save_wp[OF state_file.holds_ticked[OF 1(2)]])
      using 1 assms(2) by (auto simp: wp_simps atomic_writes_ticked intro: ticked_trans
          gen_savedI[where U = "{u}" for u, simplified])
  qed (use 1 in \<open>auto simp: wp_simps\<close>)
qed simp

lemma keeps_DiskRepo_Save:
  assumes "int64 sz"
  shows "keeps (repo_inv p) (DiskRepo_Save p cid sz props)"
proof (rule keeps_stores[OF DiskRepo_Save_stores], assumption, assumption, goal_cases)
  case (1 w v st r)
  then have "dr_ID r \<notin> record_ids st" "dr_ID r \<noteq> ''''"
    by (auto simp: generated_def fresh_ids_def)
  moreover have "dr_CID r = cid" "dr_Size r = sz" using 1 by (metis DiskRecord.select_convs)+
  ultimately show ?case using 1 assms
    by (auto simp: wf_state_def wf_disks_def record_ids_def storable_def loaded_def)
qed

lemma StemcellRepo_Save_stores:
  assumes "loaded p w st" "atomic_writes w"
  shows "wp (StemcellRepo_Save p name version cid) (stores p w (\<lambda>r. {sr_ID r})
    (\<lambda>r. r = \<lparr>sr_ID = sr_ID r, sr_Name = name, sr_Version = version, sr_CID = cid\<rparr>
         \<and> (name, version) \<notin> stemcell_key ` set (Stemcells st))
    (\<lambda>r. st\<lparr>Stemcells := Stemcells st @ [r]\<rparr>)) w"
  unfolding StemcellRepo_Save_def StemcellRepo_updateConfig_def bnd_assoc
proof (rule Load_wp[OF assms(1)], goal_cases)
  case (1 w1)
  show ?case
  proof (rule Generate_wp, goal_cases)
    case G: (1 u w2)
    note l2 = state_file.holds_ticked[OF 1(2) G(1)]
    show ?case
    proof (cases "(name, version) \<in> stemcell_key ` set (Stemcells st)")
      case True
      then show ?thesis using 1 G by (auto simp: wp_simps Let_def stemcell_key_def intro: ticked_trans)
    next
      case False
      then have N: "\<not> (\<exists>r\<in>set (Stemcells st). sr_Name r = name \<and> sr_Version r = version)"
        by (auto simp: stemcell_key_def)
      show ?thesis unfolding Let_def if_not_P[OF N] bnd_ret prod.case
        by (rule Save_wp[OF l2]) (use 1 G False assms(2) in \<open>auto simp: wp_ret atomic_writes_ticked
            intro: ticked_trans gen_savedI[where U = "{u}", simplified]\<close>)
    qed
  qed (use 1 in \<open>auto intro: ticked_trans\<close>)
qed simp

lemma keeps_StemcellRepo_Save: "keeps (repo_inv p) (StemcellRepo_Save p name version cid)"
proof (rule keeps_stores[OF StemcellRepo_Save_stores], assumption, assumption, goal_cases)
  case (1 w v st r)
  then have "sr_ID r \<notin> record_ids st" "sr_ID r \<noteq> ''''"
    by (auto simp: generated_def fresh_ids_def)
  moreover have "stemcell_key r = (name, version)"
    using 1 unfolding stemcell_key_def by (metis StemcellRecord.select_convs)
  ultimately show ?case using 1
    by (auto simp: wf_state_def wf_stemcells_def record_ids_def storable_def loaded_def)
qed

lemma DiskRepo_UpdateCurrent_stores:
  assumes "loaded p w st" "atomic_writes w"
  shows "wp (DiskRepo_UpdateCurrent p i) (stores p w (\<lambda>_. {}) (\<lambda>_. i \<in> dr_ID ` set (Disks st))
    (\<lambda>_. st\<lparr>CurrentDiskID := i\<rparr>)) w"
  unfolding DiskRepo_UpdateCurrent_def prog_norm
proof (rule Load_wp[OF assms(1)], goal_cases)
  case (1 w1)
  have "wp (seq (wrap msg (Save p st')) (ret ())) (stores p w (\<lambda>_. {}) (\<lambda>_. True) (\<lambda>_. st')) w1" for msg st'
    by (rule Save_wp[OF 1(2)]) (use 1 assms(2) in \<open>auto simp: wp_ret atomic_writes_ticked intro: ticked_trans\<close>)
  then show ?case using 1 by (auto simp: wp_fail)
qed simp

lemma StemcellRepo_UpdateCurrent_stores:
  assumes "loaded p w st" "atomic_writes w"
  shows "wp (StemcellRepo_UpdateCurrent p i) (stores p w (\<lambda>_. {}) (\<lambda>_. i \<in> sr_ID ` set (Stemcells st))
    (\<lambda>_. st\<lparr>CurrentStemcellID := i\<rparr>)) w"
  unfolding StemcellRepo_UpdateCurrent_def StemcellRepo_updateConfig_def prog_norm
proof (rule Load_wp[OF assms(1)], goal_cases)
  case (1 w1)
  have "wp (seq (wrap msg (Save p st')) (ret ())) (stores p w (\<lambda>_. {}) (\<lambda>_. True) (\<lambda>_. st')) w1" for msg st'
    by (rule Save_wp[OF 1(2)]) (use 1 assms(2) in \<open>auto simp: wp_ret atomic_writes_ticked intro: ticked_trans\<close>)
  then show ?case using 1 by (auto simp: wp_fail seq_check prog_norm)
qed simp

lemma keeps_UpdateCurrent:
  "keeps (repo_inv p) (DiskRepo_UpdateCurrent p i)" "keeps (repo_inv p) (StemcellRepo_UpdateCurrent p i)"
  by (rule keeps_stores, erule (1) DiskRepo_UpdateCurrent_stores StemcellRepo_UpdateCurrent_stores,
      auto simp: wf_state_def wf_disks_def wf_stemcells_def record_ids_def storable_def loaded_def)+


section \<open>The releases table\<close>

lemma generated_disjoint:
  assumes "fresh_ids w S" "ticked w v"
  shows "generated w v \<inter> generated v v' = {}"
proof (rule equals0I)
  fix u assume "u \<in> generated w v \<inter> generated v v'"
  moreover have "answers v = answers w" "tick w \<le> tick v" using assms(2) by (auto dest: ticked_frame)
  ultimately obtain n m where "n < tick v" "tick w \<le> n" "tick v \<le> m" "tick w \<le> m"
    "a_uuid (answers w n) = Inr u" "a_uuid (answers w m) = Inr u"
    by (auto simp: generated_def)
  then show False using assms(1) unfolding fresh_ids_def by (metis leD)
qed

lemma newRecords_wp:
  "wp (map_prog ReleaseRepo_newRecord nvs) (\<lambda>r w'. ticked w w' \<and> (case r of
      Ok rs \<Rightarrow> map (\<lambda>r. (rr_Name r, rr_Version r)) rs = nvs \<and> rr_ID ` set rs \<subseteq> generated w w'
             \<and> (fresh_ids w {} \<longrightarrow> distinct (map rr_ID rs))
    | Err e \<Rightarrow> True | _ \<Rightarrow> False)) w"
proof (induction nvs arbitrary: w)
  case Nil
  then show ?case by (simp add: wp_ret)
next
  case (Cons nv nvs)
  show ?case unfolding map_prog.simps ReleaseRepo_newRecord_def prog_norm
  proof (rule Generate_wp, goal_cases)
    case (1 u w1)
    have f: "fresh_ids w1 {}" if "fresh_ids w {}"
      by (rule fresh_ids_mono[OF that]) (use 1 in \<open>auto dest: ticked_frame\<close>)
    have g: "u \<in> generated w v" "u \<notin> generated w1 v \<or> \<not> fresh_ids w {}"
        "X \<subseteq> generated w1 v \<Longrightarrow> X \<subseteq> generated w v" if "ticked w1 v" for v X
      using 1 that generated_disjoint[of w "{}" w1 v] generated_mono[OF 1(1) that]
        generated_earlier[OF that 1(2)] by auto
    show ?case
      by (rule wp_bnd_rule[OF Cons.IH[of w1, unfolded ReleaseRepo_newRecord_def]])
        (use 1 f g in \<open>auto simp: wp_ret intro: ticked_trans\<close>)
  qed simp
qed

lemma ReleaseRepo_Update_stores:
  assumes "loaded p w st" "atomic_writes w" "fresh_ids w S"
  shows "wp (ReleaseRepo_Update p nvs) (\<lambda>r w'. \<exists>rs. stores p w (\<lambda>_. rr_ID ` set rs)
    (\<lambda>_. distinct (map rr_ID rs) \<and> map (\<lambda>r. (rr_Name r, rr_Version r)) rs = nvs)
    (\<lambda>_. st\<lparr>CurrentReleaseIDs := map rr_ID rs, Releases := rs\<rparr>) r w') w"
  unfolding ReleaseRepo_Update_def
proof (rule Load_wp[OF assms(1)], goal_cases)
  case (1 w1)
  have f: "fresh_ids w1 {}" by (rule fresh_ids_mono[OF assms(3)]) (use 1 in \<open>auto dest: ticked_frame\<close>)
  show ?case
  proof (rule wp_bnd_rule[OF newRecords_wp[of nvs w1]], goal_cases)
    case (1 rs w2)
    note t2 = \<open>ticked w w1\<close>[THEN ticked_trans, of w2]
    show ?case
      by (rule Save_wp[OF state_file.holds_ticked[OF \<open>loaded p w1 st\<close>]])
        (use 1 f t2 \<open>ticked w w1\<close> assms(2) in \<open>auto simp: wp_ret atomic_writes_ticked
          intro: ticked_trans gen_savedI intro!: exI[of _ rs]\<close>)
  qed (use 1 in \<open>auto intro: ticked_trans\<close>)
qed simp

lemma keeps_ReleaseRepo_Update: "keeps (repo_inv p) (ReleaseRepo_Update p nvs)"
proof (rule keepsI)
  fix w assume inv: "repo_inv p w"
  then obtain st where a: "atomic_writes w" and st: "loaded p w st" "wf_state st" "fresh_ids w (record_ids st)"
    by (auto simp: repo_inv_def)
  have "repo_inv p w'" if "stores p w (\<lambda>_. rr_ID ` set rs)
    (\<lambda>_. distinct (map rr_ID rs) \<and> map (\<lambda>r. (rr_Name r, rr_Version r)) rs = nvs)
    (\<lambda>_. st\<lparr>CurrentReleaseIDs := map rr_ID rs, Releases := rs\<rparr>) r w'" for rs r w'
  proof (cases r)
    case (Ok x)
    with that obtain v where v: "ticked w v" "rr_ID ` set rs \<subseteq> generated w v" "distinct (map rr_ID rs)"
      "saved p v (st\<lparr>CurrentReleaseIDs := map rr_ID rs, Releases := rs\<rparr>) w'" by auto
    have "'''' \<notin> rr_ID ` set rs" using v(2) st(3) by (auto simp: generated_def fresh_ids_def)
    then show ?thesis using st v a
      by (intro repo_inv_saved[OF st(1,3) v(1) _ v(4)])
        (auto simp: wf_state_def wf_releases_def record_ids_def storable_def loaded_def atomic_writes_ticked)
  qed (use that inv in \<open>auto intro: repo_inv_ticked\<close>)
  then show "wp (ReleaseRepo_Update p nvs) (\<lambda>_. repo_inv p) w"
    by (intro wp_mono[OF ReleaseRepo_Update_stores[OF st(1) a st(3)]]) blast
qed

end
