(* ===== verification/RepoSteps.thy ===== *)
theory RepoSteps
  imports Repos
begin

text \<open>
  The life of a state file: the first load creates it, and from then on the operations of the
  repositories run in any order, each failing or succeeding on its own, between steps of the
  rest of the program that leave the file alone. Every state reached this way is well
  formed.
\<close>

section \<open>The operations as steps\<close>

datatype repo_op =
    OpUpdateManifestSHA1 string
  | OpUpdateVM string
  | OpClearVM
  | OpSaveDisk string int "gomap option"
  | OpUpdateDisk string
  | OpClearDisk
  | OpDeleteDisk DiskRecord
  | OpSaveStemcell string string string
  | OpUpdateStemcell string
  | OpClearStemcell
  | OpDeleteStemcell StemcellRecord
  | OpUpdateReleases "(string \<times> string) list"

fun run_op :: "string \<Rightarrow> repo_op \<Rightarrow> (world, unit) prog" where
  "run_op p (OpUpdateManifestSHA1 sha) = DeploymentRepo_UpdateCurrent p sha"
| "run_op p (OpUpdateVM cid) = VMRepo_UpdateCurrent p cid"
| "run_op p OpClearVM = VMRepo_ClearCurrent p"
| "run_op p (OpSaveDisk cid sz props) = bnd (DiskRepo_Save p cid sz props) (\<lambda>_. ret ())"
| "run_op p (OpUpdateDisk i) = DiskRepo_UpdateCurrent p i"
| "run_op p OpClearDisk = DiskRepo_ClearCurrent p"
| "run_op p (OpDeleteDisk r) = DiskRepo_Delete p r"
| "run_op p (OpSaveStemcell name version cid) = bnd (StemcellRepo_Save p name version cid) (\<lambda>_. ret ())"
| "run_op p (OpUpdateStemcell i) = StemcellRepo_UpdateCurrent p i"
| "run_op p OpClearStemcell = StemcellRepo_ClearCurrent p"
| "run_op p (OpDeleteStemcell r) = StemcellRepo_Delete p r"
| "run_op p (OpUpdateReleases nvs) = ReleaseRepo_Update p nvs"

text \<open>Sizes are Go ints.\<close>

fun op_ok :: "repo_op \<Rightarrow> bool" where
  "op_ok (OpSaveDisk cid sz props) = int64 sz"
| "op_ok _ = True"

inductive repo_reachable :: "string \<Rightarrow> world \<Rightarrow> world \<Rightarrow> bool" for p w0 where
  loaded_first: "Load p w0 = (Ok st, w) \<Longrightarrow> repo_reachable p w0 w"
| operation: "repo_reachable p w0 w \<Longrightarrow> op_ok x \<Longrightarrow> run_op p x w = (r, w') \<Longrightarrow> repo_reachable p w0 w'"
| elsewhere: "repo_reachable p w0 w \<Longrightarrow> files w' p = files w p \<Longrightarrow> answers w' = answers w \<Longrightarrow> tick w \<le> tick w' \<Longrightarrow>
    repo_reachable p w0 w'"

inductive_cases repo_reachableE: "repo_reachable p w0 w"

section \<open>The invariant along the steps\<close>

lemma first_load:
  assumes "files w p = None" "p \<noteq> ''''" "fresh_ids w {}" "atomic_writes w"
  shows "wp (Load p) (\<lambda>r w'. case r of Ok st \<Rightarrow> repo_inv p w' | Err e \<Rightarrow> True | _ \<Rightarrow> False) w"
proof -
  have S: "wp (wrap m (Save p st)) (\<lambda>r v. (r = Ok () \<and> saved p w1 st v) \<or> (\<exists>e. r = Err e)) w1"
    if "atomic_writes w1" for m st w1
    unfolding wp_wrap by (rule wp_mono[OF Save_saved[OF assms(2) that]]) auto
  have I: "repo_inv p v" if t: "ticked w w1" and u: "u \<in> generated w w1"
      and s: "saved p w1 (zero_state\<lparr>DirectorID := u\<rparr>) v" for w1 v u
  proof -
    have "u \<noteq> ''''" using u assms(3) by (auto simp: generated_def fresh_ids_def)
    then have "loaded p v (zero_state\<lparr>DirectorID := u\<rparr>)"
      using assms(2) saved_frame(7)[OF s] by (simp add: loaded_def zero_state_def storable_def reload_state_def)
    moreover have "fresh_ids v {}"
      by (rule fresh_ids_mono[OF assms(3)]) (use t saved_frame(1,4)[OF s] in \<open>auto dest: ticked_frame\<close>)
    moreover have "atomic_writes v" using assms(4) t saved_frame(5)[OF s] by (simp add: atomic_writes_ticked)
    ultimately show ?thesis
      by (auto simp: repo_inv_def wf_state_def wf_disks_def wf_stemcells_def wf_releases_def record_ids_def zero_state_def)
  qed
  have "wp (wrap m (initDefaults p zero_state)) (\<lambda>r w'. case r of Ok st \<Rightarrow> repo_inv p w' | Err e \<Rightarrow> True | _ \<Rightarrow> False) w" for m
    unfolding wp_wrap initDefaults_def zero_state_def[THEN arg_cong[of _ _ DirectorID], simplified] Let_def if_P[OF refl]
  proof (rule Generate_wp, goal_cases)
    case (1 u w1)
    have "atomic_writes w1" using 1 assms(4) by (simp add: atomic_writes_ticked)
    then show ?case
      by (intro wp_seq_rule[OF S]) (auto simp: wp_ret intro: I[OF 1])
  qed simp
  then show ?thesis
    using assms(1,2) by (simp add: Load_def FileExists_def wp_simps cong: outcome.case_cong)
qed

lemma keeps_run_op: "op_ok x \<Longrightarrow> keeps (repo_inv p) (run_op p x)"
  by (cases x) (auto intro!: keeps_simple_updates keeps_DiskRepo_Delete keeps_StemcellRepo_Delete
      keeps_DiskRepo_Save keeps_StemcellRepo_Save keeps_UpdateCurrent keeps_ReleaseRepo_Update keeps_intros)

lemma repo_inv_elsewhere:
  assumes "repo_inv p w" "files w' p = files w p" "answers w' = answers w" "tick w \<le> tick w'"
  shows "repo_inv p w'"
proof -
  obtain st where st: "loaded p w st" "wf_state st" "fresh_ids w (record_ids st)" "atomic_writes w"
    using assms(1) by (auto simp: repo_inv_def)
  have "fresh_ids w' (record_ids st)" by (rule fresh_ids_mono[OF st(3) assms(3,4)]) simp
  then show ?thesis using st assms(2,3) by (auto simp: repo_inv_def loaded_def atomic_writes_def)
qed

lemma repo_reachable_inv:
  assumes "repo_reachable p w0 w" "files w0 p = None" "p \<noteq> ''''" "fresh_ids w0 {}" "atomic_writes w0"
  shows "repo_inv p w"
  using assms(1)
proof induction
  case (loaded_first st w)
  then show ?case using wpD[OF first_load[OF assms(2-5)]] by fastforce
next
  case (operation w x r w')
  then show ?case by (blast intro: keeps_snd keeps_run_op)
next
  case (elsewhere w w')
  then show ?case by (blast intro: repo_inv_elsewhere)
qed

end
