(* ===== verification/PackageGraph.thy ===== *)
theory PackageGraph
  imports Prelude
begin

text \<open>
  Packages and their dependency graph (release/pkg/package.go) and the resolution of
  a package's dependencies (state/pkg/resolve_dependencies.go). Packages are compared
  by pointer in the code, so a package is an address into a heap of package records.
  The theory shows that the resolution returns exactly the packages reachable from
  the given one, each once, and that it ends on every finite heap, cycles included.
\<close>

section \<open>The package heap\<close>

record Package =
  pk_Name :: string
  pk_Fingerprint :: string
  pk_SHA1 :: string
  pk_Stemcell :: string
  pk_Dependencies :: "nat list"
  pk_ExtractedPath :: string
  pk_ArchivePath :: string

type_synonym heap = "Package list"

definition deps :: "heap \<Rightarrow> nat \<Rightarrow> nat list" where
  "deps h a = (if a < length h then pk_Dependencies (h ! a) else [])"

definition wf_heap :: "heap \<Rightarrow> bool" where
  "wf_heap h \<longleftrightarrow> (\<forall>p \<in> set h. \<forall>d \<in> set (pk_Dependencies p). d < length h)"

lemma deps_bound: "wf_heap h \<Longrightarrow> d \<in> set (deps h a) \<Longrightarrow> d < length h"
  by (auto simp: wf_heap_def deps_def split: if_splits)

definition edges :: "heap \<Rightarrow> (nat \<times> nat) set" where
  "edges h = {(a, d). d \<in> set (deps h a)}"

section \<open>state/pkg/resolve\_dependencies.go\<close>

definition pkg_contains :: "nat list \<Rightarrow> nat \<Rightarrow> bool" where
  "pkg_contains xs x \<longleftrightarrow> x \<in> set xs"

definition joinUnique :: "nat list \<Rightarrow> nat list \<Rightarrow> nat list" where
  "joinUnique a b = a @ filter (\<lambda>x. \<not> pkg_contains a x) b"

text \<open>
  \<open>reverse\<close>: the loop swaps the elements at \<open>i\<close> and \<open>len - 1 - i\<close>, for \<open>i\<close> from
  \<open>len div 2 - 1\<close> down to 0; \<open>k\<close> counts the indices left.
\<close>

primrec reverse_loop :: "nat \<Rightarrow> nat list \<Rightarrow> nat list" where
  "reverse_loop 0 a = a"
| "reverse_loop (Suc i) a =
     (let opp = length a - 1 - i in reverse_loop i (a[i := a ! opp, opp := a ! i]))"

definition reverse :: "nat list \<Rightarrow> nat list" where
  "reverse a = reverse_loop (length a div 2) a"

text \<open>
  The loop that removes the package itself. \<^verbatim>\<open>range all\<close> goes over the original slice,
  while \<^verbatim>\<open>append(all[:i], all[i+1:]...)\<close> shifts the elements in the same backing
  array: \<open>arr\<close> is that array, \<open>len\<close> the length of the shrinking slice \<^verbatim>\<open>all\<close>, and a slice
  expression \<^verbatim>\<open>all[i+1:]\<close> beyond it panics (\<open>None\<close>).
\<close>

function remove_loop :: "nat \<Rightarrow> nat \<Rightarrow> nat list \<Rightarrow> nat \<Rightarrow> nat list option" where
  "remove_loop p i arr len =
     (if i < length arr then
        (if arr ! i = p then
           (if len < i + 1 then None
            else remove_loop p (i + 1)
                   (take i arr @ drop (i + 1) (take len arr) @ drop (len - 1) arr) (len - 1))
         else remove_loop p (i + 1) arr len)
      else Some (take len arr))"
  by pat_completeness auto
termination
  by (relation "measure (\<lambda>(p, i, arr, len). (length arr - i) + (if length arr < len then len - length arr else 0))") auto

declare remove_loop.simps [simp del]

text \<open>
  \<^verbatim>\<open>resolveInner\<close>, its recursion bounded by a fuel: \<open>None\<close> is a panic or fuel that
  ran out, and neither happens with more fuel than there are packages.
\<close>

primrec dep_loop :: "(nat \<Rightarrow> nat list \<Rightarrow> nat list option) \<Rightarrow> nat list \<Rightarrow> nat list \<Rightarrow> nat list \<Rightarrow> nat list option" where
  "dep_loop inner noFollow [] all = Some all"
| "dep_loop inner noFollow (depPkg # ds) all =
     (if \<not> pkg_contains all depPkg \<and> \<not> pkg_contains noFollow depPkg then
        let all' = all @ [depPkg] in
        (case inner depPkg (joinUnique all' noFollow) of
           None \<Rightarrow> None
         | Some tDeps \<Rightarrow> dep_loop inner noFollow ds (all' @ tDeps))
      else dep_loop inner noFollow ds all)"

primrec resolveInner :: "nat \<Rightarrow> heap \<Rightarrow> nat \<Rightarrow> nat list \<Rightarrow> nat list option" where
  "resolveInner 0 h p noFollow = None"
| "resolveInner (Suc n) h p noFollow =
     (case dep_loop (resolveInner n h) noFollow (deps h p) [] of
        None \<Rightarrow> None
      | Some all \<Rightarrow> remove_loop p 0 all (length all))"

definition ResolveDependencies :: "heap \<Rightarrow> nat \<Rightarrow> nat list option" where
  "ResolveDependencies h p = map_option reverse (resolveInner (Suc (length h)) h p [])"

section \<open>Its correctness\<close>

lemma set_joinUnique [simp]: "set (joinUnique a b) = set a \<union> set b"
  by (auto simp: joinUnique_def pkg_contains_def)

lemma reverse_loop_swap: "length xs = k \<Longrightarrow> length ys = k \<Longrightarrow> reverse_loop k (xs @ m @ ys) = rev ys @ m @ rev xs"
proof (induction k arbitrary: xs ys m)
  case (Suc i)
  obtain xs' x where xs: "xs = xs' @ [x]" "length xs' = i" using Suc.prems(1) by (cases xs rule: rev_cases) auto
  obtain y ys' where ys: "ys = y # ys'" "length ys' = i" using Suc.prems(2) by (cases ys) auto
  let ?a = "xs @ m @ ys"
  have "?a ! i = x" "?a ! (length ?a - 1 - i) = y" by (simp_all add: xs ys nth_append)
  moreover have "?a[i := y, length ?a - 1 - i := x] = xs' @ (y # m @ [x]) @ ys'"
    by (simp add: xs ys list_update_append)
  ultimately show ?case using Suc.IH[OF xs(2) ys(2), of "y # m @ [x]"] by (simp add: Let_def xs(1) ys(1))
qed simp

lemma reverse_rev [simp]: "reverse a = rev a"
proof -
  let ?k = "length a div 2"
  define xs m ys where "xs = take ?k a" and "m = take (length a - 2 * ?k) (drop ?k a)"
    and "ys = drop (length a - 2 * ?k) (drop ?k a)"
  have a: "a = xs @ m @ ys" unfolding xs_def m_def ys_def by (metis append_take_drop_id)
  have k: "length xs = ?k" "length ys = ?k" "length m \<le> 1" by (auto simp: xs_def ys_def m_def)
  then have "rev m = m" by (cases m) auto
  then show ?thesis using reverse_loop_swap[OF k(1,2), of m] unfolding reverse_def a[symmetric]
    by (subst (2) a) simp
qed

lemma remove_loop_absent: "\<forall>j. i \<le> j \<and> j < length arr \<longrightarrow> arr ! j \<noteq> p \<Longrightarrow> remove_loop p i arr len = Some (take len arr)"
proof (induction "length arr - i" arbitrary: i)
  case 0
  then show ?case by (subst remove_loop.simps) simp
next
  case (Suc n)
  then have "remove_loop p (i + 1) arr len = Some (take len arr)" "arr ! i \<noteq> p" "i < length arr" by auto
  then show ?case by (subst remove_loop.simps) simp
qed

lemma remove_loop_found:
  assumes "distinct arr" "j < length arr" "arr ! j = p"
  shows "i \<le> j \<Longrightarrow> remove_loop p i arr (length arr) = Some (take j arr @ drop (Suc j) arr)"
proof (induction "j - i" arbitrary: i)
  case 0
  then have i: "i = j" by simp
  let ?B = "drop (j + 1) arr @ drop (length arr - 1) arr"
  have p: "p \<notin> set (drop (Suc j) arr)"
    using assms by (metis Cons_nth_drop_Suc distinct.simps(2) distinct_drop)
  have "(take j arr @ ?B) ! k \<noteq> p" if k: "j + 1 \<le> k" "k < length (take j arr @ ?B)" for k
  proof -
    have "Suc j < length arr" using k assms(2) by auto
    then have "set ?B \<subseteq> set (drop (Suc j) arr)"
      using set_drop_subset_set_drop[of "Suc j" "length arr - 1" arr] by auto
    moreover have "(take j arr @ ?B) ! k = ?B ! (k - j)" "k - j < length ?B"
      using k assms(2) by (auto simp: nth_append)
    moreover have "?B ! (k - j) \<in> set ?B" using calculation(3) by (rule nth_mem)
    ultimately show ?thesis using p by auto
  qed
  then have "remove_loop p (j + 1) (take j arr @ ?B) (length arr - 1) = Some (take (length arr - 1) (take j arr @ ?B))"
    by (intro remove_loop_absent) auto
  moreover have "take (length arr - 1) (take j arr @ ?B) = take j arr @ drop (Suc j) arr"
    using assms(2) by simp
  ultimately show ?case unfolding i using assms(2,3) by (subst remove_loop.simps) simp
next
  case (Suc k)
  then have "arr ! i \<noteq> p" "i < length arr" "i + 1 \<le> j" "k = j - (i + 1)" using assms by (auto simp: nth_eq_iff_index_eq)
  then show ?case using Suc.hyps(1)[of "i + 1"] by (subst remove_loop.simps) simp
qed

lemma remove_loop_distinct: "distinct arr \<Longrightarrow> remove_loop p 0 arr (length arr) = Some (filter (\<lambda>x. x \<noteq> p) arr)"
proof (cases "p \<in> set arr")
  case True
  assume d: "distinct arr"
  obtain j where j: "j < length arr" "arr ! j = p" using True by (auto simp: in_set_conv_nth)
  have s: "arr = take j arr @ p # drop (Suc j) arr" using j id_take_nth_drop[of j arr] by simp
  have "p \<notin> set (take j arr) \<union> set (drop (Suc j) arr)" using d by (subst (asm) s) auto
  then have "filter (\<lambda>x. x \<noteq> p) (take j arr) = take j arr"
      "filter (\<lambda>x. x \<noteq> p) (drop (Suc j) arr) = drop (Suc j) arr"
    by (auto intro!: filter_True)
  then have "filter (\<lambda>x. x \<noteq> p) arr = take j arr @ drop (Suc j) arr"
    by (subst s) simp
  then show ?thesis using remove_loop_found[OF d j] by simp
next
  case False
  then have "filter (\<lambda>x. x \<noteq> p) arr = arr" by (auto simp: filter_id_conv)
  then show ?thesis using False remove_loop_absent[of 0 arr p "length arr"] by (auto simp: in_set_conv_nth)
qed

text \<open>
  What the packages collected so far satisfy: none twice, none forbidden, each
  reachable, and closed under dependencies up to the forbidden ones.
\<close>

definition dfs_inv :: "heap \<Rightarrow> nat \<Rightarrow> nat list \<Rightarrow> nat list \<Rightarrow> bool" where
  "dfs_inv h p nf all \<longleftrightarrow> distinct all \<and> set all \<inter> set nf = {}
     \<and> (\<forall>x \<in> set all. (p, x) \<in> (edges h)\<^sup>+ \<and> set (deps h x) \<subseteq> set all \<union> set nf)"

lemma dfs_inv_step:
  assumes all: "dfs_inv h p nf all" and dep: "dep \<in> set (deps h p)" "dep \<notin> set all" "dep \<notin> set nf"
    and R: "dfs_inv h dep (joinUnique (all @ [dep]) nf) R" "set (deps h dep) \<subseteq> set R \<union> set (joinUnique (all @ [dep]) nf)"
  shows "dfs_inv h p nf (all @ [dep] @ R)"
proof -
  have "(p, dep) \<in> edges h" using dep(1) by (simp add: edges_def)
  then have "(p, x) \<in> (edges h)\<^sup>+" if "x \<in> set R" for x
    using R(1) that by (auto simp: dfs_inv_def intro: trancl_into_trancl2)
  then show ?thesis using assms \<open>(p, dep) \<in> edges h\<close> by (fastforce simp: dfs_inv_def)
qed

lemma dep_loop_ok:
  assumes inner: "\<And>dep nf'. dep \<in> set (deps h p) \<Longrightarrow> dep \<in> set nf' \<Longrightarrow> dep \<notin> set nf \<Longrightarrow> set nf \<subseteq> set nf' \<Longrightarrow>
      \<exists>R. inner dep nf' = Some (filter (\<lambda>x. x \<noteq> dep) R) \<and> dfs_inv h dep nf' R
        \<and> set (deps h dep) \<subseteq> set R \<union> set nf'"
  shows "set ds \<subseteq> set (deps h p) \<Longrightarrow> dfs_inv h p nf all \<Longrightarrow>
    \<exists>all'. dep_loop inner nf ds all = Some all' \<and> dfs_inv h p nf all' \<and> set all \<union> set ds \<subseteq> set all' \<union> set nf"
proof (induction ds arbitrary: all)
  case (Cons d ds)
  show ?case
  proof (cases "d \<in> set all \<or> d \<in> set nf")
    case True
    then show ?thesis using Cons.IH[of all] Cons.prems by (auto simp: pkg_contains_def)
  next
    case False
    let ?nf = "joinUnique (all @ [d]) nf"
    obtain R where R: "inner d ?nf = Some (filter (\<lambda>x. x \<noteq> d) R)" "dfs_inv h d ?nf R"
        "set (deps h d) \<subseteq> set R \<union> set ?nf"
      using inner[of d ?nf] Cons.prems(1) False by auto
    have "filter (\<lambda>x. x \<noteq> d) R = R" using R(2) by (auto simp: dfs_inv_def filter_id_conv)
    moreover have "dfs_inv h p nf (all @ [d] @ R)"
      using dfs_inv_step[OF Cons.prems(2) _ _ _ R(2,3)] Cons.prems(1) False by auto
    ultimately show ?thesis using Cons.IH[of "all @ [d] @ R"] Cons.prems(1) False R(1)
      by (auto simp: pkg_contains_def)
  qed
qed simp

lemma resolveInner_ok:
  "wf_heap h \<Longrightarrow> card ({..<length h} - set nf) < n \<Longrightarrow>
   \<exists>all. resolveInner n h p nf = Some (filter (\<lambda>x. x \<noteq> p) all) \<and> dfs_inv h p nf all
     \<and> set (deps h p) \<subseteq> set all \<union> set nf"
proof (induction n arbitrary: p nf)
  case (Suc n)
  have "\<exists>R. resolveInner n h dep nf' = Some (filter (\<lambda>x. x \<noteq> dep) R) \<and> dfs_inv h dep nf' R
        \<and> set (deps h dep) \<subseteq> set R \<union> set nf'"
    if "dep \<in> set (deps h p)" "dep \<in> set nf'" "dep \<notin> set nf" "set nf \<subseteq> set nf'" for dep nf'
  proof (rule Suc.IH[OF Suc.prems(1)])
    have "dep < length h" using deps_bound[OF Suc.prems(1) that(1)] .
    then have "{..<length h} - set nf' \<subset> {..<length h} - set nf" using that by auto
    then show "card ({..<length h} - set nf') < n"
      using psubset_card_mono[of "{..<length h} - set nf" "{..<length h} - set nf'"] Suc.prems(2) by simp
  qed
  then obtain all where "dep_loop (resolveInner n h) nf (deps h p) [] = Some all" "dfs_inv h p nf all"
      "set (deps h p) \<subseteq> set all \<union> set nf"
    using dep_loop_ok[of h p nf "resolveInner n h" "deps h p" "[]"] by (auto simp: dfs_inv_def)
  then show ?case by (auto simp: remove_loop_distinct dfs_inv_def)
qed simp

lemma closed_reachable:
  assumes "set (deps h p) \<subseteq> A" "\<forall>x \<in> A. set (deps h x) \<subseteq> A" "(p, x) \<in> (edges h)\<^sup>+"
  shows "x \<in> A"
  using assms(3) by (induction rule: trancl_induct) (use assms(1,2) in \<open>auto simp: edges_def\<close>)

lemma ResolveDependencies_spec:
  assumes "wf_heap h"
  shows "\<exists>ds. ResolveDependencies h p = Some ds \<and> distinct ds \<and> set ds = {x. (p, x) \<in> (edges h)\<^sup>+} - {p}"
proof -
  obtain all where all: "resolveInner (Suc (length h)) h p [] = Some (filter (\<lambda>x. x \<noteq> p) all)"
      "dfs_inv h p [] all" "set (deps h p) \<subseteq> set all"
    using resolveInner_ok[OF assms, of "[]" "Suc (length h)" p] by auto
  have "set all = {x. (p, x) \<in> (edges h)\<^sup>+}"
    using closed_reachable[OF all(3), of] all(2) by (auto simp: dfs_inv_def)
  then show ?thesis using all(1,2) by (auto simp: ResolveDependencies_def dfs_inv_def)
qed

end
