(* ===== verification/PackageSort.thy ===== *)
theory PackageSort
  imports PackageGraph
begin

text \<open>
  The topological sort of release packages (release/pkg/sort.go). Go leaves the
  iteration order over the map of incoming edges open, so it is an argument of the
  model (any enumeration of the keys), and the theorems hold for each. Shown: the
  sort never panics and ends; it returns every package and direct dependency once,
  each before its dependents, or the circular-dependency error exactly when the
  edges have a cycle.
\<close>

section \<open>release/pkg/sort.go\<close>

type_synonym edge_map = "nat \<rightharpoonup> nat list"

definition edge_get :: "edge_map \<Rightarrow> nat \<Rightarrow> nat list" where
  "edge_get m k = (case m k of None \<Rightarrow> [] | Some l \<Rightarrow> l)"

definition add_edge :: "nat \<Rightarrow> edge_map \<times> edge_map \<Rightarrow> nat \<Rightarrow> edge_map \<times> edge_map" where
  "add_edge p em dep = (case em of (incoming, outgoing) \<Rightarrow>
     (incoming(dep \<mapsto> edge_get incoming dep @ [p]), outgoing(p \<mapsto> edge_get outgoing p @ [dep])))"

definition getEdgeMaps :: "heap \<Rightarrow> nat list \<Rightarrow> edge_map \<times> edge_map" where
  "getEdgeMaps h releasePackages =
     (let incoming0 = foldl (\<lambda>m p. m(p \<mapsto> [])) Map.empty releasePackages
      in foldl (\<lambda>em p. foldl (add_edge p) em (deps h p)) (incoming0, Map.empty) releasePackages)"

text \<open>\<open>None\<close> is the panic.\<close>

fun removeFromList :: "nat list \<Rightarrow> nat \<Rightarrow> nat list option" where
  "removeFromList [] p = None"
| "removeFromList (e # es) p = (if e = p then Some es else map_option ((#) e) (removeFromList es p))"

primrec drop_edges :: "nat \<Rightarrow> nat list \<Rightarrow> edge_map \<Rightarrow> nat list \<Rightarrow> (edge_map \<times> nat list) option" where
  "drop_edges elem [] incoming queue = Some (incoming, queue)"
| "drop_edges elem (p # ps) incoming queue =
     (case removeFromList (edge_get incoming p) elem of
        None \<Rightarrow> None
      | Some l \<Rightarrow> drop_edges elem ps (incoming(p \<mapsto> l)) (if l = [] then queue @ [p] else queue))"

primrec sort_loop :: "nat \<Rightarrow> edge_map \<Rightarrow> edge_map \<Rightarrow> nat list \<Rightarrow> nat list \<Rightarrow> (edge_map \<times> nat list) option" where
  "sort_loop 0 outgoing incoming queue sortedPkgs = None"
| "sort_loop (Suc n) outgoing incoming queue sortedPkgs =
     (case queue of
        [] \<Rightarrow> Some (incoming, sortedPkgs)
      | elem # queue' \<Rightarrow>
          (case drop_edges elem (edge_get outgoing elem) incoming queue' of
             None \<Rightarrow> None
           | Some (incoming', queue'') \<Rightarrow> sort_loop n outgoing incoming' queue'' (elem # sortedPkgs)))"

definition circular_error :: goerr where
  "circular_error = Errorf ''Circular dependency detected while sorting packages'' []"

text \<open>\<open>order\<close> enumerates the keys of \<open>incoming\<close>; the fuel is one more than their number.\<close>

definition Sort :: "heap \<Rightarrow> nat list \<Rightarrow> nat list \<Rightarrow> (goerr + nat list) option" where
  "Sort h order releasePackages =
     (let (incoming, outgoing) = getEdgeMaps h releasePackages;
          noIncoming = filter (\<lambda>p. edge_get incoming p = []) order
      in case sort_loop (Suc (length order)) outgoing incoming noIncoming [] of
           None \<Rightarrow> None
         | Some (incoming', sortedPkgs) \<Rightarrow>
             Some (if \<exists>p \<in> set order. edge_get incoming' p \<noteq> [] then Inl circular_error else Inr sortedPkgs))"

definition sort_keys :: "heap \<Rightarrow> nat list \<Rightarrow> nat set" where
  "sort_keys h ps = set ps \<union> (\<Union>p \<in> set ps. set (deps h p))"

definition sort_edges :: "heap \<Rightarrow> nat list \<Rightarrow> (nat \<times> nat) set" where
  "sort_edges h ps = {(p, d). p \<in> set ps \<and> d \<in> set (deps h p)}"

section \<open>The edge maps\<close>

text \<open>The incoming edges of \<open>d\<close> are the list of its dependents, with multiplicity.\<close>

definition dependents :: "heap \<Rightarrow> nat list \<Rightarrow> nat \<Rightarrow> nat list" where
  "dependents h ps d = concat (map (\<lambda>p. map (\<lambda>_. p) (filter (\<lambda>x. x = d) (deps h p))) ps)"

definition outgoing_of :: "heap \<Rightarrow> nat list \<Rightarrow> nat \<Rightarrow> nat list" where
  "outgoing_of h ps p = concat (map (\<lambda>q. if q = p then deps h q else []) ps)"

lemma edge_get_upd [simp]: "edge_get (m(k \<mapsto> v)) j = (if j = k then v else edge_get m j)"
  by (simp add: edge_get_def)

lemma add_edges_fold:
  "foldl (add_edge p) em ds = em' \<Longrightarrow>
   edge_get (fst em') d = edge_get (fst em) d @ map (\<lambda>_. p) (filter (\<lambda>x. x = d) ds)
   \<and> edge_get (snd em') q = edge_get (snd em) q @ (if q = p then ds else [])"
  by (induction ds arbitrary: em) (auto simp: add_edge_def split: prod.splits)

lemma all_edges_fold:
  "edge_get (fst (foldl (\<lambda>em p. foldl (add_edge p) em (deps h p)) em ps)) d = edge_get (fst em) d @ dependents h ps d
   \<and> edge_get (snd (foldl (\<lambda>em p. foldl (add_edge p) em (deps h p)) em ps)) q = edge_get (snd em) q @ outgoing_of h ps q"
proof (induction ps arbitrary: em)
  case (Cons p ps)
  show ?case using Cons.IH[of "foldl (add_edge p) em (deps h p)"] add_edges_fold[OF refl, of p em "deps h p"]
    by (auto simp: dependents_def outgoing_of_def)
qed (simp add: dependents_def outgoing_of_def)

lemma empty_fold: "edge_get (foldl (\<lambda>m p. m(p \<mapsto> [])) m ps) d = (if d \<in> set ps then [] else edge_get m d)"
  by (induction ps arbitrary: m) auto

lemma edge_get_empty [simp]: "edge_get Map.empty d = []"
  by (simp add: edge_get_def)

lemma edge_maps:
  assumes "getEdgeMaps h ps = (incoming, outgoing)"
  shows "edge_get incoming d = dependents h ps d" "edge_get outgoing p = outgoing_of h ps p"
  using assms all_edges_fold[of h "(foldl (\<lambda>m p. m(p \<mapsto> [])) Map.empty ps, Map.empty)" ps d p]
  by (simp_all add: getEdgeMaps_def Let_def empty_fold)

lemma dom_incoming:
  assumes "getEdgeMaps h ps = (incoming, outgoing)"
  shows "dom incoming = sort_keys h ps"
proof -
  have add: "dom (fst (foldl (add_edge p) em ds)) = dom (fst em) \<union> set ds" for p em ds
    by (induction ds arbitrary: em) (auto simp: add_edge_def split: prod.splits)
  have "dom (fst (foldl (\<lambda>em p. foldl (add_edge p) em (deps h p)) em qs)) = dom (fst em) \<union> (\<Union>p \<in> set qs. set (deps h p))" for em qs
    by (induction qs arbitrary: em) (auto simp: add)
  moreover have "dom (foldl (\<lambda>m p. m(p \<mapsto> [])) m qs) = dom m \<union> set qs" for m :: edge_map and qs
    by (induction qs arbitrary: m) auto
  moreover have "incoming = fst (foldl (\<lambda>em p. foldl (add_edge p) em (deps h p))
      (foldl (\<lambda>m p. m(p \<mapsto> [])) Map.empty ps, Map.empty) ps)"
    using assms by (simp add: getEdgeMaps_def)
  ultimately show ?thesis by (simp add: sort_keys_def)
qed

lemma count_edges: "count_list (dependents h ps d) p = count_list (outgoing_of h ps p) d"
proof (induction ps)
  case (Cons q ps)
  have "count_list (map (\<lambda>_. q) (filter (\<lambda>x. x = d) l)) p = (if q = p then count_list l d else 0)" for l
    by (induction l) auto
  then show ?case using Cons by (auto simp: dependents_def outgoing_of_def)
qed (simp add: dependents_def outgoing_of_def)

lemma set_dependents: "p \<in> set (dependents h ps d) \<longleftrightarrow> (p, d) \<in> sort_edges h ps"
  by (auto simp: dependents_def sort_edges_def)

lemma set_outgoing: "d \<in> set (outgoing_of h ps p) \<longleftrightarrow> (p, d) \<in> sort_edges h ps"
  by (auto simp: outgoing_of_def sort_edges_def)

section \<open>The sort\<close>

text \<open>\<open>topo R xs\<close>: every \<open>R\<close>-predecessor of an element stands after it.\<close>

primrec topo :: "(nat \<times> nat) set \<Rightarrow> nat list \<Rightarrow> bool" where
  "topo R [] = True"
| "topo R (x # xs) = ((\<forall>p. (p, x) \<in> R \<longrightarrow> p \<in> set xs) \<and> topo R xs)"

lemma topo_pred1: "topo R xs \<Longrightarrow> x \<in> set xs \<Longrightarrow> (p, x) \<in> R \<Longrightarrow> p \<in> set xs"
  by (induction xs) auto

lemma topo_pred:
  assumes "topo R xs" "x \<in> set xs" "(p, x) \<in> R\<^sup>+"
  shows "p \<in> set xs"
  using assms(3) by (induction rule: converse_trancl_induct) (use assms(1,2) topo_pred1 in fast)+

lemma topo_acyclic: "topo R xs \<Longrightarrow> distinct xs \<Longrightarrow> x \<in> set xs \<Longrightarrow> (x, x) \<notin> R\<^sup>+"
proof (induction xs)
  case (Cons y xs)
  show ?case
  proof (cases "x = y")
    case True
    have "x \<in> set xs" if cyc: "(x, x) \<in> R\<^sup>+"
    proof -
      obtain z where "(x, z) \<in> R\<^sup>*" "(z, x) \<in> R" using tranclD2[OF cyc] by auto
      then have "z \<in> set xs" using Cons.prems(1) True by simp
      then show ?thesis using \<open>(x, z) \<in> R\<^sup>*\<close> Cons.prems(1) topo_pred[of R xs z x]
        by (auto simp: rtrancl_eq_or_trancl)
    qed
    then show ?thesis using Cons.prems(2) True by auto
  qed (use Cons in auto)
qed simp

lemma removeFromList_remove1: "removeFromList l p = (if p \<in> set l then Some (remove1 p l) else None)"
  by (induction l) auto

lemma drop_edges_ok:
  assumes "\<And>d. count_list (edge_get inc d) elem = count_list rest d"
    and "\<And>d. filter (\<lambda>p. p \<noteq> elem) (edge_get inc d) = F d"
    and "set q \<union> A = {d \<in> K. edge_get inc d = []}" "distinct q" "set q \<inter> A = {}" "set rest \<subseteq> K"
  shows "\<exists>inc' q'. drop_edges elem rest inc q = Some (inc', q') \<and> (\<forall>d. edge_get inc' d = F d)
    \<and> set q' \<union> A = {d \<in> K. F d = []} \<and> distinct q' \<and> set q' \<inter> A = {}"
  using assms
proof (induction rest arbitrary: inc q)
  case Nil
  have "edge_get inc d = F d" for d
  proof -
    have "elem \<notin> set (edge_get inc d)" using Nil(1)[of d] by (simp add: count_list_0_iff)
    then have "filter (\<lambda>p. p \<noteq> elem) (edge_get inc d) = edge_get inc d" by (auto simp: filter_id_conv)
    then show ?thesis using Nil(2)[of d] by simp
  qed
  then show ?case using Nil by auto
next
  case (Cons p ps)
  have p: "elem \<in> set (edge_get inc p)" using Cons.prems(1)[of p] by (rule_tac ccontr) (simp add: count_list_0_iff[symmetric])
  define l where "l = remove1 elem (edge_get inc p)"
  let ?inc = "inc(p \<mapsto> l)" and ?q = "if l = [] then q @ [p] else q"
  have rem: "removeFromList (edge_get inc p) elem = Some l" using p by (simp add: removeFromList_remove1 l_def)
  have "count_list (remove1 elem xs) elem = count_list xs elem - 1" for xs
    by (induction xs) auto
  then have 1: "count_list (edge_get ?inc d) elem = count_list ps d" for d
    using Cons.prems(1)[of d] Cons.prems(1)[of p] by (auto simp: l_def)
  have "filter (\<lambda>x. x \<noteq> elem) (remove1 elem xs) = filter (\<lambda>x. x \<noteq> elem) xs" for xs
    by (induction xs) auto
  then have 2: "filter (\<lambda>x. x \<noteq> elem) (edge_get ?inc d) = F d" for d
    using Cons.prems(2) by (auto simp: l_def)
  have "p \<notin> set q \<union> A" using p Cons.prems(3) by auto
  moreover have "p \<in> K" using Cons.prems(6) by simp
  ultimately have 3: "set ?q \<union> A = {d \<in> K. edge_get ?inc d = []}" "distinct ?q" "set ?q \<inter> A = {}"
    using Cons.prems(3-5) by auto
  show ?case unfolding drop_edges.simps rem option.case
    by (rule Cons.IH[OF 1 2 3]) (use Cons.prems(6) in auto)
qed

definition sort_inv :: "heap \<Rightarrow> nat list \<Rightarrow> edge_map \<Rightarrow> nat list \<Rightarrow> nat list \<Rightarrow> bool" where
  "sort_inv h ps inc queue done \<longleftrightarrow>
     (\<forall>d. edge_get inc d = filter (\<lambda>p. p \<notin> set done) (dependents h ps d))
     \<and> distinct queue \<and> distinct done \<and> set queue \<inter> set done = {}
     \<and> set queue \<union> set done = {d \<in> sort_keys h ps. edge_get inc d = []}
     \<and> topo (sort_edges h ps) done"

lemma sort_step:
  assumes inv: "sort_inv h ps inc (e # queue) done" and out: "\<And>p. edge_get outgoing p = outgoing_of h ps p"
  shows "\<exists>inc' queue'. drop_edges e (edge_get outgoing e) inc queue = Some (inc', queue')
    \<and> sort_inv h ps inc' queue' (e # done)"
proof -
  let ?F = "\<lambda>d. filter (\<lambda>p. p \<notin> set (e # done)) (dependents h ps d)"
  have e: "e \<notin> set done" "edge_get inc e = []" using inv by (auto simp: sort_inv_def)
  have "count_list (filter (\<lambda>p. p \<notin> set done) xs) e = count_list xs e" for xs
    using e(1) by (induction xs) auto
  then have 1: "count_list (edge_get inc d) e = count_list (edge_get outgoing e) d" for d
    using inv count_edges[of h ps d e] by (simp add: sort_inv_def out)
  have 2: "filter (\<lambda>p. p \<noteq> e) (edge_get inc d) = ?F d" for d
    using inv by (auto simp: sort_inv_def intro: filter_cong)
  have sub: "set (edge_get outgoing e) \<subseteq> sort_keys h ps"
    by (auto simp: out set_outgoing sort_keys_def sort_edges_def)
  have q: "set queue \<union> set (e # done) = {d \<in> sort_keys h ps. edge_get inc d = []}" "distinct queue"
      "set queue \<inter> set (e # done) = {}"
    using inv by (auto simp: sort_inv_def)
  obtain inc' queue' where "drop_edges e (edge_get outgoing e) inc queue = Some (inc', queue')"
      "\<forall>d. edge_get inc' d = ?F d" "set queue' \<union> set (e # done) = {d \<in> sort_keys h ps. ?F d = []}"
      "distinct queue'" "set queue' \<inter> set (e # done) = {}"
    using drop_edges_ok[OF 1 2 q sub] by blast
  moreover have "p \<in> set done" if "(p, e) \<in> sort_edges h ps" for p
    using e(2) inv that by (auto simp: sort_inv_def filter_empty_conv set_dependents)
  ultimately show ?thesis using inv e(1) by (auto simp: sort_inv_def)
qed

lemma sort_loop_ok:
  assumes out: "\<And>p. edge_get outgoing p = outgoing_of h ps p" and fin: "finite (sort_keys h ps)"
  shows "sort_inv h ps inc queue done \<Longrightarrow> card (sort_keys h ps) < n + length done \<Longrightarrow>
    \<exists>inc' done'. sort_loop n outgoing inc queue done = Some (inc', done') \<and> sort_inv h ps inc' [] done'"
proof (induction n arbitrary: inc queue "done")
  case 0
  then have "set done \<subseteq> sort_keys h ps" "distinct done" by (auto simp: sort_inv_def)
  then have "length done \<le> card (sort_keys h ps)" using card_mono[OF fin] by (metis distinct_card)
  then show ?case using 0 by simp
next
  case (Suc n)
  show ?case
  proof (cases queue)
    case (Cons e queue')
    then show ?thesis using sort_step[OF Suc.prems(1)[unfolded Cons] out] Suc.IH Suc.prems(2) by fastforce
  qed (use Suc.prems in simp)
qed

lemma finite_sort_keys [simp]: "finite (sort_keys h ps)"
  by (simp add: sort_keys_def)

lemma Sort_spec:
  assumes order: "distinct order" "set order = sort_keys h ps"
  shows "\<exists>r. Sort h order ps = Some r \<and>
    (if acyclic (sort_edges h ps)
     then \<exists>ts. r = Inr ts \<and> distinct ts \<and> set ts = sort_keys h ps \<and> topo (sort_edges h ps) ts
     else r = Inl circular_error)"
proof -
  obtain inc out where em: "getEdgeMaps h ps = (inc, out)" by fastforce
  let ?q = "filter (\<lambda>p. edge_get inc p = []) order" and ?E = "sort_edges h ps"
  have "sort_inv h ps inc ?q []" using order by (auto simp: sort_inv_def edge_maps[OF em])
  moreover have "card (sort_keys h ps) = length order" using order by (metis distinct_card)
  ultimately obtain inc' ts where ts: "sort_loop (Suc (length order)) out inc ?q [] = Some (inc', ts)"
      "sort_inv h ps inc' [] ts"
    using sort_loop_ok[of out h ps inc ?q "[]" "Suc (length order)"] edge_maps(2)[OF em] by auto
  let ?S = "{d \<in> sort_keys h ps. edge_get inc' d \<noteq> []}"
  have I: "\<forall>d. edge_get inc' d = filter (\<lambda>p. p \<notin> set ts) (dependents h ps d)" "distinct ts" "topo ?E ts"
      and "set [] \<union> set ts = {d \<in> sort_keys h ps. edge_get inc' d = []}"
    using ts(2)[unfolded sort_inv_def] by - (elim conjE, assumption)+
  then have K: "set ts = {d \<in> sort_keys h ps. edge_get inc' d = []}" by (simp only: list.set Un_empty_left)
  have ne: "acyclic ?E \<longleftrightarrow> ?S = {}"
  proof
    assume ac: "acyclic ?E"
    have "?E \<subseteq> sort_keys h ps \<times> sort_keys h ps" by (auto simp: sort_edges_def sort_keys_def)
    then have wf: "wf ?E" using ac by (simp add: finite_acyclic_wf finite_subset)
    have "\<exists>p \<in> ?S. (p, d) \<in> ?E" if d: "d \<in> ?S" for d
    proof -
      obtain p where "p \<in> set (edge_get inc' d)" using d by (cases "edge_get inc' d") auto
      then have "(p, d) \<in> ?E" "p \<notin> set ts" by (auto simp: I(1)[rule_format] set_dependents)
      moreover from this have "p \<in> sort_keys h ps" by (auto simp: sort_edges_def sort_keys_def)
      ultimately show ?thesis unfolding K by blast
    qed
    then have pred: "\<And>d. d \<in> ?S \<Longrightarrow> \<exists>p \<in> ?S. (p, d) \<in> ?E" by blast
    show "?S = {}"
    proof (rule equals0I)
      fix d assume d: "d \<in> ?S"
      show False
      proof (rule wfE_min[OF wf d])
        fix z assume "z \<in> ?S" "\<And>y. (y, z) \<in> ?E \<Longrightarrow> y \<notin> ?S"
        then show False using pred[of z] by blast
      qed
    qed
  next
    assume "?S = {}"
    then have "set ts = sort_keys h ps" unfolding K by auto
    moreover have "(x, x) \<notin> ?E\<^sup>+" if "x \<in> set ts" for x
      using topo_acyclic[OF I(3,2) that] .
    moreover have "x \<in> sort_keys h ps" if "(x, x) \<in> ?E\<^sup>+" for x
      using tranclD[OF that] by (auto simp: sort_edges_def sort_keys_def)
    ultimately show "acyclic ?E" by (auto simp: acyclic_def)
  qed
  have "set ts = sort_keys h ps" if "?S = {}" using that unfolding K by auto
  moreover have "(\<exists>p \<in> set order. edge_get inc' p \<noteq> []) \<longleftrightarrow> ?S \<noteq> {}" by (auto simp: order(2))
  moreover have "Sort h order ps = Some (if \<exists>p \<in> set order. edge_get inc' p \<noteq> [] then Inl circular_error else Inr ts)"
    unfolding Sort_def em Let_def prod.case ts(1) by simp
  ultimately show ?thesis using ne I(2,3) by simp
qed

end
