(* ===== verification/Index.thy ===== *)
theory Index
  imports StateFile PackageSort "HOL-Library.Multiset"
begin

text \<open>
  The index of compiled packages: index/file_index.go (a JSON file of key and value
  pairs), index/in_memory_index.go, and their client state/pkg/compiled_package_repo.go.
  The locale \<open>record_index\<close> is the contract of an index, interpreted by both; the
  repository's lemmas are proved once inside it.
\<close>

section \<open>Keys and values\<close>

text \<open>
  A key is a Go struct whose fields are strings: its field names with their values.
  A value is encoded by its \<^verbatim>\<open>json.Marshal\<close> and read by a decoder.
\<close>

type_synonym index_key = "(string \<times> string) list"

definition structToMap :: "index_key \<Rightarrow> gomap" where
  "structToMap k = map (\<lambda>(n, s). (n, PStr s)) k"

record CompiledPackageRecord =
  cr_BlobID :: string
  cr_BlobSHA1 :: string

definition json_of_compiled :: "CompiledPackageRecord \<Rightarrow> json" where
  "json_of_compiled r = JObj [(''BlobID'', JStr (cr_BlobID r)), (''BlobSHA1'', JStr (cr_BlobSHA1 r))]"

definition dec_compiled :: "json \<Rightarrow> goerr + CompiledPackageRecord" where
  "dec_compiled j = sbind (dec_fields j) (\<lambda>m. sbind (dec_str (jfield ''BlobID'' m)) (\<lambda>b.
     sbind (dec_str (jfield ''BlobSHA1'' m)) (\<lambda>s. Inr \<lparr>cr_BlobID = b, cr_BlobSHA1 = s\<rparr>)))"

lemma dec_json_of_compiled [simp]: "dec_compiled (json_of_compiled r) = Inr r"
  by (simp add: dec_compiled_def json_of_compiled_def jfield_def)

section \<open>index/file\_index.go\<close>

type_synonym index_entry = "gomap option \<times> json option"

definition dec_entry :: "json \<Rightarrow> goerr + index_entry" where
  "dec_entry j = sbind (dec_fields j) (\<lambda>m. sbind (dec_map (jfield ''Key'' m)) (\<lambda>k. Inr (k, map_of m ''Value'')))"

definition json_of_entry :: "index_entry \<Rightarrow> json" where
  "json_of_entry e = JObj [(''Key'', marshal_map (fst e)),
     (''Value'', case snd e of None \<Rightarrow> JNull | Some v \<Rightarrow> v)]"

fun unmarshal_entries :: "content \<Rightarrow> goerr + index_entry list" where
  "unmarshal_entries (CJson j) = dec_list dec_entry j"
| "unmarshal_entries _ = Inl (External ''invalid character'')"

definition readRawEntries :: "string \<Rightarrow> (world, index_entry list) prog" where
  "readRawEntries p = bnd (FileExists p) (\<lambda>exists.
     if exists then
       bnd (wrapf ''Reading index file %s'' [AStr p] (ReadFile p)) (\<lambda>c.
         wrap ''Unmarshalling index entries'' (lift_sum (unmarshal_entries c)))
     else ret [])"

definition writeRawEntries :: "string \<Rightarrow> index_entry list \<Rightarrow> (world, unit) prog" where
  "writeRawEntries p entries =
     wrapf ''Writing index file %s'' [AStr p] (WriteFile p (CJson (JArr (map json_of_entry entries))))"

definition key_matches :: "index_key \<Rightarrow> index_entry \<Rightarrow> bool" where
  "key_matches key e = DeepEqual_map (fst e) (Some (structToMap key))"

definition unmarshal_value :: "(json \<Rightarrow> goerr + 'v) \<Rightarrow> json option \<Rightarrow> goerr + 'v" where
  "unmarshal_value dec v = (case v of
      None \<Rightarrow> Inl (External ''unexpected end of JSON input'') | Some j \<Rightarrow> dec j)"

definition FileIndex_Find :: "string \<Rightarrow> (json \<Rightarrow> goerr + 'v) \<Rightarrow> index_key \<Rightarrow> (world, 'v) prog" where
  "FileIndex_Find p dec key = bnd (readRawEntries p) (\<lambda>rawEntries.
     case find (key_matches key) rawEntries of
       Some e \<Rightarrow> lift_sum (unmarshal_value dec (snd e))
     | None \<Rightarrow> fail ErrNotFound)"

primrec put_entry :: "index_key \<Rightarrow> json \<Rightarrow> index_entry list \<Rightarrow> index_entry list" where
  "put_entry key v [] = [(Some (structToMap key), Some v)]"
| "put_entry key v (e # es) = (if key_matches key e then (fst e, Some v) # es else e # put_entry key v es)"

definition FileIndex_Save :: "string \<Rightarrow> index_key \<Rightarrow> json \<Rightarrow> (world, unit) prog" where
  "FileIndex_Save p key rawValue = bnd (readRawEntries p) (\<lambda>rawEntries.
     writeRawEntries p (put_entry key rawValue rawEntries))"

section \<open>index/in\_memory\_index.go\<close>

definition marshal_key :: "index_key \<Rightarrow> json" where
  "marshal_key k = marshal_prop (PMap (structToMap k))"

definition InMemoryIndex_Find :: "(json \<Rightarrow> goerr + 'v) \<Rightarrow> index_key \<Rightarrow> (world, 'v) prog" where
  "InMemoryIndex_Find dec key = bnd (gets (\<lambda>w. mem_index w (marshal_key key))) (\<lambda>v. case v of
      None \<Rightarrow> fail ErrNotFound
    | Some valueBytes \<Rightarrow> wrapf ''Unmarshaling value for key %#v'' [ADump] (lift_sum (dec valueBytes)))"

definition InMemoryIndex_Save :: "index_key \<Rightarrow> json \<Rightarrow> (world, unit) prog" where
  "InMemoryIndex_Save key value = modify (\<lambda>w. w\<lparr>mem_index := (mem_index w)(marshal_key key \<mapsto> value)\<rparr>)"

section \<open>state/pkg/compiled\_package\_repo.go\<close>

text \<open>
  The repository is given the operations of its index. \<^verbatim>\<open>pkgKey\<close> takes its package by
  value and resolves the dependencies of the copy: a new cell of the heap.
  \<^verbatim>\<open>sort.Strings\<close> is the sort by byte order.
\<close>

fun string_less :: "string \<Rightarrow> string \<Rightarrow> bool" where
  "string_less s [] = False"
| "string_less [] (b # t) = True"
| "string_less (a # s) (b # t) =
     ((of_char a :: nat) < of_char b \<or> (a = b \<and> string_less s t))"

fun insert_string :: "string \<Rightarrow> string list \<Rightarrow> string list" where
  "insert_string s [] = [s]"
| "insert_string s (t # ts) = (if string_less t s then t # insert_string s ts else s # t # ts)"

definition sort_strings :: "string list \<Rightarrow> string list" where
  "sort_strings l = foldr insert_string l []"

definition convertToDependencyKey :: "heap \<Rightarrow> nat list \<Rightarrow> string" where
  "convertToDependencyKey h packages =
     Join (sort_strings (map (\<lambda>a. pk_Name (h ! a) @ '':'' @ pk_Fingerprint (h ! a)) packages)) '',''"

definition compiledPkgKey :: "heap \<Rightarrow> Package \<Rightarrow> index_key" where
  "compiledPkgKey h p =
     (let h' = h @ [p]
      in [(''PackageName'', pk_Name p), (''PackageFingerprint'', pk_Fingerprint p),
          (''DependencyKey'', convertToDependencyKey h' (case ResolveDependencies h' (length h) of
              None \<Rightarrow> [] | Some ds \<Rightarrow> ds))])"

definition CompiledPackageRepo_Save ::
  "(index_key \<Rightarrow> CompiledPackageRecord \<Rightarrow> (world, unit) prog) \<Rightarrow> heap \<Rightarrow> Package \<Rightarrow> CompiledPackageRecord \<Rightarrow> (world, unit) prog" where
  "CompiledPackageRepo_Save sav h p record = wrap ''Saving compiled package'' (sav (compiledPkgKey h p) record)"

definition CompiledPackageRepo_Find ::
  "(index_key \<Rightarrow> (world, CompiledPackageRecord) prog) \<Rightarrow> heap \<Rightarrow> Package \<Rightarrow> (world, CompiledPackageRecord option) prog" where
  "CompiledPackageRepo_Find fnd h p = bnd (attempt (fnd (compiledPkgKey h p))) (\<lambda>r. case r of
      Inr record \<Rightarrow> ret (Some record)
    | Inl e \<Rightarrow> if e = ErrNotFound then ret None else fail (WrapError e ''Finding compiled package''))"

section \<open>The contract of an index\<close>

text \<open>
  \<open>holds w f\<close>: in \<open>w\<close> the index holds the value \<open>f k\<close> under each key of the type
  given by the field names \<open>flds\<close>.
\<close>

locale record_index =
  fixes flds :: "string list"
    and fnd :: "index_key \<Rightarrow> (world, 'v) prog"
    and sav :: "index_key \<Rightarrow> 'v \<Rightarrow> (world, unit) prog"
    and holds :: "world \<Rightarrow> (index_key \<Rightarrow> 'v option) \<Rightarrow> bool"
  assumes find_holds: "holds w f \<Longrightarrow> map fst k = flds \<Longrightarrow>
      wp (fnd k) (\<lambda>r w'. ticked w w' \<and> (case r of
        Ok v \<Rightarrow> f k = Some v | Err e \<Rightarrow> e = ErrNotFound \<longrightarrow> f k = None | _ \<Rightarrow> False)) w"
    and save_holds: "holds w f \<Longrightarrow> atomic_writes w \<Longrightarrow> map fst k = flds \<Longrightarrow>
      wp (sav k v) (\<lambda>r w'. answers w' = answers w \<and> (case r of
        Ok _ \<Rightarrow> holds w' (f(k \<mapsto> v)) | Err e \<Rightarrow> holds w' f | _ \<Rightarrow> False)) w"
    and frame_holds: "holds w f \<Longrightarrow> files w' = files w \<Longrightarrow> mem_index w' = mem_index w \<Longrightarrow> holds w' f"
begin

lemma ticked_holds: "holds w f \<Longrightarrow> ticked w w' \<Longrightarrow> holds w' f"
  by (rule frame_holds) (simp_all add: ticked_frame)

end

lemma key_matches_struct:
  assumes "map fst k = map fst k'" "distinct (map fst k')"
  shows "key_matches k' (Some (structToMap k), v) \<longleftrightarrow> k = k'"
proof
  have m: "map_of (structToMap k') n = map_option PStr (map_of k' n)" for n
    by (induction k') (auto simp: structToMap_def)
  assume "key_matches k' (Some (structToMap k), v)"
  then have e: "(n, s) \<in> set k \<Longrightarrow> map_of k' n = Some s" for n s
    by (fastforce simp: key_matches_def DeepEqual_map_def DeepEqual_entries_iff structToMap_def[of k] m)
  show "k = k'"
  proof (rule nth_equalityI)
    show len: "length k = length k'" using assms(1) by (metis length_map)
    fix i assume i: "i < length k"
    have "fst (k ! i) = fst (k' ! i)" using assms(1) i len by (metis nth_map)
    moreover have "map_of k' (fst (k ! i)) = Some (snd (k ! i))" using e[of "fst (k ! i)" "snd (k ! i)"] i by simp
    moreover have "map_of k' (fst (k' ! i)) = Some (snd (k' ! i))" using assms(2) i len by simp
    ultimately show "k ! i = k' ! i" by (simp add: prod_eq_iff)
  qed
next
  assume "k = k'"
  moreover have "wf_map (structToMap k')" using assms(2)
    by (auto simp: wf_map_def structToMap_def comp_def case_prod_beta)
  ultimately show "key_matches k' (Some (structToMap k), v)"
    by (simp add: key_matches_def DeepEqual_map_refl)
qed

lemma dec_json_of_entry: "dec_entry (json_of_entry (Some (structToMap k), Some v)) = Inr (Some (structToMap k), Some v)"
proof -
  have "reload_map (structToMap k) = structToMap k"
    by (auto simp: reload_map_def structToMap_def reload_prop_def intro!: map_idI)
  then show ?thesis by (simp add: dec_entry_def json_of_entry_def jfield_def dec_map_marshal)
qed

text \<open>The file at \<open>p\<close> holds the typed entries \<open>es\<close>, or there is no file and no entry.\<close>

definition raw_entry :: "('v \<Rightarrow> json) \<Rightarrow> index_key \<times> 'v \<Rightarrow> index_entry" where
  "raw_entry enc e = (Some (structToMap (fst e)), Some (enc (snd e)))"

definition file_index_holds :: "string list \<Rightarrow> ('v \<Rightarrow> json) \<Rightarrow> string \<Rightarrow> world \<Rightarrow> (index_key \<Rightarrow> 'v option) \<Rightarrow> bool" where
  "file_index_holds flds enc p w f \<longleftrightarrow> (\<exists>es. (\<forall>e \<in> set es. map fst (fst e) = flds) \<and> f = map_of es \<and>
     (files w p = Some (CJson (JArr (map json_of_entry (map (raw_entry enc) es)))) \<or> (files w p = None \<and> es = [])))"

lemma readRawEntries_wp:
  assumes "files w p = Some (CJson (JArr (map json_of_entry (map (raw_entry enc) es)))) \<or> (files w p = None \<and> es = [])"
  shows "wp (readRawEntries p) (\<lambda>r w'. ticked w w' \<and> (r = Ok (map (raw_entry enc) es) \<or> (\<exists>e. r = Err e \<and> e \<noteq> ErrNotFound))) w"
proof -
  have "map_sum_list dec_entry (map json_of_entry (map (raw_entry enc) es)) = Inr (map (raw_entry enc) es)"
    unfolding map_map by (rule map_sum_list_map) (simp add: raw_entry_def dec_json_of_entry)
  then show ?thesis using assms
    by (auto simp: readRawEntries_def FileExists_def ReadFile_def wp_simps Let_def WrapErrorf_def
        split: option.splits)
qed

lemma find_raw_entry:
  assumes "map fst k = flds" "distinct flds"
  shows "(\<forall>e \<in> set es. map fst (fst e) = flds) \<Longrightarrow>
    find (key_matches k) (map (raw_entry enc) es) = map_option (\<lambda>v. raw_entry enc (k, v)) (map_of es k)"
  by (induction es) (auto simp: raw_entry_def key_matches_struct assms)

lemma put_raw_entry:
  assumes "map fst k = flds" "distinct flds"
  shows "(\<forall>e \<in> set es. map fst (fst e) = flds) \<Longrightarrow>
    \<exists>es'. put_entry k (enc v) (map (raw_entry enc) es) = map (raw_entry enc) es'
      \<and> (\<forall>e \<in> set es'. map fst (fst e) = flds) \<and> map_of es' = (map_of es)(k \<mapsto> v)"
proof (induction es)
  case Nil
  show ?case by (rule exI[of _ "[(k, v)]"]) (use assms in \<open>auto simp: raw_entry_def\<close>)
next
  case (Cons e es)
  then have "\<forall>e \<in> set es. map fst (fst e) = flds" by simp
  from Cons.IH[OF this] obtain es' where es': "put_entry k (enc v) (map (raw_entry enc) es) = map (raw_entry enc) es'"
      "\<forall>e \<in> set es'. map fst (fst e) = flds" "map_of es' = (map_of es)(k \<mapsto> v)" by blast
  show ?case
  proof (cases "fst e = k")
    case True
    then show ?thesis using Cons.prems assms
      by (intro exI[of _ "(k, v) # es"]) (auto simp: raw_entry_def key_matches_struct)
  next
    case False
    then show ?thesis using Cons.prems assms es'
      by (intro exI[of _ "e # es'"]) (auto simp: raw_entry_def[of enc e] key_matches_struct)
  qed
qed

lemma file_index_contract:
  assumes "distinct flds" "\<And>v. dec (enc v) = Inr v"
  shows "record_index flds (FileIndex_Find p dec) (\<lambda>k v. FileIndex_Save p k (enc v)) (file_index_holds flds enc p)"
proof
  fix w f and k :: index_key
  assume h: "file_index_holds flds enc p w f" and k: "map fst k = flds"
  then obtain es where es: "\<forall>e \<in> set es. map fst (fst e) = flds" "f = map_of es"
    and fl: "files w p = Some (CJson (JArr (map json_of_entry (map (raw_entry enc) es)))) \<or> (files w p = None \<and> es = [])"
    by (auto simp: file_index_holds_def)
  show "wp (FileIndex_Find p dec k) (\<lambda>r w'. ticked w w' \<and> (case r of
        Ok v \<Rightarrow> f k = Some v | Err e \<Rightarrow> e = ErrNotFound \<longrightarrow> f k = None | _ \<Rightarrow> False)) w"
    unfolding FileIndex_Find_def
    by (rule wp_bnd_rule[OF readRawEntries_wp[OF fl]])
      (use es find_raw_entry[OF k assms(1) es(1)] assms(2) in
        \<open>auto simp: wp_simps raw_entry_def unmarshal_value_def split: option.splits\<close>)
  assume a: "atomic_writes w"
  fix v
  obtain es' where es': "put_entry k (enc v) (map (raw_entry enc) es) = map (raw_entry enc) es'"
      "\<forall>e \<in> set es'. map fst (fst e) = flds" "map_of es' = (map_of es)(k \<mapsto> v)"
    using put_raw_entry[OF k assms(1) es(1)] by blast
  have torn: "a_torn (answers w n) = None" for n using a by (simp add: atomic_writes_def)
  show "wp (FileIndex_Save p k (enc v)) (\<lambda>r w'. answers w' = answers w \<and> (case r of
        Ok _ \<Rightarrow> file_index_holds flds enc p w' (f(k \<mapsto> v)) | Err e \<Rightarrow> file_index_holds flds enc p w' f | _ \<Rightarrow> False)) w"
    unfolding FileIndex_Save_def
  proof (rule wp_bnd_rule[OF readRawEntries_wp[OF fl]], goal_cases)
    case (1 x w')
    have "file_index_holds flds enc p v' (f(k \<mapsto> v))"
      if "files v' p = Some (CJson (JArr (map json_of_entry (map (raw_entry enc) es'))))" for v'
      using es' es(2) that by (auto simp: file_index_holds_def)
    moreover have "file_index_holds flds enc p v' f" if "files v' p = files w p" for v'
      using h that by (simp add: file_index_holds_def)
    ultimately show ?case using 1 es' torn
      by (auto simp: writeRawEntries_def WriteFile_def wp_simps Let_def ticked_frame set_file_def split: option.splits)
  qed (use h in \<open>auto simp: file_index_holds_def ticked_frame\<close>)
next
  fix w w' :: world and f assume "file_index_holds flds enc p w f" "files w' = files w"
  then show "file_index_holds flds enc p w' f" by (simp add: file_index_holds_def)
qed

definition mem_index_holds :: "string list \<Rightarrow> ('v \<Rightarrow> json) \<Rightarrow> world \<Rightarrow> (index_key \<Rightarrow> 'v option) \<Rightarrow> bool" where
  "mem_index_holds flds enc w f \<longleftrightarrow>
     (\<forall>k. map fst k = flds \<longrightarrow> mem_index w (marshal_key k) = map_option enc (f k))"

lemma marshal_key_inj [simp]: "marshal_key k = marshal_key k' \<longleftrightarrow> k = k'"
proof
  have "map (\<lambda>(n, s). (n, JStr s)) k = map (\<lambda>(n, s). (n, JStr s)) k' \<Longrightarrow> k = k'"
    by (rule inj_map_eq_map[THEN iffD1]) (auto simp: inj_on_def)
  moreover have "marshal_key l = JObj (map (\<lambda>(n, s). (n, JStr s)) l)" for l
    by (induction l) (auto simp: marshal_key_def structToMap_def)
  ultimately show "marshal_key k = marshal_key k' \<Longrightarrow> k = k'" by simp
qed simp

lemma mem_index_contract:
  assumes "\<And>v. dec (enc v) = Inr v"
  shows "record_index flds (InMemoryIndex_Find dec) (\<lambda>k v. InMemoryIndex_Save k (enc v)) (mem_index_holds flds enc)"
proof
  fix w f and k :: index_key
  assume h: "mem_index_holds flds enc w f" and k: "map fst k = flds"
  show "wp (InMemoryIndex_Find dec k) (\<lambda>r w'. ticked w w' \<and> (case r of
        Ok v \<Rightarrow> f k = Some v | Err e \<Rightarrow> e = ErrNotFound \<longrightarrow> f k = None | _ \<Rightarrow> False)) w"
    using h k assms by (auto simp: InMemoryIndex_Find_def mem_index_holds_def wp_simps split: option.splits)
  show "wp (InMemoryIndex_Save k (enc v)) (\<lambda>r w'. answers w' = answers w \<and> (case r of
        Ok _ \<Rightarrow> mem_index_holds flds enc w' (f(k \<mapsto> v)) | Err e \<Rightarrow> mem_index_holds flds enc w' f | _ \<Rightarrow> False)) w" for v
    using h k by (auto simp: InMemoryIndex_Save_def mem_index_holds_def wp_simps)
qed (auto simp: mem_index_holds_def)

section \<open>The repository of compiled packages\<close>

abbreviation compiled_fields :: "string list" where
  "compiled_fields \<equiv> [''PackageName'', ''PackageFingerprint'', ''DependencyKey'']"

lemma compiledPkgKey_fields [simp]: "map fst (compiledPkgKey h p) = compiled_fields"
  by (simp add: compiledPkgKey_def Let_def)

locale compiled_repo = record_index compiled_fields fnd sav holds
  for fnd :: "index_key \<Rightarrow> (world, CompiledPackageRecord) prog"
    and sav :: "index_key \<Rightarrow> CompiledPackageRecord \<Rightarrow> (world, unit) prog"
    and holds :: "world \<Rightarrow> (index_key \<Rightarrow> CompiledPackageRecord option) \<Rightarrow> bool"
begin

lemma repo_find:
  assumes "holds w f"
  shows "wp (CompiledPackageRepo_Find fnd h p)
    (\<lambda>r w'. ticked w w' \<and> (r = Ok (f (compiledPkgKey h p)) \<or> (\<exists>e. r = Err e))) w"
  unfolding CompiledPackageRepo_Find_def wp_bnd wp_attempt
  by (rule wp_mono[OF find_holds[OF assms compiledPkgKey_fields]]) (auto simp: wp_simps split: outcome.splits)

lemma repo_save:
  assumes "holds w f" "atomic_writes w"
  shows "wp (CompiledPackageRepo_Save sav h p record) (\<lambda>r w'. answers w' = answers w \<and> (case r of
      Ok _ \<Rightarrow> holds w' (f(compiledPkgKey h p \<mapsto> record)) | Err e \<Rightarrow> holds w' f | _ \<Rightarrow> False)) w"
  unfolding CompiledPackageRepo_Save_def wp_wrap
  by (rule wp_mono[OF save_holds[OF assms compiledPkgKey_fields]]) (auto split: outcome.splits)

text \<open>After a successful save, a find answers from the updated index, or with an I/O error.\<close>

lemma repo_save_find:
  assumes "holds w f" "atomic_writes w"
  shows "wp (seq (CompiledPackageRepo_Save sav h p record) (attempt (CompiledPackageRepo_Find fnd h q)))
    (\<lambda>r w'. case r of
        Ok (Inr x) \<Rightarrow> x = (f(compiledPkgKey h p \<mapsto> record)) (compiledPkgKey h q)
      | Ok (Inl e) \<Rightarrow> True | Err e \<Rightarrow> holds w' f | _ \<Rightarrow> False) w"
  by (rule wp_seq_rule[OF repo_save[OF assms]])
    (auto simp: wp_attempt split: outcome.splits elim!: wp_mono[OF repo_find])

end

interpretation file_index: compiled_repo "FileIndex_Find p dec_compiled"
  "\<lambda>k v. FileIndex_Save p k (json_of_compiled v)" "file_index_holds compiled_fields json_of_compiled p" for p
  unfolding compiled_repo_def by (rule file_index_contract) simp_all

interpretation memory_index: compiled_repo "InMemoryIndex_Find dec_compiled"
  "\<lambda>k v. InMemoryIndex_Save k (json_of_compiled v)" "mem_index_holds compiled_fields json_of_compiled"
  unfolding compiled_repo_def by (rule mem_index_contract) simp

text \<open>
  The key depends on the dependencies only through their names and fingerprints, not
  through the order in which the package lists them.
\<close>

lemma mset_insert_string: "mset (insert_string s l) = mset (s # l)"
  by (induction l) auto

lemma mset_sort_strings: "mset (sort_strings l) = mset l"
  by (induction l) (simp_all add: sort_strings_def mset_insert_string)

end
