(* ===== verification/Ui.thy ===== *)
theory Ui
  imports World
begin

text \<open>
  The terminal and the stages (ui/ui.go, ui/indenting_ui.go, ui/stage.go,
  ui/skip_stage_error.go, ui/fmt/duration.go, ui/fmt/error.go). A stage is its
  nesting depth; the world keeps for each depth whether that stage is in simple mode.
  The theory gives the rule by which the components reason about a step run inside a
  stage: only the terminal changes, and a skip error counts as success.
\<close>

section \<open>ui/fmt/duration.go\<close>

text \<open>A duration in nanoseconds, printed as hours, minutes and seconds of two digits at least.\<close>

definition pad2 :: "nat \<Rightarrow> string" where
  "pad2 n = (if n < 10 then CHR ''0'' # show_nat n else show_nat n)"

definition Duration :: "nat \<Rightarrow> string" where
  "Duration ns =
     (let totalSeconds = ns div 1000000000;
          hours = totalSeconds div 3600;
          minutes = (totalSeconds - hours * 3600) div 60;
          seconds = totalSeconds - hours * 3600 - minutes * 60
      in pad2 hours @ '':'' @ pad2 minutes @ '':'' @ pad2 seconds)"

section \<open>ui/ui.go and ui/indenting\_ui.go\<close>

text \<open>
  \<open>Sprintf0\<close> is \<^verbatim>\<open>fmt.Sprintf\<close> without arguments: a verb, after its flags, width and
  precision, is reported as missing. An indenting UI passes its formatted line as the
  pattern of its parent, so a line is formatted again at each level; only
  \<^verbatim>\<open>EndLinef\<close> does not indent.
\<close>

definition fmt_flag :: "char \<Rightarrow> bool" where
  "fmt_flag c \<longleftrightarrow> c \<in> set ''#+- .0123456789''"

function Sprintf0 :: "string \<Rightarrow> string" where
  "Sprintf0 [] = []"
| "Sprintf0 (c # s) =
     (if c \<noteq> CHR ''%'' then c # Sprintf0 s
      else case dropWhile fmt_flag s of
        [] \<Rightarrow> ''%!(NOVERB)''
      | v # t \<Rightarrow> (if v = CHR ''%'' then ''%'' else ''%!'' @ [v] @ ''(MISSING)'') @ Sprintf0 t)"
  by pat_completeness auto
termination
proof (relation "measure length", simp_all)
  fix s v t assume "dropWhile fmt_flag s = v # t"
  then have "length (v # t) \<le> length s" by (metis length_dropWhile_le)
  then show "length t < Suc (length s)" by simp
qed

primrec indent_line :: "nat \<Rightarrow> string \<Rightarrow> string" where
  "indent_line 0 s = s"
| "indent_line (Suc d) s = indent_line d (Sprintf0 (''  '' @ s))"

primrec reformat :: "nat \<Rightarrow> string \<Rightarrow> string" where
  "reformat 0 s = s"
| "reformat (Suc d) s = reformat d (Sprintf0 s)"

definition put_ui :: "ui_event \<Rightarrow> (world, unit) prog" where
  "put_ui e = modify (\<lambda>w. w\<lparr>ui := ui w @ [e]\<rparr>)"

definition ErrorLinef :: "nat \<Rightarrow> string \<Rightarrow> (world, unit) prog" where
  "ErrorLinef d message = put_ui (UiError (indent_line d message))"

definition PrintLinef :: "nat \<Rightarrow> string \<Rightarrow> (world, unit) prog" where
  "PrintLinef d message = put_ui (UiPrint (indent_line d message))"

definition BeginLinef :: "nat \<Rightarrow> string \<Rightarrow> (world, unit) prog" where
  "BeginLinef d message = put_ui (UiBegin (indent_line d message))"

definition EndLinef :: "nat \<Rightarrow> string \<Rightarrow> (world, unit) prog" where
  "EndLinef d message = put_ui (UiEnd (reformat d message))"

section \<open>ui/stage.go\<close>

definition elapsedSince :: "int \<Rightarrow> (world, string) prog" where
  "elapsedSince startTime = bnd Now (\<lambda>stopTime. ret (Duration (nat (stopTime - startTime))))"

definition set_simple_mode :: "nat \<Rightarrow> bool \<Rightarrow> (world, unit) prog" where
  "set_simple_mode d b = modify (\<lambda>w. w\<lparr>simple_mode := (simple_mode w)(d := b)\<rparr>)"

text \<open>How \<^verbatim>\<open>Perform\<close> ends once its closure has returned.\<close>

definition stage_end :: "nat \<Rightarrow> int \<Rightarrow> 'a \<times> goerr option \<Rightarrow> (world, 'a \<times> goerr option) prog" where
  "stage_end d startTime = (\<lambda>(x, err). bnd (elapsedSince startTime) (\<lambda>t.
       case err of
         None \<Rightarrow> seq (EndLinef d ('' Finished ('' @ t @ '')'')) (ret (x, None))
       | Some (SkipStageError cause msg) \<Rightarrow>
           seq (EndLinef d ('' Skipped ['' @ msg @ ''] ('' @ t @ '')'')) (ret (x, None))
       | Some e \<Rightarrow> seq (EndLinef d ('' Failed ('' @ t @ '')'')) (ret (x, Some e))))"

text \<open>
  \<^verbatim>\<open>Perform\<close>: the closure returns an error (\<open>Some e\<close>) or nil, together with the values
  \<open>x\<close> of the variables of its caller that it has set, which stay set when it returns
  an error, a skip error included. \<open>Perform\<close> and \<open>Perform_val\<close> are the calls whose
  closure sets nothing, or one variable as its last action.
\<close>

definition stage_run :: "nat \<Rightarrow> string \<Rightarrow> (world, 'a \<times> goerr option) prog \<Rightarrow> (world, 'a \<times> goerr option) prog" where
  "stage_run d name closure =
     bnd (gets (\<lambda>w. simple_mode w d)) (\<lambda>simple.
     seq (if simple then ret () else seq (PrintLinef d '''') (set_simple_mode d True))
    (seq (BeginLinef d (name @ ''...''))
    (bnd Now (\<lambda>startTime.
     bnd closure (stage_end d startTime)))))"

definition with_error :: "'a \<Rightarrow> (world, 'a) prog \<Rightarrow> (world, 'a \<times> goerr option) prog" where
  "with_error zero m = bnd (attempt m) (\<lambda>r. case r of
      Inl e \<Rightarrow> ret (zero, Some e) | Inr x \<Rightarrow> ret (x, None))"

definition Perform_val :: "nat \<Rightarrow> string \<Rightarrow> 'a \<Rightarrow> (world, 'a) prog \<Rightarrow> (world, 'a) prog" where
  "Perform_val d name zero m = bnd (stage_run d name (with_error zero m)) (\<lambda>(x, err). seq (or_err err) (ret x))"

definition Perform :: "nat \<Rightarrow> string \<Rightarrow> (world, unit) prog \<Rightarrow> (world, unit) prog" where
  "Perform d name m = Perform_val d name () m"

definition PerformComplex :: "nat \<Rightarrow> string \<Rightarrow> (nat \<Rightarrow> (world, 'a) prog) \<Rightarrow> (world, 'a) prog" where
  "PerformComplex d name closure =
     seq (PrintLinef d '''') (seq (set_simple_mode d False)
    (seq (PrintLinef d (''Started '' @ name))
    (bnd Now (\<lambda>startTime.
     seq (set_simple_mode (Suc d) True)
    (bnd (attempt (closure (Suc d))) (\<lambda>r. bnd (elapsedSince startTime) (\<lambda>t.
       case r of
         Inl e \<Rightarrow> seq (PrintLinef d (''Failed '' @ name @ '' ('' @ t @ '')'')) (fail e)
       | Inr x \<Rightarrow> seq (PrintLinef d (''Finished '' @ name @ '' ('' @ t @ '')'')) (ret x))))))))"

lemmas stage_defs = stage_run_def with_error_def Perform_val_def Perform_def PerformComplex_def
  elapsedSince_def set_simple_mode_def put_ui_def ErrorLinef_def PrintLinef_def BeginLinef_def EndLinef_def

section \<open>Reasoning about stages\<close>

text \<open>\<open>unseen Q\<close>: the terminal does not matter to \<open>Q\<close>.\<close>

definition unseen :: "(world \<Rightarrow> 'b) \<Rightarrow> bool" where
  "unseen Q \<longleftrightarrow> (\<forall>w u s. Q (w\<lparr>ui := u, simple_mode := s\<rparr>) = Q w)"

lemma unseen_ui: "unseen Q \<Longrightarrow> Q (w\<lparr>ui := u\<rparr>) = Q w"
  unfolding unseen_def by (erule allE[of _ w], erule allE[of _ u], erule allE[of _ "simple_mode w"]) simp

lemma unseen_mode: "unseen Q \<Longrightarrow> Q (w\<lparr>simple_mode := s\<rparr>) = Q w"
  unfolding unseen_def by (erule allE[of _ w], erule allE[of _ "ui w"], erule allE[of _ s]) simp

lemma wp_put_ui: "unseen (Q (Ok ())) \<Longrightarrow> wp (put_ui e) Q w = Q (Ok ()) w"
  by (simp add: put_ui_def wp_modify unseen_ui)

text \<open>A closure run in a stage leaves what it would leave outside, up to the terminal.\<close>

lemma wp_stage_run:
  assumes "\<And>r. unseen (Q r)"
    and "\<And>u s. wp closure (\<lambda>r. Q (case r of
        Ok (x, Some e) \<Rightarrow> Ok (x, if is_skip e then None else Some e) | _ \<Rightarrow> r)) (w\<lparr>ui := u, simple_mode := s\<rparr>)"
  shows "wp (stage_run d name closure) Q w"
proof -
  note U = unseen_ui[OF assms(1)] unseen_mode[OF assms(1)]
  let ?R = "\<lambda>t0 r w'. case r of Ok x \<Rightarrow> wp (stage_end d t0 x) Q w'
    | Err e \<Rightarrow> Q (Err e) w' | Panic s \<Rightarrow> Q (Panic s) w' | Hang \<Rightarrow> Q Hang w'"
  have C: "wp closure (?R t0) (w\<lparr>ui := u, simple_mode := s\<rparr>)" for u s t0
    by (rule wp_mono[OF assms(2)])
      (auto simp: stage_end_def stage_defs Now_def wp_simps U split: outcome.splits prod.splits option.splits goerr.splits)
  have C1: "wp closure (?R t0) (w\<lparr>ui := u\<rparr>)" for u t0
    using C[where u = u and s = "simple_mode w" and ?t0.0 = t0] by simp
  have C2: "wp closure (?R t0) (w\<lparr>simple_mode := s, ui := u\<rparr>)" for u s t0
    using C[where u = u and s = s and ?t0.0 = t0] by (cases w) simp
  show ?thesis
    unfolding stage_run_def
    by (cases "simple_mode w d")
      (simp_all add: PrintLinef_def BeginLinef_def put_ui_def set_simple_mode_def Now_def wp_simps C C1 C2
        cong: outcome.case_cong)
qed

definition unskip :: "'a \<Rightarrow> 'a outcome \<Rightarrow> 'a outcome" where
  "unskip zero r = (case r of Err e \<Rightarrow> if is_skip e then Ok zero else Err e | _ \<Rightarrow> r)"

lemma unskip_simps [simp]:
  "unskip z (Ok x) = Ok x" "unskip z (Panic s) = Panic s" "unskip z Hang = Hang"
  "unskip z (Err e) = (if is_skip e then Ok z else Err e)"
  by (simp_all add: unskip_def)

lemma wp_Perform_val:
  assumes "\<And>r. unseen (Q r)" and "\<And>u s. wp m (\<lambda>r. Q (unskip zero r)) (w\<lparr>ui := u, simple_mode := s\<rparr>)"
  shows "wp (Perform_val d name zero m) Q w"
  unfolding Perform_val_def wp_bnd
proof (rule wp_stage_run, goal_cases)
  case (1 r)
  show ?case using assms(1) unfolding unseen_def
    by (auto simp: wp_simps split: outcome.splits prod.splits option.splits)
next
  case (2 u s)
  show ?case unfolding with_error_def wp_bnd wp_attempt
    by (rule wp_mono[OF assms(2)]) (auto simp: wp_simps split: outcome.splits)
qed

lemma wp_Perform:
  assumes "\<And>r. unseen (Q r)" and "\<And>u s. wp m (\<lambda>r. Q (unskip () r)) (w\<lparr>ui := u, simple_mode := s\<rparr>)"
  shows "wp (Perform d name m) Q w"
  unfolding Perform_def using assms by (rule wp_Perform_val)

lemma wp_PerformComplex:
  assumes U: "\<And>r. unseen (Q r)" and "\<And>u s. wp (closure (Suc d)) Q (w\<lparr>ui := u, simple_mode := s\<rparr>)"
  shows "wp (PerformComplex d name closure) Q w"
proof -
  have "wp (closure (Suc d)) (\<lambda>r w'. case r of
      Ok x \<Rightarrow> wp (bnd (elapsedSince t0) (\<lambda>t. seq (PrintLinef d (''Finished '' @ name @ '' ('' @ t @ '')'')) (ret x))) Q w'
    | Err e \<Rightarrow> wp (bnd (elapsedSince t0) (\<lambda>t. seq (PrintLinef d (''Failed '' @ name @ '' ('' @ t @ '')'')) (fail e))) Q w'
    | Panic s \<Rightarrow> Q (Panic s) w' | Hang \<Rightarrow> Q Hang w') (w\<lparr>ui := u, simple_mode := s\<rparr>)" for u s t0
    by (rule wp_mono[OF assms(2)])
      (auto simp: stage_defs Now_def wp_simps unseen_ui[OF U] split: outcome.splits)
  then show ?thesis
    unfolding PerformComplex_def
    by (simp add: PrintLinef_def put_ui_def set_simple_mode_def Now_def wp_simps cong: outcome.case_cong)
qed

lemma keeps_unseen:
  assumes "unseen P" "\<And>Q w. (\<And>r. unseen (Q r)) \<Longrightarrow> (\<And>u s. wp m (\<lambda>r. Q (f r)) (w\<lparr>ui := u, simple_mode := s\<rparr>)) \<Longrightarrow> wp n Q w"
    and "keeps P m"
  shows "keeps P n"
proof (rule keepsI, rule assms(2)[of "\<lambda>_. P"])
  fix w u s assume "P w"
  then show "wp m (\<lambda>r. P) (w\<lparr>ui := u, simple_mode := s\<rparr>)"
    using assms(1,3) by (auto intro: keepsD simp: unseen_def)
qed (use assms(1) in auto)

lemma keeps_Perform: "unseen P \<Longrightarrow> keeps P m \<Longrightarrow> keeps P (Perform d name m)"
  by (erule keeps_unseen[OF _ wp_Perform])

lemma keeps_Perform_val: "unseen P \<Longrightarrow> keeps P m \<Longrightarrow> keeps P (Perform_val d name z m)"
  by (erule keeps_unseen[OF _ wp_Perform_val])

lemma keeps_PerformComplex: "unseen P \<Longrightarrow> keeps P (f (Suc d)) \<Longrightarrow> keeps P (PerformComplex d name f)"
  by (erule keeps_unseen[OF _ wp_PerformComplex])

section \<open>The text that reaches the terminal\<close>

lemma Sprintf0_plain: "CHR ''%'' \<notin> set s \<Longrightarrow> Sprintf0 s = s"
  by (induction s rule: Sprintf0.induct) auto

lemma indent_line_plain: "CHR ''%'' \<notin> set s \<Longrightarrow> indent_line d s = replicate (2 * d) CHR '' '' @ s"
proof (induction d arbitrary: s)
  case (Suc d)
  then show ?case by (simp add: Sprintf0_plain replicate_app_Cons_same)
qed simp

lemma reformat_plain: "CHR ''%'' \<notin> set s \<Longrightarrow> reformat d s = s"
  by (induction d) (simp_all add: Sprintf0_plain)

end
