(* ===== verification/Compile.thy ===== *)
theory Compile
  imports Index Ui
begin

text \<open>
  Compilation of the packages of release jobs: state/job/dependency_compiler.go
  collects and orders them, deployment/instance/state/remote_package_compiler.go has
  the agent compile one, installation/pkg/compiler.go compiles one locally;
  blobstore/blobstore.go and installation/blobextract/extractor.go move the blobs.
  Shown: what the collection contains (and that it is not transitive), that the
  packages are compiled in dependency order, and what a compilation records.
\<close>

section \<open>release/job/job.go\<close>

record PropertyDefinition =
  pd_Description :: string
  pd_Default :: property

record Job =
  jb_Name :: string
  jb_Fingerprint :: string
  jb_SHA1 :: string
  jb_ExtractedPath :: string
  jb_Templates :: "(string \<times> string) list"
  jb_PackageNames :: "string list"
  jb_Packages :: "nat list"
  jb_Properties :: "(string \<times> PropertyDefinition) list"

definition FindTemplateByValue :: "Job \<Rightarrow> string \<Rightarrow> string option" where
  "FindTemplateByValue j value = map_option fst (find (\<lambda>(template, target). target = value) (jb_Templates j))"

section \<open>blobstore/blobstore.go\<close>

definition Blobstore_Get :: "string \<Rightarrow> (world, string) prog" where
  "Blobstore_Get blobID =
     bnd (attempt (ext ''fs.TempFile'' [''bosh-init-local-blob''])) (\<lambda>file. case file of
       Inl e \<Rightarrow> panic ''nil pointer dereference''
     | Inr destinationPath \<Rightarrow>
     seq (wrapf ''Closing new temp file %s'' [AStr destinationPath] (ext_unit ''file.Close'' [destinationPath]))
    (seq (wrapf ''Getting blob %s from blobstore'' [AStr blobID] (ext_unit ''davClient.Get'' [blobID]))
    (deferred
      (seq (wrapf ''Opening file for blob at %s'' [AStr destinationPath] (ext_unit ''fs.OpenFile'' [destinationPath]))
      (seq (wrapf ''Saving blob to %s'' [AStr destinationPath] (ext_unit ''io.Copy'' [destinationPath]))
           (ret destinationPath)))
      (ext_unit ''readCloser.Close'' []))))"

definition Blobstore_Add :: "string \<Rightarrow> (world, string) prog" where
  "Blobstore_Add sourcePath =
     bnd (wrap ''Generating Blob ID'' Generate) (\<lambda>blobID.
     seq (wrapf ''Opening file for reading %s'' [AStr sourcePath] (ext_unit ''fs.OpenFile'' [sourcePath]))
    (deferred
      (seq (wrapf ''Getting fileInfo from %s'' [AStr sourcePath] (ext_unit ''file.Stat'' [sourcePath]))
      (seq (wrapf ''Putting file %s into blobstore (via DAVClient) as blobID %s'' [AStr sourcePath, AStr blobID]
              (request_unit (CallBlobPut blobID sourcePath)))
           (ret blobID)))
      (ext_unit ''file.Close'' [sourcePath])))"

section \<open>installation/blobextract/extractor.go\<close>

text \<open>A failed clean-up is logged and ignored.\<close>

definition silently :: "(world, 'a) prog \<Rightarrow> (world, unit) prog" where
  "silently m = seq (attempt m) (ret ())"

definition Extract :: "string \<Rightarrow> string \<Rightarrow> string \<Rightarrow> (world, unit) prog" where
  "Extract blobID blobSHA1 targetDir =
     bnd (wrapf ''Getting object from blobstore: %s'' [AStr blobID] (ext ''blobstore.Get'' [blobID, blobSHA1])) (\<lambda>filePath.
     deferred
      (bnd (FileExists targetDir) (\<lambda>existed.
       seq (if existed then ret ()
            else wrapf ''Creating target dir: %s'' [AStr targetDir] (MkdirAll targetDir))
      (bnd (attempt (DecompressFileToDir filePath targetDir)) (\<lambda>r. case r of
          Inr _ \<Rightarrow> ret ()
        | Inl e \<Rightarrow> seq (if existed then ret () else silently (RemoveAll targetDir))
            (fail (WrapErrorf e ''Decompressing compiled package: BlobID: %s, BlobSHA1: %s'' [AStr blobID, AStr blobSHA1]))))))
      (silently (ext_unit ''blobstore.CleanUp'' [filePath])))"

definition ChmodExecutables :: "string \<Rightarrow> (world, unit) prog" where
  "ChmodExecutables binGlob =
     bnd (wrapf ''Globbing %s'' [AStr binGlob] (request_val (CallExt ''fs.Glob'' [binGlob]) a_strs)) (\<lambda>files.
     for_each (\<lambda>file. wrapf ''Making %s executable in %s'' [AStr file, AStr binGlob] (ext_unit ''fs.Chmod'' [file])) files)"

definition Extractor_Cleanup :: "string \<Rightarrow> string \<Rightarrow> (world, unit) prog" where
  "Extractor_Cleanup blobID decompressedBlobPath =
     seq (silently (RemoveAll decompressedBlobPath))
         (wrapf ''Deleting object from blobstore: %s'' [AStr blobID] (ext_unit ''blobstore.Delete'' [blobID]))"

section \<open>state/job/dependency\_compiler.go\<close>

record CompiledPackageRef =
  cpr_Name :: string
  cpr_Version :: string
  cpr_BlobstoreID :: string
  cpr_SHA1 :: string

type_synonym package_map = "(string \<times> nat) list"

definition pkgKey :: "heap \<Rightarrow> nat \<Rightarrow> string" where
  "pkgKey h a = pk_Name (h ! a)"

text \<open>
  \<^verbatim>\<open>resolvePackageDependencies\<close>, with a fuel for its recursion: every nested call
  follows an insertion, so one more than the number of dependencies is enough.
  The nested call gets the same package again, not the dependency just added.
\<close>

primrec resolve_deps_loop :: "(package_map \<Rightarrow> package_map option) \<Rightarrow> heap \<Rightarrow> nat list \<Rightarrow> package_map \<Rightarrow> package_map option" where
  "resolve_deps_loop again h [] m = Some m"
| "resolve_deps_loop again h (dependency # ds) m =
     (if map_of m (pkgKey h dependency) = None
      then (case again (AList.update (pkgKey h dependency) dependency m) of
              None \<Rightarrow> None | Some m' \<Rightarrow> resolve_deps_loop again h ds m')
      else resolve_deps_loop again h ds m)"

primrec resolvePackageDependencies :: "nat \<Rightarrow> heap \<Rightarrow> nat \<Rightarrow> package_map \<Rightarrow> package_map option" where
  "resolvePackageDependencies 0 h releasePackage m = None"
| "resolvePackageDependencies (Suc n) h releasePackage m =
     resolve_deps_loop (resolvePackageDependencies n h releasePackage) h (deps h releasePackage) m"

primrec collect_packages :: "heap \<Rightarrow> nat list \<Rightarrow> package_map \<Rightarrow> package_map option" where
  "collect_packages h [] m = Some m"
| "collect_packages h (p # ps) m =
     (case resolvePackageDependencies (Suc (length (deps h p))) h p (AList.update (pkgKey h p) p m) of
        None \<Rightarrow> None | Some m' \<Rightarrow> collect_packages h ps m')"

text \<open>
  \<open>iter1\<close> and \<open>iter2\<close> are the orders in which Go iterates over the map of packages
  and over the map of edges in \<^verbatim>\<open>Sort\<close>: any rearrangements.
\<close>

definition rearranges :: "(nat list \<Rightarrow> nat list) \<Rightarrow> bool" where
  "rearranges iter \<longleftrightarrow> (\<forall>l. mset (iter l) = mset l)"

definition edge_keys :: "heap \<Rightarrow> nat list \<Rightarrow> nat list" where
  "edge_keys h ps = remdups (ps @ concat (map (deps h) ps))"

definition resolveJobCompilationDependencies ::
  "(nat list \<Rightarrow> nat list) \<Rightarrow> (nat list \<Rightarrow> nat list) \<Rightarrow> heap \<Rightarrow> Job list \<Rightarrow> (world, nat list) prog" where
  "resolveJobCompilationDependencies iter1 iter2 h releaseJobs =
     (case collect_packages h (concat (map jb_Packages releaseJobs)) [] of
        None \<Rightarrow> panic ''stack overflow''
      | Some packageMap \<Rightarrow>
          let packages = iter1 (map snd packageMap) in
          (case Sort h (iter2 (edge_keys h packages)) packages of
             None \<Rightarrow> panic ''Expected package to be in dependency graph''
           | Some r \<Rightarrow> lift_sum r))"

definition compile_step ::
  "heap \<Rightarrow> (nat \<Rightarrow> (world, CompiledPackageRecord \<times> bool) prog) \<Rightarrow> CompiledPackageRef list \<Rightarrow> nat
    \<Rightarrow> (world, CompiledPackageRef list \<times> goerr option) prog" where
  "compile_step h cpl packageRefs p = bnd (attempt (cpl p)) (\<lambda>r. case r of
       Inl e \<Rightarrow> ret (packageRefs, Some e)
     | Inr (record, isAlreadyCompiled) \<Rightarrow>
         ret (packageRefs @ [\<lparr>cpr_Name = pk_Name (h ! p), cpr_Version = pk_Fingerprint (h ! p),
                 cpr_BlobstoreID = cr_BlobID record, cpr_SHA1 = cr_BlobSHA1 record\<rparr>],
              if isAlreadyCompiled
              then Some (SkipStageError (Errorf ''Package %s is already compiled. Skipped compilation'' [AStr (pk_Name (h ! p))])
                          ''Package already compiled'')
              else None))"

primrec compilePackages ::
  "heap \<Rightarrow> (nat \<Rightarrow> (world, CompiledPackageRecord \<times> bool) prog) \<Rightarrow> nat \<Rightarrow> nat list \<Rightarrow> CompiledPackageRef list
    \<Rightarrow> (world, CompiledPackageRef list) prog" where
  "compilePackages h cpl d [] packageRefs = ret packageRefs"
| "compilePackages h cpl d (p # ps) packageRefs =
     bnd (stage_run d (''Compiling package '' @ pk_Name (h ! p) @ ''/'' @ pk_Fingerprint (h ! p))
            (compile_step h cpl packageRefs p)) (\<lambda>(packageRefs', err).
     seq (or_err err) (compilePackages h cpl d ps packageRefs'))"

definition DependencyCompiler_Compile ::
  "(nat list \<Rightarrow> nat list) \<Rightarrow> (nat list \<Rightarrow> nat list) \<Rightarrow> heap \<Rightarrow> (nat \<Rightarrow> (world, CompiledPackageRecord \<times> bool) prog)
    \<Rightarrow> Job list \<Rightarrow> nat \<Rightarrow> (world, CompiledPackageRef list) prog" where
  "DependencyCompiler_Compile iter1 iter2 h cpl releaseJobs stage =
     bnd (wrap ''Resolving job package dependencies'' (resolveJobCompilationDependencies iter1 iter2 h releaseJobs)) (\<lambda>pkgs.
     wrap ''Compiling job package dependencies'' (compilePackages h cpl stage pkgs []))"

section \<open>deployment/instance/state/remote\_package\_compiler.go\<close>

text \<open>\<open>fnd\<close> and \<open>sav\<close> are the operations of the index under the compiled-package repository.\<close>

definition find_dependency ::
  "(index_key \<Rightarrow> (world, CompiledPackageRecord) prog) \<Rightarrow> heap \<Rightarrow> nat \<Rightarrow> nat \<Rightarrow> (world, blob_ref) prog" where
  "find_dependency fnd h releasePackage dependency =
     bnd (wrapf ''Finding compiled package %s/%s as dependency for %s/%s''
            [AStr (pk_Name (h ! dependency)), AStr (pk_Fingerprint (h ! dependency)),
             AStr (pk_Name (h ! releasePackage)), AStr (pk_Fingerprint (h ! releasePackage))]
            (CompiledPackageRepo_Find fnd h (h ! dependency))) (\<lambda>r. case r of
       None \<Rightarrow> fail (Errorf ''Remote compilation failure: Package %s/%s requires package %s/%s, but it has not been compiled''
            [AStr (pk_Name (h ! releasePackage)), AStr (pk_Fingerprint (h ! releasePackage)),
             AStr (pk_Name (h ! dependency)), AStr (pk_Fingerprint (h ! dependency))])
     | Some record \<Rightarrow> ret \<lparr>br_Name = pk_Name (h ! dependency), br_Version = pk_Fingerprint (h ! dependency),
            br_SHA1 = cr_BlobSHA1 record, br_BlobstoreID = cr_BlobID record\<rparr>)"

definition compile_source ::
  "(index_key \<Rightarrow> (world, CompiledPackageRecord) prog) \<Rightarrow> heap \<Rightarrow> nat \<Rightarrow> blob_ref \<Rightarrow> (world, CompiledPackageRecord) prog" where
  "compile_source fnd h releasePackage packageSource =
     bnd (map_prog (find_dependency fnd h releasePackage) (deps h releasePackage)) (\<lambda>packageDependencies.
     bnd (wrapf ''Remotely compiling package %s with the agent'' [AStr (pk_Name (h ! releasePackage))]
            (request_val (CallCompilePackage packageSource packageDependencies) a_blob)) (\<lambda>compiledPackageRef.
     ret \<lparr>cr_BlobID = br_BlobstoreID compiledPackageRef, cr_BlobSHA1 = br_SHA1 compiledPackageRef\<rparr>))"

definition RemotePackageCompiler_Compile ::
  "(index_key \<Rightarrow> (world, CompiledPackageRecord) prog) \<Rightarrow> (index_key \<Rightarrow> CompiledPackageRecord \<Rightarrow> (world, unit) prog)
    \<Rightarrow> heap \<Rightarrow> nat \<Rightarrow> (world, CompiledPackageRecord \<times> bool) prog" where
  "RemotePackageCompiler_Compile fnd sav h releasePackage =
     (let p = h ! releasePackage in
     bnd (wrapf ''Adding release package archive %s to blobstore'' [AStr (pk_ArchivePath p)]
            (Blobstore_Add (pk_ArchivePath p))) (\<lambda>blobID.
     let packageSource = \<lparr>br_Name = pk_Name p, br_Version = pk_Fingerprint p, br_SHA1 = pk_SHA1 p, br_BlobstoreID = blobID\<rparr> in
     bnd (if pk_Stemcell p = ''''
          then bnd (compile_source fnd h releasePackage packageSource) (\<lambda>record. ret (record, False))
          else ret (\<lparr>cr_BlobID = blobID, cr_BlobSHA1 = pk_SHA1 p\<rparr>, True)) (\<lambda>(record, isAlreadyCompiled).
     seq (wrapf ''Saving compiled package record %#v of package %#v'' [ADump, ADump]
            (CompiledPackageRepo_Save sav h p record))
         (ret (record, isAlreadyCompiled)))))"

section \<open>installation/pkg/compiler.go\<close>

definition installPackages ::
  "(index_key \<Rightarrow> (world, CompiledPackageRecord) prog) \<Rightarrow> heap \<Rightarrow> string \<Rightarrow> nat list \<Rightarrow> (world, unit) prog" where
  "installPackages fnd h packagesDir packages = for_each (\<lambda>a.
     bnd (wrapf ''Attempting to find compiled package %s'' [AStr (pk_Name (h ! a))]
            (CompiledPackageRepo_Find fnd h (h ! a))) (\<lambda>r. case r of
       None \<Rightarrow> fail (Errorf ''Finding compiled package %s'' [AStr (pk_Name (h ! a))])
     | Some record \<Rightarrow>
         wrapf ''Installing package %s into %s'' [AStr (pk_Name (h ! a)), AStr packagesDir]
           (Extract (cr_BlobID record) (cr_BlobSHA1 record) (JoinPath [packagesDir, pk_Name (h ! a)])))) packages"

definition compile_command :: "string \<Rightarrow> Package \<Rightarrow> string \<Rightarrow> command" where
  "compile_command packagesDir p installDir =
     \<lparr>cmd_Name = ''bash'', cmd_Args = [''-x'', ''packaging''],
      cmd_Env = [(''BOSH_COMPILE_TARGET'', pk_ExtractedPath p), (''BOSH_INSTALL_TARGET'', installDir),
                 (''BOSH_PACKAGE_NAME'', pk_Name p), (''BOSH_PACKAGES_DIR'', packagesDir),
                 (''PATH'', ''/usr/local/bin:/usr/bin:/bin'')],
      cmd_UseIsolatedEnv = True, cmd_WorkingDir = pk_ExtractedPath p\<rparr>"

definition PackageCompiler_Compile ::
  "(index_key \<Rightarrow> (world, CompiledPackageRecord) prog) \<Rightarrow> (index_key \<Rightarrow> CompiledPackageRecord \<Rightarrow> (world, unit) prog)
    \<Rightarrow> heap \<Rightarrow> string \<Rightarrow> nat \<Rightarrow> (world, CompiledPackageRecord \<times> bool) prog" where
  "PackageCompiler_Compile fnd sav h packagesDir a =
     (let p = h ! a; installDir = JoinPath [packagesDir, pk_Name p] in
     bnd (wrapf ''Attempting to find compiled package %s'' [AStr (pk_Name p)] (CompiledPackageRepo_Find fnd h p)) (\<lambda>found.
     case found of Some record \<Rightarrow> ret (record, False)
     | None \<Rightarrow>
       seq (wrapf ''Installing dependencies of package %s'' [AStr (pk_Name p)] (installPackages fnd h packagesDir (deps h a)))
      (deferred
        (seq (wrap ''Creating package install dir'' (MkdirAll installDir))
        (bnd (FileExists (JoinPath [pk_ExtractedPath p, ''packaging''])) (\<lambda>exists.
         seq (check exists (Errorf ''Packaging script for package %s not found'' [AStr (pk_Name p)]))
        (seq (wrap ''Compiling package'' (request_unit (CallRun (compile_command packagesDir p installDir))))
        (bnd (wrap ''Compressing compiled package'' (ext ''compressor.CompressFilesInDir'' [installDir])) (\<lambda>tarball.
         deferred
          (bnd (wrap ''Creating blob'' (request_val (CallExt ''blobstore.Create'' [tarball]) a_blob)) (\<lambda>blob.
           let record = \<lparr>cr_BlobID = br_BlobstoreID blob, cr_BlobSHA1 = br_SHA1 blob\<rparr> in
           seq (wrap ''Saving compiled package'' (CompiledPackageRepo_Save sav h p record))
               (ret (record, False))))
          (silently (ext_unit ''compressor.CleanUp'' [tarball]))))))))
        (silently (RemoveAll packagesDir)))))"

section \<open>What the collection contains\<close>

lemma resolve_deps_loop_all_found:
  "\<forall>d \<in> set ds. map_of m (pkgKey h d) \<noteq> None \<Longrightarrow> resolve_deps_loop again h ds m = Some m"
  by (induction ds) auto

definition with_deps :: "heap \<Rightarrow> nat list \<Rightarrow> package_map \<Rightarrow> string \<Rightarrow> nat option" where
  "with_deps h ds m k = (case map_of m k of Some v \<Rightarrow> Some v | None \<Rightarrow> find (\<lambda>d. pkgKey h d = k) ds)"

lemma with_deps_found: "d \<in> set ds \<Longrightarrow> with_deps h ds m (pkgKey h d) \<noteq> None"
  using find_ex[of d ds "\<lambda>x. pkgKey h x = pkgKey h d"] by (auto simp: with_deps_def split: option.splits)

lemma resolve_deps_loop_ok:
  assumes again: "\<And>m'. card (pkgKey h ` set all - dom (map_of m')) < card (pkgKey h ` set all - dom (map_of m)) \<Longrightarrow>
      \<exists>m''. again m' = Some m'' \<and> map_of m'' = with_deps h all m'"
  shows "all = pre @ ds \<Longrightarrow> \<forall>d \<in> set pre. map_of m (pkgKey h d) \<noteq> None \<Longrightarrow>
    \<exists>m'. resolve_deps_loop again h ds m = Some m' \<and> map_of m' = with_deps h all m"
proof (induction ds arbitrary: pre)
  case Nil
  have "with_deps h pre m k = map_of m k" for k
    using Nil by (cases "find (\<lambda>d. pkgKey h d = k) pre") (auto simp: with_deps_def dest: find_SomeD split: option.splits)
  then show ?case using Nil by auto
next
  case (Cons d ds)
  show ?case
  proof (cases "map_of m (pkgKey h d) = None")
    case False
    then show ?thesis using Cons.IH[of "pre @ [d]"] Cons.prems by auto
  next
    case True
    let ?m = "AList.update (pkgKey h d) d m"
    have "pkgKey h d \<in> pkgKey h ` set all - dom (map_of m)" using True Cons.prems(1) by auto
    then have "pkgKey h ` set all - dom (map_of ?m) \<subset> pkgKey h ` set all - dom (map_of m)"
      by (auto simp: update_conv')
    then obtain m'' where m'': "again ?m = Some m''" "map_of m'' = with_deps h all ?m"
      using again[of ?m] by (meson List.finite_set finite_Diff finite_imageI psubset_card_mono)
    have "resolve_deps_loop again h ds m'' = Some m''"
      using with_deps_found[of _ all h ?m] Cons.prems(1) by (intro resolve_deps_loop_all_found) (auto simp: m''(2))
    moreover have "find (\<lambda>x. pkgKey h x = pkgKey h d) all = Some d"
    proof -
      have "find (\<lambda>x. pkgKey h x = pkgKey h d) pre = None"
        using Cons.prems(2) True by (metis (mono_tags, lifting) find_None_iff)
      then show ?thesis using Cons.prems(1) by (induction pre arbitrary: all) (auto split: if_splits)
    qed
    then have "with_deps h all ?m = with_deps h all m"
      using True by (auto simp: with_deps_def update_conv' fun_eq_iff split: option.splits)
    ultimately show ?thesis using m'' True by auto
  qed
qed

lemma resolvePackageDependencies_ok:
  "card (pkgKey h ` set (deps h p) - dom (map_of m)) < n \<Longrightarrow>
   \<exists>m'. resolvePackageDependencies n h p m = Some m' \<and> map_of m' = with_deps h (deps h p) m"
proof (induction n arbitrary: m)
  case (Suc n)
  show ?case unfolding resolvePackageDependencies.simps
    by (rule resolve_deps_loop_ok[where pre = "[]"]) (use Suc in auto)
qed simp

lemma resolve_fuel:
  "\<exists>m'. resolvePackageDependencies (Suc (length (deps h p))) h p m = Some m' \<and> map_of m' = with_deps h (deps h p) m"
proof (rule resolvePackageDependencies_ok)
  have "card (pkgKey h ` set (deps h p) - dom (map_of m)) \<le> card (pkgKey h ` set (deps h p))"
    by (intro card_mono) auto
  also have "\<dots> \<le> length (deps h p)" by (meson List.finite_set card_image_le card_length order_trans)
  finally show "card (pkgKey h ` set (deps h p) - dom (map_of m)) < Suc (length (deps h p))" by simp
qed

text \<open>Names identify the packages in \<open>A\<close>.\<close>

definition unique_names :: "heap \<Rightarrow> nat set \<Rightarrow> bool" where
  "unique_names h A \<longleftrightarrow> inj_on (pkgKey h) A"

definition one_level :: "heap \<Rightarrow> nat list \<Rightarrow> nat set" where
  "one_level h ps = set ps \<union> (\<Union>p \<in> set ps. set (deps h p))"

definition map_holds :: "heap \<Rightarrow> nat set \<Rightarrow> package_map \<Rightarrow> bool" where
  "map_holds h A m \<longleftrightarrow> (\<forall>k v. map_of m k = Some v \<longleftrightarrow> v \<in> A \<and> k = pkgKey h v)"

lemma collect_packages_ok:
  assumes "unique_names h B"
  shows "A \<union> one_level h ps \<subseteq> B \<Longrightarrow> map_holds h A m \<Longrightarrow>
    \<exists>m'. collect_packages h ps m = Some m' \<and> map_holds h (A \<union> one_level h ps) m'"
proof (induction ps arbitrary: A m)
  case (Cons p ps)
  let ?m = "AList.update (pkgKey h p) p m"
  obtain m' where m': "resolvePackageDependencies (Suc (length (deps h p))) h p ?m = Some m'"
      "map_of m' = with_deps h (deps h p) ?m" using resolve_fuel by blast
  have B: "p \<in> B" "set (deps h p) \<subseteq> B" "A \<subseteq> B" using Cons.prems(1) by (auto simp: one_level_def)
  have inj: "x \<in> B \<Longrightarrow> y \<in> B \<Longrightarrow> pkgKey h x = pkgKey h y \<Longrightarrow> x = y" for x y
    using assms by (auto simp: unique_names_def inj_on_def)
  have P: "map_of ?m k = Some v \<longleftrightarrow> v \<in> insert p A \<and> k = pkgKey h v" for k v
    using Cons.prems(2) B inj by (auto simp: map_holds_def update_conv')
  have "map_holds h (insert p A \<union> set (deps h p)) m'"
    unfolding map_holds_def m'(2)
  proof (intro allI)
    fix k v
    show "with_deps h (deps h p) ?m k = Some v \<longleftrightarrow> v \<in> insert p A \<union> set (deps h p) \<and> k = pkgKey h v"
    proof (cases "map_of ?m k")
      case (Some x)
      then have x: "x \<in> insert p A" "k = pkgKey h x" using P by blast+
      then show ?thesis using inj[of x v] B Some by (auto simp: with_deps_def)
    next
      case None
      then have no: "v \<in> insert p A \<Longrightarrow> k \<noteq> pkgKey h v" for v using P[of k v] by auto
      have "find (\<lambda>d. pkgKey h d = k) (deps h p) = Some v \<longleftrightarrow> v \<in> set (deps h p) \<and> k = pkgKey h v"
      proof
        assume r: "v \<in> set (deps h p) \<and> k = pkgKey h v"
        then obtain x where x: "find (\<lambda>d. pkgKey h d = k) (deps h p) = Some x" "x \<in> set (deps h p)" "pkgKey h x = k"
          using find_ex[of v "deps h p" "\<lambda>d. pkgKey h d = k"] by auto
        then show "find (\<lambda>d. pkgKey h d = k) (deps h p) = Some v" using r inj[of x v] B by auto
      qed (auto dest: find_SomeD)
      then show ?thesis using None no by (auto simp: with_deps_def)
    qed
  qed
  moreover have "insert p A \<union> set (deps h p) \<union> one_level h ps = A \<union> one_level h (p # ps)"
    by (auto simp: one_level_def)
  ultimately show ?case using Cons.IH[of "insert p A \<union> set (deps h p)" m'] Cons.prems(1) m'(1) by auto
qed (simp add: one_level_def)

lemma collect_packages_set:
  assumes "unique_names h (one_level h ps)"
  shows "\<exists>m. collect_packages h ps [] = Some m \<and> set (map snd m) = one_level h ps"
proof -
  have d: "distinct (map fst m) \<Longrightarrow> collect_packages h qs m = Some m' \<Longrightarrow> distinct (map fst m')" for qs m m'
  proof (induction qs arbitrary: m)
    case (Cons q qs)
    have loop: "(\<And>m m'. distinct (map fst m) \<Longrightarrow> again m = Some m' \<Longrightarrow> distinct (map fst m')) \<Longrightarrow>
        distinct (map fst m) \<Longrightarrow> resolve_deps_loop again h ds m = Some m' \<Longrightarrow> distinct (map fst m')" for again ds m m'
      by (induction ds arbitrary: m) (auto split: if_splits option.splits intro: distinct_update)
    have res: "distinct (map fst m) \<Longrightarrow> resolvePackageDependencies n h q m = Some m' \<Longrightarrow> distinct (map fst m')" for n m m'
      by (induction n arbitrary: m m') (auto intro: loop)
    have "collect_packages h (q # qs) m = Some m'" using Cons.prems(2) .
    then obtain m1 where m1: "resolvePackageDependencies (Suc (length (deps h q))) h q (AList.update (pkgKey h q) q m) = Some m1"
        "collect_packages h qs m1 = Some m'"
      by (auto split: option.splits simp del: resolvePackageDependencies.simps)
    have "distinct (map fst m1)" by (rule res[OF _ m1(1)]) (use Cons.prems(1) in \<open>simp add: distinct_update\<close>)
    then show ?case by (rule Cons.IH[OF _ m1(2)])
  qed simp
  obtain m where m: "collect_packages h ps [] = Some m" "map_holds h (one_level h ps) m"
    using collect_packages_ok[OF assms, of "{}" ps "[]"] by (auto simp: map_holds_def)
  have "(k, v) \<in> set m \<longleftrightarrow> v \<in> one_level h ps \<and> k = pkgKey h v" for k v
    using m(2) map_of_eq_Some_iff[OF d[of "[]" ps m], of k v] m(1) by (simp add: map_holds_def)
  then have "v \<in> set (map snd m) \<longleftrightarrow> v \<in> one_level h ps" for v
    by (simp add: image_iff Bex_def split_paired_Ex)
  then show ?thesis using m(1) by blast
qed

lemma set_rearranges: "rearranges iter \<Longrightarrow> set (iter l) = set l"
  unfolding rearranges_def by (metis set_mset_mset)

lemma distinct_rearranges: "rearranges iter \<Longrightarrow> distinct (iter l) = distinct l"
  unfolding rearranges_def by (metis mset_eq_imp_distinct_iff)

text \<open>
  The packages that will be compiled: those the jobs name and two levels of
  dependencies below them, one from the collection and one from the sort.
\<close>

definition two_levels :: "heap \<Rightarrow> nat list \<Rightarrow> nat set" where
  "two_levels h ps = one_level h ps \<union> (\<Union>p \<in> one_level h ps. set (deps h p))"

definition level_edges :: "heap \<Rightarrow> nat list \<Rightarrow> (nat \<times> nat) set" where
  "level_edges h ps = {(p, d). p \<in> one_level h ps \<and> d \<in> set (deps h p)}"

lemma resolveJobCompilationDependencies_spec:
  assumes "rearranges iter1" "rearranges iter2"
    and "unique_names h (one_level h (concat (map jb_Packages jobs)))"
  defines "ps \<equiv> concat (map jb_Packages jobs)"
  shows "\<exists>r. resolveJobCompilationDependencies iter1 iter2 h jobs w = (r, w) \<and>
    (if acyclic (level_edges h ps)
     then \<exists>ts. r = Ok ts \<and> distinct ts \<and> set ts = two_levels h ps \<and> topo (level_edges h ps) ts
     else r = Err circular_error)"
proof -
  obtain m where m: "collect_packages h ps [] = Some m" "set (map snd m) = one_level h ps"
    using collect_packages_set assms(3) unfolding ps_def by blast
  let ?ps = "iter1 (map snd m)"
  have s: "set ?ps = one_level h ps" using m(2) set_rearranges[OF assms(1)] by simp
  have e: "sort_edges h ?ps = level_edges h ps" by (simp add: sort_edges_def level_edges_def s)
  have k: "sort_keys h ?ps = two_levels h ps" by (simp add: sort_keys_def two_levels_def s)
  have o: "distinct (iter2 (edge_keys h ?ps))" "set (iter2 (edge_keys h ?ps)) = sort_keys h ?ps"
    using distinct_rearranges[OF assms(2)] set_rearranges[OF assms(2)]
    by (auto simp: edge_keys_def sort_keys_def)
  show ?thesis using Sort_spec[OF o] m(1) unfolding e k
    by (auto simp: resolveJobCompilationDependencies_def ps_def lift_sum_def ret_def fail_def split: if_splits)
qed

section \<open>What a compilation does\<close>

lemma compilePackages_refs:
  assumes step: "\<And>p w. wp (cpl p) (\<lambda>r _. case r of Panic s \<Rightarrow> False | Err e \<Rightarrow> \<not> is_skip e | _ \<Rightarrow> True) w"
  shows "wp (compilePackages h cpl d ps refs) (\<lambda>r w'. case r of
      Ok refs' \<Rightarrow> map (\<lambda>r. (cpr_Name r, cpr_Version r)) refs'
        = map (\<lambda>r. (cpr_Name r, cpr_Version r)) refs @ map (\<lambda>p. (pk_Name (h ! p), pk_Fingerprint (h ! p))) ps
    | Panic s \<Rightarrow> False | _ \<Rightarrow> True) w"
proof (induction ps arbitrary: refs w)
  case (Cons p ps)
  show ?case unfolding compilePackages.simps
  proof (rule wp_bnd_rule, rule wp_stage_run[where Q = "\<lambda>r _. case r of
      Ok (refs', e) \<Rightarrow> e \<noteq> None \<or> map (\<lambda>r. (cpr_Name r, cpr_Version r)) refs'
        = map (\<lambda>r. (cpr_Name r, cpr_Version r)) refs @ [(pk_Name (h ! p), pk_Fingerprint (h ! p))]
    | Panic s \<Rightarrow> False | _ \<Rightarrow> True"], goal_cases)
    case (2 u s)
    show ?case unfolding compile_step_def wp_bnd wp_attempt
      by (rule wp_mono[OF step]) (auto simp: wp_ret split: outcome.splits)
  next
    case (3 x w')
    then show ?case
      by (auto simp: wp_seq wp_or_err split: prod.splits option.splits outcome.splits intro!: wp_mono[OF Cons.IH])
  qed (auto simp: unseen_def)
qed (simp add: wp_ret)

lemma wp_request: "wp (request c g) Q w =
    wp (ask g) Q (w\<lparr>calls := calls w @ [c]\<rparr>)"
  by (simp add: request_def note_call_def wp_simps)

lemma wp_request_val: "wp (request_val c g) Q w =
    wp (ask g) (\<lambda>r w'. case r of Ok (Inr x) \<Rightarrow> Q (Ok x) w' | Ok (Inl e) \<Rightarrow> Q (Err e) w' | _ \<Rightarrow> True) (w\<lparr>calls := calls w @ [c]\<rparr>)"
  by (simp add: request_val_def wp_request wp_simps Let_def split: sum.splits)

lemma wp_request_unit: "wp (request_unit c) Q w =
    wp (ask a_err) (\<lambda>r w'. case r of Ok None \<Rightarrow> Q (Ok ()) w' | Ok (Some e) \<Rightarrow> Q (Err e) w' | _ \<Rightarrow> True) (w\<lparr>calls := calls w @ [c]\<rparr>)"
  by (simp add: request_unit_def wp_request wp_simps Let_def split: option.splits)

context compiled_repo begin

text \<open>Requests to the outside leave the index alone.\<close>

definition indexed :: "(index_key \<Rightarrow> CompiledPackageRecord option) \<Rightarrow> world \<Rightarrow> bool" where
  "indexed f w \<longleftrightarrow> holds w f \<and> atomic_writes w"

lemma indexed_frame: "indexed f w \<Longrightarrow> files w' = files w \<Longrightarrow> mem_index w' = mem_index w \<Longrightarrow>
    answers w' = answers w \<Longrightarrow> indexed f w'"
  using frame_holds[of w f w'] by (simp add: indexed_def atomic_writes_def)

lemma indexed_steady: "steady (indexed f)"
  unfolding steady_def by (intro allI; rule iffI; erule indexed_frame) simp_all

lemma blob_add: "safe (indexed f) (Blobstore_Add path)"
  unfolding Blobstore_Add_def by (intro safe_intros safe_requests indexed_steady)

lemma find_dependency_wp:
  assumes "indexed f w"
  shows "wp (find_dependency fnd h p d) (\<lambda>r w'. indexed f w' \<and> (case r of
      Ok b \<Rightarrow> \<exists>record. f (compiledPkgKey h (h ! d)) = Some record \<and>
        b = \<lparr>br_Name = pk_Name (h ! d), br_Version = pk_Fingerprint (h ! d), br_SHA1 = cr_BlobSHA1 record, br_BlobstoreID = cr_BlobID record\<rparr>
    | Err e \<Rightarrow> \<not> is_skip e | _ \<Rightarrow> False)) w"
  unfolding find_dependency_def wp_bnd wp_wrapf
  using assms by (intro wp_mono[OF repo_find])
    (auto simp: indexed_def wp_simps atomic_writes_ticked ticked_holds split: option.splits)

lemma compile_source_wp:
  assumes "indexed f w"
  shows "wp (compile_source fnd h p src) (\<lambda>r w'. indexed f w' \<and> (case r of
      Ok _ \<Rightarrow> \<forall>d \<in> set (deps h p). f (compiledPkgKey h (h ! d)) \<noteq> None
    | Err e \<Rightarrow> \<not> is_skip e | _ \<Rightarrow> False)) w"
proof -
  have deps: "wp (map_prog (find_dependency fnd h p) ds) (\<lambda>r w'. indexed f w' \<and> (case r of
      Ok _ \<Rightarrow> \<forall>d \<in> set ds. f (compiledPkgKey h (h ! d)) \<noteq> None
    | Err e \<Rightarrow> \<not> is_skip e | _ \<Rightarrow> False)) w" if "indexed f w" for ds w
    using that
  proof (induction ds arbitrary: w)
    case (Cons d ds)
    show ?case unfolding map_prog.simps
    proof (rule wp_bnd_rule[OF find_dependency_wp[OF Cons.prems]], goal_cases)
      case (1 b w')
      then show ?case by (intro wp_bnd_rule[OF Cons.IH]) (auto simp: wp_ret)
    qed auto
  qed (simp add: wp_ret)
  show ?thesis unfolding compile_source_def
    by (rule wp_bnd_rule[OF deps[OF assms]])
      (auto simp: wp_ret intro!: wp_safe_bnd_wrapf[OF safe_request_val[OF indexed_steady]])
qed

text \<open>A remote compilation records its package, and needs its direct dependencies recorded.\<close>

definition remote_post :: "heap \<Rightarrow> (index_key \<Rightarrow> CompiledPackageRecord option) \<Rightarrow> nat
    \<Rightarrow> (CompiledPackageRecord \<times> bool) outcome \<Rightarrow> world \<Rightarrow> bool" where
  "remote_post h f p r w' = (case r of
      Ok (record, already) \<Rightarrow> indexed (f(compiledPkgKey h (h ! p) \<mapsto> record)) w'
        \<and> already = (pk_Stemcell (h ! p) \<noteq> '''')
        \<and> (already \<or> (\<forall>d \<in> set (deps h p). f (compiledPkgKey h (h ! d)) \<noteq> None))
    | Err e \<Rightarrow> indexed f w' \<and> \<not> is_skip e | _ \<Rightarrow> False)"

lemma remote_save:
  assumes "indexed f w" "already = (pk_Stemcell (h ! p) \<noteq> '''')"
    "already \<or> (\<forall>d \<in> set (deps h p). f (compiledPkgKey h (h ! d)) \<noteq> None)"
  shows "wp (seq (wrapf msg args (CompiledPackageRepo_Save sav h (h ! p) rc)) (ret (rc, already)))
      (remote_post h f p) w"
  using assms unfolding indexed_def
  by (intro wp_seq_wrapf[OF repo_save[where p = "h ! p"]])
    (auto simp: wp_ret remote_post_def indexed_def atomic_writes_def split: outcome.splits)

lemma remote_compile:
  assumes "indexed f w"
  shows "wp (RemotePackageCompiler_Compile fnd sav h p) (remote_post h f p) w"
  unfolding RemotePackageCompiler_Compile_def Let_def
proof (rule wp_safe_bnd_wrapf[OF blob_add assms], goal_cases)
  case (1 blobID w')
  show ?case
  proof (cases "pk_Stemcell (h ! p) = ''''")
    case True
    then show ?thesis unfolding if_P[OF True] bnd_assoc bnd_ret prod.case
      by (intro wp_bnd_rule[OF compile_source_wp[OF 1]]) (auto simp: remote_post_def intro!: remote_save)
  next
    case False
    then show ?thesis using 1 by (simp add: bnd_ret remote_save)
  qed
qed (auto simp: remote_post_def)

text \<open>The whole list: afterwards every package is recorded, whatever was recorded before.\<close>

lemma compilePackages_records:
  assumes "indexed f w"
  shows "wp (compilePackages h (RemotePackageCompiler_Compile fnd sav h) d ps refs) (\<lambda>r w'.
    \<exists>f'. indexed f' w' \<and> (\<forall>k. f k \<noteq> None \<longrightarrow> f' k \<noteq> None) \<and> (case r of
      Ok _ \<Rightarrow> \<forall>p \<in> set ps. f' (compiledPkgKey h (h ! p)) \<noteq> None | Err e \<Rightarrow> True | _ \<Rightarrow> False)) w"
  using assms
proof (induction ps arbitrary: refs w f)
  case (Cons p ps)
  have un: "unseen (indexed g)" for g
    unfolding unseen_def by (intro allI; rule iffI; erule indexed_frame) simp_all
  show ?case unfolding compilePackages.simps
  proof (rule wp_bnd_rule, rule wp_stage_run[where Q = "\<lambda>r w'. case r of
      Ok (refs', None) \<Rightarrow> (\<exists>rc. indexed (f(compiledPkgKey h (h ! p) \<mapsto> rc)) w')
    | Ok (refs', Some e) \<Rightarrow> indexed f w' | Err e \<Rightarrow> indexed f w' | _ \<Rightarrow> False"], goal_cases)
    case (1 r)
    show ?case using un by (auto simp: unseen_def split: outcome.splits prod.splits option.splits)
  next
    case (2 u s)
    have "indexed f (w\<lparr>ui := u, simple_mode := s\<rparr>)" using Cons.prems un by (simp add: unseen_def)
    then show ?case unfolding compile_step_def wp_bnd wp_attempt
      by (intro wp_mono[OF remote_compile]) (auto simp: remote_post_def wp_ret split: outcome.splits)
  next
    case (3 x w')
    show ?case
    proof (cases x)
      case (Pair refs' err)
      show ?thesis
      proof (cases err)
        case None
        then obtain rc where i: "indexed (f(compiledPkgKey h (h ! p) \<mapsto> rc)) w'" using 3 Pair by auto
        show ?thesis unfolding Pair None by (simp add: seq_ret or_err_def)
            (rule wp_mono[OF Cons.IH[OF i]], elim exE conjE, rule exI, fastforce split: outcome.splits)
      qed (use 3 Pair in \<open>auto simp: wp_seq wp_or_err intro!: exI[of _ f]\<close>)
    qed
  qed auto
qed (auto simp: wp_ret)

end

end
