(* ===== verification/Cloud.thy ===== *)
theory Cloud
  imports Compile Repos
begin

text \<open>
  The CPI client: cloud/cloud.go, cloud/cpi_cmd_runner.go, cloud/cpi.go,
  cloud/errors.go and cloud/factory.go. Every operation is one run of the CPI
  executable; an error the CPI reports keeps its type (\<open>CpiError\<close>), which the
  callers test, while a failure to run the executable never has one.
\<close>

section \<open>cloud/cpi.go, cloud/cpi\_cmd\_runner.go\<close>

record CPI =
  cpi_JobPath :: string
  cpi_JobsDir :: string
  cpi_PackagesDir :: string

definition ExecutablePath :: "CPI \<Rightarrow> string" where
  "ExecutablePath j = JoinPath [cpi_JobPath j, ''bin'', ''cpi'']"

record cloud =
  cl_CPI :: CPI
  cl_DirectorID :: string

definition cpi_command :: "CPI \<Rightarrow> command" where
  "cpi_command cpi = \<lparr>cmd_Name = ExecutablePath cpi, cmd_Args = [],
     cmd_Env = [(''BOSH_PACKAGES_DIR'', cpi_PackagesDir cpi), (''BOSH_JOBS_DIR'', cpi_JobsDir cpi),
                (''PATH'', ''/usr/local/bin:/usr/bin:/bin'')],
     cmd_UseIsolatedEnv = True, cmd_WorkingDir = ''''\<rparr>"

text \<open>The answer: the executable fails, its output is not JSON, or it is a \<^verbatim>\<open>CmdOutput\<close>.\<close>

definition CmdRunner_Run :: "cloud \<Rightarrow> string \<Rightarrow> cpi_arg list \<Rightarrow> (world, cmd_output) prog" where
  "CmdRunner_Run c meth args =
     (let cmdInput = \<lparr>ci_Method = meth, ci_Arguments = args, ci_DirectorID = cl_DirectorID c\<rparr>;
          cmdPath = ExecutablePath (cl_CPI c) in
      bnd (wrapf ''Executing external CPI command: %s'' [AStr cmdPath]
             (request_val (CallCpi (cpi_command (cl_CPI c)) cmdInput) a_cpi)) (\<lambda>stdout.
      wrapf ''Unmarshalling external CPI command output: STDOUT: %s, STDERR: %s'' [ADump, ADump]
        (lift_sum stdout)))"

section \<open>cloud/cloud.go\<close>

definition VMNotFoundError :: string where "VMNotFoundError = ''Bosh::Clouds::VMNotFound''"
definition DiskNotFoundError :: string where "DiskNotFoundError = ''Bosh::Clouds::DiskNotFound''"
definition StemcellNotFoundError :: string where "StemcellNotFoundError = ''Bosh::Clouds::StemcellNotFound''"
definition NotImplementedError :: string where "NotImplementedError = ''Bosh::Clouds::NotImplemented''"

text \<open>The error of a CPI answer, and the string result of a create method.\<close>

definition check_output :: "string \<Rightarrow> cmd_output \<Rightarrow> (world, unit) prog" where
  "check_output meth cmdOutput = (case co_Error cmdOutput of
      None \<Rightarrow> ret () | Some e \<Rightarrow> fail (CpiError meth e))"

definition cid_result :: "cmd_output \<Rightarrow> (world, string) prog" where
  "cid_result cmdOutput = (case co_Result cmdOutput of
      PStr s \<Rightarrow> ret s
    | _ \<Rightarrow> fail (Errorf ''Unexpected external CPI command result: %#v'' [ADump]))"

definition CreateStemcell :: "cloud \<Rightarrow> string \<Rightarrow> gomap option \<Rightarrow> (world, string) prog" where
  "CreateStemcell c imagePath cloudProperties =
     bnd (CmdRunner_Run c ''create_stemcell'' [ArgStr imagePath, ArgProps cloudProperties]) (\<lambda>cmdOutput.
     seq (check_output ''create_stemcell'' cmdOutput) (cid_result cmdOutput))"

definition DeleteStemcell :: "cloud \<Rightarrow> string \<Rightarrow> (world, unit) prog" where
  "DeleteStemcell c stemcellCID =
     bnd (wrap ''Calling CPI delete_stemcell method'' (CmdRunner_Run c ''delete_stemcell'' [ArgStr stemcellCID])) (\<lambda>cmdOutput.
     check_output ''delete_stemcell'' cmdOutput)"

definition HasVM :: "cloud \<Rightarrow> string \<Rightarrow> (world, bool) prog" where
  "HasVM c vmCID =
     bnd (CmdRunner_Run c ''has_vm'' [ArgStr vmCID]) (\<lambda>cmdOutput.
     seq (check_output ''has_vm'' cmdOutput)
         (case co_Result cmdOutput of
            PBool b \<Rightarrow> ret b
          | _ \<Rightarrow> fail (Errorf ''Unexpected external CPI command result: %#v'' [ADump])))"

definition CreateVM :: "cloud \<Rightarrow> string \<Rightarrow> string \<Rightarrow> gomap option \<Rightarrow> (string \<times> gomap) list \<Rightarrow> gomap option \<Rightarrow> (world, string) prog" where
  "CreateVM c agentID stemcellCID cloudProperties networksInterfaces env =
     bnd (CmdRunner_Run c ''create_vm'' [ArgStr agentID, ArgStr stemcellCID, ArgProps cloudProperties,
            ArgNets networksInterfaces, ArgLocality [], ArgProps env]) (\<lambda>cmdOutput.
     seq (check_output ''create_vm'' cmdOutput) (cid_result cmdOutput))"

definition SetVMMetadata :: "cloud \<Rightarrow> string \<Rightarrow> cpi_arg \<Rightarrow> (world, unit) prog" where
  "SetVMMetadata c vmCID metadata =
     bnd (CmdRunner_Run c ''set_vm_metadata'' [ArgStr vmCID, metadata]) (\<lambda>cmdOutput.
     check_output ''set_vm_metadata'' cmdOutput)"

definition CreateDisk :: "cloud \<Rightarrow> int \<Rightarrow> gomap option \<Rightarrow> string \<Rightarrow> (world, string) prog" where
  "CreateDisk c sz cloudProperties vmCID =
     bnd (CmdRunner_Run c ''create_disk'' [ArgInt sz, ArgProps cloudProperties, ArgStr vmCID]) (\<lambda>cmdOutput.
     seq (check_output ''create_disk'' cmdOutput) (cid_result cmdOutput))"

definition AttachDisk :: "cloud \<Rightarrow> string \<Rightarrow> string \<Rightarrow> (world, unit) prog" where
  "AttachDisk c vmCID diskCID =
     bnd (wrap ''Calling CPI attach_disk method'' (CmdRunner_Run c ''attach_disk'' [ArgStr vmCID, ArgStr diskCID])) (\<lambda>cmdOutput.
     check_output ''attach_disk'' cmdOutput)"

definition DetachDisk :: "cloud \<Rightarrow> string \<Rightarrow> string \<Rightarrow> (world, unit) prog" where
  "DetachDisk c vmCID diskCID =
     bnd (wrap ''Calling CPI detach_disk method'' (CmdRunner_Run c ''detach_disk'' [ArgStr vmCID, ArgStr diskCID])) (\<lambda>cmdOutput.
     check_output ''detach_disk'' cmdOutput)"

definition DeleteVM :: "cloud \<Rightarrow> string \<Rightarrow> (world, unit) prog" where
  "DeleteVM c vmCID =
     bnd (wrap ''Calling CPI delete_vm method'' (CmdRunner_Run c ''delete_vm'' [ArgStr vmCID])) (\<lambda>cmdOutput.
     check_output ''delete_vm'' cmdOutput)"

definition DeleteDisk :: "cloud \<Rightarrow> string \<Rightarrow> (world, unit) prog" where
  "DeleteDisk c diskCID =
     bnd (wrap ''Calling CPI delete_disk method'' (CmdRunner_Run c ''delete_disk'' [ArgStr diskCID])) (\<lambda>cmdOutput.
     check_output ''delete_disk'' cmdOutput)"

lemmas cloud_defs = CreateStemcell_def DeleteStemcell_def HasVM_def CreateVM_def SetVMMetadata_def
  CreateDisk_def AttachDisk_def DetachDisk_def DeleteVM_def DeleteDisk_def check_output_def cid_result_def

section \<open>cloud/factory.go\<close>

text \<open>The installed CPI job (its name and path) and the directories of the installation target.\<close>

definition NewCloud :: "string \<Rightarrow> string \<Rightarrow> string \<Rightarrow> string \<Rightarrow> string \<Rightarrow> (world, cloud) prog" where
  "NewCloud jobName jobPath jobsPath packagesPath directorID =
     (let cpi = \<lparr>cpi_JobPath = jobPath, cpi_JobsDir = jobsPath, cpi_PackagesDir = packagesPath\<rparr> in
      bnd (FileExists (ExecutablePath cpi)) (\<lambda>exists.
      seq (check exists (Errorf ''Installed CPI job %s does not contain the required executable %s''
             [AStr jobName, AStr (ExecutablePath cpi)]))
          (ret \<lparr>cl_CPI = cpi, cl_DirectorID = directorID\<rparr>)))"

section \<open>What the operations do\<close>

text \<open>
  One CPI call is recorded, and nothing else changes but the request counter and the
  clock. \<open>cpi_post c meth args w\<close> relates the worlds before and after; with a result, the
  CPI reported no error; a typed error was reported by the CPI for this very method.
\<close>

definition cpi_call :: "cloud \<Rightarrow> string \<Rightarrow> cpi_arg list \<Rightarrow> call" where
  "cpi_call c meth args = CallCpi (cpi_command (cl_CPI c))
     \<lparr>ci_Method = meth, ci_Arguments = args, ci_DirectorID = cl_DirectorID c\<rparr>"

definition called :: "call \<Rightarrow> world \<Rightarrow> world \<Rightarrow> bool" where
  "called k w w' \<longleftrightarrow> ticked (w\<lparr>calls := calls w @ [k]\<rparr>) w'"

lemma called_frame:
  assumes "called k w w'"
  shows "files w' = files w" "calls w' = calls w @ [k]" "answers w' = answers w" "ui w' = ui w"
    "mem_index w' = mem_index w" "tick w \<le> tick w'"
  using assms by (auto simp: called_def dest: ticked_frame)

definition cpi_post :: "cloud \<Rightarrow> string \<Rightarrow> cpi_arg list \<Rightarrow> world \<Rightarrow> 'a outcome \<Rightarrow> world \<Rightarrow> bool" where
  "cpi_post c meth args w r w' \<longleftrightarrow> called (cpi_call c meth args) w w' \<and> returns r \<and>
     (\<forall>e. r = Err e \<longrightarrow> \<not> is_skip e \<and> (\<forall>m ce. e = CpiError m ce \<longrightarrow> m = meth))"

lemma CmdRunner_Run_wp:
  "wp (CmdRunner_Run c meth args) (\<lambda>r w'. called (cpi_call c meth args) w w' \<and>
     (case r of Ok _ \<Rightarrow> True | Err e \<Rightarrow> cloud_error_type e = None \<and> \<not> is_skip e | _ \<Rightarrow> False)) w"
  by (auto simp: CmdRunner_Run_def Let_def wp_request_val wp_simps cpi_call_def called_def split: sum.splits)

text \<open>What follows the CPI call only inspects its output.\<close>

lemma cpi_step:
  assumes "\<And>out v. wp (f out) (\<lambda>r v'. v' = v \<and> returns r \<and>
      (\<forall>e. r = Err e \<longrightarrow> \<not> is_skip e \<and> (\<forall>m ce. e = CpiError m ce \<longrightarrow> m = meth))) v"
  shows "wp (bnd (CmdRunner_Run c meth args) f) (cpi_post c meth args w) w"
    "wp (bnd (wrap msg (CmdRunner_Run c meth args)) f) (cpi_post c meth args w) w"
proof -
  have f: "wp (f out) (cpi_post c meth args w) v" if "called (cpi_call c meth args) w v" for out v
    using that by (intro wp_mono[OF assms]) (auto simp: cpi_post_def)
  show "wp (bnd (CmdRunner_Run c meth args) f) (cpi_post c meth args w) w"
    by (rule wp_bnd_rule[OF CmdRunner_Run_wp]) (auto intro: f simp: cpi_post_def)
  show "wp (bnd (wrap msg (CmdRunner_Run c meth args)) f) (cpi_post c meth args w) w"
    by (rule wp_bnd_wrap[OF CmdRunner_Run_wp]) (auto intro: f simp: cpi_post_def WrapErrorf_def)
qed

lemma cpi_posts:
  "wp (CreateStemcell c img props) (cpi_post c ''create_stemcell'' [ArgStr img, ArgProps props] w) w"
  "wp (DeleteStemcell c cid) (cpi_post c ''delete_stemcell'' [ArgStr cid] w) w"
  "wp (HasVM c cid) (cpi_post c ''has_vm'' [ArgStr cid] w) w"
  "wp (CreateVM c ag st props nets env) (cpi_post c ''create_vm''
     [ArgStr ag, ArgStr st, ArgProps props, ArgNets nets, ArgLocality [], ArgProps env] w) w"
  "wp (SetVMMetadata c cid md) (cpi_post c ''set_vm_metadata'' [ArgStr cid, md] w) w"
  "wp (CreateDisk c sz props cid) (cpi_post c ''create_disk'' [ArgInt sz, ArgProps props, ArgStr cid] w) w"
  "wp (AttachDisk c cid d) (cpi_post c ''attach_disk'' [ArgStr cid, ArgStr d] w) w"
  "wp (DetachDisk c cid d) (cpi_post c ''detach_disk'' [ArgStr cid, ArgStr d] w) w"
  "wp (DeleteVM c cid) (cpi_post c ''delete_vm'' [ArgStr cid] w) w"
  "wp (DeleteDisk c d) (cpi_post c ''delete_disk'' [ArgStr d] w) w"
  unfolding cloud_defs
  by (rule cpi_step; simp add: wp_simps split: option.splits property.splits)+

end
