(* ===== verification/Effects.thy ===== *)
theory Effects
  imports RepoSteps Cloud
begin

text \<open>
  How the deployment code is specified. Such code talks to the outside (the CPI, the agent)
  and keeps its records in the state file; \<open>does p st m R\<close> says that from any world whose
  state file at \<open>p\<close> holds the well-formed state \<open>st\<close>, \<open>m\<close> returns (no panic, no endless loop),
  having made some further calls \<open>ks\<close> and left the file with a well-formed state \<open>st'\<close>, such
  that \<open>R r ks st'\<close> for its result \<open>r\<close>. The rules compose these specifications.
\<close>

named_theorems does_intros "specifications of the program combinators"
named_theorems plain_intros "errors are plain"

section \<open>Errors that nobody asks about\<close>

text \<open>
  A plain error is neither a skip error of a stage nor a typed CPI error. Code outside the
  repository returns plain errors: both types are declared here.
\<close>

definition plain :: "goerr \<Rightarrow> bool" where
  "plain e \<longleftrightarrow> \<not> is_skip e \<and> cloud_error_type e = None"

lemma plain_simps [simp]:
  "plain (WrapErrorf e m a)" "plain (WrapError e m)" "plain (Errorf m a)" "plain (External s)" "plain (GoError m)"
  "plain (MultiError es)" "plain ErrNotFound" "\<not> plain (SkipStageError e m)" "\<not> plain (CpiError m ce)"
  by (simp_all add: plain_def GoError_def)

lemma plainD: "plain e \<Longrightarrow> \<not> is_skip e" "plain e \<Longrightarrow> cloud_error_type e = None"
  by (simp_all add: plain_def)

definition plain_errors :: "('w, 'a) prog \<Rightarrow> bool" where
  "plain_errors m \<longleftrightarrow> (\<forall>w e w'. m w = (Err e, w') \<longrightarrow> plain e)"

lemma plain_errorsD: "plain_errors m \<Longrightarrow> m w = (Err e, w') \<Longrightarrow> plain e"
  unfolding plain_errors_def by blast

lemma plain_basic [plain_intros]:
  "plain_errors (ret x)" "plain_errors (gets f)" "plain_errors (modify g)"
  "plain e \<Longrightarrow> plain_errors (fail e)" "plain e \<Longrightarrow> plain_errors (check b e)"
  by (auto simp: plain_errors_def prog_defs)

lemma plain_wrapf [plain_intros]: "plain_errors (wrapf msg args m)" "plain_errors (wrap msg m)"
  by (auto simp: plain_errors_def wrap_def wrapf_def split: prod.splits outcome.splits)

lemma plain_bnd [plain_intros]: "plain_errors m \<Longrightarrow> (\<And>x. plain_errors (f x)) \<Longrightarrow> plain_errors (bnd m f)"
  unfolding plain_errors_def bnd_def by (auto split: prod.splits outcome.splits; blast)

lemma plain_seq [plain_intros]: "plain_errors m \<Longrightarrow> plain_errors n \<Longrightarrow> plain_errors (seq m n)"
  by (simp add: seq_def plain_bnd)

lemma plain_case [plain_intros]:
  "(x = None \<Longrightarrow> plain_errors n) \<Longrightarrow> (\<And>y. x = Some y \<Longrightarrow> plain_errors (f y)) \<Longrightarrow>
     plain_errors (case x of None \<Rightarrow> n | Some y \<Rightarrow> f y)"
  "(b \<Longrightarrow> plain_errors n) \<Longrightarrow> (\<not> b \<Longrightarrow> plain_errors m) \<Longrightarrow> plain_errors (if b then n else m)"
  "(\<And>a c. z = (a, c) \<Longrightarrow> plain_errors (g a c)) \<Longrightarrow> plain_errors (case z of (a, c) \<Rightarrow> g a c)"
  by (auto split: option.splits prod.splits)

lemma plain_map_prog [plain_intros]: "(\<And>x. plain_errors (f x)) \<Longrightarrow> plain_errors (map_prog f xs)"
  by (induction xs) (auto intro!: plain_intros)

definition plain_answers :: "world \<Rightarrow> bool" where
  "plain_answers w \<longleftrightarrow> (\<forall>n e. a_err (answers w n) = Some e \<or> a_str (answers w n) = Inl e \<or> a_uuid (answers w n) = Inl e
     \<or> a_state (answers w n) = Inl e \<or> a_strs (answers w n) = Inl e \<or> a_blob (answers w n) = Inl e \<longrightarrow> plain e)"

lemma plain_answersD:
  assumes "plain_answers w"
  shows "a_err (answers w n) = Some e \<Longrightarrow> plain e" "a_str (answers w n) = Inl e \<Longrightarrow> plain e"
    "a_uuid (answers w n) = Inl e \<Longrightarrow> plain e" "a_state (answers w n) = Inl e \<Longrightarrow> plain e"
    "a_strs (answers w n) = Inl e \<Longrightarrow> plain e" "a_blob (answers w n) = Inl e \<Longrightarrow> plain e"
  using assms[unfolded plain_answers_def, rule_format, of n e] by simp_all

section \<open>The specifications\<close>

definition state_at :: "string \<Rightarrow> world \<Rightarrow> DeploymentState \<Rightarrow> bool" where
  "state_at p w st \<longleftrightarrow> loaded p w st \<and> repo_inv p w \<and> plain_answers w"

definition moved :: "world \<Rightarrow> call list \<Rightarrow> world \<Rightarrow> bool" where
  "moved w ks w' \<longleftrightarrow> calls w' = calls w @ ks \<and> answers w' = answers w"

definition does :: "string \<Rightarrow> DeploymentState \<Rightarrow> (world, 'a) prog
    \<Rightarrow> ('a outcome \<Rightarrow> call list \<Rightarrow> DeploymentState \<Rightarrow> bool) \<Rightarrow> bool" where
  "does p st m R \<longleftrightarrow> (\<forall>w. state_at p w st \<longrightarrow>
     wp m (\<lambda>r w'. returns r \<and> (\<exists>ks st'. moved w ks w' \<and> state_at p w' st' \<and> R r ks st')) w)"

lemma loaded_json: "loaded p w st \<Longrightarrow> state_of_json (json_of_state st) = Inr st"
  unfolding loaded_def using state_json_roundtrip by metis

lemma loaded_unique: "loaded p w st \<Longrightarrow> loaded p w st' \<Longrightarrow> st = st'"
proof -
  assume a: "loaded p w st" and b: "loaded p w st'"
  have "files w p = Some (CJson (json_of_state st))" "files w p = Some (CJson (json_of_state st'))"
    using a b unfolding loaded_def by blast+
  then have "json_of_state st = json_of_state st'" by (metis content.inject(1) option.inject)
  then show "st = st'" using loaded_json[OF a] loaded_json[OF b] by (metis sum.inject(2))
qed

lemma state_at_wf: "state_at p w st \<Longrightarrow> wf_state st"
  unfolding state_at_def repo_inv_def using loaded_unique by blast

lemma moved_trans: "moved w ks w' \<Longrightarrow> moved w' ks' w'' \<Longrightarrow> moved w (ks @ ks') w''"
  by (simp add: moved_def)

lemma moved_refl [simp]: "moved w [] w"
  by (simp add: moved_def)

lemma doesI: "(\<And>w. state_at p w st \<Longrightarrow>
    wp m (\<lambda>r w'. returns r \<and> (\<exists>ks st'. moved w ks w' \<and> state_at p w' st' \<and> R r ks st')) w) \<Longrightarrow> does p st m R"
  by (simp add: does_def)

lemma doesD: "does p st m R \<Longrightarrow> state_at p w st \<Longrightarrow>
    wp m (\<lambda>r w'. returns r \<and> (\<exists>ks st'. moved w ks w' \<and> state_at p w' st' \<and> R r ks st')) w"
  by (simp add: does_def)

text \<open>What \<open>does\<close> says of a run.\<close>

lemma does_run:
  assumes "does p st m R" "state_at p w st" "m w = (r, w')"
  obtains ks st' where "returns r" "calls w' = calls w @ ks" "state_at p w' st'" "R r ks st'"
  using wpD[OF doesD[OF assms(1,2)] assms(3)] by (auto simp: moved_def)

lemma does_mono: "does p st m R \<Longrightarrow> (\<And>r ks st'. returns r \<Longrightarrow> R r ks st' \<Longrightarrow> Q r ks st') \<Longrightarrow> does p st m Q"
  by (rule doesI, rule wp_mono, erule (1) doesD) blast

text \<open>Every state a specification speaks about is well formed.\<close>

lemma does_wf: "(wf_state st \<Longrightarrow> does p st m R) \<Longrightarrow> does p st m R"
  unfolding does_def using state_at_wf by blast

lemma does_ret [does_intros]: "R (Ok x) [] st \<Longrightarrow> does p st (ret x) R"
  by (rule doesI) (auto simp: wp_ret intro: exI[of _ "[]"])

lemma does_fail [does_intros]: "R (Err e) [] st \<Longrightarrow> does p st (fail e) R"
  by (rule doesI) (auto simp: wp_fail intro: exI[of _ "[]"])

lemma does_check [does_intros]:
  "(b \<Longrightarrow> R (Ok ()) [] st) \<Longrightarrow> (\<not> b \<Longrightarrow> R (Err e) [] st) \<Longrightarrow> does p st (check b e) R"
  by (simp add: check_def does_ret does_fail)

lemma does_lift_sum [does_intros]:
  "(\<And>e. x = Inl e \<Longrightarrow> R (Err e) [] st) \<Longrightarrow> (\<And>y. x = Inr y \<Longrightarrow> R (Ok y) [] st) \<Longrightarrow> does p st (lift_sum x) R"
  by (cases x) (simp_all add: lift_sum_def does_ret does_fail)

lemma does_or_err [does_intros]:
  "(x = None \<Longrightarrow> R (Ok ()) [] st) \<Longrightarrow> (\<And>e. x = Some e \<Longrightarrow> R (Err e) [] st) \<Longrightarrow> does p st (or_err x) R"
  by (cases x) (simp_all add: or_err_def does_ret does_fail)

lemma does_bnd:
  assumes m: "does p st m R"
    and ok: "\<And>x ks st'. R (Ok x) ks st' \<Longrightarrow> does p st' (f x) (\<lambda>r ks'. Q r (ks @ ks'))"
    and err: "\<And>e ks st'. R (Err e) ks st' \<Longrightarrow> Q (Err e) ks st'"
  shows "does p st (bnd m f) Q"
proof (rule doesI, rule wp_bnd_rule, erule doesD[OF m], goal_cases)
  case (1 w x w')
  then obtain ks st' where s: "moved w ks w'" "state_at p w' st'" "R (Ok x) ks st'" by auto
  then show ?case
    by (intro wp_mono[OF doesD[OF ok[OF s(3)] s(2)]]) (blast intro: moved_trans)
next
  case (2 w e w')
  then show ?case using err by (elim conjE exE) (intro conjI exI, auto)
qed simp_all

lemma does_seq:
  assumes "does p st m R"
    and "\<And>x ks st'. R (Ok x) ks st' \<Longrightarrow> does p st' n (\<lambda>r ks'. Q r (ks @ ks'))"
    and "\<And>e ks st'. R (Err e) ks st' \<Longrightarrow> Q (Err e) ks st'"
  shows "does p st (seq m n) Q"
  unfolding seq_def using assms by (rule does_bnd)

lemma does_attempt:
  assumes "does p st m (\<lambda>r. Q (Ok (case r of Ok x \<Rightarrow> Inr x | Err e \<Rightarrow> Inl e)))"
  shows "does p st (attempt m) Q"
  by (rule doesI, unfold wp_attempt, rule wp_mono, erule doesD[OF assms]) (auto split: outcome.splits)

lemma does_wrapf:
  assumes "does p st m (\<lambda>r. Q (case r of Err e \<Rightarrow> Err (WrapErrorf e msg args) | _ \<Rightarrow> r))"
  shows "does p st (wrapf msg args m) Q"
  by (rule doesI, unfold wp_wrapf, rule wp_mono, erule doesD[OF assms]) (auto split: outcome.splits)

lemma does_wrap:
  assumes "does p st m (\<lambda>r. Q (case r of Err e \<Rightarrow> Err (WrapErrorf e msg []) | _ \<Rightarrow> r))"
  shows "does p st (wrap msg m) Q"
  unfolding wrap_def using assms by (rule does_wrapf)

lemma does_bnd_attempt:
  assumes "does p st m R"
    and "\<And>x ks st'. R (Ok x) ks st' \<Longrightarrow> does p st' (f (Inr x)) (\<lambda>r ks'. Q r (ks @ ks'))"
    and "\<And>e ks st'. R (Err e) ks st' \<Longrightarrow> does p st' (f (Inl e)) (\<lambda>r ks'. Q r (ks @ ks'))"
  shows "does p st (bnd (attempt m) f) Q"
proof (rule does_bnd[where R = "\<lambda>r ks st'. \<exists>x. r = Ok x \<and> R (case x of Inr y \<Rightarrow> Ok y | Inl e \<Rightarrow> Err e) ks st'"], rule does_attempt)
  show "does p st m (\<lambda>r ks st'. \<exists>x. Ok (case r of Ok x \<Rightarrow> Inr x | Err e \<Rightarrow> Inl e) = Ok x
      \<and> R (case x of Inr y \<Rightarrow> Ok y | Inl e \<Rightarrow> Err e) ks st')"
    by (rule does_mono[OF assms(1)]) (auto elim!: returnsE)
qed (use assms(2,3) in \<open>auto split: sum.splits\<close>)

lemma does_bnd_wrapf:
  assumes "does p st m R"
    and "\<And>x ks st'. R (Ok x) ks st' \<Longrightarrow> does p st' (f x) (\<lambda>r ks'. Q r (ks @ ks'))"
    and "\<And>e ks st'. R (Err e) ks st' \<Longrightarrow> Q (Err (WrapErrorf e msg args)) ks st'"
  shows "does p st (bnd (wrapf msg args m) f) Q"
proof (rule does_bnd[where R = "\<lambda>r ks st'. case r of Ok x \<Rightarrow> R (Ok x) ks st' | Err e \<Rightarrow> Q (Err e) ks st' | _ \<Rightarrow> False"], rule does_wrapf)
  show "does p st m (\<lambda>r ks st'. case (case r of Err e \<Rightarrow> Err (WrapErrorf e msg args) | _ \<Rightarrow> r) of
      Ok x \<Rightarrow> R (Ok x) ks st' | Err e \<Rightarrow> Q (Err e) ks st' | _ \<Rightarrow> False)"
    by (rule does_mono[OF assms(1)]) (auto elim!: returnsE intro: assms(3))
qed (use assms(2) in auto)

lemma does_seq_wrapf:
  assumes "does p st m R"
    and "\<And>x ks st'. R (Ok x) ks st' \<Longrightarrow> does p st' n (\<lambda>r ks'. Q r (ks @ ks'))"
    and "\<And>e ks st'. R (Err e) ks st' \<Longrightarrow> Q (Err (WrapErrorf e msg args)) ks st'"
  shows "does p st (seq (wrapf msg args m) n) Q"
  unfolding seq_def using assms by (rule does_bnd_wrapf)

lemmas does_bnd_wrap = does_bnd_wrapf[where args = "[]", folded wrap_def WrapError_def]
lemmas does_seq_wrap = does_seq_wrapf[where args = "[]", folded wrap_def WrapError_def]

text \<open>A last wrapped call.\<close>

lemma does_wrap_last:
  assumes "does p st m R"
    and "\<And>x ks st'. R (Ok x) ks st' \<Longrightarrow> Q (Ok x) ks st'"
    and "\<And>e ks st'. R (Err e) ks st' \<Longrightarrow> Q (Err (WrapErrorf e msg args)) ks st'"
  shows "does p st (wrapf msg args m) Q"
  by (rule does_wrapf, rule does_mono[OF assms(1)]) (auto elim!: returnsE intro: assms(2,3))

lemma does_option:
  "(x = None \<Longrightarrow> does p st m R) \<Longrightarrow> (\<And>y. x = Some y \<Longrightarrow> does p st (f y) R) \<Longrightarrow>
   does p st (case x of None \<Rightarrow> m | Some y \<Rightarrow> f y) R"
  by (cases x) simp_all

lemma does_if: "(b \<Longrightarrow> does p st m R) \<Longrightarrow> (\<not> b \<Longrightarrow> does p st n R) \<Longrightarrow> does p st (if b then m else n) R"
  by simp

text \<open>The terminal is no part of a specification, so a step in a stage does what it does outside.\<close>

lemma state_at_unseen: "state_at p (w\<lparr>ui := u, simple_mode := s\<rparr>) st = state_at p w st"
  unfolding state_at_def loaded_def repo_inv_def fresh_ids_def plain_answers_def by simp

lemma does_unseen: "unseen (\<lambda>w'. P \<and> (\<exists>ks st'. moved w ks w' \<and> state_at p w' st' \<and> R ks st'))"
  unfolding unseen_def by (simp add: state_at_unseen) (simp add: moved_def)

lemma does_stage:
  assumes "\<And>Q w. (\<And>r. unseen (Q r)) \<Longrightarrow> (\<And>u s. wp m (\<lambda>r. Q (g r)) (w\<lparr>ui := u, simple_mode := s\<rparr>)) \<Longrightarrow> wp n Q w"
    and "does p st m (\<lambda>r. R (g r))" "\<And>r. returns r \<Longrightarrow> returns (g r)"
  shows "does p st n R"
proof (rule doesI, rule assms(1))
  fix w r
  show "unseen (\<lambda>w'. returns r \<and> (\<exists>ks st'. moved w ks w' \<and> state_at p w' st' \<and> R r ks st'))"
    by (rule does_unseen)
next
  fix w u s assume "state_at p w st"
  then have "state_at p (w\<lparr>ui := u, simple_mode := s\<rparr>) st" by (simp add: state_at_unseen)
  then show "wp m (\<lambda>r w'. returns (g r) \<and> (\<exists>ks st'. moved w ks w' \<and> state_at p w' st' \<and> R (g r) ks st'))
      (w\<lparr>ui := u, simple_mode := s\<rparr>)"
    by (intro wp_mono[OF doesD[OF assms(2)]]) (auto simp: moved_def intro: assms(3))
qed

lemma returns_unskip: "returns r \<Longrightarrow> returns (unskip z r)"
  by (cases r) auto

lemma does_Perform: "does p st m (\<lambda>r. R (unskip () r)) \<Longrightarrow> does p st (Perform d name m) R"
  by (rule does_stage[where g = "unskip ()" and m = m]) (auto intro: wp_Perform returns_unskip)

lemma does_Perform_val: "does p st m (\<lambda>r. R (unskip z r)) \<Longrightarrow> does p st (Perform_val d name z m) R"
  by (rule does_stage[where g = "unskip z" and m = m]) (auto intro: wp_Perform_val returns_unskip)

lemma does_PerformComplex: "does p st (f (Suc d)) R \<Longrightarrow> does p st (PerformComplex d name f) R"
  by (rule does_stage[where g = "\<lambda>r. r" and m = "f (Suc d)"]) (auto intro: wp_PerformComplex)

section \<open>The outside\<close>

lemma state_at_frame:
  assumes "state_at p w st" "files w' p = files w p" "answers w' = answers w" "tick w \<le> tick w'"
  shows "state_at p w' st"
  using assms repo_inv_elsewhere[of p w w'] unfolding state_at_def loaded_def plain_answers_def by metis

lemma does_frame:
  assumes "\<And>w. plain_answers w \<Longrightarrow> wp m (\<lambda>r w'. returns r \<and> files w' = files w \<and> answers w' = answers w \<and> tick w \<le> tick w'
      \<and> calls w' = calls w @ ks \<and> R r) w"
  shows "does p st m (\<lambda>r ks' st'. ks' = ks \<and> st' = st \<and> R r)"
proof (rule doesI, rule wp_mono, rule assms)
  fix w r and w' :: world
  assume s: "state_at p w st"
    and f: "returns r \<and> files w' = files w \<and> answers w' = answers w \<and> tick w \<le> tick w' \<and> calls w' = calls w @ ks \<and> R r"
  then have "state_at p w' st" by (intro state_at_frame[OF s]) simp_all
  then show "returns r \<and> (\<exists>ks' st'. moved w ks' w' \<and> state_at p w' st' \<and> ks' = ks \<and> st' = st \<and> R r)"
    using f by (auto simp: moved_def)
qed (simp add: state_at_def)

text \<open>The result of a CPI call, and of a request whose errors are plain.\<close>

definition cpi_result :: "string \<Rightarrow> 'a outcome \<Rightarrow> bool" where
  "cpi_result meth r \<longleftrightarrow> (\<forall>e. r = Err e \<longrightarrow> \<not> is_skip e \<and> (\<forall>m ce. e = CpiError m ce \<longrightarrow> m = meth))"

definition plain_result :: "'a outcome \<Rightarrow> bool" where
  "plain_result r \<longleftrightarrow> (\<forall>e. r = Err e \<longrightarrow> plain e)"

lemma plain_result_simps [simp]: "plain_result (Ok x)" "plain_result (Err e) = plain e"
  by (simp_all add: plain_result_def)

lemma cpi_result_simps [simp]: "cpi_result m (Ok x)" "cpi_result m (Err e) \<Longrightarrow> \<not> is_skip e"
  by (simp_all add: cpi_result_def)

lemma cpi_post_frame:
  assumes "cpi_post c meth args w r w'"
  shows "returns r \<and> files w' = files w \<and> answers w' = answers w \<and> tick w \<le> tick w'
    \<and> calls w' = calls w @ [cpi_call c meth args] \<and> cpi_result meth r"
proof -
  have "called (cpi_call c meth args) w w'" using assms by (simp add: cpi_post_def)
  note f = called_frame[OF this]
  have "returns r" "cpi_result meth r" using assms unfolding cpi_post_def cpi_result_def by blast+
  then show ?thesis by (intro conjI f)
qed

lemma does_cpi:
  assumes "\<And>w. wp m (cpi_post c meth args w) w"
  shows "does p st m (\<lambda>r ks st'. ks = [cpi_call c meth args] \<and> st' = st \<and> cpi_result meth r)"
  by (rule does_frame, rule wp_mono, rule assms) (rule cpi_post_frame)

lemmas does_cloud = cpi_posts[THEN does_cpi]

lemma does_request_unit:
  "does p st (request_unit k) (\<lambda>r ks st'. ks = [k] \<and> st' = st \<and> plain_result r)"
  by (rule does_frame) (auto simp: wp_request_unit wp_simps Let_def dest: plain_answersD split: option.splits)

lemma does_request_val:
  assumes "\<And>w n e. plain_answers w \<Longrightarrow> f (answers w n) = Inl e \<Longrightarrow> plain e"
  shows "does p st (request_val k f) (\<lambda>r ks st'. ks = [k] \<and> st' = st \<and> plain_result r)"
  by (rule does_frame) (auto simp: wp_request_val wp_simps Let_def dest: assms split: sum.splits)

lemma does_Generate: "does p st Generate (\<lambda>r ks st'. ks = [] \<and> st' = st \<and> plain_result r)"
  by (rule does_frame) (auto simp: Generate_def wp_simps Let_def dest: plain_answersD split: sum.splits)

lemma does_Sleep: "does p st (Sleep t) (\<lambda>r ks st'. ks = [] \<and> st' = st \<and> r = Ok ())"
  by (rule does_frame) (auto simp: Sleep_def wp_simps)

section \<open>The repositories\<close>

text \<open>What every loaded state has.\<close>

definition proper :: "DeploymentState \<Rightarrow> bool" where
  "proper st \<longleftrightarrow> storable st \<and> (\<forall>d \<in> set (Disks st). reload_disk d = d) \<and> DirectorID st \<noteq> ''''"

lemma reload_state_fix: "reload_state st = st \<longleftrightarrow> (\<forall>d \<in> set (Disks st). reload_disk d = d)"
proof -
  have "reload_state st = st \<longleftrightarrow> map reload_disk (Disks st) = Disks st"
    by (cases st) (auto simp: reload_state_def)
  moreover have "map reload_disk ds = ds \<longleftrightarrow> (\<forall>d \<in> set ds. reload_disk d = d)" for ds
    by (induction ds) auto
  ultimately show ?thesis by simp
qed

lemma loaded_proper: "loaded p w st \<Longrightarrow> proper st"
  unfolding loaded_def proper_def reload_state_fix by blast

lemma proper_sub: "proper st \<Longrightarrow> set (Disks st') \<subseteq> set (Disks st) \<Longrightarrow> DirectorID st' = DirectorID st \<Longrightarrow> proper st'"
  by (auto simp: proper_def storable_def)

lemma state_at_saved:
  assumes "state_at p w st" "repo_inv p w'" "ticked w v" "saved p v st' w'" "storable st'" "DirectorID st' \<noteq> ''''"
  shows "state_at p w' (reload_state st')" "moved w [] w'"
proof -
  have "loaded p v st" using assms(1,3) unfolding state_at_def by (blast intro: state_file.holds_ticked)
  then have "loaded p w' (reload_state st')" using state_file.storing_holds[OF _ assms(4-6)] by blast
  moreover have a: "answers w' = answers w" "calls w' = calls w"
    using saved_frame(1,2)[OF assms(4)] assms(3) by (auto simp: ticked_frame)
  ultimately show "state_at p w' (reload_state st')" using assms(1,2) by (simp add: state_at_def plain_answers_def)
  show "moved w [] w'" using a by (simp add: moved_def)
qed

lemma state_at_ticked: "state_at p w st \<Longrightarrow> ticked w w' \<Longrightarrow> state_at p w' st \<and> moved w [] w'"
  using state_at_frame[of p w st w'] by (auto simp: ticked_frame moved_def dest: ticked_frame(6))

lemma does_reads:
  assumes "\<And>w. loaded p w st \<Longrightarrow> wp m (reads w x) w" "plain_errors m"
  shows "does p st m (\<lambda>r ks st'. ks = [] \<and> st' = st \<and> (r = Ok x \<or> (\<exists>e. r = Err e \<and> plain e)))"
proof (rule doesI, rule wpI)
  fix w r w' assume s: "state_at p w st" and r: "m w = (r, w')"
  have "reads w x r w'" using wpD[OF assms(1) r] s by (simp add: state_at_def)
  then show "returns r \<and> (\<exists>ks st'. moved w ks w' \<and> state_at p w' st' \<and> ks = [] \<and> st' = st
      \<and> (r = Ok x \<or> (\<exists>e. r = Err e \<and> plain e)))"
    using plain_errorsD[OF assms(2)] r state_at_ticked[OF s] by (auto simp: reads_def)
qed

lemma does_stores:
  assumes "\<And>w st. loaded p w st \<Longrightarrow> atomic_writes w \<Longrightarrow> wp m (stores p w U (R st) (g st)) w"
    and "keeps (repo_inv p) m" "plain_errors m" "\<And>x. proper st \<Longrightarrow> R st x \<Longrightarrow> storable (g st x) \<and> DirectorID (g st x) \<noteq> ''''"
  shows "does p st m (\<lambda>r ks st'. ks = [] \<and> ((\<exists>x. r = Ok x \<and> R st x \<and> st' = reload_state (g st x))
      \<or> (st' = st \<and> (\<exists>e. r = Err e \<and> plain e))))"
proof (rule doesI, rule wpI)
  fix w r w' assume s: "state_at p w st" and r: "m w = (r, w')"
  have l: "loaded p w st" "repo_inv p w" "atomic_writes w" using s by (auto simp: state_at_def repo_inv_def)
  have inv: "repo_inv p w'" using keeps_snd[OF assms(2) l(2) r] .
  have st: "stores p w U (R st) (g st) r w'" using wpD[OF assms(1)[OF l(1,3)] r] .
  show "returns r \<and> (\<exists>ks st'. moved w ks w' \<and> state_at p w' st' \<and> ks = []
      \<and> ((\<exists>x. r = Ok x \<and> R st x \<and> st' = reload_state (g st x)) \<or> (st' = st \<and> (\<exists>e. r = Err e \<and> plain e))))"
  proof (cases r)
    case (Ok x)
    then obtain v where v: "R st x" "ticked w v" "saved p v (g st x) w'" using st by auto
    then have "state_at p w' (reload_state (g st x))" "moved w [] w'"
      using state_at_saved[OF s inv v(2,3)] assms(4)[OF loaded_proper[OF l(1)] v(1)] by blast+
    then show ?thesis using Ok v(1) by auto
  next
    case (Err e)
    then show ?thesis using st state_at_ticked[OF s] plain_errorsD[OF assms(3)] r by auto
  qed (use st in simp_all)
qed

lemma does_writes:
  assumes "\<And>w st. loaded p w st \<Longrightarrow> atomic_writes w \<Longrightarrow> wp m (writes p w (f st)) w"
    and "keeps (repo_inv p) m" "plain_errors m" "\<And>st. proper st \<Longrightarrow> proper (f st)"
  shows "does p st m (\<lambda>r ks st'. ks = [] \<and> ((r = Ok () \<and> st' = f st) \<or> (st' = st \<and> (\<exists>e. r = Err e \<and> plain e))))"
proof (rule does_wf)
  have S: "wp m (stores p w (\<lambda>_. {}) (\<lambda>_. True) (\<lambda>_. f st)) w" if "loaded p w st" "atomic_writes w" for w st
    by (rule wp_mono[OF assms(1)[OF that]]) (simp add: writes_def, elim disjE conjE exE, force, simp)
  show ?thesis
  proof (rule doesI)
    fix w assume s: "state_at p w st"
    then have "proper st" by (auto simp: state_at_def dest: loaded_proper)
    then have pr: "proper (f st)" by (rule assms(4))
    then have fx: "reload_state (f st) = f st" by (simp only: reload_state_fix) (simp add: proper_def)
    show "wp m (\<lambda>r w'. returns r \<and> (\<exists>ks st'. moved w ks w' \<and> state_at p w' st' \<and> ks = []
        \<and> ((r = Ok () \<and> st' = f st) \<or> (st' = st \<and> (\<exists>e. r = Err e \<and> plain e))))) w"
      by (rule wp_mono[OF doesD[OF does_stores[OF S assms(2,3)] s]])
        (use pr fx in \<open>auto simp: proper_def\<close>)
  qed
qed

text \<open>The shapes of a repository's results: an answer, or an update; or a plain error and no change.\<close>

definition answers_with :: "'a \<Rightarrow> DeploymentState \<Rightarrow> 'a outcome \<Rightarrow> call list \<Rightarrow> DeploymentState \<Rightarrow> bool" where
  "answers_with x st r ks st' \<longleftrightarrow> ks = [] \<and> st' = st \<and> (r = Ok x \<or> (\<exists>e. r = Err e \<and> plain e))"

definition updates :: "DeploymentState \<Rightarrow> DeploymentState \<Rightarrow> unit outcome \<Rightarrow> call list \<Rightarrow> DeploymentState \<Rightarrow> bool" where
  "updates new st r ks st' \<longleftrightarrow> ks = [] \<and> ((r = Ok () \<and> st' = new) \<or> (st' = st \<and> (\<exists>e. r = Err e \<and> plain e)))"

lemma answers_with_simps [simp]:
  "answers_with x st (Ok y) ks st' \<longleftrightarrow> ks = [] \<and> st' = st \<and> y = x"
  "answers_with x st (Err e) ks st' \<longleftrightarrow> ks = [] \<and> st' = st \<and> plain e"
  by (auto simp: answers_with_def)

lemma updates_simps [simp]:
  "updates new st (Ok y) ks st' \<longleftrightarrow> ks = [] \<and> st' = new"
  "updates new st (Err e) ks st' \<longleftrightarrow> ks = [] \<and> st' = st \<and> plain e"
  by (auto simp: updates_def)

lemmas does_query = does_reads[folded answers_with_def]
lemmas does_update = does_writes[folded updates_def]

lemma does_finds:
  "does p st (VMRepo_FindCurrent p)
     (answers_with (if CurrentVMCID st \<noteq> '''' then Some (CurrentVMCID st) else None) st)"
  "does p st (DiskRepo_FindCurrent p)
     (answers_with (if CurrentDiskID st = '''' then None else find (\<lambda>r. dr_ID r = CurrentDiskID st) (Disks st)) st)"
  "does p st (DiskRepo_Find p cid) (answers_with (find (\<lambda>r. dr_CID r = cid) (Disks st)) st)"
  "does p st (DiskRepo_All p) (answers_with (Disks st) st)"
  "does p st (StemcellRepo_Find p name version)
     (answers_with (find (\<lambda>r. sr_Name r = name \<and> sr_Version r = version) (Stemcells st)) st)"
  "does p st (StemcellRepo_FindCurrent p)
     (answers_with (if CurrentStemcellID st = '''' then None
        else find (\<lambda>r. sr_ID r = CurrentStemcellID st) (Stemcells st)) st)"
  "does p st (StemcellRepo_All p) (answers_with (Stemcells st) st)"
  "does p st (ReleaseRepo_List p) (answers_with (Releases st) st)"
  "does p st (DeploymentRepo_FindCurrent p)
     (answers_with (if CurrentManifestSHA1 st \<noteq> '''' then Some (CurrentManifestSHA1 st) else None) st)"
  by (rule does_query, erule VMRepo_FindCurrent_reads DiskRepo_FindCurrent_reads DiskRepo_Find_reads
        DiskRepo_All_reads StemcellRepo_Find_reads StemcellRepo_FindCurrent_reads StemcellRepo_All_reads
        ReleaseRepo_List_reads DeploymentRepo_FindCurrent_reads,
      simp only: VMRepo_FindCurrent_def DiskRepo_FindCurrent_def DiskRepo_Find_def DiskRepo_All_def
        StemcellRepo_Find_def StemcellRepo_FindCurrent_def StemcellRepo_All_def ReleaseRepo_List_def
        DeploymentRepo_FindCurrent_def DiskRepo_load_def StemcellRepo_load_def prog_norm prod.case,
      intro plain_intros)+

lemma does_updates:
  "does p st (VMRepo_UpdateCurrent p cid) (updates (st\<lparr>CurrentVMCID := cid\<rparr>) st)"
  "does p st (VMRepo_ClearCurrent p) (updates (st\<lparr>CurrentVMCID := ''''\<rparr>) st)"
  "does p st (DiskRepo_ClearCurrent p) (updates (st\<lparr>CurrentDiskID := ''''\<rparr>) st)"
  "does p st (DiskRepo_Delete p d) (updates (DiskRepo_remove d st) st)"
  "does p st (StemcellRepo_ClearCurrent p) (updates (st\<lparr>CurrentStemcellID := ''''\<rparr>) st)"
  "does p st (StemcellRepo_Delete p s) (updates (StemcellRepo_remove s st) st)"
  "does p st (DeploymentRepo_UpdateCurrent p sha) (updates (st\<lparr>CurrentManifestSHA1 := sha\<rparr>) st)"
  by (rule does_update, erule (1) VMRepo_UpdateCurrent_writes VMRepo_ClearCurrent_writes DiskRepo_ClearCurrent_writes
        DiskRepo_Delete_writes StemcellRepo_ClearCurrent_writes StemcellRepo_Delete_writes DeploymentRepo_UpdateCurrent_writes,
      rule keeps_simple_updates keeps_DiskRepo_Delete keeps_StemcellRepo_Delete,
      simp only: VMRepo_UpdateCurrent_def VMRepo_ClearCurrent_def DiskRepo_ClearCurrent_def DiskRepo_Delete_def
        StemcellRepo_ClearCurrent_def StemcellRepo_Delete_def DeploymentRepo_UpdateCurrent_def
        StemcellRepo_updateConfig_def DiskRepo_load_def StemcellRepo_load_def prog_norm prod.case,
      intro plain_intros,
      erule proper_sub, simp_all)+

lemma does_DiskRepo_UpdateCurrent:
  "does p st (DiskRepo_UpdateCurrent p i)
     (\<lambda>r ks st'. updates (st\<lparr>CurrentDiskID := i\<rparr>) st r ks st' \<and> (r = Ok () \<longrightarrow> i \<in> dr_ID ` set (Disks st)))"
  (is "does p st ?m ?Q")
proof (rule doesI)
  fix w assume s: "state_at p w st"
  have pr: "proper st" using s by (auto simp: state_at_def dest: loaded_proper)
  have "reload_state (st\<lparr>CurrentDiskID := i\<rparr>) = st\<lparr>CurrentDiskID := i\<rparr>"
    using pr by (simp only: reload_state_fix) (simp add: proper_def)
  moreover have "plain_errors ?m" unfolding DiskRepo_UpdateCurrent_def by (intro plain_intros) simp_all
  then have "does p st ?m (\<lambda>r ks st'. ks = [] \<and> ((\<exists>x. r = Ok x \<and> i \<in> dr_ID ` set (Disks st)
      \<and> st' = reload_state (st\<lparr>CurrentDiskID := i\<rparr>)) \<or> (st' = st \<and> (\<exists>e. r = Err e \<and> plain e))))"
    by (intro does_stores[OF DiskRepo_UpdateCurrent_stores keeps_UpdateCurrent(1)]) (auto simp: proper_def storable_def)
  ultimately show "wp ?m (\<lambda>r w'. returns r \<and> (\<exists>ks st'. moved w ks w' \<and> state_at p w' st' \<and> ?Q r ks st')) w"
    using s by (auto simp: updates_def intro: wp_mono[OF doesD])
qed

lemma does_StemcellRepo_UpdateCurrent:
  "does p st (StemcellRepo_UpdateCurrent p i)
     (\<lambda>r ks st'. updates (st\<lparr>CurrentStemcellID := i\<rparr>) st r ks st' \<and> (r = Ok () \<longrightarrow> i \<in> sr_ID ` set (Stemcells st)))"
  (is "does p st ?m ?Q")
proof (rule doesI)
  fix w assume s: "state_at p w st"
  have pr: "proper st" using s by (auto simp: state_at_def dest: loaded_proper)
  have "reload_state (st\<lparr>CurrentStemcellID := i\<rparr>) = st\<lparr>CurrentStemcellID := i\<rparr>"
    using pr by (simp only: reload_state_fix) (simp add: proper_def)
  moreover have "plain_errors ?m" unfolding StemcellRepo_UpdateCurrent_def StemcellRepo_updateConfig_def
    by (intro plain_intros) simp_all
  then have "does p st ?m (\<lambda>r ks st'. ks = [] \<and> ((\<exists>x. r = Ok x \<and> i \<in> sr_ID ` set (Stemcells st)
      \<and> st' = reload_state (st\<lparr>CurrentStemcellID := i\<rparr>)) \<or> (st' = st \<and> (\<exists>e. r = Err e \<and> plain e))))"
    by (intro does_stores[OF StemcellRepo_UpdateCurrent_stores keeps_UpdateCurrent(2)]) (auto simp: proper_def storable_def)
  ultimately show "wp ?m (\<lambda>r w'. returns r \<and> (\<exists>ks st'. moved w ks w' \<and> state_at p w' st' \<and> ?Q r ks st')) w"
    using s by (auto simp: updates_def intro: wp_mono[OF doesD])
qed

text \<open>New records.\<close>

lemma does_proper: "(proper st \<Longrightarrow> does p st m R) \<Longrightarrow> does p st m R"
  unfolding does_def state_at_def using loaded_proper by blast

lemma does_DiskRepo_Save:
  assumes "int64 sz"
  shows "does p st (DiskRepo_Save p cid sz props) (\<lambda>r ks st'. ks = [] \<and>
    ((\<exists>x. r = Ok x \<and> dr_CID x = cid \<and> dr_Size x = sz \<and> dr_CloudProperties x = props \<and> cid \<notin> dr_CID ` set (Disks st)
        \<and> st' = st\<lparr>Disks := Disks st @ [reload_disk x]\<rparr>)
     \<or> (st' = st \<and> (\<exists>e. r = Err e \<and> plain e))))"
proof (rule does_proper)
  assume pr: "proper st"
  have R: "reload_state (st\<lparr>Disks := Disks st @ [x]\<rparr>) = st\<lparr>Disks := Disks st @ [reload_disk x]\<rparr>" for x
    using pr by (simp add: reload_state_def proper_def map_idI)
  have X: "dr_CID x = cid \<and> dr_Size x = sz \<and> dr_CloudProperties x = props"
    if "x = \<lparr>dr_ID = dr_ID x, dr_CID = cid, dr_Size = sz, dr_CloudProperties = props\<rparr>" for x
    using that by (metis DiskRecord.select_convs(2-4))
  have P: "plain_errors (DiskRepo_Save p cid sz props)"
    unfolding DiskRepo_Save_def DiskRepo_load_def Let_def by (intro plain_intros) simp_all
  have "does p st (DiskRepo_Save p cid sz props) (\<lambda>r ks st'. ks = [] \<and> ((\<exists>x. r = Ok x \<and>
      (x = \<lparr>dr_ID = dr_ID x, dr_CID = cid, dr_Size = sz, dr_CloudProperties = props\<rparr> \<and> cid \<notin> dr_CID ` set (Disks st))
      \<and> st' = reload_state (st\<lparr>Disks := Disks st @ [x]\<rparr>)) \<or> (st' = st \<and> (\<exists>e. r = Err e \<and> plain e))))"
  proof (rule does_stores[OF DiskRepo_Save_stores keeps_DiskRepo_Save[OF assms] P])
    show "storable (st\<lparr>Disks := Disks st @ [x]\<rparr>) \<and> DirectorID (st\<lparr>Disks := Disks st @ [x]\<rparr>) \<noteq> ''''"
      if "x = \<lparr>dr_ID = dr_ID x, dr_CID = cid, dr_Size = sz, dr_CloudProperties = props\<rparr> \<and> cid \<notin> dr_CID ` set (Disks st)" for x
      using that pr X[of x] assms by (simp add: proper_def storable_def)
  qed
  then show ?thesis by (rule does_mono) (use X R in auto)
qed

lemma does_StemcellRepo_Save:
  "does p st (StemcellRepo_Save p name version cid) (\<lambda>r ks st'. ks = [] \<and>
    ((\<exists>x. r = Ok x \<and> sr_CID x = cid \<and> stemcell_key x = (name, version) \<and> (name, version) \<notin> stemcell_key ` set (Stemcells st)
        \<and> st' = st\<lparr>Stemcells := Stemcells st @ [x]\<rparr>)
     \<or> (st' = st \<and> (\<exists>e. r = Err e \<and> plain e))))"
proof (rule does_proper)
  assume pr: "proper st"
  have R: "reload_state (st\<lparr>Stemcells := ss\<rparr>) = st\<lparr>Stemcells := ss\<rparr>" for ss
    using pr by (simp only: reload_state_fix) (simp add: proper_def)
  have S: "storable (st\<lparr>Stemcells := ss\<rparr>) \<and> DirectorID (st\<lparr>Stemcells := ss\<rparr>) \<noteq> ''''" for ss
    using pr by (simp add: proper_def storable_def)
  have P: "plain_errors (StemcellRepo_Save p name version cid)"
    unfolding StemcellRepo_Save_def StemcellRepo_updateConfig_def Let_def by (intro plain_intros) simp_all
  have X: "sr_CID x = cid \<and> stemcell_key x = (name, version)"
    if "x = \<lparr>sr_ID = sr_ID x, sr_Name = name, sr_Version = version, sr_CID = cid\<rparr>" for x
    using that by (metis StemcellRecord.select_convs(2-4) stemcell_key_def)
  have "does p st (StemcellRepo_Save p name version cid) (\<lambda>r ks st'. ks = [] \<and> ((\<exists>x. r = Ok x \<and>
      (x = \<lparr>sr_ID = sr_ID x, sr_Name = name, sr_Version = version, sr_CID = cid\<rparr>
         \<and> (name, version) \<notin> stemcell_key ` set (Stemcells st))
      \<and> st' = reload_state (st\<lparr>Stemcells := Stemcells st @ [x]\<rparr>)) \<or> (st' = st \<and> (\<exists>e. r = Err e \<and> plain e))))"
    by (rule does_stores[OF StemcellRepo_Save_stores keeps_StemcellRepo_Save P], assumption, assumption, rule S)
  then show ?thesis by (rule does_mono) (use X R in auto)
qed

end
