(* ===== verification/Resources.thy ===== *)
theory Resources
  imports Effects Ui
begin

text \<open>
  Deleting what was created in the cloud. Disks and stemcells (deployment/disk/disk.go,
  deployment/disk/manager.go, stemcell/cloud_stemcell.go, stemcell/manager.go,
  deployment/deployment.go) share one contract, the locale \<open>cloud_records\<close>: deleting a
  recorded resource makes one CPI call, and removes the record when the cloud has deleted
  the resource or does not know it. The locale gives the loops that delete lists of them.
\<close>

section \<open>The steps shared by the deletions\<close>

text \<open>
  A deletion goes on when the cloud reports that the resource does not exist
  (\<^verbatim>\<open>allow ...NotFoundError for idempotency\<close>), and fails on any other error.
\<close>

definition allow_not_found :: "string \<Rightarrow> string \<Rightarrow> goerr + unit \<Rightarrow> (world, unit) prog" where
  "allow_not_found notFound msg deleteErr = (case deleteErr of
      Inr _ \<Rightarrow> ret ()
    | Inl e \<Rightarrow> if cloud_error_type e \<noteq> Some notFound then fail (WrapError e msg) else ret ())"

text \<open>In a stage, the not-found error is turned into a skip error.\<close>

definition skip_not_found :: "string \<Rightarrow> string \<Rightarrow> (world, unit) prog \<Rightarrow> (world, unit) prog" where
  "skip_not_found notFound msg m = bnd (attempt m) (\<lambda>r. case r of
      Inr _ \<Rightarrow> ret ()
    | Inl e \<Rightarrow> fail (if cloud_error_type e = Some notFound then SkipStageError e msg else e))"

text \<open>The result of a deletion: done (or not found), or a plain error.\<close>

definition deleted :: "string \<Rightarrow> unit outcome \<Rightarrow> bool" where
  "deleted notFound r \<longleftrightarrow> r = Ok () \<or> (\<exists>e. r = Err e \<and> cloud_error_type e = Some notFound)"

definition failed :: "'a outcome \<Rightarrow> bool" where
  "failed r \<longleftrightarrow> (\<exists>e. r = Err e \<and> plain e)"

lemma deleted_simps [simp]:
  "deleted t (Ok x)" "deleted t (Err e) \<longleftrightarrow> cloud_error_type e = Some t"
  by (simp_all add: deleted_def)

lemma failed_simps [simp]: "\<not> failed (Ok x)" "failed (Err e) = plain e"
  by (simp_all add: failed_def)

lemma does_skip_not_found:
  assumes "does p st m (\<lambda>r ks st'. (deleted t r \<and> S ks st') \<or> (failed r \<and> F ks st'))"
  shows "does p st (Perform d name (skip_not_found t msg m)) (\<lambda>r ks st'. (r = Ok () \<and> S ks st') \<or> (failed r \<and> F ks st'))"
  unfolding skip_not_found_def
  by (rule does_Perform, rule does_bnd_attempt[OF assms]) (auto intro!: does_ret does_fail simp: plainD)

text \<open>The pattern of the three \<^verbatim>\<open>Delete\<close> methods.\<close>

lemma does_deletion:
  assumes m: "does p st m (\<lambda>r ks st'. ks = [k] \<and> st' = st \<and> cpi_result meth r)"
    and n: "\<And>x. (\<And>e. x = Inl e \<Longrightarrow> cloud_error_type e = Some notFound) \<Longrightarrow>
      does p st (n x) (\<lambda>r ks st'. ks = [] \<and> ((deleted notFound r \<and> S st') \<or> (failed r \<and> F st')))"
    and f: "F st"
  shows "does p st (bnd (attempt m) (\<lambda>deleteErr. seq (allow_not_found notFound msg deleteErr) (n deleteErr)))
    (\<lambda>r ks st'. ks = [k] \<and> ((deleted notFound r \<and> S st') \<or> (failed r \<and> F st')))"
proof (rule does_bnd_attempt[OF m], goal_cases)
  case (1 x ks st')
  then have s: "ks = [k]" "st' = st" by auto
  show ?case using n[of "Inr x"] by (simp add: s allow_not_found_def seq_ret)
next
  case (2 e ks st')
  then have s: "ks = [k]" "st' = st" by auto
  show ?case using n[of "Inl e"] f by (simp add: s allow_not_found_def seq_ret seq_fail does_fail)
qed

lemma for_each_map: "for_each f (map g xs) = for_each (\<lambda>x. f (g x)) xs"
  by (induction xs) simp_all

section \<open>The contract\<close>

locale cloud_records =
  fixes p :: string
    and records :: "DeploymentState \<Rightarrow> 'r list"
    and remove :: "'r \<Rightarrow> DeploymentState \<Rightarrow> DeploymentState"
    and del :: "'r \<Rightarrow> (world, unit) prog"
    and call_of :: "'r \<Rightarrow> call"
    and notFound :: string
  assumes del_does: "x \<in> set (records st) \<Longrightarrow> does p st (del x) (\<lambda>r ks st'. ks = [call_of x] \<and>
      ((deleted notFound r \<and> st' = remove x st) \<or> (failed r \<and> st' = st)))"
    and remove_others: "wf_state st \<Longrightarrow> x \<in> set (records st) \<Longrightarrow> y \<in> set (records st) \<Longrightarrow> y \<noteq> x \<Longrightarrow> y \<in> set (records (remove x st))"
begin

text \<open>Deleting a list: every deletion up to the first failure has been made, in order.\<close>

definition deletions :: "'r list \<Rightarrow> DeploymentState \<Rightarrow> unit outcome \<Rightarrow> call list \<Rightarrow> DeploymentState \<Rightarrow> bool" where
  "deletions xs st r ks st' \<longleftrightarrow>
     (r = Ok () \<and> ks = map call_of xs \<and> st' = fold remove xs st)
   \<or> (failed r \<and> (\<exists>n < length xs. ks = map call_of (take (Suc n) xs) \<and> st' = fold remove (take n xs) st))"

lemma deletions_Cons:
  "deletions xs (remove x st) r ks st' \<Longrightarrow> deletions (x # xs) st r (call_of x # ks) st'"
  unfolding deletions_def by (elim disjE conjE exE) (auto intro!: exI[of _ "Suc n" for n])

lemma delete_all:
  "distinct xs \<Longrightarrow> set xs \<subseteq> set (records st) \<Longrightarrow>
   does p st (for_each (\<lambda>x. Perform d (name x) (skip_not_found notFound msg (del x))) xs) (deletions xs st)"
proof (induction xs arbitrary: st)
  case Nil
  then show ?case by (simp add: does_ret deletions_def)
next
  case (Cons x xs)
  show ?case
  proof (rule does_wf)
    assume wf: "wf_state st"
    have sub: "set xs \<subseteq> set (records (remove x st))" using Cons.prems remove_others[OF wf, of x] by auto
    have step: "does p st (Perform d (name x) (skip_not_found notFound msg (del x)))
        (\<lambda>r ks st'. (r = Ok () \<and> ks = [call_of x] \<and> st' = remove x st) \<or> (failed r \<and> ks = [call_of x] \<and> st' = st))"
      by (rule does_skip_not_found, rule does_mono[OF del_does]) (use Cons.prems in auto)
    have rest: "does p (remove x st) (for_each (\<lambda>x. Perform d (name x) (skip_not_found notFound msg (del x))) xs)
        (deletions xs (remove x st))"
      by (rule Cons.IH) (use Cons.prems sub in auto)
    show "does p st (for_each (\<lambda>x. Perform d (name x) (skip_not_found notFound msg (del x))) (x # xs)) (deletions (x # xs) st)"
      unfolding for_each.simps
    proof (rule does_seq[OF step], goal_cases)
      case (1 u ks st')
      then have s: "ks = [call_of x]" "st' = remove x st" by auto
      show ?case unfolding s
        by (rule does_mono[OF rest]) (simp add: deletions_Cons)
    next
      case (2 e ks st')
      then show ?case by (auto simp: deletions_def intro: exI[of _ 0])
    qed
  qed
qed

end

text \<open>
  Records one of which may be the current one: the others are the unused ones. \<open>keep P st\<close>
  is \<open>st\<close> with the records that satisfy \<open>P\<close>.
\<close>

locale current_records = cloud_records p records remove del call_of notFound
  for p :: string
    and records :: "DeploymentState \<Rightarrow> 'r list"
    and remove :: "'r \<Rightarrow> DeploymentState \<Rightarrow> DeploymentState"
    and del :: "'r \<Rightarrow> (world, unit) prog"
    and call_of :: "'r \<Rightarrow> call"
    and notFound :: string +
  fixes ident :: "'r \<Rightarrow> string"
    and current :: "DeploymentState \<Rightarrow> string"
    and keep :: "('r \<Rightarrow> bool) \<Rightarrow> DeploymentState \<Rightarrow> DeploymentState"
    and list_all_records :: "(world, 'r list) prog"
    and find_current :: "(world, 'r option) prog"
  assumes idents: "wf_state st \<Longrightarrow> distinct (map ident (records st)) \<and> '''' \<notin> ident ` set (records st)
      \<and> (current st = '''' \<or> current st \<in> ident ` set (records st))"
    and remove_keep: "ident x \<noteq> current st \<Longrightarrow> remove x st = keep (\<lambda>y. ident y \<noteq> ident x) st"
    and records_keep: "records (keep P st) = filter P (records st)"
    and current_keep: "current (keep P st) = current st"
    and keep_keep: "keep P (keep Q st) = keep (\<lambda>x. Q x \<and> P x) st"
    and keep_all: "keep (\<lambda>x. True) st = st"
    and keep_cong: "(\<And>x. x \<in> set (records st) \<Longrightarrow> P x = Q x) \<Longrightarrow> keep P st = keep Q st"
    and lists: "does p st list_all_records (answers_with (records st) st)"
    and finds: "does p st find_current (answers_with
        (if current st = '''' then None else find (\<lambda>r. ident r = current st) (records st)) st)"
begin

definition unused :: "DeploymentState \<Rightarrow> 'r list" where
  "unused st = filter (\<lambda>r. ident r \<noteq> current st) (records st)"

lemma fold_remove: "current st \<notin> ident ` set rs \<Longrightarrow> fold remove rs st = keep (\<lambda>x. ident x \<notin> ident ` set rs) st"
proof (induction rs arbitrary: st)
  case (Cons r rs)
  then have r: "remove r st = keep (\<lambda>y. ident y \<noteq> ident r) st" by (intro remove_keep) auto
  show ?case using Cons by (simp add: r current_keep keep_keep)
qed (simp add: keep_all)

lemma does_find_unused:
  "does p st (bnd (wrap msg1 list_all_records) (\<lambda>rs. bnd (wrap msg2 find_current) (\<lambda>found.
     ret (map f (filter (\<lambda>r. case found of None \<Rightarrow> True | Some cur \<Rightarrow> ident r \<noteq> ident cur) rs)))))
    (answers_with (map f (unused st)) st)"
proof (rule does_wf, rule does_bnd_wrap[OF lists], goal_cases)
  case (1 rs ks st')
  then have s: "rs = records st" "ks = []" "st' = st" by auto
  have U: "filter (\<lambda>r. case (if current st = '''' then None else find (\<lambda>r. ident r = current st) (records st)) of
      None \<Rightarrow> True | Some cur \<Rightarrow> ident r \<noteq> ident cur) (records st) = unused st"
    unfolding unused_def
  proof (rule filter_cong[OF refl])
    fix x assume "x \<in> set (records st)"
    then have "ident x \<noteq> ''''" using idents[OF \<open>wf_state st\<close>] by (metis image_eqI)
    moreover have "\<exists>v. find (\<lambda>r. ident r = current st) (records st) = Some v \<and> ident v = current st"
      if "current st \<noteq> ''''"
    proof -
      from that have "current st \<in> ident ` set (records st)" using idents[OF \<open>wf_state st\<close>] by blast
      then obtain y where "y \<in> set (records st)" "ident y = current st" by auto
      then show ?thesis using find_ex[of y "records st" "\<lambda>r. ident r = current st"] by blast
    qed
    ultimately show "(case (if current st = '''' then None else find (\<lambda>r. ident r = current st) (records st)) of
        None \<Rightarrow> True | Some cur \<Rightarrow> ident x \<noteq> ident cur) = (ident x \<noteq> current st)"
      by (cases "current st = ''''") auto
  qed
  show ?case unfolding s
    by (rule does_bnd_wrap[OF finds]) (auto intro!: does_ret simp: U)
qed auto

text \<open>
  Deleting the unused ones: one call each, in the order of the records, up to the first
  failure; on success the current record is the only one left, and it stays in any case. No
  record disappears without its call.
\<close>

definition deletes_unused :: "DeploymentState \<Rightarrow> unit outcome \<Rightarrow> call list \<Rightarrow> DeploymentState \<Rightarrow> bool" where
  "deletes_unused st r ks st' \<longleftrightarrow>
     (r = Ok () \<and> ks = map call_of (unused st) \<and> st' = keep (\<lambda>x. ident x = current st) st)
   \<or> (failed r \<and> (\<exists>n \<le> length (unused st). ks = map call_of (take n (unused st)))
        \<and> (\<exists>Q. (\<forall>x. ident x = current st \<longrightarrow> Q x) \<and> (\<forall>x \<in> set (records st). Q x \<or> call_of x \<in> set ks) \<and> st' = keep Q st))"

lemma does_delete_unused:
  assumes F: "does p st find_all (answers_with (map f (unused st)) st)"
    and N: "\<And>x. D (f x) = del x"
  shows "does p st (bnd (wrap msg1 find_all) (\<lambda>xs. for_each (\<lambda>x. Perform d (name x) (skip_not_found notFound msg (D x))) xs))
    (deletes_unused st)"
proof (rule does_wf, rule does_bnd_wrap[OF F], goal_cases)
  case (1 ds ks st')
  then have s: "ds = map f (unused st)" "ks = []" "st' = st" by auto
  let ?us = "unused st"
  have un: "current st \<notin> ident ` set us" if "set us \<subseteq> set ?us" for us
    using that by (auto simp: unused_def)
  have all: "fold remove ?us st = keep (\<lambda>x. ident x = current st) st"
    by (subst fold_remove[OF un[OF subset_refl]], rule keep_cong) (auto simp: unused_def)
  have some: "\<exists>Q. (\<forall>x. ident x = current st \<longrightarrow> Q x) \<and> (\<forall>x \<in> set (records st). Q x \<or> call_of x \<in> call_of ` set (take (Suc n) ?us))
      \<and> fold remove (take n ?us) st = keep Q st" for n
  proof -
    have c: "current st \<notin> ident ` set (take n ?us)" by (rule un) (rule set_take_subset)
    have "x \<in> set (take (Suc n) ?us)" if "x \<in> set (records st)" "y \<in> set (take n ?us)" "ident x = ident y" for x y
    proof -
      have "y \<in> set (records st)" using that(2) set_take_subset[of n ?us] by (auto simp: unused_def)
      then have "x = y" using idents[OF \<open>wf_state st\<close>] that(1,3) by (auto simp: distinct_map dest: inj_onD)
      then show ?thesis using that(2) set_take_subset_set_take[of n "Suc n" ?us] by auto
    qed
    then show ?thesis unfolding fold_remove[OF c]
      using c by (intro exI[of _ "\<lambda>x. ident x \<notin> ident ` set (take n ?us)"]) auto
  qed
  have d: "distinct ?us" and sub: "set ?us \<subseteq> set (records st)"
    using idents[OF \<open>wf_state st\<close>] by (auto simp: unused_def distinct_map)
  have "does p st (for_each (\<lambda>x. Perform d (name (f x)) (skip_not_found notFound msg (del x))) ?us) (deletions ?us st)"
    by (rule delete_all[OF d sub])
  then show ?case unfolding s for_each_map N
  proof (rule does_mono, goal_cases)
    case (1 r ks st')
    show ?case using 1(2) unfolding deletions_def
    proof (elim disjE conjE exE)
      fix n assume "failed r" "n < length ?us" "ks = map call_of (take (Suc n) ?us)" "st' = fold remove (take n ?us) st"
      then show ?thesis using some[of n] by (auto simp: deletes_unused_def simp del: take_Suc_conv_app_nth intro!: exI[of _ "Suc n"])
    qed (simp add: deletes_unused_def all)
  qed
next
  case (2 e ks st')
  have "\<exists>Q. (\<forall>x. ident x = current st \<longrightarrow> Q x) \<and> (\<forall>x \<in> set (records st). Q x) \<and> st = keep Q st"
    by (intro exI[of _ "\<lambda>_. True"]) (simp add: keep_all)
  then show ?case using 2 by (auto simp: deletes_unused_def intro!: exI[of _ 0])
qed

end

end
