(* ===== verification/Manifest.thy ===== *)
theory Manifest
  imports World Net
begin

text \<open>
  The deployment manifest (deployment/manifest/manifest.go, job.go, network.go,
  disk_pool.go, resource_pool.go, watch_time.go) and common/util/file_helper.go: the
  data, the accessors the deployment uses, with their index panics, and the network
  interfaces sent to the CPI.
\<close>

section \<open>The data\<close>

record ReleaseJobRef =
  rj_Name :: string
  rj_Release :: string
  rj_Properties :: "gomap option"

record JobNetwork =
  jn_Name :: string
  jn_Defaults :: "string list"
  jn_StaticIPs :: "string list"

record ManifestJob =
  mj_Name :: string
  mj_Instances :: int
  mj_Lifecycle :: string
  mj_Templates :: "ReleaseJobRef list"
  mj_Networks :: "JobNetwork list"
  mj_PersistentDisk :: int
  mj_PersistentDiskPool :: string
  mj_ResourcePool :: string
  mj_Properties :: "gomap option"

record Subnet =
  sn_Range :: string
  sn_Gateway :: string
  sn_DNS :: "string list"
  sn_CloudProperties :: "gomap option"

record Network =
  nw_Name :: string
  nw_Type :: string
  nw_CloudProperties :: "gomap option"
  nw_DNS :: "string list"
  nw_Subnets :: "Subnet list"

record DiskPool =
  dp_Name :: string
  dp_DiskSize :: int
  dp_CloudProperties :: "gomap option"

record SourceRef =
  src_URL :: string
  src_SHA1 :: string

record ResourcePool =
  rp_Name :: string
  rp_Network :: string
  rp_CloudProperties :: "gomap option"
  rp_Env :: "gomap option"
  rp_Stemcell :: SourceRef

record WatchTime =
  wt_Start :: int
  wt_End :: int

record Manifest =
  mf_Name :: string
  mf_Properties :: "gomap option"
  mf_Jobs :: "ManifestJob list"
  mf_Networks :: "Network list"
  mf_DiskPools :: "DiskPool list"
  mf_ResourcePools :: "ResourcePool list"
  mf_UpdateWatchTime :: WatchTime

definition zero_network :: Network where
  "zero_network = \<lparr>nw_Name = '''', nw_Type = '''', nw_CloudProperties = None, nw_DNS = [], nw_Subnets = []\<rparr>"

definition zero_disk_pool :: DiskPool where
  "zero_disk_pool = \<lparr>dp_Name = '''', dp_DiskSize = 0, dp_CloudProperties = None\<rparr>"

definition Dynamic :: string where "Dynamic = ''dynamic''"
definition Manual :: string where "Manual = ''manual''"
definition VIP :: string where "VIP = ''vip''"

section \<open>deployment/manifest/network.go\<close>

definition prop_of_map :: "gomap option \<Rightarrow> property" where
  "prop_of_map m = (case m of None \<Rightarrow> PNil | Some x \<Rightarrow> PMap x)"

definition netmask_string :: "byte list \<Rightarrow> string" where
  "netmask_string m = Join (map (\<lambda>i. show_nat (unat (m ! i))) [0..<4]) ''.''"

definition manual_interface :: "Subnet \<Rightarrow> gomap \<Rightarrow> gomap outcome" where
  "manual_interface s m0 =
     (let m1 = AList.update ''gateway'' (PStr (sn_Gateway s)) m0;
          m2 = (if sn_DNS s \<noteq> [] then AList.update ''dns'' (PStrs (sn_DNS s)) m1 else m1)
      in case ParseCIDR (sn_Range s) of
           None \<Rightarrow> Err (WrapError (External ''invalid CIDR address'') ''Failed to parse subnet range'')
         | Some (ip, ipNet) \<Rightarrow>
             Ok (AList.update ''cloud_properties'' (prop_of_map (sn_CloudProperties s))
                  (AList.update ''netmask'' (PStr (netmask_string (in_Mask ipNet))) m2)))"

definition Interface :: "Network \<Rightarrow> string list \<Rightarrow> string list \<Rightarrow> gomap outcome" where
  "Interface n staticIPs networkDefaults =
     obind (if nw_Type n = Manual then
              (case nw_Subnets n of
                 [] \<Rightarrow> Panic ''index out of range''
               | s # ss \<Rightarrow> manual_interface s [(''type'', PStr (nw_Type n))])
            else Ok (AList.update ''cloud_properties'' (prop_of_map (nw_CloudProperties n)) [(''type'', PStr (nw_Type n))]))
      (\<lambda>m1.
       let m2 = (if nw_Type n = Dynamic \<and> nw_DNS n \<noteq> [] then AList.update ''dns'' (PStrs (nw_DNS n)) m1 else m1);
           m3 = (case staticIPs of [] \<Rightarrow> m2 | ip # ips \<Rightarrow> AList.update ''ip'' (PStr ip) m2)
       in Ok (if networkDefaults \<noteq> [] then AList.update ''default'' (PDefaults networkDefaults) m3 else m3))"

section \<open>deployment/manifest/manifest.go\<close>

definition FindJobByName :: "Manifest \<Rightarrow> string \<Rightarrow> ManifestJob option" where
  "FindJobByName d jobName = find (\<lambda>j. mj_Name j = jobName) (mf_Jobs d)"

definition networkMap :: "Manifest \<Rightarrow> string \<Rightarrow> Network option" where
  "networkMap d = map_of (rev (map (\<lambda>n. (nw_Name n, n)) (mf_Networks d)))"

definition JobName :: "Manifest \<Rightarrow> string outcome" where
  "JobName d = (case mf_Jobs d of [] \<Rightarrow> Panic ''index out of range'' | j # js \<Rightarrow> Ok (mj_Name j))"

definition job_not_found :: "string \<Rightarrow> goerr" where
  "job_not_found jobName = Errorf ''Could not find job with name: %s'' [AStr jobName]"

primrec interfaces_loop :: "(string \<Rightarrow> Network option) \<Rightarrow> JobNetwork list \<Rightarrow> (string \<times> gomap) list \<Rightarrow> (string \<times> gomap) list outcome" where
  "interfaces_loop nets [] ifaceMap = Ok ifaceMap"
| "interfaces_loop nets (jn # jns) ifaceMap =
     (let network = (case nets (jn_Name jn) of None \<Rightarrow> zero_network | Some n \<Rightarrow> n) in
      obind (wrap_outcome ''Building network interface'' [] (Interface network (jn_StaticIPs jn) (jn_Defaults jn))) (\<lambda>iface.
        interfaces_loop nets jns (AList.update (jn_Name jn) iface ifaceMap)))"

definition NetworkInterfaces :: "Manifest \<Rightarrow> string \<Rightarrow> (string \<times> gomap) list outcome" where
  "NetworkInterfaces d jobName = (case FindJobByName d jobName of
      None \<Rightarrow> Err (job_not_found jobName)
    | Some job \<Rightarrow> obind (interfaces_loop (networkMap d) (mj_Networks job) []) (\<lambda>ifaceMap.
        Ok (case mj_Networks job of
              [jn] \<Rightarrow> map (\<lambda>(n, i). (n, if n = jn_Name jn
                         then AList.update ''default'' (PDefaults [''dns'', ''gateway'']) i else i)) ifaceMap
            | _ \<Rightarrow> ifaceMap)))"

definition ResourcePool_of :: "Manifest \<Rightarrow> string \<Rightarrow> goerr + ResourcePool" where
  "ResourcePool_of d jobName = (case FindJobByName d jobName of
      None \<Rightarrow> Inl (job_not_found jobName)
    | Some job \<Rightarrow> (case find (\<lambda>rp. rp_Name rp = mj_ResourcePool job) (mf_ResourcePools d) of
          Some rp \<Rightarrow> Inr rp
        | None \<Rightarrow> Inl (Errorf ''Could not find resource pool %s for job %s'' [AStr (mj_ResourcePool job), AStr jobName])))"

definition Stemcell_of :: "Manifest \<Rightarrow> string \<Rightarrow> goerr + SourceRef" where
  "Stemcell_of d jobName = sbind (ResourcePool_of d jobName) (\<lambda>rp. Inr (rp_Stemcell rp))"

definition DiskPool_of :: "Manifest \<Rightarrow> string \<Rightarrow> goerr + DiskPool" where
  "DiskPool_of d jobName = (case FindJobByName d jobName of
      None \<Rightarrow> Inl (job_not_found jobName)
    | Some job \<Rightarrow>
        if mj_PersistentDiskPool job \<noteq> '''' then
          (case find (\<lambda>dp. dp_Name dp = mj_PersistentDiskPool job) (mf_DiskPools d) of
             Some dp \<Rightarrow> Inr dp
           | None \<Rightarrow> Inl (Errorf ''Could not find persistent disk pool %s for job %s''
                           [AStr (mj_PersistentDiskPool job), AStr jobName]))
        else if mj_PersistentDisk job > 0 then
          Inr \<lparr>dp_Name = '''', dp_DiskSize = mj_PersistentDisk job, dp_CloudProperties = Some []\<rparr>
        else Inr zero_disk_pool)"

definition GetListOfTemplateReleases :: "Manifest \<Rightarrow> string list option" where
  "GetListOfTemplateReleases d = (case mf_Jobs d of
      [j] \<Rightarrow> Some (remdups (map rj_Release (mj_Templates j)))
    | _ \<Rightarrow> None)"

section \<open>deployment/manifest/watch\_time.go\<close>

definition NewWatchTime :: "string \<Rightarrow> goerr + WatchTime" where
  "NewWatchTime timeRange = (case SplitChar CHR ''-'' timeRange of
      [p0, p1] \<Rightarrow>
        sbind (wraps ''Non-positive number as watch time minimum %s'' [AStr p0] (Atoi (TrimChar CHR '' '' p0))) (\<lambda>start.
        sbind (wraps ''Non-positive number as watch time maximum %s'' [AStr p1] (Atoi (TrimChar CHR '' '' p1))) (\<lambda>end.
        if end < start
        then Inl (Errorf ''Watch time must have maximum greater than or equal minimum %s'' [AStr timeRange])
        else Inr \<lparr>wt_Start = start, wt_End = end\<rparr>))
    | _ \<Rightarrow> Inl (Errorf ''Invalid watch time range %s'' [AStr timeRange]))"

section \<open>common/util/file\_helper.go\<close>

text \<open>A path is returned, or expanded by the file system when it starts with \<^verbatim>\<open>~\<close>.\<close>

definition AbsolutifyPath :: "string \<Rightarrow> string \<Rightarrow> (world, string) prog" where
  "AbsolutifyPath pathToManifest pathToFile =
     (if HasPrefix pathToFile ''http'' then ret pathToFile
      else if HasPrefix pathToFile ''file:///'' \<or> HasPrefix pathToFile ''/'' then ret pathToFile
      else if HasPrefix pathToFile ''file://~'' then ret pathToFile
      else if HasPrefix pathToFile ''~'' then ExpandPath pathToFile
      else if \<not> HasPrefix pathToFile ''file://'' then ret (JoinPath [Dir pathToManifest, pathToFile])
      else ret (''file://'' @ JoinPath [Dir pathToManifest, TrimPrefix pathToFile ''file://'']))"

end
