(* ===== verification/Disk.thy ===== *)
theory Disk
  imports Resources Manifest
begin

text \<open>
  Disks: deployment/disk/disk.go and deployment/disk/manager.go. A disk manager is the cloud
  and the path of the state file. Shown: when a disk needs migration, what deleting a disk
  leaves behind, and which disks \<^verbatim>\<open>DeleteUnused\<close> deletes.
\<close>

section \<open>deployment/disk/disk.go\<close>

record Disk =
  dk_CID :: string
  dk_Size :: int
  dk_CloudProperties :: "gomap option"

definition NewDisk :: "DiskRecord \<Rightarrow> Disk" where
  "NewDisk diskRecord = \<lparr>dk_CID = dr_CID diskRecord, dk_Size = dr_Size diskRecord,
     dk_CloudProperties = dr_CloudProperties diskRecord\<rparr>"

definition NeedsMigration :: "Disk \<Rightarrow> int \<Rightarrow> gomap option \<Rightarrow> bool" where
  "NeedsMigration d newSize newCloudProperties \<longleftrightarrow>
     dk_Size d \<noteq> newSize \<or> \<not> DeepEqual_map (dk_CloudProperties d) newCloudProperties"

definition Disk_Delete :: "string \<Rightarrow> cloud \<Rightarrow> Disk \<Rightarrow> (world, unit) prog" where
  "Disk_Delete p c d =
     bnd (attempt (DeleteDisk c (dk_CID d))) (\<lambda>deleteErr.
     seq (allow_not_found DiskNotFoundError ''Deleting disk in the cloud'' deleteErr)
    (bnd (wrapf ''Finding disk record (cid=%s)'' [AStr (dk_CID d)] (DiskRepo_Find p (dk_CID d))) (\<lambda>found.
     case found of None \<Rightarrow> ret ()
     | Some diskRecord \<Rightarrow> seq (wrap ''Deleting disk record'' (DiskRepo_Delete p diskRecord)) (lift_sum deleteErr))))"

section \<open>deployment/disk/manager.go\<close>

definition DiskManager_FindCurrent :: "string \<Rightarrow> (world, Disk list) prog" where
  "DiskManager_FindCurrent p =
     bnd (wrap ''Reading disk record'' (DiskRepo_FindCurrent p)) (\<lambda>found.
     ret (case found of None \<Rightarrow> [] | Some diskRecord \<Rightarrow> [NewDisk diskRecord]))"

definition DiskManager_Create :: "string \<Rightarrow> cloud \<Rightarrow> DiskPool \<Rightarrow> string \<Rightarrow> (world, Disk) prog" where
  "DiskManager_Create p c diskPool vmCID =
     bnd (wrapf ''Creating disk with size %d, cloudProperties %#v, instanceID %s''
            [AInt (dp_DiskSize diskPool), ADump, AStr vmCID]
            (CreateDisk c (dp_DiskSize diskPool) (dp_CloudProperties diskPool) vmCID)) (\<lambda>cid.
     bnd (wrap ''Saving deployment disk record''
            (DiskRepo_Save p cid (dp_DiskSize diskPool) (dp_CloudProperties diskPool))) (\<lambda>diskRecord.
     ret (NewDisk diskRecord)))"

definition DiskManager_FindUnused :: "string \<Rightarrow> (world, Disk list) prog" where
  "DiskManager_FindUnused p =
     bnd (wrap ''Getting all disk records'' (DiskRepo_All p)) (\<lambda>diskRecords.
     bnd (wrap ''Finding current disk record'' (DiskRepo_FindCurrent p)) (\<lambda>found.
     ret (map NewDisk (filter (\<lambda>r. case found of None \<Rightarrow> True | Some current \<Rightarrow> dr_ID r \<noteq> dr_ID current) diskRecords))))"

definition DiskManager_DeleteUnused :: "string \<Rightarrow> cloud \<Rightarrow> nat \<Rightarrow> (world, unit) prog" where
  "DiskManager_DeleteUnused p c stage =
     bnd (wrap ''Finding unused disks'' (DiskManager_FindUnused p)) (\<lambda>disks.
     for_each (\<lambda>disk. Perform stage (''Deleting unused disk '' @ dk_CID disk)
       (skip_not_found DiskNotFoundError ''Disk Not Found'' (Disk_Delete p c disk))) disks)"

section \<open>Migration\<close>

text \<open>
  A disk read back from the state file needs migration to the size and cloud properties it
  was created with exactly when those do not survive JSON.
\<close>

lemma NeedsMigration_reloaded:
  assumes "wf_map props" "dr_CloudProperties r = Some props"
  shows "NeedsMigration (NewDisk (reload_disk r)) (dr_Size r) (dr_CloudProperties r)
    \<longleftrightarrow> (\<exists>e \<in> set props. \<not> json_stable (snd e))"
  using DeepEqual_map_reload[OF assms(1)] assms(2) by (simp add: NeedsMigration_def NewDisk_def)

section \<open>Deletion\<close>

definition delete_disk_call :: "cloud \<Rightarrow> string \<Rightarrow> call" where
  "delete_disk_call c cid = cpi_call c ''delete_disk'' [ArgStr cid]"

text \<open>The state without the record of a disk.\<close>

definition without_disk :: "string \<Rightarrow> DeploymentState \<Rightarrow> DeploymentState" where
  "without_disk cid st = (case find (\<lambda>r. dr_CID r = cid) (Disks st) of None \<Rightarrow> st | Some r \<Rightarrow> DiskRepo_remove r st)"

lemma does_Disk_Delete:
  "does p st (Disk_Delete p c d) (\<lambda>r ks st'. ks = [delete_disk_call c (dk_CID d)] \<and>
     ((deleted DiskNotFoundError r \<and> st' = without_disk (dk_CID d) st) \<or> (failed r \<and> st' = st)))"
  unfolding Disk_Delete_def delete_disk_call_def
proof (rule does_deletion[OF does_cloud(10)], goal_cases)
  case (1 x)
  show ?case
  proof (rule does_bnd_wrapf[OF does_finds(3)], goal_cases)
    case (1 found ks st')
    then have s: "ks = []" "st' = st" "found = find (\<lambda>r. dr_CID r = dk_CID d) (Disks st)" by auto
    show ?case unfolding s
      by (rule does_option, rule does_ret, simp add: without_disk_def,
          rule does_seq_wrap[OF does_updates(4)], rule does_lift_sum)
        (use \<open>\<And>e. x = Inl e \<Longrightarrow> cloud_error_type e = Some DiskNotFoundError\<close> in \<open>auto simp: without_disk_def\<close>)
  qed auto
qed simp

lemma find_record: "wf_state st \<Longrightarrow> r \<in> set (Disks st) \<Longrightarrow> find (\<lambda>x. dr_CID x = dr_CID r) (Disks st) = Some r"
  using find_ex[of r "Disks st" "\<lambda>x. dr_CID x = dr_CID r"]
  by (auto simp: wf_state_def wf_disks_def distinct_map inj_on_def)

lemma Disks_remove: "Disks (DiskRepo_remove r st) = filter (\<lambda>x. dr_ID x \<noteq> dr_ID r) (Disks st)"
  by (simp add: DiskRepo_remove_def Let_def)

lemma wf_disk_ids: "wf_state st \<Longrightarrow> x \<in> set (Disks st) \<Longrightarrow> y \<in> set (Disks st) \<Longrightarrow> dr_ID x = dr_ID y \<longleftrightarrow> x = y"
  by (auto simp: wf_state_def wf_disks_def distinct_map inj_on_def)

lemma does_Disk_Delete_record:
  assumes "x \<in> set (Disks st)"
  shows "does p st (Disk_Delete p c (NewDisk x)) (\<lambda>r ks st'. ks = [delete_disk_call c (dr_CID x)] \<and>
      ((deleted DiskNotFoundError r \<and> st' = DiskRepo_remove x st) \<or> (failed r \<and> st' = st)))"
proof (rule does_wf)
  assume "wf_state st"
  then have "without_disk (dk_CID (NewDisk x)) st = DiskRepo_remove x st"
    using find_record[of st x] assms by (simp add: without_disk_def NewDisk_def)
  then show ?thesis using does_Disk_Delete[of p st c "NewDisk x"] by (simp add: NewDisk_def)
qed

definition keep_disks :: "(DiskRecord \<Rightarrow> bool) \<Rightarrow> DeploymentState \<Rightarrow> DeploymentState" where
  "keep_disks P st = st\<lparr>Disks := filter P (Disks st)\<rparr>"

interpretation disks: current_records p Disks DiskRepo_remove "\<lambda>r. Disk_Delete p c (NewDisk r)"
  "\<lambda>r. delete_disk_call c (dr_CID r)" DiskNotFoundError dr_ID CurrentDiskID keep_disks
  "DiskRepo_All p" "DiskRepo_FindCurrent p" for p c
proof (unfold_locales, goal_cases)
  case 1 then show ?case by (rule does_Disk_Delete_record)
qed (auto simp: Disks_remove wf_disk_ids keep_disks_def does_finds DiskRepo_remove_def Let_def wf_state_def wf_disks_def
    intro!: arg_cong[where f = "\<lambda>ds. st\<lparr>Disks := ds\<rparr>" for st] filter_cong)

text \<open>What is unused, and what \<^verbatim>\<open>DeleteUnused\<close> does, spelt out.\<close>

definition unused_disks :: "DeploymentState \<Rightarrow> DiskRecord list" where
  "unused_disks st = filter (\<lambda>r. dr_ID r \<noteq> CurrentDiskID st) (Disks st)"

lemma does_DiskManager_FindUnused:
  "does p st (DiskManager_FindUnused p) (answers_with (map NewDisk (unused_disks st)) st)"
  unfolding DiskManager_FindUnused_def unused_disks_def
  by (rule disks.does_find_unused[unfolded disks.unused_def])

lemma does_DiskManager_DeleteUnused:
  "does p st (DiskManager_DeleteUnused p c d) (\<lambda>r ks st'.
     (r = Ok () \<and> ks = map (\<lambda>x. delete_disk_call c (dr_CID x)) (unused_disks st)
        \<and> st' = st\<lparr>Disks := filter (\<lambda>x. dr_ID x = CurrentDiskID st) (Disks st)\<rparr>)
   \<or> (failed r \<and> (\<exists>n \<le> length (unused_disks st). ks = map (\<lambda>x. delete_disk_call c (dr_CID x)) (take n (unused_disks st)))
        \<and> (\<exists>Q. (\<forall>x. dr_ID x = CurrentDiskID st \<longrightarrow> Q x) \<and> (\<forall>x \<in> set (Disks st). Q x \<or> delete_disk_call c (dr_CID x) \<in> set ks)
          \<and> st' = st\<lparr>Disks := filter Q (Disks st)\<rparr>)))"
proof -
  have "does p st (DiskManager_DeleteUnused p c d) (disks.deletes_unused c st)"
    unfolding DiskManager_DeleteUnused_def
    by (rule disks.does_delete_unused[where f = NewDisk and D = "Disk_Delete p c" and c = c])
      (simp_all add: disks.unused_def does_DiskManager_FindUnused[unfolded unused_disks_def])
  then show ?thesis
    by (rule does_mono) (simp only: disks.deletes_unused_def disks.unused_def, simp only: keep_disks_def unused_disks_def)
qed

end
