(* ===== verification/Retry.thy ===== *)
theory Retry
  imports Effects
begin

text \<open>
  The retry strategies of bosh-utils (vendored: retrystrategy/attempt_retry_strategy.go and
  timeout_retry_strategy.go) and the agent's retryables (vendored: agentclient/ping_retryable.go,
  get_state_retryable.go), which the VM code runs. An attempt returns whether it may be retried
  and its error. Shown: how many attempts are made, that the timeout loop ends, and what a
  success means.
\<close>

section \<open>The loops\<close>

type_synonym attempt = "(world, bool \<times> goerr option) prog"

primrec attempt_loop :: "nat \<Rightarrow> int \<Rightarrow> attempt \<Rightarrow> goerr option \<Rightarrow> (world, unit) prog" where
  "attempt_loop 0 delay att err = or_err err"
| "attempt_loop (Suc n) delay att err = bnd att (\<lambda>(isRetryable, err'). case err' of
      None \<Rightarrow> ret ()
    | Some e \<Rightarrow> if \<not> isRetryable then fail e else seq (Sleep delay) (attempt_loop n delay att (Some e)))"

definition AttemptRetry :: "int \<Rightarrow> int \<Rightarrow> attempt \<Rightarrow> (world, unit) prog" where
  "AttemptRetry maxAttempts delay att = attempt_loop (nat maxAttempts) delay att None"

text \<open>
  The timeout loop has no counter of its own; the fuel is the number of delays that fit in the
  timeout, plus one, which is enough for a positive delay (the callers pass half a second).
\<close>

definition hang :: "(world, 'a) prog" where
  "hang w = (Hang, w)"

primrec timeout_loop :: "nat \<Rightarrow> int \<Rightarrow> int \<Rightarrow> attempt \<Rightarrow> (world, unit) prog" where
  "timeout_loop 0 deadlineMinusDelay delay att = hang"
| "timeout_loop (Suc n) deadlineMinusDelay delay att = bnd att (\<lambda>(isRetryable, err). case err of
      None \<Rightarrow> ret ()
    | Some e \<Rightarrow> if \<not> isRetryable then fail e
        else bnd Now (\<lambda>now. if now > deadlineMinusDelay then fail e
               else seq (Sleep delay) (timeout_loop n deadlineMinusDelay delay att)))"

definition TimeoutRetry :: "int \<Rightarrow> int \<Rightarrow> attempt \<Rightarrow> (world, unit) prog" where
  "TimeoutRetry timeout delay att = bnd Now (\<lambda>now.
     timeout_loop (Suc (nat (timeout div delay))) (now + timeout - delay) delay att)"

text \<open>\<^verbatim>\<open>PingRetryable\<close> and \<^verbatim>\<open>GetStateRetryable\<close>.\<close>

definition ping_attempt :: attempt where
  "ping_attempt = bnd (request CallPing a_err) (\<lambda>err. ret (True, err))"

definition get_state_attempt :: attempt where
  "get_state_attempt = bnd (request CallGetState a_state) (\<lambda>r. ret (case r of
      Inl e \<Rightarrow> (False, Some e)
    | Inr s \<Rightarrow> if as_JobState s = ''running'' then (True, None)
        else (True, Some (Errorf ''Received non-running job state: %s'' [AStr (as_JobState s)]))))"

section \<open>What they do\<close>

text \<open>A request made in a loop only adds its call.\<close>

definition only_calls :: "world \<Rightarrow> call \<Rightarrow> nat \<Rightarrow> world \<Rightarrow> bool" where
  "only_calls w k m w' \<longleftrightarrow> files w' = files w \<and> answers w' = answers w \<and> tick w \<le> tick w' \<and> clock w \<le> clock w'
     \<and> calls w' = calls w @ replicate m k"

lemma only_calls_step:
  "only_calls (w\<lparr>calls := calls w @ [k], tick := Suc (tick w), clock := c + max 0 d\<rparr>) k m w' \<Longrightarrow> clock w \<le> c \<Longrightarrow>
   only_calls w k (Suc m) w'"
  unfolding only_calls_def by (auto simp: max_def split: if_splits)

lemma ping_loop:
  assumes "0 < delay"
  shows "plain_answers w \<Longrightarrow> dl - clock w < (int n - 1) * delay \<Longrightarrow> 0 < n \<Longrightarrow>
    wp (timeout_loop n dl delay ping_attempt)
      (\<lambda>r w'. returns r \<and> plain_result r \<and> (\<exists>m \<le> n. only_calls w CallPing m w')) w"
proof (induction n arbitrary: w)
  case (Suc n)
  let ?a = "answers w (tick w)" and ?c = "clock w + int (a_elapsed (answers w (tick w)))"
  let ?w = "w\<lparr>calls := calls w @ [CallPing], tick := Suc (tick w), clock := ?c\<rparr>"
  show ?case
  proof (cases "a_err ?a")
    case None
    then show ?thesis
      by (auto simp: ping_attempt_def wp_request wp_simps Let_def only_calls_def intro!: exI[of _ "Suc 0"])
  next
    case (Some e)
    then have p: "plain e" using Suc.prems(1) by (rule plain_answersD(1)[rotated])
    have one: "only_calls w CallPing (Suc 0) ?w" by (simp add: only_calls_def)
    let ?v = "?w\<lparr>clock := ?c + max 0 delay\<rparr>"
    have "wp (timeout_loop n dl delay ping_attempt)
        (\<lambda>r w'. returns r \<and> plain_result r \<and> (\<exists>m \<le> Suc n. only_calls w CallPing m w')) ?v" if le: "?c \<le> dl"
    proof (rule wp_mono[OF Suc.IH[of ?v]])
      have "0 < (int (Suc n) - 1) * delay" using le Suc.prems(2) by linarith
      then show n: "0 < n" using assms by (cases n) auto
      show "plain_answers ?v" using Suc.prems(1) by (simp add: plain_answers_def)
      have "dl - clock w - delay < (int n - 1) * delay" using Suc.prems(2) by (simp add: algebra_simps)
      then show "dl - clock ?v < (int n - 1) * delay" using assms by simp
      fix r w' assume "returns r \<and> plain_result r \<and> (\<exists>m\<le>n. only_calls ?v CallPing m w')"
      then obtain m where m: "returns r" "plain_result r" "m \<le> n" "only_calls ?v CallPing m w'" by blast
      have "only_calls w CallPing (Suc m) w'" by (rule only_calls_step[where c = ?c and d = delay]) (use m(4) in simp_all)
      then show "returns r \<and> plain_result r \<and> (\<exists>m\<le>Suc n. only_calls w CallPing m w')"
        using m(1-3) by auto
    qed
    then show ?thesis using Some p one
      by (auto simp: ping_attempt_def wp_request wp_simps Let_def Now_def Sleep_def intro: exI[of _ "Suc 0"])
  qed
qed simp

text \<open>The timeout loop returns, after at most one ping per delay in the timeout, plus one.\<close>

lemma TimeoutRetry_ping:
  assumes "0 < delay" "0 \<le> timeout" "plain_answers w"
  shows "wp (TimeoutRetry timeout delay ping_attempt) (\<lambda>r w'. returns r \<and> plain_result r
    \<and> (\<exists>m \<le> Suc (nat (timeout div delay)). only_calls w CallPing m w')) w"
proof -
  have "timeout - delay < timeout div delay * delay"
    using div_mult_mod_eq[of timeout delay] pos_mod_bound[OF assms(1), of timeout] by linarith
  moreover have "int (Suc (nat (timeout div delay))) - 1 = timeout div delay"
    using assms(1,2) by (simp add: pos_imp_zdiv_nonneg_iff)
  ultimately have "clock w + timeout - delay - clock w < (int (Suc (nat (timeout div delay))) - 1) * delay"
    by (simp only:)
  then show ?thesis
    unfolding TimeoutRetry_def Now_def wp_bnd wp_gets outcome.case
    by (rule ping_loop[OF assms(1,3)]) simp
qed

text \<open>
  The attempt loop on \<^verbatim>\<open>get_state\<close>: at most the given number of calls; a success means that
  the agent has answered that the job is running, unless no attempt was to be made.
\<close>

definition reported_running :: "world \<Rightarrow> world \<Rightarrow> bool" where
  "reported_running w w' \<longleftrightarrow> (\<exists>k s. tick w \<le> k \<and> k < tick w' \<and> a_state (answers w k) = Inr s \<and> as_JobState s = ''running'')"

lemma get_state_loop:
  "plain_answers w \<Longrightarrow> (case err of None \<Rightarrow> True | Some e \<Rightarrow> plain e) \<Longrightarrow>
   wp (attempt_loop n delay get_state_attempt err) (\<lambda>r w'. returns r \<and> plain_result r
     \<and> (r = Ok () \<longrightarrow> (n = 0 \<and> err = None) \<or> reported_running w w') \<and> (\<exists>m \<le> n. only_calls w CallGetState m w')) w"
proof (induction n arbitrary: w err)
  case 0
  then show ?case by (auto simp: wp_simps only_calls_def split: option.splits)
next
  case (Suc n)
  let ?a = "answers w (tick w)" and ?c = "clock w + int (a_elapsed (answers w (tick w)))"
  let ?v = "w\<lparr>calls := calls w @ [CallGetState], tick := Suc (tick w), clock := ?c + max 0 delay\<rparr>"
  have nxt: "wp (attempt_loop n delay get_state_attempt (Some e)) (\<lambda>r w'. returns r \<and> plain_result r
     \<and> (r = Ok () \<longrightarrow> reported_running w w') \<and> (\<exists>m \<le> Suc n. only_calls w CallGetState m w')) ?v" if "plain e" for e
  proof (rule wp_mono[OF Suc.IH[of ?v "Some e"]])
    show "plain_answers ?v" using Suc.prems(1) by (simp add: plain_answers_def)
    fix r w'
    assume "returns r \<and> plain_result r \<and> (r = Ok () \<longrightarrow> (n = 0 \<and> Some e = None) \<or> reported_running ?v w')
      \<and> (\<exists>m\<le>n. only_calls ?v CallGetState m w')"
    then obtain m where m: "returns r" "plain_result r" "r = Ok () \<longrightarrow> reported_running ?v w'" "m \<le> n"
        "only_calls ?v CallGetState m w'" by blast
    have "only_calls w CallGetState (Suc m) w'" using m(5) by (rule only_calls_step) simp
    moreover have "reported_running w w'" if "reported_running ?v w'"
      using that unfolding reported_running_def by (auto intro: Suc_leD)
    ultimately show "returns r \<and> plain_result r \<and> (r = Ok () \<longrightarrow> reported_running w w')
        \<and> (\<exists>m\<le>Suc n. only_calls w CallGetState m w')"
      using m(1-4) by auto
  qed (use that in simp)
  have one: "only_calls w CallGetState (Suc 0) (w\<lparr>calls := calls w @ [CallGetState], tick := Suc (tick w), clock := ?c\<rparr>)"
    by (simp add: only_calls_def)
  show ?case
  proof (cases "a_state ?a")
    case (Inl e)
    then have "plain e" using Suc.prems(1) by (rule plain_answersD(4)[rotated])
    then show ?thesis using Inl one
      by (auto simp: get_state_attempt_def wp_request wp_simps Let_def intro: exI[of _ "Suc 0"])
  next
    case (Inr s)
    have "reported_running w (w\<lparr>calls := calls w @ [CallGetState], tick := Suc (tick w), clock := ?c\<rparr>)"
      if "as_JobState s = ''running''"
      using Inr that by (auto simp: reported_running_def intro: exI[of _ "tick w"])
    then show ?thesis using Inr one wp_mono[OF nxt]
      by (auto simp: get_state_attempt_def wp_request wp_simps Let_def Sleep_def intro: exI[of _ "Suc 0"])
  qed
qed

end
