(* ===== verification/Vm.thy ===== *)
theory Vm
  imports Disk Retry
begin

text \<open>
  The VM and its disks: deployment/vm/vm.go, deployment/vm/manager.go and
  deployment/vm/disk_deployer.go. A VM is its CID; the agent client, the cloud \<open>c\<close> and the
  path \<open>p\<close> of the state file are what its operations use. Shown: deleting a VM, recording a
  new one at once, and that migrating a disk never loses the current one.
\<close>

section \<open>deployment/vm/vm.go\<close>

definition VM_Exists :: "cloud \<Rightarrow> string \<Rightarrow> (world, bool) prog" where
  "VM_Exists c cid = wrapf ''Checking existance of VM %s'' [AStr cid] (HasVM c cid)"

definition VM_WaitUntilReady :: "int \<Rightarrow> int \<Rightarrow> (world, unit) prog" where
  "VM_WaitUntilReady timeout delay = TimeoutRetry timeout delay ping_attempt"

definition VM_Start :: "(world, unit) prog" where
  "VM_Start = wrap ''Starting agent'' (request_unit CallStart)"

definition VM_Stop :: "(world, unit) prog" where
  "VM_Stop = wrap ''Stopping agent'' (request_unit CallStop)"

definition VM_Apply :: "apply_spec \<Rightarrow> (world, unit) prog" where
  "VM_Apply newState = wrap ''Sending apply spec to agent'' (request_unit (CallApply newState))"

definition VM_WaitToBeRunning :: "int \<Rightarrow> int \<Rightarrow> (world, unit) prog" where
  "VM_WaitToBeRunning maxAttempts delay = AttemptRetry maxAttempts delay get_state_attempt"

definition VM_AttachDisk :: "cloud \<Rightarrow> string \<Rightarrow> Disk \<Rightarrow> (world, unit) prog" where
  "VM_AttachDisk c cid disk =
     seq (wrap ''Attaching disk in the cloud'' (AttachDisk c cid (dk_CID disk)))
         (wrap ''Mounting disk'' (request_unit (CallMountDisk (dk_CID disk))))"

definition VM_DetachDisk :: "cloud \<Rightarrow> string \<Rightarrow> Disk \<Rightarrow> (world, unit) prog" where
  "VM_DetachDisk c cid disk = wrap ''Detaching disk in the cloud'' (DetachDisk c cid (dk_CID disk))"

definition VM_Disks :: "(world, Disk list) prog" where
  "VM_Disks = bnd (wrap ''Listing vm disks'' (request_val CallListDisk a_strs)) (\<lambda>disks.
     ret (map (\<lambda>diskCID. NewDisk (zero_disk\<lparr>dr_CID := diskCID\<rparr>)) disks))"

definition VM_UnmountDisk :: "Disk \<Rightarrow> (world, unit) prog" where
  "VM_UnmountDisk disk = request_unit (CallUnmountDisk (dk_CID disk))"

definition VM_MigrateDisk :: "(world, unit) prog" where
  "VM_MigrateDisk = request_unit CallMigrateDisk"

definition VM_RunScript :: "string \<Rightarrow> (world, unit) prog" where
  "VM_RunScript script = request_unit (CallRunScript script)"

definition VM_Delete :: "string \<Rightarrow> cloud \<Rightarrow> string \<Rightarrow> (world, unit) prog" where
  "VM_Delete p c cid =
     bnd (attempt (DeleteVM c cid)) (\<lambda>deleteErr.
     seq (allow_not_found VMNotFoundError ''Deleting vm in the cloud'' deleteErr)
    (seq (wrap ''Deleting vm from vm repo'' (VMRepo_ClearCurrent p))
    (seq (wrap ''Clearing current stemcell from stemcell repo'' (StemcellRepo_ClearCurrent p))
         (lift_sum deleteErr))))"

definition VM_GetState :: "(world, agent_state) prog" where
  "VM_GetState = wrap ''Getting vm state'' (request_val CallGetState a_state)"

section \<open>deployment/vm/manager.go\<close>

definition VmManager_FindCurrent :: "string \<Rightarrow> (world, string option) prog" where
  "VmManager_FindCurrent p = wrap ''Finding currently deployed vm'' (VMRepo_FindCurrent p)"

definition createAndRecordVm ::
  "string \<Rightarrow> cloud \<Rightarrow> string \<Rightarrow> string \<Rightarrow> ResourcePool \<Rightarrow> (string \<times> gomap) list \<Rightarrow> (world, string) prog" where
  "createAndRecordVm p c agentID stemcellCID resourcePool networkInterfaces =
     bnd (wrapf ''Creating vm with stemcell cid %s'' [AStr stemcellCID]
            (CreateVM c agentID stemcellCID (rp_CloudProperties resourcePool) networkInterfaces (rp_Env resourcePool))) (\<lambda>cid.
     seq (wrap ''Updating current vm record'' (VMRepo_UpdateCurrent p cid)) (ret cid))"

definition VmManager_Create :: "string \<Rightarrow> cloud \<Rightarrow> string \<Rightarrow> Manifest \<Rightarrow> (world, string) prog" where
  "VmManager_Create p c stemcellCID deploymentManifest =
     bnd (lift_outcome (JobName deploymentManifest)) (\<lambda>jobName.
     bnd (wrap ''Getting network spec'' (lift_outcome (NetworkInterfaces deploymentManifest jobName))) (\<lambda>networkInterfaces.
     bnd (wrapf ''Getting resource pool for job %s'' [AStr jobName]
            (lift_sum (ResourcePool_of deploymentManifest jobName))) (\<lambda>resourcePool.
     bnd (wrap ''Generating agent ID'' Generate) (\<lambda>agentID.
     bnd (createAndRecordVm p c agentID stemcellCID resourcePool networkInterfaces) (\<lambda>cid.
     bnd (attempt (SetVMMetadata c cid (ArgMetadata (mf_Name deploymentManifest) jobName ''0'' ''bosh-init''))) (\<lambda>r.
     seq (case r of
            Inr _ \<Rightarrow> ret ()
          | Inl e \<Rightarrow> if cloud_error_type e = Some NotImplementedError then ret ()
              else fail (WrapErrorf e ''Setting VM metadata to %s'' [ADump]))
         (ret cid)))))))"

section \<open>deployment/vm/disk\_deployer.go\<close>

definition updateCurrentDiskRecord :: "string \<Rightarrow> Disk \<Rightarrow> (world, unit) prog" where
  "updateCurrentDiskRecord p disk =
     bnd (wrap ''Finding disk record'' (DiskRepo_Find p (dk_CID disk))) (\<lambda>found. case found of
       None \<Rightarrow> fail (GoError ''Failed to find disk record for new disk'')
     | Some savedDiskRecord \<Rightarrow> wrap ''Updating current disk record'' (DiskRepo_UpdateCurrent p (dr_ID savedDiskRecord)))"

definition zero_dk :: Disk where
  "zero_dk = NewDisk zero_disk"

definition createDisk :: "string \<Rightarrow> cloud \<Rightarrow> nat \<Rightarrow> string \<Rightarrow> DiskPool \<Rightarrow> (world, Disk) prog" where
  "createDisk p c stage vm diskPool = Perform_val stage ''Creating disk'' zero_dk (DiskManager_Create p c diskPool vm)"

definition attachDisk :: "cloud \<Rightarrow> nat \<Rightarrow> string \<Rightarrow> Disk \<Rightarrow> (world, unit) prog" where
  "attachDisk c stage vm disk =
     Perform stage (''Attaching disk '' @ dk_CID disk @ '' to VM '' @ vm) (VM_AttachDisk c vm disk)"

definition migrateDisk :: "string \<Rightarrow> cloud \<Rightarrow> nat \<Rightarrow> string \<Rightarrow> Disk \<Rightarrow> DiskPool \<Rightarrow> (world, Disk) prog" where
  "migrateDisk p c stage vm originalDisk diskPool =
     bnd (Perform_val stage ''Creating disk'' zero_dk (DiskManager_Create p c diskPool vm)) (\<lambda>newDisk.
     seq (Perform stage (''Attaching disk '' @ dk_CID newDisk @ '' to VM '' @ vm) (VM_AttachDisk c vm newDisk))
    (seq (Perform stage (''Migrating disk content from '' @ dk_CID originalDisk @ '' to '' @ dk_CID newDisk) VM_MigrateDisk)
    (seq (updateCurrentDiskRecord p newDisk)
    (seq (Perform stage (''Detaching disk '' @ dk_CID originalDisk) (VM_DetachDisk c vm originalDisk))
    (seq (Perform stage (''Deleting disk '' @ dk_CID originalDisk) (Disk_Delete p c originalDisk))
         (ret newDisk))))))"

definition deployExistingDisk :: "string \<Rightarrow> cloud \<Rightarrow> nat \<Rightarrow> string \<Rightarrow> Disk \<Rightarrow> DiskPool \<Rightarrow> (world, Disk list) prog" where
  "deployExistingDisk p c stage vm disk diskPool =
     seq (attachDisk c stage vm disk)
    (if NeedsMigration disk (dp_DiskSize diskPool) (dp_CloudProperties diskPool)
     then bnd (migrateDisk p c stage vm disk diskPool) (\<lambda>newDisk. ret [newDisk])
     else ret [disk])"

definition deployNewDisk :: "string \<Rightarrow> cloud \<Rightarrow> nat \<Rightarrow> string \<Rightarrow> DiskPool \<Rightarrow> (world, Disk list) prog" where
  "deployNewDisk p c stage vm diskPool =
     bnd (createDisk p c stage vm diskPool) (\<lambda>disk.
     seq (attachDisk c stage vm disk)
    (seq (updateCurrentDiskRecord p disk) (ret [disk])))"

text \<open>\<^verbatim>\<open>FindCurrent\<close> never returns two disks, so the error about several current disks is not reached.\<close>

definition DiskDeployer_Deploy :: "string \<Rightarrow> cloud \<Rightarrow> nat \<Rightarrow> string \<Rightarrow> DiskPool \<Rightarrow> (world, Disk list) prog" where
  "DiskDeployer_Deploy p c stage vm diskPool =
     (if dp_DiskSize diskPool = 0 then ret []
      else bnd (wrap ''Finding existing disk'' (DiskManager_FindCurrent p)) (\<lambda>disks.
        bnd (case disks of
               [] \<Rightarrow> deployNewDisk p c stage vm diskPool
             | [disk] \<Rightarrow> deployExistingDisk p c stage vm disk diskPool
             | _ \<Rightarrow> fail (GoError ''Multiple current disks not supported'')) (\<lambda>disks'.
        seq (DiskManager_DeleteUnused p c stage) (ret disks'))))"

definition VM_UpdateDisks :: "string \<Rightarrow> cloud \<Rightarrow> nat \<Rightarrow> string \<Rightarrow> DiskPool \<Rightarrow> (world, Disk list) prog" where
  "VM_UpdateDisks p c stage vm diskPool = wrap ''Deploying disk'' (DiskDeployer_Deploy p c stage vm diskPool)"

section \<open>Deleting a VM\<close>

definition delete_vm_call :: "cloud \<Rightarrow> string \<Rightarrow> call" where
  "delete_vm_call c cid = cpi_call c ''delete_vm'' [ArgStr cid]"

text \<open>
  One CPI call; when the cloud has deleted the VM or does not know it, the current VM and the
  current stemcell are cleared, unless a write to the state file fails, which may leave the
  stemcell, or both, as they were.
\<close>

lemma does_VM_Delete:
  "does p st (VM_Delete p c cid) (\<lambda>r ks st'. ks = [delete_vm_call c cid] \<and>
     ((deleted VMNotFoundError r \<and> st' = st\<lparr>CurrentVMCID := '''', CurrentStemcellID := ''''\<rparr>)
    \<or> (failed r \<and> (st' = st \<or> st' = st\<lparr>CurrentVMCID := ''''\<rparr>))))"
  unfolding VM_Delete_def delete_vm_call_def
proof (rule does_deletion[OF does_cloud(9)], goal_cases)
  case (1 x)
  show ?case
    by (rule does_seq_wrap[OF does_updates(2)], rule does_seq_wrap[OF does_updates(5)], rule does_lift_sum)
      (use 1 in auto)
qed simp

section \<open>Creating a VM\<close>

text \<open>A created VM is recorded as the current one, or the error says that recording it failed.\<close>

lemma does_createAndRecordVm:
  "does p st (createAndRecordVm p c ag stem rp nets) (\<lambda>r ks st'.
     ks = [cpi_call c ''create_vm'' [ArgStr ag, ArgStr stem, ArgProps (rp_CloudProperties rp), ArgNets nets,
             ArgLocality [], ArgProps (rp_Env rp)]] \<and> plain_result r
     \<and> (case r of Ok cid \<Rightarrow> st' = st\<lparr>CurrentVMCID := cid\<rparr> | _ \<Rightarrow> st' = st))"
  unfolding createAndRecordVm_def
  by (rule does_bnd_wrapf[OF does_cloud(4)], clarsimp, rule does_seq_wrap[OF does_updates(1)])
    (auto intro!: does_ret)

section \<open>The disk of a VM\<close>

text \<open>Steps that leave the state file alone and make only calls of a given set.\<close>

definition quiet :: "call set \<Rightarrow> DeploymentState \<Rightarrow> 'a outcome \<Rightarrow> call list \<Rightarrow> DeploymentState \<Rightarrow> bool" where
  "quiet K st r ks st' \<longleftrightarrow> st' = st \<and> plain_result r \<and> set ks \<subseteq> K"

lemma does_Perform_unskipped:
  "does p st m R \<Longrightarrow> (\<And>e ks st'. R (Err e) ks st' \<Longrightarrow> \<not> is_skip e) \<Longrightarrow> does p st (Perform d name m) R"
  by (auto intro!: does_Perform elim!: does_mono returnsE)

lemma does_Perform_val_unskipped:
  "does p st m R \<Longrightarrow> (\<And>e ks st'. R (Err e) ks st' \<Longrightarrow> \<not> is_skip e) \<Longrightarrow> does p st (Perform_val d name z m) R"
  by (auto intro!: does_Perform_val elim!: does_mono returnsE)

lemma does_VM_AttachDisk:
  "does p st (VM_AttachDisk c vm d)
     (quiet {cpi_call c ''attach_disk'' [ArgStr vm, ArgStr (dk_CID d)], CallMountDisk (dk_CID d)} st)"
  unfolding VM_AttachDisk_def wrap_def
  by (rule does_seq_wrapf[OF does_cloud(7)], clarsimp, rule does_wrap_last[OF does_request_unit])
    (auto simp: quiet_def)

lemma does_attachDisk:
  "does p st (attachDisk c d vm disk)
     (quiet {cpi_call c ''attach_disk'' [ArgStr vm, ArgStr (dk_CID disk)], CallMountDisk (dk_CID disk)} st)"
  unfolding attachDisk_def
  by (rule does_Perform_unskipped[OF does_VM_AttachDisk]) (simp add: quiet_def plainD)

lemma does_DiskManager_Create:
  assumes "int64 (dp_DiskSize pool)"
  shows "does p st (DiskManager_Create p c pool vm) (\<lambda>r ks st'.
    ks = [cpi_call c ''create_disk'' [ArgInt (dp_DiskSize pool), ArgProps (dp_CloudProperties pool), ArgStr vm]] \<and> plain_result r \<and>
    (case r of Ok d \<Rightarrow> \<exists>x. d = NewDisk x \<and> dr_Size x = dp_DiskSize pool \<and> dr_CloudProperties x = dp_CloudProperties pool
        \<and> dr_CID x \<notin> dr_CID ` set (Disks st) \<and> st' = st\<lparr>Disks := Disks st @ [reload_disk x]\<rparr>
     | _ \<Rightarrow> st' = st))"
  unfolding DiskManager_Create_def
  by (rule does_bnd_wrapf[OF does_cloud(6)], clarsimp, rule does_bnd_wrap[OF does_DiskRepo_Save[OF assms]])
    (auto intro!: does_ret)

lemma does_updateCurrentDiskRecord:
  "does p st (updateCurrentDiskRecord p d) (\<lambda>r ks st'. ks = [] \<and>
     ((r = Ok () \<and> (\<exists>x. find (\<lambda>r. dr_CID r = dk_CID d) (Disks st) = Some x \<and> st' = st\<lparr>CurrentDiskID := dr_ID x\<rparr>))
      \<or> (failed r \<and> st' = st)))"
  unfolding updateCurrentDiskRecord_def wrap_def
  by (rule does_bnd_wrapf[OF does_finds(3)], clarsimp, rule does_option, rule does_fail, simp,
      rule does_wrap_last[OF does_DiskRepo_UpdateCurrent]) auto

text \<open>
  Migration: \<open>kept\<close> says that the old disk is still the current one and was not deleted,
  \<open>switched\<close> that the current disk is the new one, and that its contents were migrated before
  any deletion of the old one.
\<close>

definition disk_kept :: "call \<Rightarrow> DeploymentState \<Rightarrow> call list \<Rightarrow> DeploymentState \<Rightarrow> bool" where
  "disk_kept del st ks st' \<longleftrightarrow> CurrentDiskID st' = CurrentDiskID st \<and> set (Disks st) \<subseteq> set (Disks st') \<and> del \<notin> set ks"

definition disk_switched :: "call \<Rightarrow> string \<Rightarrow> call list \<Rightarrow> DeploymentState \<Rightarrow> bool" where
  "disk_switched del cid ks st' \<longleftrightarrow> (\<exists>r \<in> set (Disks st'). dr_ID r = CurrentDiskID st' \<and> dr_CID r = cid)
     \<and> (\<exists>ks1 ks2. ks = ks1 @ CallMigrateDisk # ks2 \<and> del \<notin> set ks1)"

lemma find_append_new: "dr_CID x \<notin> dr_CID ` set ds \<Longrightarrow> find (\<lambda>r. dr_CID r = dr_CID x) (ds @ [reload_disk x]) = Some (reload_disk x)"
  by (induction ds) auto

lemma Disks_without: "Disks (without_disk cid st) = filter (\<lambda>r. dr_CID r \<noteq> cid) (Disks st)" if wf: "wf_state st"
proof (cases "find (\<lambda>r. dr_CID r = cid) (Disks st)")
  case None
  then have "\<forall>x \<in> set (Disks st). dr_CID x \<noteq> cid" by (auto simp: find_None_iff)
  then show ?thesis using None by (simp add: without_disk_def)
next
  case (Some r)
  then have r: "r \<in> set (Disks st)" "dr_CID r = cid" by (auto dest: find_SomeD)
  have "dr_ID x \<noteq> dr_ID r \<longleftrightarrow> dr_CID x \<noteq> cid" if "x \<in> set (Disks st)" for x
    using wf that r by (auto simp: wf_state_def wf_disks_def distinct_map inj_on_def)
  then show ?thesis using Some by (simp add: without_disk_def Disks_remove cong: filter_cong)
qed

lemma does_migrate_rest:
  assumes new: "r1 \<in> set (Disks st)" "dr_ID r1 = CurrentDiskID st" "dr_CID r1 = dk_CID new" "dk_CID new \<noteq> dk_CID orig"
  shows "does p st (seq (Perform stage n1 (VM_DetachDisk c vm orig))
      (seq (Perform stage n2 (Disk_Delete p c orig)) (ret new)))
    (\<lambda>r ks st'. r1 \<in> set (Disks st') \<and> CurrentDiskID st' = CurrentDiskID st \<and>
      (\<forall>x. r = Ok x \<longrightarrow> x = new \<and> delete_disk_call c (dk_CID orig) \<in> set ks \<and> dk_CID orig \<notin> dr_CID ` set (Disks st')))"
proof (rule does_seq)
  show "does p st (Perform stage n1 (VM_DetachDisk c vm orig))
      (quiet {cpi_call c ''detach_disk'' [ArgStr vm, ArgStr (dk_CID orig)]} st)"
    unfolding VM_DetachDisk_def wrap_def
    by (rule does_Perform_unskipped, rule does_wrap_last[OF does_cloud(8)]) (auto simp: quiet_def plainD)
next
  fix u ks st' assume "quiet {cpi_call c ''detach_disk'' [ArgStr vm, ArgStr (dk_CID orig)]} st (Ok u) ks st'"
  then have s: "st' = st" by (simp add: quiet_def)
  have D: "does p st (Perform stage n2 (Disk_Delete p c orig)) (\<lambda>r ks st'. ks = [delete_disk_call c (dk_CID orig)] \<and>
      ((deleted DiskNotFoundError r \<and> st' = without_disk (dk_CID orig) st) \<or> (failed r \<and> st' = st)))"
    by (rule does_Perform_unskipped[OF does_Disk_Delete]) (auto simp: plainD)
  have cur: "CurrentDiskID (without_disk (dk_CID orig) st) = CurrentDiskID st" if wf: "wf_state st"
  proof (cases "find (\<lambda>r. dr_CID r = dk_CID orig) (Disks st)")
    case (Some r)
    then have r: "r \<in> set (Disks st)" "dr_CID r = dk_CID orig" by (auto dest: find_SomeD)
    then have "dr_ID r \<noteq> CurrentDiskID st" using new wf_disk_ids[OF wf, of r r1] by auto
    then show ?thesis using Some by (simp add: without_disk_def DiskRepo_remove_def Let_def)
  qed (simp add: without_disk_def)
  show "does p st' (seq (Perform stage n2 (Disk_Delete p c orig)) (ret new))
      (\<lambda>r ks'. (\<lambda>ks st'. r1 \<in> set (Disks st') \<and> CurrentDiskID st' = CurrentDiskID st \<and>
        (\<forall>x. r = Ok x \<longrightarrow> x = new \<and> delete_disk_call c (dk_CID orig) \<in> set ks \<and> dk_CID orig \<notin> dr_CID ` set (Disks st'))) (ks @ ks'))"
    unfolding s
    by (rule does_wf, rule does_seq[OF D])
      (use new in \<open>auto intro!: does_ret simp: cur Disks_without\<close>)
qed (use new in \<open>simp add: quiet_def\<close>)

lemma does_migrateDisk:
  fixes c :: cloud
  assumes sz: "int64 (dp_DiskSize pool)" and r0: "r0 \<in> set (Disks st)" "dr_CID r0 = dk_CID orig"
  defines "del \<equiv> delete_disk_call c (dk_CID orig)"
  shows "does p st (migrateDisk p c stage vm orig pool) (\<lambda>r ks st'. case r of
      Ok new \<Rightarrow> disk_switched del (dk_CID new) ks st' \<and> del \<in> set ks \<and> dk_CID orig \<notin> dr_CID ` set (Disks st')
    | Err e \<Rightarrow> disk_kept del st ks st' \<or> (\<exists>cid. disk_switched del cid ks st') | _ \<Rightarrow> False)"
    (is "does p st _ ?Q")
  unfolding migrateDisk_def
proof (rule does_bnd, rule does_Perform_val_unskipped[OF does_DiskManager_Create[OF sz]], goal_cases)
  case (1 e ks st')
  then show ?case by (simp add: plainD)
next
  case (2 new ks st1)
  then obtain x where x: "new = NewDisk x" "dr_CID x \<notin> dr_CID ` set (Disks st)" "st1 = st\<lparr>Disks := Disks st @ [reload_disk x]\<rparr>"
      and ks: "del \<notin> set ks" by (auto simp: del_def delete_disk_call_def cpi_call_def)
  have kept: "disk_kept del st ks' st1" if "del \<notin> set ks'" for ks'
    using that x(3) by (auto simp: disk_kept_def)
  have cid: "dk_CID new = dr_CID x" by (simp add: x(1) NewDisk_def)
  have found: "find (\<lambda>r. dr_CID r = dk_CID new) (Disks st1) = Some (reload_disk x)"
    using find_append_new[OF x(2)] by (simp add: cid x(3))
  have ne: "dk_CID new \<noteq> dk_CID orig" using x(2) r0 cid by (metis image_eqI)
  show ?case
  proof (rule does_seq, rule does_Perform_unskipped[OF does_VM_AttachDisk], goal_cases)
    case (1 e ks st')
    then show ?case by (simp add: quiet_def plainD)
  next
    case (2 u ks2 st2)
    then have s2: "st2 = st1" "del \<notin> set (ks @ ks2)"
      using ks by (auto simp: quiet_def del_def delete_disk_call_def cpi_call_def)
    show ?case unfolding s2(1)
    proof (rule does_seq, rule does_Perform_unskipped[OF does_request_unit[of p st1 CallMigrateDisk, folded VM_MigrateDisk_def]], goal_cases)
      case (1 e ks st')
      then show ?case by (simp add: plainD)
    next
      case (2 u ks3 st3)
      then have s3: "st3 = st1" "ks3 = [CallMigrateDisk]" by auto
      show ?case unfolding s3(1)
      proof (rule does_seq[OF does_updateCurrentDiskRecord], goal_cases)
        case (1 u ks4 st4)
        then have s4: "ks4 = []" "st4 = st1\<lparr>CurrentDiskID := dr_ID (reload_disk x)\<rparr>" using found by auto
        have T: "\<exists>ks1 ks2'. ks @ ks2 @ CallMigrateDisk # ksa = ks1 @ CallMigrateDisk # ks2' \<and> del \<notin> set ks1" for ksa
          by (rule exI[of _ "ks @ ks2"]) (use s2(2) in auto)
        have W: "disk_switched del (dr_CID x) (ks @ ks2 @ CallMigrateDisk # ksa) st'"
          if "reload_disk x \<in> set (Disks st')" "CurrentDiskID st' = dr_ID x" for ksa st'
          unfolding disk_switched_def by (rule conjI[OF bexI[of _ "reload_disk x"] T]) (use that in simp_all)
        show ?case unfolding s3(2) s4
          by (rule does_mono[OF does_migrate_rest[where ?r1.0 = "reload_disk x"]])
            (use x(3) cid ne in \<open>auto simp: del_def[symmetric] intro!: W
              intro: W[THEN exI[of "\<lambda>i. disk_switched del i k s" for k s]] elim!: returnsE\<close>)
      next
        case (2 e ks4 st4)
        then show ?case using s3 s2 kept by (auto simp: disk_kept_def del_def delete_disk_call_def cpi_call_def)
      qed
    next
      case (3 e ks3 st3)
      then show ?case using s2 kept[of "ks @ ks2 @ ks3"] by (auto simp: del_def delete_disk_call_def cpi_call_def)
    qed
  next
    case (3 e ks2 st2)
    then show ?case using ks kept[of "ks @ ks2"] by (auto simp: quiet_def del_def delete_disk_call_def cpi_call_def)
  qed
next
  case (3 e ks st')
  then show ?case by (auto simp: disk_kept_def del_def delete_disk_call_def cpi_call_def)
qed

end
