(* ===== verification/Release.thy ===== *)
theory Release
  imports Manifest Compile
begin

text \<open>
  Releases: release/release.go, release/manager.go, release/validator.go,
  release/reader.go, release/job/reader.go, release/pkg/package_repo.go,
  release/extractor.go, release/set/manifest/*.go and
  deployment/release/job_resolver.go. Packages are created on the heap of the package
  graph. The YAML parser is a parameter. Shown: what the validators accept. The
  release fetcher and the tarball provider are in \<^verbatim>\<open>Tarball\<close>.
\<close>

section \<open>release/release.go, release/manager.go, job\_resolver.go\<close>

record Release =
  rl_Name :: string
  rl_Version :: string
  rl_Jobs :: "Job list"
  rl_Packages :: "nat list"
  rl_ExtractedPath :: string
  rl_isCompiled :: bool

definition Release_FindJobByName :: "Release \<Rightarrow> string \<Rightarrow> Job option" where
  "Release_FindJobByName r jobName = find (\<lambda>j. jb_Name j = jobName) (rl_Jobs r)"

definition Release_Delete :: "Release \<Rightarrow> (world, unit) prog" where
  "Release_Delete r = RemoveAll (rl_ExtractedPath r)"

text \<open>The manager's state is the list of its releases.\<close>

definition ReleaseManager_Add :: "Release list \<Rightarrow> Release \<Rightarrow> Release list" where
  "ReleaseManager_Add releases r = releases @ [r]"

definition ReleaseManager_Find :: "Release list \<Rightarrow> string \<Rightarrow> Release option" where
  "ReleaseManager_Find releases name = find (\<lambda>r. rl_Name r = name) releases"

definition ReleaseManager_DeleteAll :: "Release list \<Rightarrow> (world, Release list) prog" where
  "ReleaseManager_DeleteAll releases =
     seq (for_each (\<lambda>r. bnd (attempt (Release_Delete r)) (\<lambda>x. case x of
            Inr _ \<Rightarrow> ret ()
          | Inl e \<Rightarrow> fail (Errorf ''Failed to delete extracted release %s: %s'' [AStr (rl_Name r), AErr e]))) releases)
         (ret [])"

definition JobResolver_Resolve :: "Release list \<Rightarrow> string \<Rightarrow> string \<Rightarrow> goerr + Job" where
  "JobResolver_Resolve releases jobName releaseName = (case ReleaseManager_Find releases releaseName of
      None \<Rightarrow> Inl (Errorf ''Finding release %s'' [AStr releaseName])
    | Some r \<Rightarrow> (case Release_FindJobByName r jobName of
          None \<Rightarrow> Inl (Errorf ''Finding job %s in release %s'' [AStr jobName, AStr releaseName])
        | Some j \<Rightarrow> Inr j))"

section \<open>release/set/manifest\<close>

record ReleaseRef =
  ref_Name :: string
  ref_Source :: SourceRef

definition ReleaseSet_FindByName :: "ReleaseRef list \<Rightarrow> string \<Rightarrow> ReleaseRef option" where
  "ReleaseSet_FindByName releases name = find (\<lambda>r. ref_Name r = name) releases"

definition ReleasesByName :: "ReleaseRef list \<Rightarrow> string \<Rightarrow> ReleaseRef option" where
  "ReleasesByName releases = map_of (rev (map (\<lambda>r. (ref_Name r, r)) releases))"

text \<open>\<^verbatim>\<open>^(file|http|https)://\<close>\<close>

definition url_matches :: "string \<Rightarrow> bool" where
  "url_matches url \<longleftrightarrow> HasPrefix url ''file://'' \<or> HasPrefix url ''http://'' \<or> HasPrefix url ''https://''"

definition err_if :: "bool \<Rightarrow> string \<Rightarrow> fmt_arg list \<Rightarrow> goerr list" where
  "err_if b msg args = (if b then [Errorf msg args] else [])"

definition multi_error :: "goerr list \<Rightarrow> goerr + unit" where
  "multi_error errs = (if errs \<noteq> [] then Inl (MultiError errs) else Inr ())"

fun release_errors :: "nat \<Rightarrow> string list \<Rightarrow> ReleaseRef list \<Rightarrow> goerr list" where
  "release_errors i seen [] = []"
| "release_errors i seen (r # rs) =
     err_if (isBlank (ref_Name r)) ''releases[%d].name must be provided'' [AInt (int i)]
   @ err_if (ref_Name r \<in> set seen) ''releases[%d].name %s must be unique'' [AInt (int i), AStr (ref_Name r)]
   @ err_if (isBlank (src_URL (ref_Source r))) ''releases[%d].url must be provided'' [AInt (int i)]
   @ err_if (\<not> url_matches (src_URL (ref_Source r)))
       ''releases[%d].url must be a valid URL (file:// or http(s)://)'' [AInt (int i)]
   @ err_if (HasPrefix (src_URL (ref_Source r)) ''http'' \<and> isBlank (src_SHA1 (ref_Source r)))
       ''releases[%d].sha1 must be provided for http URL'' [AInt (int i)]
   @ release_errors (Suc i) (ref_Name r # seen) rs"

definition ReleaseSet_Validate :: "ReleaseRef list \<Rightarrow> goerr + unit" where
  "ReleaseSet_Validate releases =
     multi_error (err_if (length releases < 1) ''releases must contain at least 1 release'' []
                  @ release_errors 0 [] releases)"

definition ReleaseSet_Parse :: "(content \<Rightarrow> goerr + ReleaseRef list) \<Rightarrow> string \<Rightarrow> (world, ReleaseRef list) prog" where
  "ReleaseSet_Parse unmarshal path =
     bnd (wrapf ''Reading file %s'' [AStr path] (ReadFile path)) (\<lambda>contents.
     bnd (wrap ''Unmarshalling release set manifest'' (lift_sum (unmarshal contents))) (\<lambda>refs.
     bnd (map_prog (\<lambda>r. bnd (wrapf ''Resolving release path %s'' [AStr (src_URL (ref_Source r))]
              (AbsolutifyPath path (src_URL (ref_Source r)))) (\<lambda>url.
            ret (r\<lparr>ref_Source := (ref_Source r)\<lparr>src_URL := url\<rparr>\<rparr>))) refs) (\<lambda>releases.
     seq (wrap ''Validating release set manifest'' (lift_sum (ReleaseSet_Validate releases)))
         (ret releases))))"

text \<open>What a valid release set is.\<close>

definition release_ok :: "ReleaseRef \<Rightarrow> bool" where
  "release_ok r \<longleftrightarrow> \<not> isBlank (ref_Name r) \<and> url_matches (src_URL (ref_Source r)) \<and>
     (HasPrefix (src_URL (ref_Source r)) ''http'' \<longrightarrow> \<not> isBlank (src_SHA1 (ref_Source r)))"

lemma err_if_Nil [simp]: "err_if b m a = [] \<longleftrightarrow> \<not> b"
  by (simp add: err_if_def)

lemma multi_error_ok [simp]: "multi_error errs = Inr u \<longleftrightarrow> errs = []"
  by (simp add: multi_error_def)

lemma url_matches_not_blank: "url_matches u \<Longrightarrow> \<not> isBlank u"
proof -
  have "HasPrefix u (c # p) \<Longrightarrow> \<not> is_space c \<Longrightarrow> \<not> isBlank u" for c p
    by (auto simp: isBlank_iff HasPrefix_iff)
  moreover have "\<not> is_space CHR ''f''" "\<not> is_space CHR ''h''" by code_simp+
  ultimately show "url_matches u \<Longrightarrow> \<not> isBlank u" unfolding url_matches_def by blast
qed

lemma release_errors_Nil: "release_errors i seen rs = [] \<longleftrightarrow>
    (\<forall>r \<in> set rs. release_ok r) \<and> distinct (map ref_Name rs) \<and> set (map ref_Name rs) \<inter> set seen = {}"
  by (induction rs arbitrary: i seen) (auto simp: release_ok_def dest: url_matches_not_blank)

lemma ReleaseSet_Validate_iff: "ReleaseSet_Validate rs = Inr () \<longleftrightarrow>
    rs \<noteq> [] \<and> (\<forall>r \<in> set rs. release_ok r) \<and> distinct (map ref_Name rs)"
  by (cases rs) (auto simp: ReleaseSet_Validate_def release_errors_Nil[of 0 "[]"] simp del: release_errors.simps)

section \<open>release/validator.go\<close>

text \<open>
  The checks read the file system (\<^verbatim>\<open>FileExists\<close>) of the moment; the templates of a
  job are listed in one of the orders of Go's map iteration.
\<close>

definition job_errors :: "(string \<Rightarrow> bool) \<Rightarrow> string list \<Rightarrow> Job \<Rightarrow> goerr list" where
  "job_errors exists pkgNames j =
     err_if (jb_Name j = '''') ''Job name is missing'' []
   @ err_if (jb_Fingerprint j = '''') ''Job %s fingerprint is missing'' [AStr (jb_Name j)]
   @ err_if (jb_SHA1 j = '''') ''Job %s sha1 is missing'' [AStr (jb_Name j)]
   @ err_if (\<not> exists (JoinPath [jb_ExtractedPath j, ''monit''])) ''Job %s is missing monit file'' [AStr (jb_Name j)]
   @ concat (map (\<lambda>(template, target).
       let templatePath = JoinPath [jb_ExtractedPath j, ''templates'', template] in
       err_if (\<not> exists templatePath) ''Job %s is missing template %s'' [AStr (jb_Name j), AStr templatePath]) (jb_Templates j))
   @ concat (map (\<lambda>pkgName. err_if (pkgName \<notin> set pkgNames)
       ''Job %s requires %s which is not in the release'' [AStr (jb_Name j), AStr pkgName]) (jb_PackageNames j))"

definition package_errors :: "bool \<Rightarrow> Package \<Rightarrow> goerr list" where
  "package_errors isCompiled p =
     err_if (pk_Name p = '''') ''Package name is missing'' []
   @ err_if (pk_Fingerprint p = '''') ''Package %s fingerprint is missing'' [AStr (pk_Name p)]
   @ err_if (pk_SHA1 p = '''') ''Package %s sha1 is missing'' [AStr (pk_Name p)]
   @ err_if (isCompiled \<and> pk_Stemcell p = '''') ''Compiled package %s stemcell is missing'' [AStr (pk_Name p)]"

definition stemcell_errors :: "bool \<Rightarrow> Package list \<Rightarrow> goerr list" where
  "stemcell_errors isCompiled ps =
     (let stemcells = remdups (filter (\<lambda>s. s \<noteq> '''') (map pk_Stemcell ps))
      in err_if (isCompiled \<and> length stemcells > 1)
           ''Packages were compiled against different stemcells: %v'' (map AStr (sort_strings stemcells)))"

definition wrap_errors :: "string \<Rightarrow> goerr list \<Rightarrow> goerr list" where
  "wrap_errors msg errs = (if errs = [] then [] else [WrapError (MultiError errs) msg])"

definition Release_Validate :: "heap \<Rightarrow> Release \<Rightarrow> (world, unit) prog" where
  "Release_Validate h r = bnd (gets (\<lambda>w p. files w p \<noteq> None)) (\<lambda>exists.
     let ps = map (\<lambda>a. h ! a) (rl_Packages r) in
     lift_sum (multi_error
       ((if rl_Name r = '''' then [WrapError (GoError ''Release name is missing'') ''Validating release name''] else [])
      @ (if rl_Version r = '''' then [WrapError (GoError ''Release version is missing'') ''Validating release version''] else [])
      @ wrap_errors ''Validating release jobs'' (concat (map (job_errors exists (map pk_Name ps)) (rl_Jobs r)))
      @ wrap_errors ''Validating release packages''
          (concat (map (package_errors (rl_isCompiled r)) ps) @ stemcell_errors (rl_isCompiled r) ps))))"

text \<open>What a valid release is: it does not look at the dependencies of its packages.\<close>

definition job_ok :: "(string \<Rightarrow> bool) \<Rightarrow> string set \<Rightarrow> Job \<Rightarrow> bool" where
  "job_ok exists pkgs j \<longleftrightarrow> jb_Name j \<noteq> '''' \<and> jb_Fingerprint j \<noteq> '''' \<and> jb_SHA1 j \<noteq> ''''
     \<and> exists (JoinPath [jb_ExtractedPath j, ''monit''])
     \<and> (\<forall>t \<in> fst ` set (jb_Templates j). exists (JoinPath [jb_ExtractedPath j, ''templates'', t]))
     \<and> set (jb_PackageNames j) \<subseteq> pkgs"

definition package_ok :: "bool \<Rightarrow> Package \<Rightarrow> bool" where
  "package_ok isCompiled p \<longleftrightarrow> pk_Name p \<noteq> '''' \<and> pk_Fingerprint p \<noteq> '''' \<and> pk_SHA1 p \<noteq> ''''
     \<and> (isCompiled \<longrightarrow> pk_Stemcell p \<noteq> '''')"

definition release_valid :: "(string \<Rightarrow> bool) \<Rightarrow> heap \<Rightarrow> Release \<Rightarrow> bool" where
  "release_valid exists h r \<longleftrightarrow> rl_Name r \<noteq> '''' \<and> rl_Version r \<noteq> ''''
     \<and> (\<forall>j \<in> set (rl_Jobs r). job_ok exists ((\<lambda>a. pk_Name (h ! a)) ` set (rl_Packages r)) j)
     \<and> (\<forall>a \<in> set (rl_Packages r). package_ok (rl_isCompiled r) (h ! a))
     \<and> (rl_isCompiled r \<longrightarrow> (\<forall>a \<in> set (rl_Packages r). \<forall>b \<in> set (rl_Packages r).
          pk_Stemcell (h ! a) = pk_Stemcell (h ! b)))"

lemma job_errors_Nil: "job_errors exists pkgs j = [] \<longleftrightarrow> job_ok exists (set pkgs) j"
  by (auto simp: job_errors_def job_ok_def Let_def concat_eq_Nil_conv split: prod.splits)

lemma package_errors_Nil: "package_errors c p = [] \<longleftrightarrow> package_ok c p"
  by (auto simp: package_errors_def package_ok_def)

lemma one_value: "length (remdups xs) \<le> 1 \<longleftrightarrow> (\<forall>x \<in> set xs. \<forall>y \<in> set xs. x = y)"
proof -
  have "length (remdups xs) = card (set xs)" by (simp add: length_remdups_card_conv)
  then show ?thesis using card_le_Suc0_iff_eq[of "set xs"] by auto
qed

lemma Release_Validate_iff: "Release_Validate h r w = (Ok (), w) \<longleftrightarrow> release_valid (\<lambda>p. files w p \<noteq> None) h r"
proof -
  let ?ps = "map (\<lambda>a. h ! a) (rl_Packages r)" and ?ex = "\<lambda>p. files w p \<noteq> None"
  have pk: "concat (map (package_errors c) ?ps) = [] \<longleftrightarrow> (\<forall>a \<in> set (rl_Packages r). package_ok c (h ! a))" for c
    by (auto simp: concat_eq_Nil_conv package_errors_Nil)
  have st: "stemcell_errors c ?ps = [] \<longleftrightarrow> (c \<longrightarrow> (\<forall>a \<in> set (rl_Packages r). \<forall>b \<in> set (rl_Packages r).
      pk_Stemcell (h ! a) \<noteq> '''' \<longrightarrow> pk_Stemcell (h ! b) \<noteq> '''' \<longrightarrow> pk_Stemcell (h ! a) = pk_Stemcell (h ! b)))" for c
    unfolding stemcell_errors_def Let_def err_if_Nil
    using one_value[of "filter (\<lambda>s. s \<noteq> '''') (map pk_Stemcell ?ps)"] by (auto simp: not_less[symmetric])
  have jb: "concat (map (job_errors ?ex (map pk_Name ?ps)) (rl_Jobs r)) = [] \<longleftrightarrow>
      (\<forall>j \<in> set (rl_Jobs r). job_ok ?ex ((\<lambda>a. pk_Name (h ! a)) ` set (rl_Packages r)) j)"
    by (auto simp: concat_eq_Nil_conv job_errors_Nil image_image)
  have lift: "lift_sum (multi_error es) w = (Ok (), w) \<longleftrightarrow> es = []" for es
    by (simp add: lift_sum_def multi_error_def fail_def ret_def)
  have wr: "wrap_errors m es = [] \<longleftrightarrow> es = []" for m es by (simp add: wrap_errors_def)
  have ok: "(if b then [e] else []) = [] \<longleftrightarrow> \<not> b" for b and e :: goerr by simp
  have sc: "package_ok c p \<Longrightarrow> c \<Longrightarrow> pk_Stemcell p \<noteq> ''''" for c p by (simp add: package_ok_def)
  show ?thesis
    unfolding Release_Validate_def Let_def bnd_def gets_def prod.case outcome.case lift release_valid_def
      append_is_Nil_conv wr ok jb pk st
    using sc by blast
qed

section \<open>release/pkg/package\_repo.go, release/job/reader.go, release/reader.go\<close>

record PackageRef =
  mp_Name :: string
  mp_Fingerprint :: string
  mp_SHA1 :: string
  mp_Stemcell :: string
  mp_Dependencies :: "string list"

record JobRef =
  jr_Name :: string
  jr_Fingerprint :: string
  jr_SHA1 :: string

record ReleaseManifest =
  rm_Name :: string
  rm_Version :: string
  rm_Jobs :: "JobRef list"
  rm_Packages :: "PackageRef list"
  rm_CompiledPackages :: "PackageRef list"

record JobManifest =
  jm_Name :: string
  jm_Templates :: "(string \<times> string) list"
  jm_Packages :: "string list"
  jm_Properties :: "(string \<times> (string \<times> yaml)) list"

type_synonym package_repo = "(string \<times> nat) list"

definition new_package :: "string \<Rightarrow> Package" where
  "new_package name = \<lparr>pk_Name = name, pk_Fingerprint = '''', pk_SHA1 = '''', pk_Stemcell = '''',
     pk_Dependencies = [], pk_ExtractedPath = '''', pk_ArchivePath = ''''\<rparr>"

definition FindOrCreatePackage :: "package_repo \<Rightarrow> heap \<Rightarrow> string \<Rightarrow> nat \<times> package_repo \<times> heap" where
  "FindOrCreatePackage repo h name = (case map_of repo name of
      Some a \<Rightarrow> (a, repo, h)
    | None \<Rightarrow> (length h, (name, length h) # repo, h @ [new_package name]))"

primrec find_or_create_all :: "package_repo \<Rightarrow> heap \<Rightarrow> string list \<Rightarrow> nat list \<times> package_repo \<times> heap" where
  "find_or_create_all repo h [] = ([], repo, h)"
| "find_or_create_all repo h (n # ns) =
     (let (a, repo1, h1) = FindOrCreatePackage repo h n;
          (as, repo2, h2) = find_or_create_all repo1 h1 ns
      in (a # as, repo2, h2))"

definition JobReader_Read :: "(content \<Rightarrow> goerr + JobManifest) \<Rightarrow> string \<Rightarrow> string \<Rightarrow> (world, Job) prog" where
  "JobReader_Read unmarshal archivePath extractedJobPath =
     seq (wrapf ''Extracting job archive %s'' [AStr archivePath] (DecompressFileToDir archivePath extractedJobPath))
    (bnd (wrapf ''Reading job manifest %s'' [AStr (JoinPath [extractedJobPath, ''job.MF''])]
            (ReadFile (JoinPath [extractedJobPath, ''job.MF'']))) (\<lambda>bytes.
     bnd (wrap ''Parsing job manifest'' (lift_sum (unmarshal bytes))) (\<lambda>m.
     bnd (map_prog (\<lambda>(n, (desc, dflt)).
            bnd (wrapf ''Parsing job %s property %s default: %#v'' [AStr (jm_Name m), AStr n, ADump]
                   (lift_sum (Build dflt))) (\<lambda>v. ret (n, \<lparr>pd_Description = desc, pd_Default = v\<rparr>))) (jm_Properties m)) (\<lambda>props.
     ret \<lparr>jb_Name = jm_Name m, jb_Fingerprint = '''', jb_SHA1 = '''', jb_ExtractedPath = extractedJobPath,
          jb_Templates = jm_Templates m, jb_PackageNames = jm_Packages m, jb_Packages = [], jb_Properties = props\<rparr>))))"

text \<open>The packages: repository, heap, packages read and errors so far.\<close>

type_synonym pkg_state = "package_repo \<times> heap \<times> nat list \<times> goerr list"

definition set_package :: "bool \<Rightarrow> PackageRef \<Rightarrow> string \<Rightarrow> string \<Rightarrow> Package \<Rightarrow> Package" where
  "set_package isCompiled m extracted archive p =
     p\<lparr>pk_Fingerprint := mp_Fingerprint m, pk_SHA1 := mp_SHA1 m, pk_ExtractedPath := extracted,
       pk_ArchivePath := archive, pk_Stemcell := (if isCompiled then mp_Stemcell m else pk_Stemcell p),
       pk_Dependencies := []\<rparr>"

definition add_package :: "bool \<Rightarrow> PackageRef \<Rightarrow> string \<Rightarrow> string \<Rightarrow> nat \<Rightarrow> pkg_state \<Rightarrow> pkg_state" where
  "add_package isCompiled m extracted archive a s = (case s of (repo, h, pkgs, errs) \<Rightarrow>
     let h1 = h[a := set_package isCompiled m extracted archive (h ! a)];
         (ds, repo2, h2) = find_or_create_all repo h1 (mp_Dependencies m)
     in (repo2, h2[a := (h2 ! a)\<lparr>pk_Dependencies := ds\<rparr>], pkgs @ [a], errs))"

definition read_package :: "string \<Rightarrow> bool \<Rightarrow> PackageRef \<Rightarrow> pkg_state \<Rightarrow> (world, pkg_state) prog" where
  "read_package dir isCompiled m s = (case s of (repo, h, pkgs, errs) \<Rightarrow>
     let (a, repo1, h1) = FindOrCreatePackage repo h (mp_Name m);
         extracted = JoinPath [dir, ''extracted_packages'', mp_Name m];
         archive = JoinPath [dir, if isCompiled then ''compiled_packages'' else ''packages'', mp_Name m @ ''.tgz''] in
     bnd (attempt (MkdirAll extracted)) (\<lambda>r. case r of
       Inl e \<Rightarrow> ret (repo1, h1, pkgs, errs @ [WrapError e ''Creating extracted package path''])
     | Inr _ \<Rightarrow> bnd (attempt (DecompressFileToDir archive extracted)) (\<lambda>r2. case r2 of
         Inl e \<Rightarrow> ret (repo1, h1, pkgs, errs @ [WrapErrorf e ''Extracting package %s'' [AStr (mp_Name m)]])
       | Inr _ \<Rightarrow> ret (add_package isCompiled m extracted archive a (repo1, h1, pkgs, errs)))))"

primrec read_packages :: "string \<Rightarrow> bool \<Rightarrow> PackageRef list \<Rightarrow> pkg_state \<Rightarrow> (world, pkg_state) prog" where
  "read_packages dir isCompiled [] s = ret s"
| "read_packages dir isCompiled (m # ms) s =
     bnd (read_package dir isCompiled m s) (read_packages dir isCompiled ms)"

text \<open>The heap, and the packages with the compiled flag or an error.\<close>

definition newPackagesFromManifestPackages ::
  "string \<Rightarrow> heap \<Rightarrow> ReleaseManifest \<Rightarrow> (world, heap \<times> (goerr option \<times> nat list \<times> bool)) prog" where
  "newPackagesFromManifestPackages dir h rm =
     (if rm_Packages rm \<noteq> [] \<and> rm_CompiledPackages rm \<noteq> []
      then ret (h, (Some (Errorf ''Release %s contains compiled and non-compiled pacakges'' [AStr (rm_Name rm)]), [], False))
      else let isCompiled = (rm_CompiledPackages rm \<noteq> []) in
        bnd (read_packages dir isCompiled (if isCompiled then rm_CompiledPackages rm else rm_Packages rm) ([], h, [], []))
          (\<lambda>(repo, h', pkgs, errs).
           ret (h', if errs \<noteq> [] then (Some (MultiError errs), [], isCompiled) else (None, pkgs, isCompiled))))"

definition findPackageByName :: "heap \<Rightarrow> nat list \<Rightarrow> string \<Rightarrow> nat option" where
  "findPackageByName h packages pkgName = find (\<lambda>a. pk_Name (h ! a) = pkgName) packages"

primrec job_packages :: "heap \<Rightarrow> nat list \<Rightarrow> string list \<Rightarrow> goerr + nat list" where
  "job_packages h packages [] = Inr []"
| "job_packages h packages (n # ns) = (case findPackageByName h packages n of
      None \<Rightarrow> Inl (Errorf ''Package not found: %s'' [AStr n])
    | Some a \<Rightarrow> sbind (job_packages h packages ns) (\<lambda>as. Inr (a # as)))"

text \<open>An unreadable job is noted and skipped; an unknown package of a job ends the reading.\<close>

primrec read_jobs :: "(content \<Rightarrow> goerr + JobManifest) \<Rightarrow> string \<Rightarrow> heap \<Rightarrow> nat list \<Rightarrow> JobRef list
    \<Rightarrow> Job list \<Rightarrow> goerr list \<Rightarrow> (world, goerr + Job list) prog" where
  "read_jobs unmarshal dir h packages [] jobs errs =
     ret (if errs \<noteq> [] then Inl (MultiError errs) else Inr jobs)"
| "read_jobs unmarshal dir h packages (m # ms) jobs errs =
     (let extracted = JoinPath [dir, ''extracted_jobs'', jr_Name m];
          archive = JoinPath [dir, ''jobs'', jr_Name m @ ''.tgz''] in
      bnd (attempt (MkdirAll extracted)) (\<lambda>r. case r of
        Inl e \<Rightarrow> read_jobs unmarshal dir h packages ms jobs (errs @ [WrapError e ''Creating extracted job path''])
      | Inr _ \<Rightarrow> bnd (attempt (JobReader_Read unmarshal archive extracted)) (\<lambda>r2. case r2 of
          Inl e \<Rightarrow> read_jobs unmarshal dir h packages ms jobs
                    (errs @ [WrapErrorf e ''Reading job %s from archive'' [AStr (jr_Name m)]])
        | Inr job \<Rightarrow> (case job_packages h packages (jb_PackageNames job) of
            Inl e \<Rightarrow> ret (Inl e)
          | Inr as \<Rightarrow> read_jobs unmarshal dir h packages ms
              (jobs @ [job\<lparr>jb_Fingerprint := jr_Fingerprint m, jb_SHA1 := jr_SHA1 m, jb_Packages := as\<rparr>]) errs))))"

definition newReleaseFromManifest ::
  "(content \<Rightarrow> goerr + JobManifest) \<Rightarrow> string \<Rightarrow> heap \<Rightarrow> ReleaseManifest \<Rightarrow> (world, heap \<times> Release) prog" where
  "newReleaseFromManifest unmarshal dir h rm =
     bnd (newPackagesFromManifestPackages dir h rm) (\<lambda>(h', (perr, packages, isCompiled)).
     bnd (read_jobs unmarshal dir h' packages (rm_Jobs rm) [] []) (\<lambda>jobs.
     let errors = (case perr of None \<Rightarrow> [] | Some e \<Rightarrow> [WrapError e ''Constructing packages from manifest''])
                @ (case jobs of Inr _ \<Rightarrow> [] | Inl e \<Rightarrow> [WrapError e ''Constructing jobs from manifest'']) in
     case jobs of
       Inr js \<Rightarrow> if errors \<noteq> [] then fail (MultiError errors)
         else ret (h', \<lparr>rl_Name = rm_Name rm, rl_Version = rm_Version rm, rl_Jobs = js, rl_Packages = packages,
                rl_ExtractedPath = dir, rl_isCompiled = isCompiled\<rparr>)
     | Inl _ \<Rightarrow> fail (MultiError errors)))"

definition ReleaseReader_Read ::
  "(content \<Rightarrow> goerr + ReleaseManifest) \<Rightarrow> (content \<Rightarrow> goerr + JobManifest) \<Rightarrow> string \<Rightarrow> string \<Rightarrow> heap
    \<Rightarrow> (world, heap \<times> Release) prog" where
  "ReleaseReader_Read unmarshal_release unmarshal_job tarFilePath dir h =
     seq (wrap ''Extracting release'' (DecompressFileToDir tarFilePath dir))
    (bnd (wrapf ''Reading release manifest %s'' [AStr (JoinPath [dir, ''release.MF''])]
            (ReadFile (JoinPath [dir, ''release.MF'']))) (\<lambda>bytes.
     bnd (wrap ''Parsing release manifest'' (lift_sum (unmarshal_release bytes))) (\<lambda>rm.
     wrap ''Constructing release from manifest'' (newReleaseFromManifest unmarshal_job dir h rm))))"

section \<open>release/extractor.go, release/fetcher.go\<close>

definition ReleaseExtractor_Extract ::
  "(content \<Rightarrow> goerr + ReleaseManifest) \<Rightarrow> (content \<Rightarrow> goerr + JobManifest) \<Rightarrow> heap \<Rightarrow> string \<Rightarrow> (world, heap \<times> Release) prog" where
  "ReleaseExtractor_Extract ur uj h tarball =
     bnd (wrapf ''Creating temp directory to extract release %s'' [AStr tarball] (ext ''fs.TempDir'' [''bosh-init-release''])) (\<lambda>dir.
     bnd (attempt (ReleaseReader_Read ur uj tarball dir h)) (\<lambda>r. case r of
       Inl e \<Rightarrow> seq (silently (RemoveAll dir)) (fail (WrapErrorf e ''Reading release from %s'' [AStr tarball]))
     | Inr (h', release) \<Rightarrow> bnd (attempt (Release_Validate h' release)) (\<lambda>v. case v of
         Inl e \<Rightarrow> seq (silently (RemoveAll dir))
                    (fail (WrapErrorf e ''Validating release %s-%s'' [AStr (rl_Name release), AStr (rl_Version release)]))
       | Inr _ \<Rightarrow> ret (h', release))))"

end
