(* ===== verification/Tarball.thy ===== *)
theory Tarball
  imports Retry Release
begin

text \<open>
  Fetching tarballs: crypto/sha1_calculator.go, installation/tarball/cache.go,
  installation/tarball/provider.go and release/fetcher.go. The SHA1 functions of the standard
  library are parameters: \<open>sha1_str\<close> of a string (in hexadecimal) and \<open>sha1_files\<close> of file
  contents in order. Shown: an http tarball that is handed out was found in the cache or has
  the expected SHA1, and a download makes a bounded number of requests.
\<close>

section \<open>crypto/sha1\_calculator.go\<close>

definition OpenFile :: "string \<Rightarrow> (world, content) prog" where
  "OpenFile p = bnd (ask a_err) (\<lambda>e. seq (or_err e) (bnd (gets (\<lambda>w. files w p)) (\<lambda>c. case c of
      None \<Rightarrow> fail (External ''no such file or directory'') | Some c' \<Rightarrow> ret c')))"

definition populateSha1 :: "string \<Rightarrow> (world, content) prog" where
  "populateSha1 filePath =
     bnd (wrapf ''Opening file %s for sha1 calculation'' [AStr filePath] (OpenFile filePath)) (\<lambda>c.
     seq (wrap ''Copying file for sha1 calculation'' (bnd (ask a_err) or_err)) (ret c))"

text \<open>The files of a directory are what the walk yields, in its order.\<close>

definition Calculate :: "(content list \<Rightarrow> string) \<Rightarrow> string \<Rightarrow> (world, string) prog" where
  "Calculate sha1_files filePath =
     bnd (wrapf ''Calculating sha1 of %s'' [AStr filePath] (OpenFile filePath)) (\<lambda>c.
     seq (wrapf ''Opening file %s for sha1 calculation'' [AStr filePath] (bnd (ask a_err) or_err))
    (if c = CDir
     then bnd (request_val (CallExt ''fs.Walk'' [filePath @ ''/'']) a_strs) (\<lambda>paths.
          bnd (map_prog (\<lambda>q. wrapf ''Calculating directory SHA1 for %s'' [AStr q] (populateSha1 q)) paths) (\<lambda>cs.
          ret (sha1_files cs)))
     else bnd (wrapf ''Calculating file SHA1 for %s'' [AStr filePath] (populateSha1 filePath)) (\<lambda>c'.
          ret (sha1_files [c']))))"

section \<open>installation/tarball/cache.go\<close>

definition Cache_Path :: "(string \<Rightarrow> string) \<Rightarrow> string \<Rightarrow> SourceRef \<Rightarrow> string" where
  "Cache_Path sha1_str basePath source =
     JoinPath [basePath, sha1_str (src_URL source) @ ''-'' @ src_SHA1 source]"

definition Cache_Get :: "(string \<Rightarrow> string) \<Rightarrow> string \<Rightarrow> SourceRef \<Rightarrow> (world, string option) prog" where
  "Cache_Get sha1_str basePath source =
     bnd (FileExists (Cache_Path sha1_str basePath source)) (\<lambda>found.
     ret (if found then Some (Cache_Path sha1_str basePath source) else None))"

definition Cache_Save :: "(string \<Rightarrow> string) \<Rightarrow> string \<Rightarrow> string \<Rightarrow> SourceRef \<Rightarrow> (world, unit) prog" where
  "Cache_Save sha1_str basePath sourcePath source =
     seq (wrapf ''Failed to create cache directory %s'' [AStr basePath] (MkdirAll basePath))
         (wrapf ''Failed to save tarball path %s in cache'' [AStr sourcePath]
            (RenameFile sourcePath (Cache_Path sha1_str basePath source)))"

section \<open>installation/tarball/provider.go\<close>

text \<open>
  One download. The temporary file is removed at the end, whatever happens; an HTTP response
  is its body (the status is not looked at).
\<close>

definition download :: "(string \<Rightarrow> string) \<Rightarrow> (content list \<Rightarrow> string) \<Rightarrow> string \<Rightarrow> SourceRef \<Rightarrow> string \<Rightarrow> (world, unit) prog" where
  "download sha1_str sha1_files basePath source tmp =
     bnd (wrap ''Unable to download'' (request_val (CallHttpGet (src_URL source)) a_str)) (\<lambda>body.
     seq (wrap ''Saving downloaded bits to temporary file'' (WriteFile tmp (CBytes body)))
    (bnd (wrap ''Calculating sha1 for downloaded file'' (Calculate sha1_files tmp)) (\<lambda>downloadedSha1.
     seq (check (downloadedSha1 = src_SHA1 source)
            (Errorf ''SHA1 of downloaded file %s does not match expected SHA1 %s''
               [AStr downloadedSha1, AStr (src_SHA1 source)]))
         (wrap ''Saving downloaded file in cache'' (Cache_Save sha1_str basePath tmp source)))))"

definition downloadRetryable ::
  "(string \<Rightarrow> string) \<Rightarrow> (content list \<Rightarrow> string) \<Rightarrow> string \<Rightarrow> SourceRef \<Rightarrow> attempt" where
  "downloadRetryable sha1_str sha1_files basePath source =
     bnd (attempt (wrap ''Unable to create temporary file'' (TempPath (CBytes [])))) (\<lambda>t. case t of
       Inl e \<Rightarrow> ret (True, Some e)
     | Inr tmp \<Rightarrow> bnd (attempt (deferred (download sha1_str sha1_files basePath source tmp) (RemoveAll tmp))) (\<lambda>r.
         ret (case r of Inl e \<Rightarrow> (True, Some e) | Inr _ \<Rightarrow> (False, None))))"

record provider =
  pv_basePath :: string
  pv_downloadAttempts :: int
  pv_delayTimeout :: int

definition Provider_Get ::
  "(string \<Rightarrow> string) \<Rightarrow> (content list \<Rightarrow> string) \<Rightarrow> provider \<Rightarrow> SourceRef \<Rightarrow> string \<Rightarrow> nat \<Rightarrow> (world, string) prog" where
  "Provider_Get sha1_str sha1_files pv source description stage =
     (if HasPrefix (src_URL source) ''file://'' then
        let filePath = TrimPrefix (src_URL source) ''file://'' in
        bnd (attempt (ExpandPath filePath)) (\<lambda>r. ret (case r of Inl e \<Rightarrow> filePath | Inr expandedPath \<Rightarrow> expandedPath))
      else if \<not> HasPrefix (src_URL source) ''http'' then
        fail (Errorf ''Invalid source URL: %s, must be either file:// or http(s)://'' [AStr (src_URL source)])
      else
        seq (Perform stage (''Downloading '' @ description)
          (bnd (Cache_Get sha1_str (pv_basePath pv) source) (\<lambda>cached. case cached of
             Some cachedPath \<Rightarrow> fail (SkipStageError (GoError ''Already downloaded'') ''Found in local cache'')
           | None \<Rightarrow> wrapf ''Failed to download from %s'' [AStr (src_URL source)]
               (AttemptRetry (pv_downloadAttempts pv) (pv_delayTimeout pv)
                  (downloadRetryable sha1_str sha1_files (pv_basePath pv) source)))))
        (ret (Cache_Path sha1_str (pv_basePath pv) source)))"

section \<open>release/fetcher.go\<close>

text \<open>The heap of packages and the releases of the manager are passed on.\<close>

definition DownloadAndExtract ::
  "(string \<Rightarrow> string) \<Rightarrow> (content list \<Rightarrow> string) \<Rightarrow> (content \<Rightarrow> goerr + ReleaseManifest) \<Rightarrow> (content \<Rightarrow> goerr + JobManifest)
    \<Rightarrow> provider \<Rightarrow> heap \<Rightarrow> Release list \<Rightarrow> ReleaseRef \<Rightarrow> nat \<Rightarrow> (world, heap \<times> Release list) prog" where
  "DownloadAndExtract sha1_str sha1_files ur uj pv h releases releaseRef stage =
     bnd (Provider_Get sha1_str sha1_files pv (ref_Source releaseRef) (''release '' @ ref_Name releaseRef) stage) (\<lambda>releasePath.
     Perform_val stage (''Validating release '' @ ref_Name releaseRef) (h, releases)
      (bnd (wrapf ''Extracting release %s'' [AStr releasePath] (ReleaseExtractor_Extract ur uj h releasePath)) (\<lambda>(h', release).
       seq (check (rl_Name release = ref_Name releaseRef)
              (Errorf ''Release name %s does not match the name in release tarball %s''
                 [AStr (ref_Name releaseRef), AStr (rl_Name release)]))
           (ret (h', ReleaseManager_Add releases release)))))"

section \<open>What the provider hands out\<close>

text \<open>\<open>apart w q\<close>: the temporary files the system will hand out are not above \<open>q\<close>.\<close>

definition apart :: "world \<Rightarrow> string \<Rightarrow> bool" where
  "apart w q \<longleftrightarrow> (\<forall>n t. a_str (answers w n) = Inr t \<longrightarrow> \<not> below t q)"

definition verified :: "(content list \<Rightarrow> string) \<Rightarrow> string \<Rightarrow> string \<Rightarrow> world \<Rightarrow> bool" where
  "verified sha1_files sha q w \<longleftrightarrow> (\<exists>c. files w q = Some c \<and> sha1_files [c] = sha)"

definition http_gets :: "world \<Rightarrow> nat" where
  "http_gets w = length (filter (\<lambda>k. case k of CallHttpGet u \<Rightarrow> True | _ \<Rightarrow> False) (calls w))"

lemma Calculate_file:
  assumes "files w tmp = Some (CBytes b)"
  shows "wp (Calculate sha1_files tmp) (\<lambda>r w'. ticked w w' \<and> returns r \<and> (\<forall>s. r = Ok s \<longrightarrow> s = sha1_files [CBytes b])) w"
proof -
  have t: "ticked w (w\<lparr>tick := k + tick w, clock := c\<rparr>)" for k c by (simp add: ticked_def)
  have opn: "wp (OpenFile tmp) (\<lambda>r v'. ticked v v' \<and> returns r \<and> (\<forall>s. r = Ok s \<longrightarrow> s = CBytes b)) v"
    if "files v tmp = Some (CBytes b)" for v
    using that by (auto simp: OpenFile_def wp_simps Let_def split: option.splits)
  have copy: "wp (bnd (ask a_err) or_err) (\<lambda>r v'. ticked v v' \<and> returns r) v" for v
    by (auto simp: wp_simps Let_def split: option.splits)
  have pop: "wp (populateSha1 tmp) (\<lambda>r v'. ticked v v' \<and> returns r \<and> (\<forall>s. r = Ok s \<longrightarrow> s = CBytes b)) v"
    if f: "files v tmp = Some (CBytes b)" for v
    unfolding populateSha1_def
    by (rule wp_bnd_wrapf[OF opn[OF f]], rule wp_seq_wrap[OF copy])
      (auto simp: wp_ret intro: ticked_trans)
  show ?thesis unfolding Calculate_def
  proof (rule wp_bnd_wrapf[OF opn[OF assms]], goal_cases)
    case (1 c w1)
    then have c: "c = CBytes b" "ticked w w1" by auto
    show ?case unfolding c(1)
    proof (rule wp_seq_wrapf[OF copy], goal_cases)
      case (1 u w2)
      then have t2: "ticked w w2" using c(2) by (auto intro: ticked_trans)
      then have "files w2 tmp = Some (CBytes b)" using assms by (simp add: ticked_frame)
      then show ?case
        by simp (rule wp_bnd_wrapf[OF pop], use t2 in \<open>auto simp: wp_ret intro: ticked_trans\<close>)
    qed (use c(2) in \<open>auto intro: ticked_trans\<close>)
  qed auto
qed

text \<open>What a run changes of the answers (nothing) and of the number of HTTP requests.\<close>

definition fetched :: "nat \<Rightarrow> world \<Rightarrow> world \<Rightarrow> bool" where
  "fetched n w w' \<longleftrightarrow> answers w' = answers w \<and> http_gets w' \<le> http_gets w + n"

lemma fetched_trans: "fetched m w v \<Longrightarrow> fetched n v w' \<Longrightarrow> fetched (m + n) w w'"
  by (auto simp: fetched_def)

lemma fetched_mono: "fetched m w w' \<Longrightarrow> m \<le> n \<Longrightarrow> fetched n w w'"
  by (auto simp: fetched_def)

lemma fetched_ticked: "ticked w w' \<Longrightarrow> fetched 0 w w'"
  by (simp add: fetched_def http_gets_def ticked_frame)

lemma fetched_trans0: "fetched n w v \<Longrightarrow> fetched 0 v w' \<Longrightarrow> fetched n w w'"
  by (auto simp: fetched_def)

lemma Cache_Save_verified:
  assumes "files w tmp = Some c" "sha1_files [c] = sha" "c \<noteq> CDir"
  shows "wp (Cache_Save sha1_str base tmp source) (\<lambda>r w'. fetched 0 w w' \<and> returns r
    \<and> (r = Ok () \<longrightarrow> verified sha1_files sha (Cache_Path sha1_str base source) w')) w"
  using assms by (auto simp: Cache_Save_def MkdirAll_def RenameFile_def wp_simps Let_def fetched_def http_gets_def
      verified_def set_file_def del_files_def split: option.splits)

lemma download_verified:
  "wp (download sha1_str sha1_files base source tmp) (\<lambda>r w'. fetched 1 w w' \<and> returns r
    \<and> (r = Ok () \<longrightarrow> verified sha1_files (src_SHA1 source) (Cache_Path sha1_str base source) w')) w"
  unfolding download_def
proof (rule wp_bnd_wrap[where P = "\<lambda>r w'. fetched 1 w w' \<and> returns r"], goal_cases)
  case 1
  show ?case
    by (auto simp: wp_request_val wp_simps Let_def fetched_def http_gets_def split: sum.splits)
next
  case (2 body w1)
  show ?case
  proof (rule wp_seq_wrap[where P = "\<lambda>r w'. fetched 0 w1 w' \<and> returns r \<and> (\<forall>u. r = Ok u \<longrightarrow> files w' tmp = Some (CBytes body))"], goal_cases)
    case 1
    show ?case
      by (auto simp: WriteFile_def wp_simps Let_def fetched_def http_gets_def set_file_def split: option.splits)
  next
    case W: (2 u w2)
    then have f: "files w2 tmp = Some (CBytes body)" and t2: "fetched 1 w w2"
      using 2 by (auto intro: fetched_trans0)
    show ?case
    proof (rule wp_bnd_wrap[OF Calculate_file[OF f]], goal_cases)
      case (1 sha w3)
      then have t3: "fetched 1 w w3" and f3: "files w3 tmp = Some (CBytes body)" and s: "sha = sha1_files [CBytes body]"
        using t2 f by (auto intro: fetched_trans0 fetched_ticked simp: ticked_frame)
      have nd: "CBytes body \<noteq> CDir" by simp
      have "wp (wrap ''Saving downloaded file in cache'' (Cache_Save sha1_str base tmp source)) (\<lambda>r w'. fetched 1 w w' \<and> returns r
          \<and> (r = Ok () \<longrightarrow> verified sha1_files (src_SHA1 source) (Cache_Path sha1_str base source) w')) w3"
        if "sha1_files [CBytes body] = src_SHA1 source"
        unfolding wp_wrap
        by (rule wp_mono[OF Cache_Save_verified[where w = w3 and tmp = tmp and c = "CBytes body" and sha = "src_SHA1 source" and sha1_files = sha1_files and sha1_str = sha1_str and base = base and source = source, OF f3 that nd]])
          (use t3 in \<open>auto intro: fetched_trans0 split: outcome.splits\<close>)
      then show ?case unfolding s seq_check using t3 by (simp add: wp_fail)
    qed (use t2 in \<open>auto intro: fetched_trans0 fetched_ticked\<close>)
  qed (use 2 in \<open>auto intro: fetched_trans0\<close>)
qed auto

lemma RemoveAll_apart:
  assumes "\<not> below tmp q"
  shows "wp (RemoveAll tmp) (\<lambda>r w'. fetched 0 w w' \<and> returns r \<and> files w' q = files w q) w"
  using assms by (auto simp: RemoveAll_def wp_simps Let_def fetched_def http_gets_def del_files_def split: option.splits)

lemma downloadRetryable_verified:
  fixes source :: SourceRef and sha1_str :: "string \<Rightarrow> string" and base :: string
  defines "q \<equiv> Cache_Path sha1_str base source"
  assumes "apart w q"
  shows "wp (downloadRetryable sha1_str sha1_files base source) (\<lambda>r w'. fetched 1 w w' \<and> (\<exists>b e. r = Ok (b, e)
    \<and> (e = None \<longrightarrow> verified sha1_files (src_SHA1 source) q w'))) w"
  unfolding downloadRetryable_def wp_bnd wp_attempt wp_wrap
proof (rule wp_mono[where P = "\<lambda>r w'. fetched 0 w w' \<and> (case r of Ok t \<Rightarrow> \<not> below t q | Err e \<Rightarrow> True | _ \<Rightarrow> False)"], goal_cases)
  case 1
  show ?case using assms(2)
    by (auto simp: TempPath_def wp_simps Let_def fetched_def http_gets_def set_file_def apart_def split: sum.splits)
next
  case (2 r w1)
  have D: "wp (deferred (download sha1_str sha1_files base source tmp) (RemoveAll tmp)) (\<lambda>r w'. fetched 1 w w' \<and> returns r
      \<and> (r = Ok () \<longrightarrow> verified sha1_files (src_SHA1 source) q w')) w1" if "\<not> below tmp q" for tmp
    unfolding wp_deferred
  proof (rule wp_mono[OF download_verified], goal_cases)
    case (1 r w2)
    have "fetched 1 w w2" using 1 2 by (auto simp: fetched_def)
    then have "wp (RemoveAll tmp) (\<lambda>x w'. case x of Panic s \<Rightarrow> False | Hang \<Rightarrow> False | _ \<Rightarrow> fetched 1 w w' \<and> returns r
      \<and> (r = Ok () \<longrightarrow> verified sha1_files (src_SHA1 source) q w')) w2"
      using 1 that by (intro wp_mono[OF RemoveAll_apart[OF that]])
        (auto simp: verified_def q_def intro: fetched_trans0 elim!: returnsE[where r = "x :: 'a outcome" for x])
    then show ?case using 1
      by (auto elim!: returnsE intro: wp_mono split: outcome.splits)
  qed
  show ?case
  proof (cases r)
    case (Ok t)
    have "wp (bnd (attempt (deferred (download sha1_str sha1_files base source t) (RemoveAll t)))
        (\<lambda>r. ret (case r of Inl e \<Rightarrow> (True, Some e) | Inr _ \<Rightarrow> (False, None))))
      (\<lambda>r w'. fetched 1 w w' \<and> (\<exists>b e. r = Ok (b, e) \<and> (e = None \<longrightarrow> verified sha1_files (src_SHA1 source) q w'))) w1"
      unfolding wp_bnd wp_attempt
      by (rule wp_mono[OF D]) (use 2 Ok in \<open>auto simp: wp_ret fetched_def elim!: returnsE\<close>)
    then show ?thesis unfolding Ok outcome.case sum.case .
  qed (use 2 in \<open>auto simp: wp_simps fetched_def\<close>)
qed

lemma downloads_verified:
  fixes source :: SourceRef and sha1_str :: "string \<Rightarrow> string" and base :: string
  defines "q \<equiv> Cache_Path sha1_str base source"
  shows "apart w q \<Longrightarrow> wp (attempt_loop n delay (downloadRetryable sha1_str sha1_files base source) err)
    (\<lambda>r w'. fetched n w w' \<and> returns r \<and> (r = Ok () \<longrightarrow> (n = 0 \<and> err = None) \<or> verified sha1_files (src_SHA1 source) q w')) w"
proof (induction n arbitrary: w err)
  case 0
  then show ?case by (auto simp: wp_simps fetched_def split: option.splits)
next
  case (Suc n)
  show ?case unfolding attempt_loop.simps
  proof (rule wp_bnd_rule, unfold q_def, rule downloadRetryable_verified[OF Suc.prems[unfolded q_def]], goal_cases)
    case (1 x w1)
    then obtain b e where x: "x = (b, e)" "fetched 1 w w1"
        "e = None \<longrightarrow> verified sha1_files (src_SHA1 source) q w1" by (auto simp: q_def)
    have f: "fetched (Suc n) w w1" using x(2) by (rule fetched_mono) simp
    let ?w = "w1\<lparr>clock := clock w1 + max 0 delay\<rparr>"
    have "apart ?w q" using Suc.prems x(2) by (simp add: apart_def fetched_def)
    have N: "wp (attempt_loop n delay (downloadRetryable sha1_str sha1_files base source) (Some e'))
        (\<lambda>r w'. fetched (Suc n) w w' \<and> returns r \<and> (r = Ok () \<longrightarrow> verified sha1_files (src_SHA1 source) q w')) ?w" for e'
      by (rule wp_mono[OF Suc.IH[OF \<open>apart ?w q\<close>]]) (use x(2) in \<open>auto simp: fetched_def http_gets_def\<close>)
    show ?case unfolding x(1) prod.case
      using f x(3) N by (cases e) (auto simp: wp_simps Sleep_def q_def)
  qed auto
qed

text \<open>
  A tarball named by an http URL: what is handed out is the cache path of its source, where
  either a file was before, or a file with the expected SHA1 is now; each attempt makes at
  most one HTTP request.
\<close>

lemma Provider_Get_http:
  fixes source :: SourceRef and sha1_str :: "string \<Rightarrow> string" and pv :: provider
  assumes "HasPrefix (src_URL source) ''http''" "0 < pv_downloadAttempts pv"
    and "apart w (Cache_Path sha1_str (pv_basePath pv) source)"
  shows "wp (Provider_Get sha1_str sha1_files pv source description stage)
    (\<lambda>r w'. returns r \<and> fetched (nat (pv_downloadAttempts pv)) w w' \<and> (\<forall>q. r = Ok q \<longrightarrow>
       q = Cache_Path sha1_str (pv_basePath pv) source
       \<and> (files w q \<noteq> None \<or> verified sha1_files (src_SHA1 source) q w'))) w"
    (is "wp _ ?Q w")
proof -
  let ?q = "Cache_Path sha1_str (pv_basePath pv) source" and ?n = "nat (pv_downloadAttempts pv)"
  have nf: "\<not> HasPrefix (src_URL source) ''file://''"
    using assms(1) by (cases "src_URL source") (simp_all add: HasPrefix_def)
  let ?R = "\<lambda>r w'. returns r \<and> fetched ?n w w' \<and> (r = Ok () \<longrightarrow>
     files w ?q \<noteq> None \<or> verified sha1_files (src_SHA1 source) ?q w')"
  have "wp (Perform stage (''Downloading '' @ description)
          (bnd (Cache_Get sha1_str (pv_basePath pv) source) (\<lambda>cached. case cached of
             Some cachedPath \<Rightarrow> fail (SkipStageError (GoError ''Already downloaded'') ''Found in local cache'')
           | None \<Rightarrow> wrapf ''Failed to download from %s'' [AStr (src_URL source)]
               (AttemptRetry (pv_downloadAttempts pv) (pv_delayTimeout pv)
                  (downloadRetryable sha1_str sha1_files (pv_basePath pv) source))))) ?R w"
  proof (rule wp_Perform, goal_cases)
    case (1 r)
    show ?case by (simp add: unseen_def fetched_def http_gets_def verified_def)
  next
    case (2 u s)
    let ?w = "w\<lparr>ui := u, simple_mode := s\<rparr>"
    have "apart ?w ?q" using assms(3) by (simp add: apart_def)
    note L = downloads_verified[OF this, of ?n "pv_delayTimeout pv" sha1_files None]
    show ?case
    proof (cases "files w ?q")
      case None
      have "wp (wrapf ''Failed to download from %s'' [AStr (src_URL source)]
          (attempt_loop ?n (pv_delayTimeout pv) (downloadRetryable sha1_str sha1_files (pv_basePath pv) source) None))
         (\<lambda>r. ?R (unskip () r)) ?w"
        unfolding wp_wrapf
        by (rule wp_mono[OF L]) (use assms(2) None in \<open>auto simp: fetched_def http_gets_def elim!: returnsE\<close>)
      moreover have "bnd (Cache_Get sha1_str (pv_basePath pv) source) f ?w = f None ?w" for f :: "string option \<Rightarrow> (world, unit) prog"
        using None by (simp add: Cache_Get_def FileExists_def prog_defs)
      ultimately show ?thesis by (simp only: wp_def AttemptRetry_def option.case)
    qed (simp add: Cache_Get_def FileExists_def wp_simps fetched_def http_gets_def)
  qed
  then show ?thesis unfolding Provider_Get_def using nf assms(1)
    by (simp add: wp_seq) (erule wp_mono, auto simp: wp_ret elim!: returnsE)
qed

end
