(* ===== verification/Stemcell.thy ===== *)
theory Stemcell
  imports Tarball Disk
begin

text \<open>
  Stemcells: stemcell/stemcell.go, reader.go, extractor.go, fetcher.go, cloud_stemcell.go and
  manager.go. A manager is the cloud and the path of the state file. Shown: a stemcell is
  uploaded at most once per name and version, promoting one makes it the current one, and
  \<^verbatim>\<open>DeleteUnused\<close> keeps the current one.
\<close>

section \<open>stemcell/stemcell.go, reader.go, extractor.go, fetcher.go\<close>

text \<open>\<open>RawStemcell\<close> is what the YAML parser, a parameter, reads from \<^verbatim>\<open>stemcell.MF\<close>.\<close>

record RawStemcell =
  rs_Name :: string
  rs_Version :: string
  rs_OS :: string
  rs_SHA1 :: string
  rs_CloudProperties :: yamlmap

record StemcellManifest =
  sm_ImagePath :: string
  sm_Name :: string
  sm_Version :: string
  sm_OS :: string
  sm_SHA1 :: string
  sm_CloudProperties :: "gomap option"

record ExtractedStemcell =
  es_manifest :: StemcellManifest
  es_extractedPath :: string

definition ExtractedStemcell_Delete :: "ExtractedStemcell \<Rightarrow> (world, unit) prog" where
  "ExtractedStemcell_Delete s = RemoveAll (es_extractedPath s)"

definition OsAndVersion :: "ExtractedStemcell \<Rightarrow> string" where
  "OsAndVersion s = sm_OS (es_manifest s) @ ''/'' @ sm_Version (es_manifest s)"

definition StemcellReader_Read ::
  "(content \<Rightarrow> goerr + RawStemcell) \<Rightarrow> string \<Rightarrow> string \<Rightarrow> (world, ExtractedStemcell) prog" where
  "StemcellReader_Read unmarshal stemcellTarballPath extractedPath =
     seq (wrapf ''Extracting stemcell from %s to %s'' [AStr stemcellTarballPath, AStr extractedPath]
            (DecompressFileToDir stemcellTarballPath extractedPath))
    (let manifestPath = JoinPath [extractedPath, ''stemcell.MF''] in
     bnd (wrapf ''Reading stemcell manifest %s'' [AStr manifestPath] (ReadFile manifestPath)) (\<lambda>manifestContents.
     bnd (wrapf ''Parsing stemcell manifest: %s'' [ADump] (lift_sum (unmarshal manifestContents))) (\<lambda>raw.
     bnd (wrapf ''Parsing stemcell cloud_properties: %#v'' [ADump] (lift_sum (BuildMap (rs_CloudProperties raw)))) (\<lambda>props.
     ret \<lparr>es_manifest = \<lparr>sm_ImagePath = JoinPath [extractedPath, ''image''], sm_Name = rs_Name raw,
            sm_Version = rs_Version raw, sm_OS = rs_OS raw, sm_SHA1 = rs_SHA1 raw, sm_CloudProperties = Some props\<rparr>,
          es_extractedPath = extractedPath\<rparr>))))"

definition StemcellExtractor_Extract ::
  "(content \<Rightarrow> goerr + RawStemcell) \<Rightarrow> string \<Rightarrow> (world, ExtractedStemcell) prog" where
  "StemcellExtractor_Extract unmarshal tarballPath =
     bnd (wrap ''creating temp dir for stemcell extraction'' (ext ''fs.TempDir'' [''stemcell-manager''])) (\<lambda>tmpDir.
     bnd (attempt (StemcellReader_Read unmarshal tarballPath tmpDir)) (\<lambda>r. case r of
       Inl e \<Rightarrow> seq (silently (RemoveAll tmpDir))
                  (fail (WrapErrorf e ''reading extracted stemcell manifest in %s'' [AStr tmpDir]))
     | Inr stemcell \<Rightarrow> ret stemcell))"

text \<open>
  The variable the closure sets is the one returned: nothing (nil) if \<^verbatim>\<open>Perform\<close> turned a
  skip error of the extraction into success, which wrapping excludes.
\<close>

definition GetStemcell ::
  "(string \<Rightarrow> string) \<Rightarrow> (content list \<Rightarrow> string) \<Rightarrow> (content \<Rightarrow> goerr + RawStemcell)
    \<Rightarrow> provider \<Rightarrow> Manifest \<Rightarrow> nat \<Rightarrow> (world, ExtractedStemcell option) prog" where
  "GetStemcell sha1_str sha1_files unmarshal pv deploymentManifest stage =
     bnd (lift_outcome (JobName deploymentManifest)) (\<lambda>jobName.
     bnd (lift_sum (Stemcell_of deploymentManifest jobName)) (\<lambda>stemcell.
     bnd (Provider_Get sha1_str sha1_files pv stemcell ''stemcell'' stage) (\<lambda>stemcellTarballPath.
     Perform_val stage ''Validating stemcell'' None
       (wrapf ''Extracting stemcell from %s'' [AStr stemcellTarballPath]
          (bnd (StemcellExtractor_Extract unmarshal stemcellTarballPath) (\<lambda>s. ret (Some s)))))))"

section \<open>stemcell/cloud\_stemcell.go\<close>

record CloudStemcell =
  cs_CID :: string
  cs_Name :: string
  cs_Version :: string

definition NewCloudStemcell :: "StemcellRecord \<Rightarrow> CloudStemcell" where
  "NewCloudStemcell r = \<lparr>cs_CID = sr_CID r, cs_Name = sr_Name r, cs_Version = sr_Version r\<rparr>"

definition PromoteAsCurrent :: "string \<Rightarrow> CloudStemcell \<Rightarrow> (world, unit) prog" where
  "PromoteAsCurrent p s =
     bnd (wrap ''Finding current stemcell'' (StemcellRepo_Find p (cs_Name s) (cs_Version s))) (\<lambda>found. case found of
       None \<Rightarrow> fail (GoError ''Stemcell does not exist in repo'')
     | Some stemcellRecord \<Rightarrow> wrap ''Updating current stemcell'' (StemcellRepo_UpdateCurrent p (sr_ID stemcellRecord)))"

definition CloudStemcell_Delete :: "string \<Rightarrow> cloud \<Rightarrow> CloudStemcell \<Rightarrow> (world, unit) prog" where
  "CloudStemcell_Delete p c s =
     bnd (attempt (DeleteStemcell c (cs_CID s))) (\<lambda>deleteErr.
     seq (allow_not_found StemcellNotFoundError ''Deleting stemcell from cloud'' deleteErr)
    (bnd (wrapf ''Finding stemcell record (name=%s, version=%s)'' [AStr (cs_Name s), AStr (cs_Version s)]
            (StemcellRepo_Find p (cs_Name s) (cs_Version s))) (\<lambda>found. case found of
       None \<Rightarrow> ret ()
     | Some stemcellRecord \<Rightarrow> seq (wrap ''Deleting stemcell record'' (StemcellRepo_Delete p stemcellRecord))
                                (lift_sum deleteErr))))"

section \<open>stemcell/manager.go\<close>

definition StemcellManager_FindCurrent :: "string \<Rightarrow> (world, CloudStemcell list) prog" where
  "StemcellManager_FindCurrent p =
     bnd (wrap ''Reading stemcell record'' (StemcellRepo_FindCurrent p)) (\<lambda>found.
     ret (case found of None \<Rightarrow> [] | Some stemcellRecord \<Rightarrow> [NewCloudStemcell stemcellRecord]))"

text \<open>The closure sets the result before it returns its skip error.\<close>

definition Upload_step :: "string \<Rightarrow> cloud \<Rightarrow> StemcellManifest \<Rightarrow> (world, CloudStemcell option \<times> goerr option) prog" where
  "Upload_step p c manifest =
     bnd (attempt (wrap ''Finding existing stemcell record in repo'' (StemcellRepo_Find p (sm_Name manifest) (sm_Version manifest))))
       (\<lambda>r. case r of
         Inl e \<Rightarrow> ret (None, Some e)
       | Inr (Some foundStemcellRecord) \<Rightarrow> ret (Some (NewCloudStemcell foundStemcellRecord),
           Some (SkipStageError (Errorf ''Found stemcell: %#v'' [ADump]) ''Stemcell already uploaded''))
       | Inr None \<Rightarrow> with_error None
          (bnd (wrapf ''creating stemcell (%s %s)'' [AStr (sm_Name manifest), AStr (sm_Version manifest)]
                 (CreateStemcell c (sm_ImagePath manifest) (sm_CloudProperties manifest))) (\<lambda>cid.
           bnd (wrapf ''saving stemcell record in repo (cid=%s, stemcell=%s)'' [AStr cid, ADump]
                 (StemcellRepo_Save p (sm_Name manifest) (sm_Version manifest) cid)) (\<lambda>stemcellRecord.
           ret (Some (NewCloudStemcell stemcellRecord))))))"

definition Upload :: "string \<Rightarrow> cloud \<Rightarrow> ExtractedStemcell \<Rightarrow> nat \<Rightarrow> (world, CloudStemcell option) prog" where
  "Upload p c extractedStemcell uploadStage =
     (let manifest = es_manifest extractedStemcell in
      bnd (stage_run uploadStage (''Uploading stemcell '' @ sm_Name manifest @ ''/'' @ sm_Version manifest)
             (Upload_step p c manifest)) (\<lambda>(cloudStemcell, err).
      seq (or_err err) (ret cloudStemcell)))"

definition StemcellManager_FindUnused :: "string \<Rightarrow> (world, CloudStemcell list) prog" where
  "StemcellManager_FindUnused p =
     bnd (wrap ''Getting all stemcell records'' (StemcellRepo_All p)) (\<lambda>stemcellRecords.
     bnd (wrap ''Finding current disk record'' (StemcellRepo_FindCurrent p)) (\<lambda>found.
     ret (map NewCloudStemcell (filter (\<lambda>r. case found of None \<Rightarrow> True | Some cur \<Rightarrow> sr_ID r \<noteq> sr_ID cur) stemcellRecords))))"

definition StemcellManager_DeleteUnused :: "string \<Rightarrow> cloud \<Rightarrow> nat \<Rightarrow> (world, unit) prog" where
  "StemcellManager_DeleteUnused p c deleteStage =
     bnd (wrap ''Finding unused stemcells'' (StemcellManager_FindUnused p)) (\<lambda>stemcells.
     for_each (\<lambda>stemcell. Perform deleteStage (''Deleting unused stemcell '' @ cs_CID stemcell)
       (skip_not_found StemcellNotFoundError ''Stemcell not found'' (CloudStemcell_Delete p c stemcell))) stemcells)"

section \<open>Deleting stemcells\<close>

definition delete_stemcell_call :: "cloud \<Rightarrow> string \<Rightarrow> call" where
  "delete_stemcell_call c cid = cpi_call c ''delete_stemcell'' [ArgStr cid]"

definition keep_stemcells :: "(StemcellRecord \<Rightarrow> bool) \<Rightarrow> DeploymentState \<Rightarrow> DeploymentState" where
  "keep_stemcells P st = st\<lparr>Stemcells := filter P (Stemcells st)\<rparr>"

lemma find_stemcell: "wf_state st \<Longrightarrow> r \<in> set (Stemcells st) \<Longrightarrow>
    find (\<lambda>x. sr_Name x = sr_Name r \<and> sr_Version x = sr_Version r) (Stemcells st) = Some r"
  using find_ex[of r "Stemcells st" "\<lambda>x. sr_Name x = sr_Name r \<and> sr_Version x = sr_Version r"]
  by (auto simp: wf_state_def wf_stemcells_def distinct_map inj_on_def stemcell_key_def)

lemma wf_stemcell_ids: "wf_state st \<Longrightarrow> x \<in> set (Stemcells st) \<Longrightarrow> y \<in> set (Stemcells st) \<Longrightarrow> sr_ID x = sr_ID y \<longleftrightarrow> x = y"
  by (auto simp: wf_state_def wf_stemcells_def distinct_map inj_on_def)

lemma does_CloudStemcell_Delete:
  assumes "x \<in> set (Stemcells st)"
  shows "does p st (CloudStemcell_Delete p c (NewCloudStemcell x)) (\<lambda>r ks st'. ks = [delete_stemcell_call c (sr_CID x)] \<and>
      ((deleted StemcellNotFoundError r \<and> st' = StemcellRepo_remove x st) \<or> (failed r \<and> st' = st)))"
  unfolding CloudStemcell_Delete_def delete_stemcell_call_def NewCloudStemcell_def CloudStemcell.select_convs
proof (rule does_wf, rule does_deletion[OF does_cloud(2)], goal_cases)
  case (1 e)
  show ?case
  proof (rule does_bnd_wrapf[OF does_finds(5)], goal_cases)
    case (1 found ks st')
    then have s: "ks = []" "st' = st" "found = Some x"
      using find_stemcell[OF \<open>wf_state st\<close> assms] by auto
    show ?case unfolding s option.case
      by (rule does_seq_wrap[OF does_updates(6)], rule does_lift_sum)
        (use \<open>\<And>er. e = Inl er \<Longrightarrow> cloud_error_type er = Some StemcellNotFoundError\<close> in auto)
  qed auto
qed simp

interpretation stemcells: current_records p Stemcells StemcellRepo_remove "\<lambda>r. CloudStemcell_Delete p c (NewCloudStemcell r)"
  "\<lambda>r. delete_stemcell_call c (sr_CID r)" StemcellNotFoundError sr_ID CurrentStemcellID keep_stemcells
  "StemcellRepo_All p" "StemcellRepo_FindCurrent p" for p c
proof (unfold_locales, goal_cases)
  case 1 then show ?case by (rule does_CloudStemcell_Delete)
qed (auto simp: wf_stemcell_ids keep_stemcells_def does_finds StemcellRepo_remove_def Let_def wf_state_def wf_stemcells_def
    intro!: arg_cong[where f = "\<lambda>ds. st\<lparr>Stemcells := ds\<rparr>" for st] filter_cong)

definition unused_stemcells :: "DeploymentState \<Rightarrow> StemcellRecord list" where
  "unused_stemcells st = filter (\<lambda>r. sr_ID r \<noteq> CurrentStemcellID st) (Stemcells st)"

lemma does_StemcellManager_FindUnused:
  "does p st (StemcellManager_FindUnused p) (answers_with (map NewCloudStemcell (unused_stemcells st)) st)"
  unfolding StemcellManager_FindUnused_def unused_stemcells_def
  by (rule stemcells.does_find_unused[unfolded stemcells.unused_def])

lemma does_StemcellManager_DeleteUnused:
  "does p st (StemcellManager_DeleteUnused p c d) (\<lambda>r ks st'.
     (r = Ok () \<and> ks = map (\<lambda>x. delete_stemcell_call c (sr_CID x)) (unused_stemcells st)
        \<and> st' = st\<lparr>Stemcells := filter (\<lambda>x. sr_ID x = CurrentStemcellID st) (Stemcells st)\<rparr>)
   \<or> (failed r \<and> (\<exists>n \<le> length (unused_stemcells st). ks = map (\<lambda>x. delete_stemcell_call c (sr_CID x)) (take n (unused_stemcells st)))
        \<and> (\<exists>Q. (\<forall>x. sr_ID x = CurrentStemcellID st \<longrightarrow> Q x) \<and> (\<forall>x \<in> set (Stemcells st). Q x \<or> delete_stemcell_call c (sr_CID x) \<in> set ks)
          \<and> st' = st\<lparr>Stemcells := filter Q (Stemcells st)\<rparr>)))"
proof -
  have "does p st (StemcellManager_DeleteUnused p c d) (stemcells.deletes_unused c st)"
    unfolding StemcellManager_DeleteUnused_def
    by (rule stemcells.does_delete_unused[where f = NewCloudStemcell and D = "CloudStemcell_Delete p c" and c = c])
      (simp_all add: stemcells.unused_def does_StemcellManager_FindUnused[unfolded unused_stemcells_def])
  then show ?thesis
    by (rule does_mono) (simp only: stemcells.deletes_unused_def stemcells.unused_def,
        simp only: keep_stemcells_def unused_stemcells_def)
qed

section \<open>Uploading and promoting\<close>

lemma does_with_error:
  assumes "does p st m (\<lambda>r. Q (case r of Ok x \<Rightarrow> Ok (x, None) | Err e \<Rightarrow> Ok (z, Some e)))"
  shows "does p st (with_error z m) Q"
  unfolding with_error_def
  by (rule does_bnd_attempt[OF assms]) (auto intro!: does_ret)

lemma does_stage_run:
  assumes "does p st m (\<lambda>r. R (case r of Ok (x, Some e) \<Rightarrow> Ok (x, if is_skip e then None else Some e) | _ \<Rightarrow> r))"
  shows "does p st (stage_run d name m) R"
  by (rule does_stage[where g = "\<lambda>r. case r of Ok (x, Some e) \<Rightarrow> Ok (x, if is_skip e then None else Some e) | _ \<Rightarrow> r", OF _ assms])
    (auto intro: wp_stage_run split: outcome.splits prod.splits option.splits)

definition create_stemcell_call :: "cloud \<Rightarrow> StemcellManifest \<Rightarrow> call" where
  "create_stemcell_call c m = cpi_call c ''create_stemcell'' [ArgStr (sm_ImagePath m), ArgProps (sm_CloudProperties m)]"

definition stemcell_uploaded :: "DeploymentState \<Rightarrow> StemcellManifest \<Rightarrow> StemcellRecord option" where
  "stemcell_uploaded st m = find (\<lambda>r. sr_Name r = sm_Name m \<and> sr_Version r = sm_Version m) (Stemcells st)"

text \<open>
  An upload either finds the stemcell recorded and makes no call, or makes one
  \<^verbatim>\<open>create_stemcell\<close> call and records its result; when it fails, the records are as before,
  even if the call succeeded.
\<close>

definition uploads :: "cloud \<Rightarrow> DeploymentState \<Rightarrow> StemcellManifest
    \<Rightarrow> CloudStemcell option outcome \<Rightarrow> call list \<Rightarrow> DeploymentState \<Rightarrow> bool" where
  "uploads c st m r ks st' \<longleftrightarrow> (case stemcell_uploaded st m of
      Some x \<Rightarrow> ks = [] \<and> st' = st \<and> (r = Ok (Some (NewCloudStemcell x)) \<or> failed r)
    | None \<Rightarrow> (\<exists>x. r = Ok (Some (NewCloudStemcell x)) \<and> ks = [create_stemcell_call c m]
          \<and> stemcell_key x = (sm_Name m, sm_Version m) \<and> st' = st\<lparr>Stemcells := Stemcells st @ [x]\<rparr>)
        \<or> (failed r \<and> (ks = [] \<or> ks = [create_stemcell_call c m]) \<and> st' = st))"

lemma does_Upload: "does p st (Upload p c es d) (uploads c st (es_manifest es))"
proof -
  let ?m = "es_manifest es"
  let ?R = "\<lambda>r ks st'. case r of
      Ok (x, None) \<Rightarrow> uploads c st ?m (Ok x) ks st'
    | Ok (x, Some e) \<Rightarrow> plain e \<and> uploads c st ?m (Err e) ks st'
    | _ \<Rightarrow> False"
  have new: "does p st (with_error None
          (bnd (wrapf ''creating stemcell (%s %s)'' [AStr (sm_Name ?m), AStr (sm_Version ?m)]
                 (CreateStemcell c (sm_ImagePath ?m) (sm_CloudProperties ?m))) (\<lambda>cid.
           bnd (wrapf ''saving stemcell record in repo (cid=%s, stemcell=%s)'' [AStr cid, ADump]
                 (StemcellRepo_Save p (sm_Name ?m) (sm_Version ?m) cid)) (\<lambda>stemcellRecord.
           ret (Some (NewCloudStemcell stemcellRecord))))))
      (\<lambda>r. ?R (case r of Ok (x, Some e) \<Rightarrow> Ok (x, if is_skip e then None else Some e) | _ \<Rightarrow> r))"
    if n: "stemcell_uploaded st ?m = None"
    by (rule does_with_error, rule does_bnd_wrapf[OF does_cloud(1)], clarsimp,
        rule does_bnd_wrapf[OF does_StemcellRepo_Save])
      (auto intro!: does_ret simp: uploads_def n create_stemcell_call_def plainD)
  have find: "does p st (wrap msg (StemcellRepo_Find p (sm_Name ?m) (sm_Version ?m)))
      (\<lambda>r ks st'. ks = [] \<and> st' = st \<and> (r = Ok (stemcell_uploaded st ?m) \<or> failed r))" for msg
    unfolding wrap_def by (rule does_wrap_last[OF does_finds(5)]) (auto simp: stemcell_uploaded_def)
  have "does p st (stage_run d name (Upload_step p c ?m)) ?R" for name
    unfolding Upload_step_def
  proof (rule does_stage_run, rule does_bnd_attempt[OF find], goal_cases)
    case (1 found ks st')
    then have s: "ks = []" "st' = st" "found = stemcell_uploaded st ?m" by auto
    show ?case
    proof (cases found)
      case None
      then show ?thesis using new s(3) unfolding s(1,2) append_Nil by simp
    next
      case (Some x)
      then show ?thesis using s by (auto intro!: does_ret simp: uploads_def)
    qed
  next
    case (2 e ks st')
    then show ?case by (auto intro!: does_ret simp: uploads_def plainD split: option.splits)
  qed

  then show ?thesis unfolding Upload_def Let_def
    by (rule does_bnd) (auto simp: or_err_def seq_ret seq_fail uploads_def intro!: does_ret does_fail split: prod.splits option.splits)
qed

text \<open>Promoting a stemcell points the state at the record of its name and version, or fails.\<close>

lemma does_PromoteAsCurrent:
  "does p st (PromoteAsCurrent p s) (\<lambda>r ks st'. ks = [] \<and>
     ((r = Ok () \<and> (\<exists>x \<in> set (Stemcells st). stemcell_key x = (cs_Name s, cs_Version s)
          \<and> st' = st\<lparr>CurrentStemcellID := sr_ID x\<rparr>))
      \<or> (failed r \<and> st' = st)))"
  unfolding PromoteAsCurrent_def wrap_def
  by (rule does_bnd_wrapf[OF does_finds(5)], clarsimp, rule does_option, rule does_fail, simp,
      rule does_wrap_last[OF does_StemcellRepo_UpdateCurrent])
    (auto dest!: find_SomeD simp: stemcell_key_def)

end
