(* ===== verification/Frames.thy ===== *)
theory Frames
  imports Vm Stemcell
begin

text \<open>
  What a piece of the deployment code may touch. A journal is a relation between a state of the
  state file, the calls made and the state left behind; \<open>journals p L m\<close> says that \<open>m\<close> returns
  from any state and stays within \<open>L\<close>. When \<open>L\<close> allows doing nothing and is closed under
  sequences (the locale \<open>journal\<close>), this composes by rules without looking at the intermediate
  states. The locale \<open>frame\<close> gives the journals of a set of calls and a relation of states; the
  disk code of the VM is an instance.
\<close>

text \<open>A step that neither calls nor writes.\<close>

definition idle :: "DeploymentState \<Rightarrow> 'a outcome \<Rightarrow> call list \<Rightarrow> DeploymentState \<Rightarrow> bool" where
  "idle st r ks st' \<longleftrightarrow> ks = [] \<and> st' = st \<and> plain_result r"

lemma does_bnd_idle:
  assumes "does p st m (idle st)" "\<And>x. does p st (f x) Q" "\<And>e. plain e \<Longrightarrow> Q (Err e) [] st"
  shows "does p st (bnd m f) Q"
  by (rule does_bnd[OF assms(1)]) (auto simp: idle_def assms(2,3))

lemma does_seq_idle:
  assumes "does p st m (idle st)" "does p st n Q" "\<And>e. plain e \<Longrightarrow> Q (Err e) [] st"
  shows "does p st (seq m n) Q"
  unfolding seq_def using assms by (intro does_bnd_idle)

lemma does_wrapf_idle: "does p st m (\<lambda>r ks st'. ks = [] \<and> st' = st \<and> returns r) \<Longrightarrow> does p st (wrapf msg a m) (idle st)"
  by (rule does_wrapf, erule does_mono) (auto simp: idle_def elim!: returnsE)

definition journals :: "string \<Rightarrow> (DeploymentState \<Rightarrow> call list \<Rightarrow> DeploymentState \<Rightarrow> bool) \<Rightarrow> (world, 'a) prog \<Rightarrow> bool" where
  "journals p L m \<longleftrightarrow> (\<forall>st. does p st m (\<lambda>r. L st))"

lemma journalsD: "journals p L m \<Longrightarrow> does p st m (\<lambda>r. L st)"
  by (simp add: journals_def)

locale journal =
  fixes L :: "DeploymentState \<Rightarrow> call list \<Rightarrow> DeploymentState \<Rightarrow> bool"
  assumes none: "L st [] st" and both: "L s ks t \<Longrightarrow> L t ks' u \<Longrightarrow> L s (ks @ ks') u"
begin

lemma jn_ret: "journals p L (ret x)"
  by (auto simp: journals_def intro: does_ret none)

lemma jn_fail: "journals p L (fail e)"
  by (auto simp: journals_def intro: does_fail none)

lemma jn_check: "journals p L (check b e)"
  by (auto simp: check_def jn_ret jn_fail)

lemma jn_lift_sum: "journals p L (lift_sum x)"
  by (auto simp: journals_def intro!: does_lift_sum none)

lemma jn_or_err: "journals p L (or_err x)"
  by (auto simp: journals_def intro!: does_or_err none)

lemma jn_bnd: "journals p L m \<Longrightarrow> (\<And>x. journals p L (f x)) \<Longrightarrow> journals p L (bnd m f)"
  unfolding journals_def
  by (intro allI, rule does_bnd, blast) (auto intro: does_mono both)

lemma jn_seq: "journals p L m \<Longrightarrow> journals p L n \<Longrightarrow> journals p L (seq m n)"
  unfolding seq_def by (rule jn_bnd)

lemma jn_attempt: "journals p L m \<Longrightarrow> journals p L (attempt m)"
  unfolding journals_def by (auto intro: does_attempt)

lemma jn_wrapf: "journals p L m \<Longrightarrow> journals p L (wrapf msg a m)"
  unfolding journals_def by (auto intro: does_wrapf)

lemma jn_wrap: "journals p L m \<Longrightarrow> journals p L (wrap msg m)"
  unfolding wrap_def by (rule jn_wrapf)

lemma jn_Perform: "journals p L m \<Longrightarrow> journals p L (Perform d n m)"
  unfolding journals_def by (auto intro: does_Perform)

lemma jn_Perform_val: "journals p L m \<Longrightarrow> journals p L (Perform_val d n z m)"
  unfolding journals_def by (auto intro: does_Perform_val)

lemma jn_PerformComplex: "journals p L (f (Suc d)) \<Longrightarrow> journals p L (PerformComplex d n f)"
  unfolding journals_def by (auto intro: does_PerformComplex)

lemma jn_stage_run: "journals p L m \<Longrightarrow> journals p L (stage_run d n m)"
  unfolding journals_def by (auto intro: does_stage_run)

lemma jn_for_each: "(\<And>x. x \<in> set xs \<Longrightarrow> journals p L (f x)) \<Longrightarrow> journals p L (for_each f xs)"
  by (induction xs) (simp_all add: jn_ret jn_seq)

lemma jn_map_prog: "(\<And>x. x \<in> set xs \<Longrightarrow> journals p L (f x)) \<Longrightarrow> journals p L (map_prog f xs)"
  by (induction xs) (simp_all add: jn_ret jn_bnd)

lemma jn_option:
  "(x = None \<Longrightarrow> journals p L m) \<Longrightarrow> (\<And>y. x = Some y \<Longrightarrow> journals p L (f y)) \<Longrightarrow> journals p L (case x of None \<Rightarrow> m | Some y \<Rightarrow> f y)"
  by (cases x) auto

lemma jn_sum:
  "(\<And>e. x = Inl e \<Longrightarrow> journals p L (g e)) \<Longrightarrow> (\<And>y. x = Inr y \<Longrightarrow> journals p L (f y)) \<Longrightarrow> journals p L (case x of Inl e \<Rightarrow> g e | Inr y \<Rightarrow> f y)"
  by (cases x) auto

lemma jn_list:
  "(x = [] \<Longrightarrow> journals p L m) \<Longrightarrow> (\<And>y ys. x = y # ys \<Longrightarrow> journals p L (f y ys)) \<Longrightarrow> journals p L (case x of [] \<Rightarrow> m | y # ys \<Rightarrow> f y ys)"
  by (cases x) auto

lemma jn_pair: "(\<And>a b. x = (a, b) \<Longrightarrow> journals p L (f a b)) \<Longrightarrow> journals p L (case x of (a, b) \<Rightarrow> f a b)"
  by (cases x) auto

lemma jn_if: "(b \<Longrightarrow> journals p L m) \<Longrightarrow> (\<not> b \<Longrightarrow> journals p L n) \<Longrightarrow> journals p L (if b then m else n)"
  by simp

lemmas rules = jn_ret jn_fail jn_check jn_lift_sum jn_or_err jn_bnd jn_seq jn_attempt jn_wrapf jn_wrap
  jn_Perform jn_Perform_val jn_PerformComplex jn_stage_run jn_for_each jn_map_prog jn_option jn_sum jn_list jn_pair jn_if

lemma jn_query:
  assumes "\<And>st. \<exists>x. does p st m (answers_with (x st) st)"
  shows "journals p L m"
  unfolding journals_def
proof
  fix st
  obtain x where "does p st m (answers_with (x st) st)" using assms by blast
  then show "does p st m (\<lambda>r. L st)" by (rule does_mono) (auto simp: answers_with_def none)
qed

end

text \<open>The journal of the calls made, in a set, and of how the state may change.\<close>

definition confined :: "call set \<Rightarrow> (DeploymentState \<Rightarrow> DeploymentState \<Rightarrow> bool) \<Rightarrow> DeploymentState \<Rightarrow> call list \<Rightarrow> DeploymentState \<Rightarrow> bool" where
  "confined K R st ks st' \<longleftrightarrow> set ks \<subseteq> K \<and> R st st'"

abbreviation stays :: "string \<Rightarrow> call set \<Rightarrow> (DeploymentState \<Rightarrow> DeploymentState \<Rightarrow> bool) \<Rightarrow> (world, 'a) prog \<Rightarrow> bool" where
  "stays p K R m \<equiv> journals p (confined K R) m"

lemma stays_def: "stays p K R m \<longleftrightarrow> (\<forall>st. does p st m (\<lambda>r ks st'. set ks \<subseteq> K \<and> R st st'))"
  by (simp add: journals_def confined_def[abs_def])

locale frame =
  fixes R :: "DeploymentState \<Rightarrow> DeploymentState \<Rightarrow> bool"
  assumes refl: "R st st" and trans: "R s t \<Longrightarrow> R t u \<Longrightarrow> R s u"

sublocale frame \<subseteq> touches: journal "confined K R" for K
  by unfold_locales (auto simp: confined_def refl intro: trans)

context frame
begin

text \<open>Requests.\<close>

lemma stays_request_unit: "k \<in> K \<Longrightarrow> stays p K R (request_unit k)"
  unfolding stays_def by (rule allI, rule does_mono[OF does_request_unit]) (auto simp: refl)

lemma stays_cpi:
  assumes "\<And>st. does p st m (\<lambda>r ks st'. ks = [k] \<and> st' = st \<and> cpi_result meth r)" "k \<in> K"
  shows "stays p K R m"
  unfolding stays_def by (rule allI, rule does_mono[OF assms(1)]) (auto simp: refl assms(2))

lemma stays_update:
  assumes "\<And>st. does p st m (\<lambda>r ks st'. updates (f st) st r ks st' \<and> Q r st)" "\<And>st. R st (f st)"
  shows "stays p K R m"
  unfolding stays_def
  by (rule allI, rule does_mono[OF assms(1)]) (auto simp: updates_def assms(2) refl)

end

text \<open>The programs of the disk code change only the disks and which of them is current.\<close>

definition only_disks :: "DeploymentState \<Rightarrow> DeploymentState \<Rightarrow> bool" where
  "only_disks st st' \<longleftrightarrow> (\<exists>ds cur. st' = st\<lparr>Disks := ds, CurrentDiskID := cur\<rparr>)"

interpretation disk_frame: frame only_disks
proof
  show "only_disks st st" for st
    unfolding only_disks_def by (intro exI[of _ "Disks st"] exI[of _ "CurrentDiskID st"]) simp
  show "only_disks s u" if "only_disks s t" "only_disks t u" for s t u
  proof -
    note st = that[unfolded only_disks_def]
    obtain ds1 cur1 where "t = s\<lparr>Disks := ds1, CurrentDiskID := cur1\<rparr>" using st(1) by blast
    moreover obtain ds2 cur2 where "u = t\<lparr>Disks := ds2, CurrentDiskID := cur2\<rparr>" using st(2) by blast
    ultimately have "u = s\<lparr>Disks := ds2, CurrentDiskID := cur2\<rparr>" by simp
    then show ?thesis unfolding only_disks_def by blast
  qed
qed

definition cpi_calls :: "cloud \<Rightarrow> string set \<Rightarrow> call set" where
  "cpi_calls c meths = {k. \<exists>meth args. meth \<in> meths \<and> k = cpi_call c meth args}"

lemma cpi_callsI: "meth \<in> meths \<Longrightarrow> cpi_call c meth args \<in> cpi_calls c meths"
  by (auto simp: cpi_calls_def)

definition disk_calls :: "cloud \<Rightarrow> call set" where
  "disk_calls c = cpi_calls c {''create_disk'', ''attach_disk'', ''detach_disk'', ''delete_disk''}
     \<union> range CallMountDisk \<union> {CallMigrateDisk}"

lemma disk_calls_cpi:
  "meth \<in> {''create_disk'', ''attach_disk'', ''detach_disk'', ''delete_disk''} \<Longrightarrow> cpi_call c meth args \<in> disk_calls c"
  "CallMountDisk d \<in> disk_calls c" "CallMigrateDisk \<in> disk_calls c"
  by (auto simp: disk_calls_def intro: cpi_callsI)

lemma only_disks_simps [simp]:
  "only_disks st (st\<lparr>CurrentDiskID := i\<rparr>)" "only_disks st (st\<lparr>Disks := ds\<rparr>)" "only_disks st (DiskRepo_remove r st)"
  unfolding only_disks_def DiskRepo_remove_def Let_def
  by (rule exI[of _ "Disks st"], rule exI, simp, rule exI, rule exI[of _ "CurrentDiskID st"], simp)
    (cases st, auto)

lemma disk_stays_repo:
  "stays p K only_disks (DiskRepo_Find p cid)" "stays p K only_disks (DiskRepo_FindCurrent p)"
  "stays p K only_disks (DiskRepo_All p)"
  by (rule disk_frame.touches.jn_query, rule exI, rule does_finds)+

lemma disk_stays_update:
  "stays p K only_disks (DiskRepo_Delete p r)" "stays p K only_disks (DiskRepo_UpdateCurrent p i)"
  unfolding stays_def
  by (rule allI, rule does_mono[OF does_updates(4)], auto simp: updates_def disk_frame.refl)
    (rule does_mono[OF does_DiskRepo_UpdateCurrent], auto simp: updates_def disk_frame.refl)

lemma disk_stays_save: "int64 sz \<Longrightarrow> stays p K only_disks (DiskRepo_Save p cid sz props)"
  unfolding stays_def
  by (rule allI, rule does_mono[OF does_DiskRepo_Save]) (auto simp: disk_frame.refl)

lemma disk_stays_cloud:
  "stays p (disk_calls c) only_disks (CreateDisk c sz props vm)"
  "stays p (disk_calls c) only_disks (AttachDisk c vm d)" "stays p (disk_calls c) only_disks (DetachDisk c vm d)"
  "stays p (disk_calls c) only_disks (DeleteDisk c d)"
  by (rule disk_frame.stays_cpi, rule does_cloud, rule disk_calls_cpi, simp)+

lemma disk_stays_agent:
  "stays p (disk_calls c) only_disks (request_unit (CallMountDisk d))"
  "stays p (disk_calls c) only_disks (request_unit CallMigrateDisk)"
  by (rule disk_frame.stays_request_unit, rule disk_calls_cpi)+

lemmas disk_stays = disk_frame.touches.rules disk_stays_repo disk_stays_update disk_stays_save disk_stays_cloud disk_stays_agent

lemma stays_UpdateDisks:
  assumes "int64 (dp_DiskSize pool)"
  shows "stays p (disk_calls c) only_disks (VM_UpdateDisks p c d vm pool)"
  unfolding VM_UpdateDisks_def DiskDeployer_Deploy_def deployNewDisk_def deployExistingDisk_def migrateDisk_def
    createDisk_def attachDisk_def updateCurrentDiskRecord_def DiskManager_FindCurrent_def DiskManager_Create_def
    DiskManager_DeleteUnused_def DiskManager_FindUnused_def Disk_Delete_def skip_not_found_def allow_not_found_def
    VM_AttachDisk_def VM_DetachDisk_def VM_MigrateDisk_def
  by (intro disk_stays assms)

end
