(* ===== verification/Templates.thy ===== *)
theory Templates
  imports Tarball
begin

text \<open>
  Rendering the templates of jobs: templatescompiler/job_evaluation_context.go, job_renderer.go,
  job_list_renderer.go, rendered_job.go, rendered_job_list.go, rendered_job_list_archive.go,
  rendered_job_list_compressor.go and templatescompiler/erbrenderer/erb_renderer.go. The Ruby
  script that evaluates a template is not modelled: what reaches it is its command line and the
  JSON context. Shown: one Ruby run per template and monit file, in order, and what a template
  sees of the four levels of properties.
\<close>

section \<open>The file operations used\<close>

text \<open>
  \<^verbatim>\<open>TempDir\<close>, \<^verbatim>\<open>CopyDir\<close> and \<^verbatim>\<open>CompressFilesInDir\<close> of bosh-utils. What the outside writes (an
  archive, the file Ruby renders) is the first content of the answer.
\<close>

definition TempDir :: "(world, string) prog" where
  "TempDir = TempPath CDir"

definition copy_files :: "string \<Rightarrow> string \<Rightarrow> world \<Rightarrow> world" where
  "copy_files src dst w = w\<lparr>files := (\<lambda>q. if below dst q \<and> files w (src @ drop (length dst) q) \<noteq> None
     then files w (src @ drop (length dst) q) else files w q)\<rparr>"

definition CopyDir :: "string \<Rightarrow> string \<Rightarrow> (world, unit) prog" where
  "CopyDir src dst = bnd (ask a_err) (\<lambda>e. case e of Some x \<Rightarrow> fail x | None \<Rightarrow> modify (copy_files src dst))"

definition first_content :: "(string \<times> content) list \<Rightarrow> content" where
  "first_content fs = (case fs of [] \<Rightarrow> CBytes [] | f # _ \<Rightarrow> snd f)"

definition CompressFilesInDir :: "string \<Rightarrow> (world, string) prog" where
  "CompressFilesInDir dir =
     bnd (request (CallExt ''compressor.CompressFilesInDir'' [dir]) (\<lambda>a. (a_str a, a_files a))) (\<lambda>(r, fs).
     bnd (lift_sum r) (\<lambda>tarball. seq (modify (set_file tarball (first_content fs))) (ret tarball)))"

section \<open>templatescompiler/job\_evaluation\_context.go\<close>

text \<open>The pointer \<^verbatim>\<open>releaseJobProperties\<close> is \<open>None\<close> when it is nil.\<close>

record jobEvaluationContext =
  ec_releaseJob :: Job
  ec_releaseJobProperties :: "gomap option"
  ec_jobProperties :: "gomap option"
  ec_globalProperties :: "gomap option"
  ec_deploymentName :: string
  ec_address :: string

definition propertyDefaults :: "(string \<times> PropertyDefinition) list \<Rightarrow> gomap" where
  "propertyDefaults properties = map (\<lambda>(k, d). (k, pd_Default d)) properties"

definition buildNetworkContexts :: json where
  "buildNetworkContexts = JObj [(''default'', JObj [(''ip'', JStr ''''), (''netmask'', JStr ''''), (''gateway'', JStr '''')])]"

definition Context_MarshalJSON :: "jobEvaluationContext \<Rightarrow> json" where
  "Context_MarshalJSON ec = JObj
     ([(''index'', JNum 0), (''id'', JStr ''unknown''), (''az'', JStr ''unknown''), (''bootstrap'', JBool True),
       (''job'', JObj [(''name'', JStr (jb_Name (ec_releaseJob ec)))]), (''deployment'', JStr (ec_deploymentName ec))]
    @ (if ec_address ec \<noteq> '''' then [(''address'', JStr (ec_address ec))] else [])
    @ [(''networks'', buildNetworkContexts),
       (''global_properties'', marshal_map (ec_globalProperties ec)),
       (''cluster_properties'', marshal_map (ec_jobProperties ec)),
       (''job_properties'', marshal_map (ec_releaseJobProperties ec)),
       (''default_properties'', marshal_map (Some (propertyDefaults (jb_Properties (ec_releaseJob ec)))))])"

section \<open>templatescompiler/erbrenderer/erb\_renderer.go\<close>

text \<open>The script \<^verbatim>\<open>templateEvaluationContextRb\<close> is a constant, here the parameter \<open>script\<close>.\<close>

definition ruby_command :: "string \<Rightarrow> string \<Rightarrow> string \<Rightarrow> command" where
  "ruby_command tmpDir srcPath dstPath =
     \<lparr>cmd_Name = ''ruby'', cmd_Args = [JoinPath [tmpDir, ''erb-render.rb''], JoinPath [tmpDir, ''erb-context.json''], srcPath, dstPath],
      cmd_Env = [], cmd_UseIsolatedEnv = False, cmd_WorkingDir = ''''\<rparr>"

definition run_ruby :: "string \<Rightarrow> string \<Rightarrow> string \<Rightarrow> (world, unit) prog" where
  "run_ruby tmpDir srcPath dstPath =
     bnd (request (CallRun (ruby_command tmpDir srcPath dstPath)) (\<lambda>a. (a_err a, a_files a))) (\<lambda>(err, fs).
     seq (or_err err) (modify (set_file dstPath (first_content fs))))"

definition ERB_Render :: "string \<Rightarrow> string \<Rightarrow> string \<Rightarrow> jobEvaluationContext \<Rightarrow> (world, unit) prog" where
  "ERB_Render script srcPath dstPath context =
     bnd (wrap ''Creating temporary directory'' TempDir) (\<lambda>tmpDir.
     deferred
       (seq (wrap ''Writing renderer script'' (WriteFile (JoinPath [tmpDir, ''erb-render.rb'']) (CBytes script)))
       (seq (wrap ''Writing context'' (WriteFile (JoinPath [tmpDir, ''erb-context.json'']) (CJson (Context_MarshalJSON context))))
            (wrap ''Running ruby to render templates'' (run_ruby tmpDir srcPath dstPath))))
       (RemoveAll tmpDir))"

section \<open>templatescompiler/rendered\_job.go, job\_renderer.go\<close>

record RenderedJob =
  rn_job :: Job
  rn_path :: string

definition RenderedJob_Delete :: "RenderedJob \<Rightarrow> (world, unit) prog" where
  "RenderedJob_Delete j = wrapf ''Deleting rendered job %s tarball %s'' [AStr (jb_Name (rn_job j)), AStr (rn_path j)]
     (RemoveAll (rn_path j))"

definition RenderedJob_DeleteSilently :: "RenderedJob \<Rightarrow> (world, unit) prog" where
  "RenderedJob_DeleteSilently j = silently (RenderedJob_Delete j)"

definition renderFile :: "string \<Rightarrow> string \<Rightarrow> string \<Rightarrow> jobEvaluationContext \<Rightarrow> (world, unit) prog" where
  "renderFile script sourcePath destinationPath context =
     seq (wrapf ''Creating tempdir %s'' [AStr (Dir destinationPath)] (MkdirAll (Dir destinationPath)))
         (wrapf ''Rendering template src: %s, dst: %s'' [AStr sourcePath, AStr destinationPath]
            (ERB_Render script sourcePath destinationPath context))"

text \<open>An error after the directory was made is returned once the directory is deleted.\<close>

definition or_delete :: "RenderedJob \<Rightarrow> (world, unit) prog \<Rightarrow> (world, unit) prog" where
  "or_delete renderedJob m = bnd (attempt m) (\<lambda>r. case r of
      Inr _ \<Rightarrow> ret ()
    | Inl e \<Rightarrow> seq (RenderedJob_DeleteSilently renderedJob) (fail e))"

definition JobRenderer_Render ::
  "string \<Rightarrow> Job \<Rightarrow> gomap option \<Rightarrow> gomap option \<Rightarrow> gomap option \<Rightarrow> string \<Rightarrow> string \<Rightarrow> (world, RenderedJob) prog" where
  "JobRenderer_Render script releaseJob releaseJobProperties jobProperties globalProperties deploymentName address =
     (let context = \<lparr>ec_releaseJob = releaseJob, ec_releaseJobProperties = releaseJobProperties,
            ec_jobProperties = jobProperties, ec_globalProperties = globalProperties,
            ec_deploymentName = deploymentName, ec_address = address\<rparr>;
          sourcePath = jb_ExtractedPath releaseJob in
      bnd (wrap ''Creating rendered job directory'' TempDir) (\<lambda>destinationPath.
      let renderedJob = \<lparr>rn_job = releaseJob, rn_path = destinationPath\<rparr> in
      seq (for_each (\<lambda>(src, dst). or_delete renderedJob
             (wrapf ''Rendering template src: %s, dst: %s'' [AStr src, AStr dst]
               (renderFile script (JoinPath [sourcePath, ''templates'', src]) (JoinPath [destinationPath, dst]) context)))
             (jb_Templates releaseJob))
     (seq (or_delete renderedJob (wrap ''Rendering monit file''
             (renderFile script (JoinPath [sourcePath, ''monit'']) (JoinPath [destinationPath, ''monit'']) context)))
          (ret renderedJob))))"

section \<open>templatescompiler/rendered\_job\_list.go, job\_list\_renderer.go\<close>

text \<open>A list is the rendered jobs it holds; deleting it empties it.\<close>

definition RenderedJobList_Delete :: "RenderedJob list \<Rightarrow> (world, RenderedJob list) prog" where
  "RenderedJobList_Delete js = seq (for_each (\<lambda>j. wrapf ''Deleting rendered job %s'' [AStr (jb_Name (rn_job j))]
     (RenderedJob_Delete j)) js) (ret [])"

definition RenderedJobList_DeleteSilently :: "RenderedJob list \<Rightarrow> (world, unit) prog" where
  "RenderedJobList_DeleteSilently js = for_each RenderedJob_DeleteSilently js"

primrec render_jobs :: "(Job \<Rightarrow> (world, RenderedJob) prog) \<Rightarrow> Job list \<Rightarrow> RenderedJob list \<Rightarrow> (world, RenderedJob list) prog" where
  "render_jobs render [] renderedJobList = ret renderedJobList"
| "render_jobs render (j # js) renderedJobList = bnd (attempt (render j)) (\<lambda>r. case r of
      Inl e \<Rightarrow> seq (RenderedJobList_DeleteSilently renderedJobList)
                 (fail (WrapErrorf e ''Rendering templates for job %s/%s'' [AStr (jb_Name j), AStr (jb_Fingerprint j)]))
    | Inr renderedJob \<Rightarrow> render_jobs render js (renderedJobList @ [renderedJob]))"

definition JobListRenderer_Render ::
  "string \<Rightarrow> Job list \<Rightarrow> (string \<times> gomap option) list \<Rightarrow> gomap option \<Rightarrow> gomap option \<Rightarrow> string \<Rightarrow> string
    \<Rightarrow> (world, RenderedJob list) prog" where
  "JobListRenderer_Render script releaseJobs releaseJobProperties jobProperties globalProperties deploymentName address =
     render_jobs (\<lambda>j. JobRenderer_Render script j
         (case map_of releaseJobProperties (jb_Name j) of None \<Rightarrow> None | Some m \<Rightarrow> m)
         jobProperties globalProperties deploymentName address) releaseJobs []"

section \<open>templatescompiler/rendered\_job\_list\_compressor.go, rendered\_job\_list\_archive.go\<close>

record RenderedJobListArchive =
  ra_list :: "RenderedJob list"
  ra_path :: string
  ra_fingerprint :: string
  ra_sha1 :: string

definition Archive_DeleteSilently :: "RenderedJobListArchive \<Rightarrow> (world, unit) prog" where
  "Archive_DeleteSilently a = silently (wrapf ''Deleting rendered job list archive %s'' [AStr (ra_path a)] (RemoveAll (ra_path a)))"

definition Compress :: "(content list \<Rightarrow> string) \<Rightarrow> RenderedJob list \<Rightarrow> (world, RenderedJobListArchive) prog" where
  "Compress sha1_files list =
     bnd (wrap ''Creating rendered job directory'' TempDir) (\<lambda>renderedJobListDir.
     deferred
       (seq (for_each (\<lambda>j. wrap ''Creating rendered job directory''
               (CopyDir (rn_path j) (JoinPath [renderedJobListDir, jb_Name (rn_job j)]))) list)
       (bnd (wrap ''Calculating templates dir SHA1'' (Calculate sha1_files renderedJobListDir)) (\<lambda>fingerprint.
        bnd (wrap ''Compressing rendered job templates'' (CompressFilesInDir renderedJobListDir)) (\<lambda>archivePath.
        bnd (wrap ''Calculating archived templates SHA1'' (Calculate sha1_files archivePath)) (\<lambda>archiveSHA1.
        ret \<lparr>ra_list = list, ra_path = archivePath, ra_fingerprint = fingerprint, ra_sha1 = archiveSHA1\<rparr>)))))
       (RemoveAll renderedJobListDir))"

section \<open>What is rendered\<close>

text \<open>The sources and destinations of the Ruby runs, in order.\<close>

definition ruby_runs :: "world \<Rightarrow> (string \<times> string) list" where
  "ruby_runs w = concat (map (\<lambda>k. case k of
      CallRun c \<Rightarrow> (case cmd_Args c of [script, context, src, dst] \<Rightarrow> [(src, dst)] | _ \<Rightarrow> []) | _ \<Rightarrow> []) (calls w))"

definition ran :: "world \<Rightarrow> (string \<times> string) list \<Rightarrow> world \<Rightarrow> bool" where
  "ran w rs w' \<longleftrightarrow> ruby_runs w' = ruby_runs w @ rs"

lemma ran_trans: "ran w rs v \<Longrightarrow> ran v rs' w' \<Longrightarrow> ran w (rs @ rs') w'"
  by (simp add: ran_def)

text \<open>\<open>renders m rs\<close>: \<open>m\<close> returns, and when it succeeds the Ruby runs \<open>rs\<close> have been made.\<close>

definition renders :: "(world, 'a) prog \<Rightarrow> (string \<times> string) list \<Rightarrow> ('a \<Rightarrow> bool) \<Rightarrow> bool" where
  "renders m rs P \<longleftrightarrow> (\<forall>w. wp m (\<lambda>r w'. returns r \<and> (\<forall>x. r = Ok x \<longrightarrow> P x \<and> ran w rs w')) w)"

lemma rendersI: "(\<And>w. wp m (\<lambda>r w'. returns r \<and> (\<forall>x. r = Ok x \<longrightarrow> P x \<and> ran w rs w')) w) \<Longrightarrow> renders m rs P"
  by (simp add: renders_def)

lemma rendersD: "renders m rs P \<Longrightarrow> wp m (\<lambda>r w'. returns r \<and> (\<forall>x. r = Ok x \<longrightarrow> P x \<and> ran w rs w')) w"
  by (simp add: renders_def)

lemma renders_bnd: "renders m rs P \<Longrightarrow> (\<And>x. P x \<Longrightarrow> renders (f x) rs' Q) \<Longrightarrow> renders (bnd m f) (rs @ rs') Q"
  by (rule rendersI, rule wp_bnd_rule, erule rendersD)
    (auto intro!: wp_mono[OF rendersD] intro: ran_trans)

lemma renders_seq: "renders m rs P \<Longrightarrow> renders n rs' Q \<Longrightarrow> renders (seq m n) (rs @ rs') Q"
  unfolding seq_def by (rule renders_bnd)

text \<open>The same when nothing is known of the first result, for chaining.\<close>

lemma renders_next:
  "renders m rs (\<lambda>_. True) \<Longrightarrow> (\<And>x. renders (f x) rs' Q) \<Longrightarrow> renders (bnd m f) (rs @ rs') Q"
  "renders m rs (\<lambda>_. True) \<Longrightarrow> renders n rs' Q \<Longrightarrow> renders (seq m n) (rs @ rs') Q"
  by (erule renders_bnd, blast) (erule renders_seq, blast)

lemma renders_wrapf: "renders m rs P \<Longrightarrow> renders (wrapf msg a m) rs P"
  by (rule rendersI, unfold wp_wrapf, rule wp_mono, erule rendersD) (auto split: outcome.splits)

lemma renders_wrap: "renders m rs P \<Longrightarrow> renders (wrap msg m) rs P"
  unfolding wrap_def by (rule renders_wrapf)

lemma renders_ret: "P x \<Longrightarrow> renders (ret x) [] P"
  by (rule rendersI) (simp add: wp_ret ran_def)

lemma renders_deferred:
  assumes m: "renders m rs P" and d: "\<And>w. wp d (\<lambda>r w'. returns r \<and> ran w [] w') w"
  shows "renders (deferred m d) rs P"
proof (rule rendersI, unfold wp_deferred, rule wp_mono, rule rendersD[OF m])
  fix w r w' assume r: "returns r \<and> (\<forall>x. r = Ok x \<longrightarrow> P x \<and> ran w rs w')"
  have "wp d (\<lambda>q w''. case q of Panic s \<Rightarrow> returns (Panic s :: 'a outcome) \<and> (\<forall>x. Panic s = Ok x \<longrightarrow> P x \<and> ran w rs w'')
      | Hang \<Rightarrow> returns (Hang :: 'a outcome) \<and> (\<forall>x. Hang = Ok x \<longrightarrow> P x \<and> ran w rs w'')
      | _ \<Rightarrow> returns r \<and> (\<forall>x. r = Ok x \<longrightarrow> P x \<and> ran w rs w'')) w'"
    by (rule wp_mono[OF d]) (use r in \<open>auto simp: ran_def elim!: returnsE\<close>)
  then show "case r of Hang \<Rightarrow> returns (Hang :: 'a outcome) \<and> (\<forall>x. Hang = Ok x \<longrightarrow> P x \<and> ran w rs w')
      | _ \<Rightarrow> wp d (\<lambda>q w''. case q of Panic s \<Rightarrow> returns (Panic s :: 'a outcome) \<and> (\<forall>x. Panic s = Ok x \<longrightarrow> P x \<and> ran w rs w'')
        | Hang \<Rightarrow> returns (Hang :: 'a outcome) \<and> (\<forall>x. Hang = Ok x \<longrightarrow> P x \<and> ran w rs w'')
        | _ \<Rightarrow> returns r \<and> (\<forall>x. r = Ok x \<longrightarrow> P x \<and> ran w rs w'')) w'"
    using r by (auto elim!: returnsE)
qed

lemma RemoveAll_ran: "wp (RemoveAll p) (\<lambda>r w'. returns r \<and> ran w [] w') w"
  by (auto simp: RemoveAll_def wp_simps Let_def ran_def ruby_runs_def del_files_def split: option.splits)

lemma renders_files: "renders (WriteFile p c) [] (\<lambda>_. True)" "renders (MkdirAll p) [] (\<lambda>_. True)"
  "renders (TempPath c) [] (\<lambda>_. True)"
  by (auto intro!: rendersI simp: WriteFile_def MkdirAll_def TempPath_def wp_simps Let_def ran_def ruby_runs_def set_file_def
      split: option.splits sum.splits)

lemma renders_run_ruby: "renders (run_ruby tmp src dst) [(src, dst)] (\<lambda>_. True)"
  by (rule rendersI) (auto simp: run_ruby_def wp_request wp_simps Let_def ran_def ruby_runs_def ruby_command_def set_file_def
      split: option.splits)

lemma renders_ERB: "renders (ERB_Render script src dst ctx) [(src, dst)] (\<lambda>_. True)"
proof -
  have "renders (ERB_Render script src dst ctx) ([] @ [] @ [] @ [(src, dst)]) (\<lambda>_. True)"
    unfolding ERB_Render_def TempDir_def
    by (intro renders_next renders_wrap renders_files renders_deferred renders_run_ruby RemoveAll_ran)
  then show ?thesis by simp
qed

lemma renders_renderFile: "renders (renderFile script src dst ctx) [(src, dst)] (\<lambda>_. True)"
  using renders_seq[OF renders_wrapf[OF renders_files(2)] renders_wrapf[OF renders_ERB]]
  by (simp add: renderFile_def)

text \<open>An error branch that cleans up and fails.\<close>

lemma renders_catch:
  fixes m :: "(world, 'a) prog" and f :: "'a \<Rightarrow> (world, 'b) prog" and g :: "goerr \<Rightarrow> (world, 'b) prog"
  assumes m: "renders m rs P" and g: "\<And>e w. wp (g e) (\<lambda>r w'. \<exists>e. r = Err e) w" and f: "\<And>x. P x \<Longrightarrow> renders (f x) rs' Q"
  shows "renders (bnd (attempt m) (\<lambda>r. case r of Inl e \<Rightarrow> g e | Inr x \<Rightarrow> f x)) (rs @ rs') Q"
proof (rule rendersI, rule wp_bnd_rule)
  fix w
  show "wp (attempt m) (\<lambda>r w'. \<exists>y. r = Ok y \<and> (\<forall>x. y = Inr x \<longrightarrow> P x \<and> ran w rs w')) w"
    unfolding wp_attempt by (rule wp_mono[OF rendersD[OF m]]) (auto elim!: returnsE)
  fix x :: "goerr + 'a" and w' assume y: "\<exists>y. Ok x = Ok y \<and> (\<forall>z. y = Inr z \<longrightarrow> P z \<and> ran w rs w')"
  show "wp (case x of Inl e \<Rightarrow> g e | Inr x \<Rightarrow> f x) (\<lambda>r w'. returns r \<and> (\<forall>x. r = Ok x \<longrightarrow> Q x \<and> ran w (rs @ rs') w')) w'"
  proof (cases x)
    case (Inl e)
    show ?thesis unfolding Inl sum.case by (rule wp_mono[OF g]) auto
  next
    case (Inr z)
    then have z: "P z" "ran w rs w'" using y by auto
    show ?thesis unfolding Inr sum.case
      by (rule wp_mono[OF rendersD[OF f[OF z(1)]]]) (use z(2) in \<open>auto intro: ran_trans\<close>)
  qed
qed auto

lemma silently_ok: "(\<And>w. wp m (\<lambda>r w'. returns r) w) \<Longrightarrow> wp (silently m) (\<lambda>r w'. r = Ok ()) w"
  unfolding silently_def wp_seq wp_attempt by (rule wp_mono, blast) (auto simp: wp_ret elim!: returnsE)

lemma RemoveAll_returns: "wp (RemoveAll p) (\<lambda>r w'. returns r) w"
  by (auto simp: RemoveAll_def wp_simps Let_def split: option.splits)

lemma DeleteSilently_ok: "wp (RenderedJob_DeleteSilently rj) (\<lambda>r w'. r = Ok ()) w"
  unfolding RenderedJob_DeleteSilently_def RenderedJob_Delete_def
  by (rule silently_ok, unfold wp_wrapf, rule wp_mono[OF RemoveAll_returns]) (auto elim!: returnsE)

lemma ListDeleteSilently_ok: "wp (RenderedJobList_DeleteSilently js) (\<lambda>r w'. r = Ok ()) w"
  unfolding RenderedJobList_DeleteSilently_def
  by (induction js arbitrary: w) (auto simp: wp_ret wp_seq intro!: wp_mono[OF DeleteSilently_ok])

lemma renders_or_delete: "renders m rs (\<lambda>_. True) \<Longrightarrow> renders (or_delete rj m) rs (\<lambda>_. True)"
  unfolding or_delete_def
  by (drule renders_catch[where f = ret and rs' = "[]" and Q = "\<lambda>_. True" and g = "\<lambda>e. seq (RenderedJob_DeleteSilently rj) (fail e)"])
    (auto intro: renders_ret simp: wp_seq wp_fail intro!: wp_mono[OF DeleteSilently_ok])

text \<open>The templates of a job in the order of the map's iteration, and then its monit file.\<close>

definition job_runs :: "Job \<Rightarrow> string \<Rightarrow> (string \<times> string) list" where
  "job_runs j dir = map (\<lambda>(src, dst). (JoinPath [jb_ExtractedPath j, ''templates'', src], JoinPath [dir, dst])) (jb_Templates j)
     @ [(JoinPath [jb_ExtractedPath j, ''monit''], JoinPath [dir, ''monit''])]"

lemma renders_for_each: "(\<And>x. x \<in> set xs \<Longrightarrow> renders (f x) [g x] (\<lambda>_. True)) \<Longrightarrow> renders (for_each f xs) (map g xs) (\<lambda>_. True)"
proof (induction xs)
  case (Cons x xs)
  then have "renders (for_each f (x # xs)) ([g x] @ map g xs) (\<lambda>_. True)"
    unfolding for_each.simps by (intro renders_seq) auto
  then show ?case by simp
qed (simp add: renders_ret)

text \<open>As the directory is only known in the run, the statement is over the rendered job.\<close>

lemma JobRenderer_Render_runs:
  "wp (JobRenderer_Render script j p1 p2 p3 n a)
     (\<lambda>r w'. returns r \<and> (\<forall>rj. r = Ok rj \<longrightarrow> rn_job rj = j \<and> ran w (job_runs j (rn_path rj)) w')) w"
  unfolding JobRenderer_Render_def Let_def TempDir_def
proof (rule wp_bnd_wrap[OF rendersD[OF renders_files(3)]], goal_cases)
  case (1 dir w1)
  let ?rj = "\<lparr>rn_job = j, rn_path = dir\<rparr>" and ?ctx = "\<lparr>ec_releaseJob = j, ec_releaseJobProperties = p1,
      ec_jobProperties = p2, ec_globalProperties = p3, ec_deploymentName = n, ec_address = a\<rparr>"
  have "renders (seq (for_each (\<lambda>(src, dst). or_delete ?rj (wrapf m1 (as src dst)
             (renderFile script (JoinPath [jb_ExtractedPath j, ''templates'', src]) (JoinPath [dir, dst]) ?ctx))) (jb_Templates j))
      (seq (or_delete ?rj (wrap m2 (renderFile script (JoinPath [jb_ExtractedPath j, ''monit'']) (JoinPath [dir, ''monit'']) ?ctx)))
        (ret ?rj))) (map (\<lambda>(src, dst). (JoinPath [jb_ExtractedPath j, ''templates'', src], JoinPath [dir, dst])) (jb_Templates j)
        @ [(JoinPath [jb_ExtractedPath j, ''monit''], JoinPath [dir, ''monit''])] @ []) (\<lambda>x. x = ?rj)" for m1 m2 as
    by (intro renders_next renders_for_each renders_or_delete renders_wrap renders_renderFile renders_ret refl)
      (auto intro!: renders_or_delete renders_wrapf renders_renderFile)
  from rendersD[OF this] show ?case
    by (rule wp_mono) (use 1 in \<open>auto simp: job_runs_def ran_def\<close>)
qed auto

text \<open>A list of jobs.\<close>

lemma render_jobs_runs:
  assumes "\<And>j w. wp (render j) (\<lambda>r w'. returns r \<and> (\<forall>rj. r = Ok rj \<longrightarrow> rn_job rj = j \<and> ran w (job_runs j (rn_path rj)) w')) w"
  shows "wp (render_jobs render js acc) (\<lambda>r w'. returns r \<and> (\<forall>l. r = Ok l \<longrightarrow> (\<exists>new. l = acc @ new \<and> map rn_job new = js
      \<and> ran w (concat (map (\<lambda>rj. job_runs (rn_job rj) (rn_path rj)) new)) w'))) w"
proof (induction js arbitrary: acc w)
  case Nil
  then show ?case by (simp add: wp_ret ran_def)
next
  case (Cons j js)
  show ?case unfolding render_jobs.simps wp_bnd wp_attempt
  proof (rule wp_mono[OF assms[of j w]], goal_cases)
    case (1 r w1)
    show ?case
    proof (cases r)
      case (Ok rj)
      then have rj: "rn_job rj = j" "ran w (job_runs j (rn_path rj)) w1" using 1 by auto
      show ?thesis unfolding Ok
        by simp (rule wp_mono[OF Cons.IH], use rj in \<open>auto simp: ran_def\<close>)
    next
      case (Err e)
      then show ?thesis by (simp add: wp_seq) (rule wp_mono[OF ListDeleteSilently_ok], simp add: wp_fail)
    qed (use 1 in auto)
  qed
qed

lemma JobListRenderer_Render_runs:
  "wp (JobListRenderer_Render script js ps p2 p3 n a) (\<lambda>r w'. returns r \<and> (\<forall>l. r = Ok l \<longrightarrow> map rn_job l = js
      \<and> ran w (concat (map (\<lambda>rj. job_runs (rn_job rj) (rn_path rj)) l)) w')) w"
  unfolding JobListRenderer_Render_def
  by (rule wp_mono[OF render_jobs_runs[OF JobRenderer_Render_runs]]) auto

end
