(* ===== verification/AgentState.thy ===== *)
theory AgentState
  imports Templates Manifest
begin

text \<open>
  The state sent to the agent: deployment/instance/state/state.go and builder.go. The
  dependency compiler of the builder is an argument, as it is in the code; \<open>script\<close> and
  \<open>sha1_files\<close> are those of the templates. Shown: what the apply spec holds, which address the
  templates get, and the panic of \<^verbatim>\<open>networkIp\<close> on a manual network without a static IP.
\<close>

section \<open>deployment/instance/state/state.go\<close>

record NetworkRef =
  nr_Name :: string
  nr_Interface :: gomap

record StateJobRef =
  sj_Name :: string
  sj_Version :: string

record StateBlobRef =
  sb_BlobstoreID :: string
  sb_SHA1 :: string

record StatePackageRef =
  sk_Name :: string
  sk_Version :: string
  sk_Archive :: StateBlobRef

record InstanceState =
  is_deploymentName :: string
  is_name :: string
  is_id :: int
  is_networks :: "NetworkRef list"
  is_renderedJobs :: "StateJobRef list"
  is_compiledPackages :: "StatePackageRef list"
  is_renderedJobListArchive :: StateBlobRef
  is_hash :: string

text \<open>The maps of the apply spec, a later entry of the same name replacing an earlier one.\<close>

definition to_map :: "(string \<times> 'a) list \<Rightarrow> (string \<times> 'a) list" where
  "to_map kvs = fold (\<lambda>(k, v) m. AList.update k v m) kvs []"

definition ToApplySpec :: "InstanceState \<Rightarrow> apply_spec" where
  "ToApplySpec s =
     \<lparr>sp_Deployment = is_deploymentName s, sp_Index = is_id s,
      sp_Networks = to_map (map (\<lambda>n. (nr_Name n, nr_Interface n)) (is_networks s)),
      sp_JobName = is_name s,
      sp_Templates = map (\<lambda>j. \<lparr>ab_Name = sj_Name j, ab_Version = sj_Version j, ab_SHA1 = '''', ab_BlobstoreID = ''''\<rparr>) (is_renderedJobs s),
      sp_Packages = to_map (map (\<lambda>p. (sk_Name p, \<lparr>ab_Name = sk_Name p, ab_Version = sk_Version p,
          ab_SHA1 = sb_SHA1 (sk_Archive p), ab_BlobstoreID = sb_BlobstoreID (sk_Archive p)\<rparr>)) (is_compiledPackages s)),
      sp_ArchiveBlobstoreID = sb_BlobstoreID (is_renderedJobListArchive s),
      sp_ArchiveSHA1 = sb_SHA1 (is_renderedJobListArchive s),
      sp_ConfigurationHash = is_hash s\<rparr>"

section \<open>deployment/instance/state/builder.go\<close>

definition job_missing :: "string \<Rightarrow> goerr" where
  "job_missing jobName = Errorf ''Job %s not found in deployment manifest'' [AStr jobName]"

definition BuildInitialState :: "string \<Rightarrow> int \<Rightarrow> Manifest \<Rightarrow> InstanceState outcome" where
  "BuildInitialState jobName instanceID deploymentManifest = (case FindJobByName deploymentManifest jobName of
      None \<Rightarrow> Err (job_missing jobName)
    | Some deploymentJob \<Rightarrow>
        obind (wrap_outcome ''Finding networks for job %s'' [AStr jobName]
                 (NetworkInterfaces deploymentManifest (mj_Name deploymentJob))) (\<lambda>networkInterfaces.
        Ok \<lparr>is_deploymentName = mf_Name deploymentManifest, is_name = jobName, is_id = instanceID,
            is_networks = map (\<lambda>(n, i). \<lparr>nr_Name = n, nr_Interface = i\<rparr>) networkInterfaces,
            is_renderedJobs = [], is_compiledPackages = [],
            is_renderedJobListArchive = \<lparr>sb_BlobstoreID = '''', sb_SHA1 = ''''\<rparr>, is_hash = ''''\<rparr>))"

definition resolveJobs :: "Release list \<Rightarrow> ReleaseJobRef list \<Rightarrow> goerr + Job list" where
  "resolveJobs releases jobRefs = map_sum_list (\<lambda>j. case JobResolver_Resolve releases (rj_Name j) (rj_Release j) of
      Inl _ \<Rightarrow> Inl (Errorf ''Resolving job %s in release %s'' [AStr (rj_Name j), AStr (rj_Release j)])
    | Inr job \<Rightarrow> Inr job) jobRefs"

text \<open>A type assertion of a value, or of a missing one, to another type panics.\<close>

definition networkIp :: "NetworkRef \<Rightarrow> agent_state \<Rightarrow> string outcome" where
  "networkIp n agentState = (case map_of (nr_Interface n) ''type'' of
      Some (PStr t) \<Rightarrow>
        if t = ''dynamic'' then Ok (case map_of (as_NetworkSpecs agentState) (nr_Name n) of None \<Rightarrow> '''' | Some ip \<Rightarrow> ip)
        else (case map_of (nr_Interface n) ''ip'' of
            Some (PStr ip) \<Rightarrow> Ok ip
          | _ \<Rightarrow> Panic ''interface conversion'')
    | _ \<Rightarrow> Panic ''interface conversion'')"

primrec default_network :: "NetworkRef list \<Rightarrow> agent_state \<Rightarrow> string outcome" where
  "default_network [] agentState = Err (GoError ''Must specify default network'')"
| "default_network (n # ns) agentState = (case map_of (nr_Interface n) ''default'' of
      None \<Rightarrow> default_network ns agentState
    | Some PNil \<Rightarrow> default_network ns agentState
    | Some (PDefaults ds) \<Rightarrow> if ''gateway'' \<in> set ds then networkIp n agentState else default_network ns agentState
    | Some _ \<Rightarrow> Panic ''interface conversion'')"

definition defaultAddress :: "NetworkRef list \<Rightarrow> agent_state \<Rightarrow> string outcome" where
  "defaultAddress networkRefs agentState = (case networkRefs of
      [] \<Rightarrow> Err (GoError ''Must specify network'')
    | [n] \<Rightarrow> networkIp n agentState
    | _ \<Rightarrow> default_network networkRefs agentState)"

record renderedJobs =
  rd_BlobstoreID :: string
  rd_Archive :: RenderedJobListArchive

text \<open>The rendered jobs are deleted at the end, and the archive before them.\<close>

definition renderJobTemplates ::
  "(content list \<Rightarrow> string) \<Rightarrow> string \<Rightarrow> Job list \<Rightarrow> (string \<times> gomap option) list \<Rightarrow> gomap option \<Rightarrow> gomap option
    \<Rightarrow> string \<Rightarrow> string \<Rightarrow> nat \<Rightarrow> (world, renderedJobs option) prog" where
  "renderJobTemplates sha1_files script releaseJobs releaseJobProperties jobProperties globalProperties deploymentName address stage =
     Perform_val stage ''Rendering job templates'' None
       (bnd (JobListRenderer_Render script releaseJobs releaseJobProperties jobProperties globalProperties deploymentName address)
         (\<lambda>renderedJobList. deferred
           (bnd (wrap ''Compressing rendered job templates'' (Compress sha1_files renderedJobList)) (\<lambda>archive. deferred
             (bnd (wrapf ''Uploading rendered job template archive %s to the blobstore'' [AStr (ra_path archive)]
                    (Blobstore_Add (ra_path archive))) (\<lambda>blobID.
              ret (Some \<lparr>rd_BlobstoreID = blobID, rd_Archive = archive\<rparr>)))
             (Archive_DeleteSilently archive)))
           (RenderedJobList_DeleteSilently renderedJobList)))"

definition Builder_Build ::
  "(content list \<Rightarrow> string) \<Rightarrow> string \<Rightarrow> Release list \<Rightarrow> (Job list \<Rightarrow> nat \<Rightarrow> (world, CompiledPackageRef list) prog)
    \<Rightarrow> string \<Rightarrow> int \<Rightarrow> Manifest \<Rightarrow> nat \<Rightarrow> agent_state \<Rightarrow> (world, InstanceState) prog" where
  "Builder_Build sha1_files script releases compile jobName instanceID deploymentManifest stage agentState =
     bnd (wrapf ''Building initial state %s'' [AStr jobName]
            (lift_outcome (BuildInitialState jobName instanceID deploymentManifest))) (\<lambda>initialState.
     bnd (lift_sum (case FindJobByName deploymentManifest jobName of None \<Rightarrow> Inl (job_missing jobName) | Some j \<Rightarrow> Inr j)) (\<lambda>deploymentJob.
     bnd (wrapf ''Resolving jobs for instance %s/%d'' [AStr jobName, AInt instanceID]
            (lift_sum (resolveJobs releases (mj_Templates deploymentJob)))) (\<lambda>releaseJobs.
     let releaseJobProperties = to_map (map (\<lambda>j. (rj_Name j, rj_Properties j)) (mj_Templates deploymentJob)) in
     bnd (lift_outcome (defaultAddress (is_networks initialState) agentState)) (\<lambda>address.
     bnd (wrapf ''Rendering job templates for instance %s/%d'' [AStr jobName, AInt instanceID]
            (renderJobTemplates sha1_files script releaseJobs releaseJobProperties (mj_Properties deploymentJob)
               (mf_Properties deploymentManifest) (mf_Name deploymentManifest) address stage)) (\<lambda>rendered.
     bnd (wrapf ''Compiling job package dependencies for instance %s/%d'' [AStr jobName, AInt instanceID]
            (compile releaseJobs stage)) (\<lambda>compiledPackageRefs.
     case rendered of None \<Rightarrow> panic ''nil pointer dereference''
     | Some r \<Rightarrow> ret
         \<lparr>is_deploymentName = mf_Name deploymentManifest, is_name = jobName, is_id = instanceID,
          is_networks = is_networks initialState,
          is_renderedJobs = map (\<lambda>j. \<lparr>sj_Name = jb_Name j, sj_Version = jb_Fingerprint j\<rparr>) releaseJobs,
          is_compiledPackages = map (\<lambda>c. \<lparr>sk_Name = cpr_Name c, sk_Version = cpr_Version c,
             sk_Archive = \<lparr>sb_BlobstoreID = cpr_BlobstoreID c, sb_SHA1 = cpr_SHA1 c\<rparr>\<rparr>) compiledPackageRefs,
          is_renderedJobListArchive = \<lparr>sb_BlobstoreID = rd_BlobstoreID r, sb_SHA1 = ra_sha1 (rd_Archive r)\<rparr>,
          is_hash = ra_fingerprint (rd_Archive r)\<rparr>))))))"

section \<open>The maps of the spec\<close>

lemma map_of_to_map: "map_of (to_map kvs) = map_of (rev kvs)"
proof -
  have "map_of (fold (\<lambda>(k, v) m. AList.update k v m) kvs m) = map_of m ++ map_of (rev kvs)" for m
    by (induction kvs arbitrary: m) (auto simp: update_conv' fun_eq_iff map_add_def split: option.splits)
  then show ?thesis by (simp add: to_map_def)
qed

section \<open>The address of an instance\<close>

text \<open>What an interface says of its type, address and defaults.\<close>

lemma manual_interface_keeps:
  assumes "manual_interface s m0 = Ok m"
  shows "k \<notin> {''gateway'', ''dns'', ''netmask'', ''cloud_properties''} \<Longrightarrow> map_of m k = map_of m0 k"
  using assms by (auto simp: manual_interface_def Let_def update_conv split: option.splits if_splits prod.splits)

lemma Interface_fields:
  assumes "Interface n ips ds = Ok m"
  shows "map_of m ''type'' = Some (PStr (nw_Type n))"
    "map_of m ''ip'' = (case ips of [] \<Rightarrow> None | ip # _ \<Rightarrow> Some (PStr ip))"
    "map_of m ''default'' = (if ds \<noteq> [] then Some (PDefaults ds) else None)"
proof -
  obtain m1 where m1: "map_of m1 ''type'' = Some (PStr (nw_Type n))" "map_of m1 ''ip'' = None" "map_of m1 ''default'' = None"
    "obind (Ok m1) (\<lambda>m1.
       let m2 = (if nw_Type n = Dynamic \<and> nw_DNS n \<noteq> [] then AList.update ''dns'' (PStrs (nw_DNS n)) m1 else m1);
           m3 = (case ips of [] \<Rightarrow> m2 | ip # ips \<Rightarrow> AList.update ''ip'' (PStr ip) m2)
       in Ok (if ds \<noteq> [] then AList.update ''default'' (PDefaults ds) m3 else m3)) = Ok m"
  proof (cases "nw_Type n = Manual")
    case True
    then obtain s ss m1 where s: "nw_Subnets n = s # ss" "manual_interface s [(''type'', PStr (nw_Type n))] = Ok m1"
      using assms by (auto simp: Interface_def obind_Ok_iff split: list.splits)
    show thesis
      by (rule that[of m1])
        (use assms True s in \<open>auto simp: Interface_def manual_interface_keeps[OF s(2)]\<close>)
  next
    case False
    show thesis
      by (rule that[of "AList.update ''cloud_properties'' (prop_of_map (nw_CloudProperties n)) [(''type'', PStr (nw_Type n))]"])
        (use assms False in \<open>auto simp: Interface_def update_conv\<close>)
  qed
  then show "map_of m ''type'' = Some (PStr (nw_Type n))"
    "map_of m ''ip'' = (case ips of [] \<Rightarrow> None | ip # _ \<Rightarrow> Some (PStr ip))"
    "map_of m ''default'' = (if ds \<noteq> [] then Some (PDefaults ds) else None)"
    by (auto simp: Let_def update_conv split: list.splits if_splits)
qed

text \<open>
  A job with one network: a dynamic one gives the address the agent reports (empty when it
  reports none), any other its first static IP, and a panic when there is none.
\<close>

definition network_type :: "Manifest \<Rightarrow> string \<Rightarrow> string" where
  "network_type d name = (case networkMap d name of None \<Rightarrow> '''' | Some n \<Rightarrow> nw_Type n)"

lemma default_address_single:
  assumes job: "FindJobByName d jobName = Some j" and one: "mj_Networks j = [jn]"
    and built: "BuildInitialState jobName i d = Ok s"
  shows "defaultAddress (is_networks s) agentState =
    (if network_type d (jn_Name jn) = ''dynamic''
     then Ok (case map_of (as_NetworkSpecs agentState) (jn_Name jn) of None \<Rightarrow> '''' | Some ip \<Rightarrow> ip)
     else case jn_StaticIPs jn of ip # _ \<Rightarrow> Ok ip | [] \<Rightarrow> Panic ''interface conversion'')"
proof -
  have name: "FindJobByName d (mj_Name j) = Some j"
    using job by (auto simp: FindJobByName_def find_Some_iff)
  let ?n = "case networkMap d (jn_Name jn) of None \<Rightarrow> zero_network | Some n \<Rightarrow> n"
  obtain iface where iface: "Interface ?n (jn_StaticIPs jn) (jn_Defaults jn) = Ok iface"
    "is_networks s = [\<lparr>nr_Name = jn_Name jn, nr_Interface = AList.update ''default'' (PDefaults [''dns'', ''gateway'']) iface\<rparr>]"
    using built job name one
    by (auto simp: BuildInitialState_def NetworkInterfaces_def obind_Ok_iff wrap_outcome_def Let_def split: outcome.splits)
  have ty: "nw_Type ?n = network_type d (jn_Name jn)" by (simp add: network_type_def zero_network_def split: option.splits)
  show ?thesis
    using Interface_fields[OF iface(1)] ty
    by (auto simp: iface(2) defaultAddress_def networkIp_def update_conv split: list.splits)
qed

section \<open>What is built\<close>

text \<open>The state names the job's templates in the order of the manifest.\<close>

lemma resolveJobs_names: "resolveJobs releases refs = Inr js \<Longrightarrow> map jb_Name js = map rj_Name refs"
proof (induction refs arbitrary: js)
  case (Cons r rs)
  have "jb_Name j = rj_Name r" if "JobResolver_Resolve releases (rj_Name r) (rj_Release r) = Inr j" for j
    using that by (auto simp: JobResolver_Resolve_def Release_FindJobByName_def find_Some_iff split: option.splits)
  then show ?case using Cons
    by (auto simp: resolveJobs_def sbind_Inr_iff split: sum.splits)
qed (simp add: resolveJobs_def)

lemma Builder_Build_names:
  assumes "Builder_Build sha script releases compile jobName i d stage ag w = (Ok s, w')"
  shows "\<exists>j. FindJobByName d jobName = Some j \<and> is_name s = jobName \<and> is_id s = i
    \<and> map sj_Name (is_renderedJobs s) = map rj_Name (mj_Templates j)"
proof -
  obtain j js where j: "FindJobByName d jobName = Some j" "resolveJobs releases (mj_Templates j) = Inr js"
      "is_name s = jobName" "is_id s = i"
      "is_renderedJobs s = map (\<lambda>j. \<lparr>sj_Name = jb_Name j, sj_Version = jb_Fingerprint j\<rparr>) js"
    using assms unfolding Builder_Build_def Let_def
    by (elim bnd_OkE) (auto dest!: wrapf_OkE simp: lift_sum_def ret_def fail_def panic_def split: sum.splits option.splits)
  then show ?thesis using resolveJobs_names[OF j(2)] by (simp add: comp_def)
qed

end
