(* ===== verification/InstallManifest.thy ===== *)
theory InstallManifest
  imports Release
begin

text \<open>
  The installation manifest (installation/manifest/manifest.go, parser.go, validator.go): the
  CPI job, its properties and the registry. The YAML parser is a parameter. Shown: what the
  parser accepts, and that the registry and its properties are filled in exactly when an SSH
  tunnel is configured.
\<close>

section \<open>installation/manifest/manifest.go\<close>

record SSHTunnelConf =
  st_User :: string
  st_Host :: string
  st_Port :: int
  st_Password :: string
  st_PrivateKey :: string

record RegistryConf =
  rg_Username :: string
  rg_Password :: string
  rg_Host :: string
  rg_Port :: int
  rg_SSHTunnel :: SSHTunnelConf

record TemplateRef =
  tr_Name :: string
  tr_Release :: string

record InstallationManifest =
  im_Name :: string
  im_Template :: TemplateRef
  im_Properties :: gomap
  im_Mbus :: string
  im_Registry :: RegistryConf

definition zero_tunnel :: SSHTunnelConf where
  "zero_tunnel = \<lparr>st_User = '''', st_Host = '''', st_Port = 0, st_Password = '''', st_PrivateKey = ''''\<rparr>"

definition zero_registry :: RegistryConf where
  "zero_registry = \<lparr>rg_Username = '''', rg_Password = '''', rg_Host = '''', rg_Port = 0, rg_SSHTunnel = zero_tunnel\<rparr>"

definition Registry_IsEmpty :: "RegistryConf \<Rightarrow> bool" where
  "Registry_IsEmpty r \<longleftrightarrow> r = zero_registry"

definition PopulateRegistry ::
  "string \<Rightarrow> string \<Rightarrow> string \<Rightarrow> int \<Rightarrow> SSHTunnelConf \<Rightarrow> InstallationManifest \<Rightarrow> InstallationManifest" where
  "PopulateRegistry username password host port sshTunnel m =
     m\<lparr>im_Properties := AList.update ''registry''
         (PMap [(''host'', PStr host), (''port'', PInt port), (''username'', PStr username), (''password'', PStr password)])
         (im_Properties m),
       im_Registry := \<lparr>rg_Username = username, rg_Password = password, rg_Host = host, rg_Port = port,
                        rg_SSHTunnel = sshTunnel\<rparr>\<rparr>"

section \<open>installation/manifest/validator.go\<close>

definition InstallationManifest_Validate :: "InstallationManifest \<Rightarrow> ReleaseRef list \<Rightarrow> goerr + unit" where
  "InstallationManifest_Validate m releaseSetManifest =
     (let cpiJobName = tr_Name (im_Template m); cpiReleaseName = tr_Release (im_Template m) in
      multi_error
       (err_if (isBlank cpiJobName) ''cloud_provider.template.name must be provided'' []
      @ err_if (isBlank cpiReleaseName) ''cloud_provider.template.release must be provided'' []
      @ err_if (ReleaseSet_FindByName releaseSetManifest cpiReleaseName = None)
          ''cloud_provider.template.release %s must refer to a release in releases'' [AStr cpiReleaseName]))"

section \<open>installation/manifest/parser.go\<close>

text \<open>What the YAML parser reads.\<close>

record RawInstallation =
  ri_Name :: string
  ri_Template :: TemplateRef
  ri_Properties :: yamlmap
  ri_SSHTunnel :: SSHTunnelConf
  ri_Mbus :: string

definition HasSSHTunnel :: "RawInstallation \<Rightarrow> bool" where
  "HasSSHTunnel i \<longleftrightarrow> ri_SSHTunnel i \<noteq> zero_tunnel"

definition InstallationManifest_Parse ::
  "(content \<Rightarrow> goerr + RawInstallation) \<Rightarrow> string \<Rightarrow> ReleaseRef list \<Rightarrow> (world, InstallationManifest) prog" where
  "InstallationManifest_Parse unmarshal path releaseSetManifest =
     bnd (wrapf ''Reading file %s'' [AStr path] (ReadFile path)) (\<lambda>contents.
     bnd (wrap ''Unmarshalling installation manifest'' (lift_sum (unmarshal contents))) (\<lambda>raw.
     bnd (if st_PrivateKey (ri_SSHTunnel raw) \<noteq> ''''
          then wrap ''Expanding private_key path'' (AbsolutifyPath path (st_PrivateKey (ri_SSHTunnel raw)))
          else ret '''') (\<lambda>privateKey.
     let combo = raw\<lparr>ri_SSHTunnel := (ri_SSHTunnel raw)\<lparr>st_PrivateKey := privateKey\<rparr>\<rparr> in
     bnd (wrapf ''Parsing cloud_provider manifest properties: %#v'' [ADump] (lift_sum (BuildMap (ri_Properties combo)))) (\<lambda>properties.
     let m = \<lparr>im_Name = ri_Name combo, im_Template = ri_Template combo, im_Properties = properties,
              im_Mbus = ri_Mbus combo, im_Registry = zero_registry\<rparr> in
     bnd (if HasSSHTunnel combo
          then bnd (wrap ''Generating registry password'' Generate) (\<lambda>password.
               ret (PopulateRegistry ''registry'' password ''127.0.0.1'' 6901 (ri_SSHTunnel combo) m))
          else ret m) (\<lambda>installationManifest.
     seq (wrap ''Validating installation manifest'' (lift_sum (InstallationManifest_Validate installationManifest releaseSetManifest)))
         (ret installationManifest))))))"

section \<open>What it accepts\<close>

lemma ReleaseSet_FindByName_iff: "ReleaseSet_FindByName rs n \<noteq> None \<longleftrightarrow> n \<in> ref_Name ` set rs"
  by (auto simp: ReleaseSet_FindByName_def find_None_iff image_iff)

lemma InstallationManifest_Validate_iff: "InstallationManifest_Validate m rs = Inr () \<longleftrightarrow>
    \<not> isBlank (tr_Name (im_Template m)) \<and> \<not> isBlank (tr_Release (im_Template m))
    \<and> tr_Release (im_Template m) \<in> ref_Name ` set rs"
  using ReleaseSet_FindByName_iff[of rs] by (auto simp: InstallationManifest_Validate_def Let_def)

text \<open>
  A parsed manifest is valid; its registry is the one served on the fixed local port, with the
  properties that the CPI reads to match, or there is none and the properties are those given.
\<close>

definition registry_property :: "InstallationManifest \<Rightarrow> property" where
  "registry_property m = PMap [(''host'', PStr (rg_Host (im_Registry m))), (''port'', PInt (rg_Port (im_Registry m))),
     (''username'', PStr (rg_Username (im_Registry m))), (''password'', PStr (rg_Password (im_Registry m)))]"

lemma ReadFile_wp: "wp (ReadFile path) (\<lambda>r w'. ticked w w' \<and> returns r \<and> (\<forall>c. r = Ok c \<longrightarrow> files w path = Some c)) w"
  by (auto simp: ReadFile_def wp_simps Let_def split: option.splits content.splits)

lemma AbsolutifyPath_wp: "wp (AbsolutifyPath m f) (\<lambda>r w'. ticked w w' \<and> returns r) w"
  by (auto simp: AbsolutifyPath_def ExpandPath_def wp_simps Let_def split: sum.splits)

definition parsed_from :: "RawInstallation \<Rightarrow> gomap \<Rightarrow> InstallationManifest \<Rightarrow> bool" where
  "parsed_from raw props m \<longleftrightarrow> im_Name m = ri_Name raw \<and> im_Template m = ri_Template raw \<and> im_Mbus m = ri_Mbus raw
     \<and> (ri_SSHTunnel raw = zero_tunnel \<longrightarrow> im_Registry m = zero_registry \<and> im_Properties m = props)
     \<and> (st_Host (ri_SSHTunnel raw) \<noteq> '''' \<longrightarrow> \<not> Registry_IsEmpty (im_Registry m) \<and> rg_Host (im_Registry m) = ''127.0.0.1''
          \<and> map_of (im_Properties m) ''registry'' = Some (registry_property m))"

lemma registry_parsed:
  fixes raw :: RawInstallation and props :: gomap and k :: string
  assumes "ticked w v" "ri_SSHTunnel raw = zero_tunnel \<longrightarrow> k = ''''"
  defines "combo \<equiv> raw\<lparr>ri_SSHTunnel := (ri_SSHTunnel raw)\<lparr>st_PrivateKey := k\<rparr>\<rparr>"
    and "m \<equiv> \<lparr>im_Name = ri_Name (raw\<lparr>ri_SSHTunnel := (ri_SSHTunnel raw)\<lparr>st_PrivateKey := k\<rparr>\<rparr>),
      im_Template = ri_Template (raw\<lparr>ri_SSHTunnel := (ri_SSHTunnel raw)\<lparr>st_PrivateKey := k\<rparr>\<rparr>), im_Properties = props,
      im_Mbus = ri_Mbus (raw\<lparr>ri_SSHTunnel := (ri_SSHTunnel raw)\<lparr>st_PrivateKey := k\<rparr>\<rparr>), im_Registry = zero_registry\<rparr>"
  shows "wp (if HasSSHTunnel combo
          then bnd (wrap ''Generating registry password'' Generate) (\<lambda>password.
               ret (PopulateRegistry ''registry'' password ''127.0.0.1'' 6901 (ri_SSHTunnel combo) m))
          else ret m)
    (\<lambda>r w'. returns r \<and> ticked w w' \<and> (\<forall>m. r = Ok m \<longrightarrow> parsed_from raw props m)) v"
proof -
  have h: "st_Host (ri_SSHTunnel raw) = ''''" if "\<not> HasSSHTunnel combo"
    using that by (auto simp: HasSSHTunnel_def combo_def zero_tunnel_def dest: arg_cong[where f = st_Host])
  have z: "\<not> HasSSHTunnel combo" if "ri_SSHTunnel raw = zero_tunnel"
    using that assms(2) by (simp add: HasSSHTunnel_def combo_def zero_tunnel_def)
  show ?thesis
  proof (cases "HasSSHTunnel combo")
    case True
    then have "parsed_from raw props (PopulateRegistry ''registry'' password ''127.0.0.1'' 6901 (ri_SSHTunnel combo) m)" for password
      using z by (auto simp: parsed_from_def PopulateRegistry_def m_def Registry_IsEmpty_def zero_registry_def
          registry_property_def update_conv)
    then show ?thesis using True assms(1)
      by (auto simp: wp_simps Generate_def Let_def split: sum.splits intro: ticked_trans)
  next
    case False
    then show ?thesis using h assms(1) by (simp add: wp_ret parsed_from_def m_def)
  qed
qed

lemma InstallationManifest_Parse_Ok:
  "wp (InstallationManifest_Parse unmarshal path rs) (\<lambda>r w'. returns r \<and> ticked w w' \<and> (\<forall>m. r = Ok m \<longrightarrow>
      InstallationManifest_Validate m rs = Inr ()
      \<and> (\<exists>c raw props. files w path = Some c \<and> unmarshal c = Inr raw \<and> BuildMap (ri_Properties raw) = Inr props
          \<and> parsed_from raw props m))) w"
  unfolding InstallationManifest_Parse_def
proof (rule wp_bnd_wrapf[OF ReadFile_wp], goal_cases)
  case (1 c w1)
  then have c: "files w path = Some c" "ticked w w1" by auto
  have pk: "wp (if st_PrivateKey (ri_SSHTunnel raw) \<noteq> ''''
      then wrap ''Expanding private_key path'' (AbsolutifyPath path (st_PrivateKey (ri_SSHTunnel raw))) else ret '''')
      (\<lambda>r w'. ticked w w' \<and> returns r \<and> (\<forall>k. r = Ok k \<longrightarrow> ri_SSHTunnel raw = zero_tunnel \<longrightarrow> k = '''')) w1" for raw
    using c(2) by (auto simp: wp_simps zero_tunnel_def intro!: wp_mono[OF AbsolutifyPath_wp] elim!: returnsE intro: ticked_trans)
  show ?case
  proof (rule wp_bnd_wrap[where P = "\<lambda>r w'. w' = w1 \<and> returns r \<and> (\<forall>raw. r = Ok raw \<longrightarrow> unmarshal c = Inr raw)"], goal_cases)
    case (2 raw w2)
    then have raw: "unmarshal c = Inr raw" "w2 = w1" by auto
    show ?case unfolding raw(2) Let_def
    proof (rule wp_bnd_rule[OF pk], goal_cases)
      case (1 k w2)
      then have k: "ticked w w2" "ri_SSHTunnel raw = zero_tunnel \<longrightarrow> k = ''''" by auto
      show ?case
      proof (rule wp_bnd_wrapf[where P = "\<lambda>r w'. w' = w2 \<and> returns r \<and> (\<forall>props. r = Ok props \<longrightarrow> BuildMap (ri_Properties raw) = Inr props)"], goal_cases)
        case (2 props w3)
        then have p: "BuildMap (ri_Properties raw) = Inr props" "w3 = w2" by auto
        show ?case unfolding p(2)
          by (rule wp_bnd_rule[OF registry_parsed[OF k]])
            (use c(1) raw(1) p(1) in \<open>auto simp: wp_simps split: sum.splits\<close>)
      qed (use k in \<open>auto simp: wp_simps split: sum.splits\<close>)
    qed auto
  qed (use c in \<open>auto simp: wp_simps split: sum.splits\<close>)
qed auto

end
