(* ===== verification/Tunnel.thy ===== *)
theory Tunnel
  imports Effects InstallManifest
begin

text \<open>
  The SSH tunnel (deployment/sshtunnel/ssh_tunnel.go) up to the point where \<^verbatim>\<open>Start\<close> reports
  on \<^verbatim>\<open>readyErrCh\<close>, which is what its caller waits for; the forwarding of connections that
  goes on afterwards is not modelled. Shown: dialling ends, and after how many attempts.
\<close>

section \<open>The retry strategy\<close>

record TunnelOptions =
  to_Host :: string
  to_Port :: int
  to_User :: string
  to_PrivateKey :: string
  to_Password :: string
  to_LocalForwardPort :: int
  to_RemoteForwardPort :: int

record sshTunnel =
  tn_connectionRefusedTimeout :: int
  tn_authFailureTimeout :: int
  tn_startDialDelay :: int
  tn_options :: TunnelOptions

record SSHRetryStrategy =
  rt_initialized :: bool
  rt_startTime :: int
  rt_authStartTime :: int

text \<open>The text of the errors that the SSH library makes; other errors contain neither of the texts asked for.\<close>

definition error_contains :: "goerr \<Rightarrow> string \<Rightarrow> bool" where
  "error_contains e s = (case e of External t \<Rightarrow> Contains t s | _ \<Rightarrow> False)"

definition IsRetryable :: "sshTunnel \<Rightarrow> int \<Rightarrow> goerr \<Rightarrow> SSHRetryStrategy \<Rightarrow> bool \<times> SSHRetryStrategy" where
  "IsRetryable t now err s0 =
     (let s = (if rt_initialized s0 then s0
               else \<lparr>rt_initialized = True, rt_startTime = now, rt_authStartTime = now\<rparr>) in
      if error_contains err ''no common algorithms'' then (False, s)
      else if error_contains err ''unable to authenticate'' then (now < rt_authStartTime s + tn_authFailureTimeout t, s)
      else (now < rt_startTime s + tn_connectionRefusedTimeout t, s\<lparr>rt_authStartTime := now\<rparr>))"

section \<open>Starting\<close>

definition show_int :: "int \<Rightarrow> string" where
  "show_int n = (if n < 0 then CHR ''-'' # show_nat (nat (- n)) else show_nat (nat n))"

definition auth_methods :: "TunnelOptions \<Rightarrow> string list" where
  "auth_methods o1 = (if to_PrivateKey o1 \<noteq> '''' then [''publickey''] else [])
     @ (if to_Password o1 \<noteq> '''' then [''keyboard-interactive'', ''password''] else [])"

definition dial_call :: "TunnelOptions \<Rightarrow> call" where
  "dial_call o1 = CallExt ''ssh.Dial'' ([to_Host o1 @ '':'' @ show_int (to_Port o1), to_User o1] @ auth_methods o1)"

text \<open>
  The dialling loop; its fuel is the number of delays that fit into both timeouts, plus two,
  which \<open>dial_loop_returns\<close> shows to be enough.
\<close>

primrec dial_loop :: "nat \<Rightarrow> sshTunnel \<Rightarrow> SSHRetryStrategy \<Rightarrow> (world, unit) prog" where
  "dial_loop 0 t s = (\<lambda>w. (Hang, w))"
| "dial_loop (Suc n) t s = bnd (request (dial_call (tn_options t)) a_err) (\<lambda>err. case err of
      None \<Rightarrow> ret ()
    | Some e \<Rightarrow> bnd Now (\<lambda>now. case IsRetryable t now e s of (retryable, s') \<Rightarrow>
        if \<not> retryable then fail (WrapError e ''Failed to connect to remote server'')
        else seq (Sleep (tn_startDialDelay t)) (dial_loop n t s')))"

definition dial_fuel :: "sshTunnel \<Rightarrow> nat" where
  "dial_fuel t = Suc (Suc (nat ((tn_connectionRefusedTimeout t + tn_authFailureTimeout t) div tn_startDialDelay t)))"

definition parse_key_call :: "TunnelOptions \<Rightarrow> call" where
  "parse_key_call o1 = CallExt ''ssh.ParsePrivateKey'' [to_PrivateKey o1]"

definition listen_call :: "TunnelOptions \<Rightarrow> call" where
  "listen_call o1 = CallExt ''conn.Listen'' [''127.0.0.1:'' @ show_int (to_RemoteForwardPort o1)]"

definition Tunnel_Start :: "sshTunnel \<Rightarrow> (world, unit) prog" where
  "Tunnel_Start t =
     seq (if to_PrivateKey (tn_options t) \<noteq> ''''
          then seq (wrapf ''Reading private key file %s'' [AStr (to_PrivateKey (tn_options t))] (ReadFile (to_PrivateKey (tn_options t))))
                   (wrapf ''Parsing private key file %s'' [AStr (to_PrivateKey (tn_options t))] (request_unit (parse_key_call (tn_options t))))
          else ret ())
    (seq (dial_loop (dial_fuel t) t \<lparr>rt_initialized = False, rt_startTime = 0, rt_authStartTime = 0\<rparr>)
         (wrap ''Listening on remote server'' (request_unit (listen_call (tn_options t)))))"

text \<open>deployment/sshtunnel/ssh_tunnel_factory.go: times in nanoseconds.\<close>

definition NewSSHTunnel :: "TunnelOptions \<Rightarrow> sshTunnel" where
  "NewSSHTunnel options = \<lparr>tn_connectionRefusedTimeout = 300000000000, tn_authFailureTimeout = 120000000000,
     tn_startDialDelay = 500000000, tn_options = options\<rparr>"

section \<open>Dialling ends\<close>

text \<open>
  Once the strategy is initialised, a retryable failure happens before the end of both
  timeouts: authentication failures are counted from the last other failure, which itself
  came within the first timeout.
\<close>

definition retry_inv :: "sshTunnel \<Rightarrow> int \<Rightarrow> SSHRetryStrategy \<Rightarrow> bool" where
  "retry_inv t t0 s \<longleftrightarrow> rt_initialized s \<and> rt_startTime s = t0
     \<and> rt_authStartTime s \<le> t0 + tn_connectionRefusedTimeout t"

lemma IsRetryable_inv:
  assumes "IsRetryable t now e s = (True, s')" "retry_inv t t0 s" "0 \<le> tn_authFailureTimeout t"
  shows "retry_inv t t0 s' \<and> now < t0 + tn_connectionRefusedTimeout t + tn_authFailureTimeout t"
  using assms by (auto simp: IsRetryable_def retry_inv_def Let_def split: if_splits)

lemma IsRetryable_first:
  assumes "IsRetryable t now e s = (True, s')" "\<not> rt_initialized s" "0 \<le> tn_connectionRefusedTimeout t"
  shows "retry_inv t now s'"
  using assms by (auto simp: IsRetryable_def retry_inv_def Let_def split: if_splits)

definition dialled :: "sshTunnel \<Rightarrow> world \<Rightarrow> nat \<Rightarrow> world \<Rightarrow> bool" where
  "dialled t w m w' \<longleftrightarrow> files w' = files w \<and> answers w' = answers w \<and> tick w \<le> tick w'
     \<and> calls w' = calls w @ replicate m (dial_call (tn_options t))"

lemma dialled_step:
  "dialled t (w\<lparr>calls := calls w @ [dial_call (tn_options t)], tick := Suc (tick w), clock := c\<rparr>) m w' \<Longrightarrow> dialled t w (Suc m) w'"
  by (auto simp: dialled_def)

definition dial_post :: "sshTunnel \<Rightarrow> nat \<Rightarrow> world \<Rightarrow> unit outcome \<Rightarrow> world \<Rightarrow> bool" where
  "dial_post t n w r w' \<longleftrightarrow> returns r \<and> plain_result r \<and> (\<exists>m \<le> n. dialled t w m w')"

text \<open>One round: the dial, and what is left when it failed in a way that is tried again.\<close>

lemma dial_round:
  fixes w :: world and t :: sshTunnel
  defines "now \<equiv> clock w + int (a_elapsed (answers w (tick w)))"
  defines "v \<equiv> w\<lparr>calls := calls w @ [dial_call (tn_options t)], tick := Suc (tick w), clock := now + max 0 (tn_startDialDelay t)\<rparr>"
  assumes pl: "plain_answers w"
    and more: "\<And>e s'. IsRetryable t now e s = (True, s') \<Longrightarrow> wp (dial_loop n t s') (dial_post t n v) v"
  shows "wp (dial_loop (Suc n) t s) (dial_post t (Suc n) w) w"
proof -
  let ?w = "w\<lparr>calls := calls w @ [dial_call (tn_options t)], tick := Suc (tick w), clock := now\<rparr>"
  have one: "dialled t w (Suc 0) ?w" by (simp add: dialled_def)
  have nxt: "wp (dial_loop n t s') (dial_post t (Suc n) w) v" if "IsRetryable t now e s = (True, s')" for e s'
  proof (rule wp_mono[OF more[OF that]])
    fix r w' assume "dial_post t n v r w'"
    then obtain m where m: "returns r" "plain_result r" "m \<le> n" "dialled t v m w'" by (auto simp: dial_post_def)
    then have "dialled t w (Suc m) w'" unfolding v_def by (intro dialled_step)
    then show "dial_post t (Suc n) w r w'" using m by (auto simp: dial_post_def)
  qed
  show ?thesis
  proof (cases "a_err (answers w (tick w))")
    case None
    then show ?thesis using one
      by (auto simp: wp_request wp_simps Let_def dial_post_def now_def)
  next
    case (Some e)
    then have "plain e" using plain_answersD(1)[OF pl] by blast
    obtain b s' where r: "IsRetryable t now e s = (b, s')" by fastforce
    show ?thesis using Some r one nxt[of e s'] unfolding v_def
      by (cases b) (auto simp: wp_request wp_simps Let_def Now_def Sleep_def dial_post_def now_def intro: exI[of _ "Suc 0"])
  qed
qed

lemma dial_loop_more:
  assumes "0 < tn_startDialDelay t" "0 \<le> tn_authFailureTimeout t"
  shows "retry_inv t t0 s \<Longrightarrow> plain_answers w \<Longrightarrow> 0 < n \<Longrightarrow>
    t0 + tn_connectionRefusedTimeout t + tn_authFailureTimeout t \<le> clock w + (int n - 1) * tn_startDialDelay t \<Longrightarrow>
    wp (dial_loop n t s) (dial_post t n w) w"
proof (induction n arbitrary: w s)
  case (Suc n)
  let ?T = "t0 + tn_connectionRefusedTimeout t + tn_authFailureTimeout t" and ?d = "tn_startDialDelay t"
  show ?case
  proof (rule dial_round[OF Suc.prems(2)], goal_cases)
    case (1 e s')
    note inv = IsRetryable_inv[OF 1 Suc.prems(1) assms(2)]
    let ?now = "clock w + int (a_elapsed (answers w (tick w)))"
    have "clock w < ?T" using inv by simp
    then have "0 < int n * ?d" using Suc.prems(4) by (simp add: algebra_simps)
    then have n: "0 < n" by (cases n) auto
    have "?T \<le> ?now + ?d + (int n - 1) * ?d" using Suc.prems(4) by (simp add: algebra_simps)
    then show ?case
      using assms(1) by (intro Suc.IH[OF _ _ n]) (use inv Suc.prems(2) in \<open>auto simp: plain_answers_def\<close>)
  qed
qed simp

text \<open>Dialling returns, after at most one attempt per delay in both timeouts together, plus two.\<close>

lemma dial_loop_returns:
  assumes d: "0 < tn_startDialDelay t" and c: "0 \<le> tn_connectionRefusedTimeout t" and a: "0 \<le> tn_authFailureTimeout t"
    and s: "\<not> rt_initialized s" and pl: "plain_answers w"
  shows "wp (dial_loop (dial_fuel t) t s) (dial_post t (dial_fuel t) w) w"
  unfolding dial_fuel_def
proof (rule dial_round[OF pl], goal_cases)
  case (1 e s')
  let ?C = "tn_connectionRefusedTimeout t + tn_authFailureTimeout t" and ?d = "tn_startDialDelay t"
  have "?C \<le> ?d + ?C div ?d * ?d"
    using div_mult_mod_eq[of ?C ?d] pos_mod_bound[OF d, of ?C] by linarith
  moreover have "0 \<le> ?C div ?d" using c a d by (simp add: pos_imp_zdiv_nonneg_iff)
  ultimately show ?case
    by (intro dial_loop_more[OF d a IsRetryable_first[OF 1 s c]])
      (use d pl in \<open>auto simp: plain_answers_def\<close>)
qed

section \<open>Starting a tunnel returns\<close>

lemma does_frame_ex:
  assumes "\<And>w. plain_answers w \<Longrightarrow> wp m (\<lambda>r w'. returns r \<and> files w' = files w \<and> answers w' = answers w \<and> tick w \<le> tick w'
      \<and> (\<exists>ks. calls w' = calls w @ ks \<and> R r ks)) w"
  shows "does p st m (\<lambda>r ks st'. st' = st \<and> R r ks)"
proof (rule doesI, rule wp_mono, rule assms)
  fix w r and w' :: world
  assume s: "state_at p w st"
    and f: "returns r \<and> files w' = files w \<and> answers w' = answers w \<and> tick w \<le> tick w' \<and> (\<exists>ks. calls w' = calls w @ ks \<and> R r ks)"
  then have "state_at p w' st" by (intro state_at_frame[OF s]) simp_all
  then show "returns r \<and> (\<exists>ks st'. moved w ks w' \<and> state_at p w' st' \<and> st' = st \<and> R r ks)"
    using f by (auto simp: moved_def)
qed (simp add: state_at_def)

lemma does_ReadFile: "does p st (ReadFile q) (\<lambda>r ks st'. st' = st \<and> ks = [] \<and> plain_result r)"
  by (rule does_frame_ex) (auto simp: ReadFile_def wp_simps Let_def dest: plain_answersD split: option.splits content.splits)

definition tunnel_calls :: "TunnelOptions \<Rightarrow> call set" where
  "tunnel_calls o1 = {parse_key_call o1, dial_call o1, listen_call o1}"

lemma does_Tunnel_Start:
  "does p st (Tunnel_Start (NewSSHTunnel o1)) (\<lambda>r ks st'. st' = st \<and> plain_result r \<and> set ks \<subseteq> tunnel_calls o1
     \<and> length ks \<le> 844)"
proof -
  have dial: "does p st (dial_loop (dial_fuel (NewSSHTunnel o1)) (NewSSHTunnel o1) \<lparr>rt_initialized = False, rt_startTime = 0, rt_authStartTime = 0\<rparr>)
      (\<lambda>r ks st'. st' = st \<and> plain_result r \<and> set ks \<subseteq> {dial_call o1} \<and> length ks \<le> 842)"
  proof (rule does_frame_ex, rule wp_mono, rule dial_loop_returns)
    fix w r and w' :: world assume "dial_post (NewSSHTunnel o1) (dial_fuel (NewSSHTunnel o1)) w r w'"
    then show "returns r \<and> files w' = files w \<and> answers w' = answers w \<and> tick w \<le> tick w' \<and>
        (\<exists>ks. calls w' = calls w @ ks \<and> plain_result r \<and> set ks \<subseteq> {dial_call o1} \<and> length ks \<le> 842)"
      by (auto simp: dial_post_def dialled_def NewSSHTunnel_def dial_fuel_def)
  qed (simp_all add: NewSSHTunnel_def)
  have opt: "tn_options (NewSSHTunnel o1) = o1" by (simp add: NewSSHTunnel_def)
  have key: "does p st (if to_PrivateKey o1 \<noteq> ''''
          then seq (wrapf m1 a1 (ReadFile (to_PrivateKey o1))) (wrapf m2 a2 (request_unit (parse_key_call o1)))
          else ret ()) (\<lambda>r ks st'. st' = st \<and> plain_result r \<and> set ks \<subseteq> {parse_key_call o1} \<and> length ks \<le> 1)" for m1 m2 a1 a2
    by (rule does_if, rule does_seq_wrapf[OF does_ReadFile], clarsimp, rule does_wrap_last[OF does_request_unit])
      (auto intro!: does_ret)
  show ?thesis unfolding Tunnel_Start_def opt
  proof (rule does_seq[OF key], goal_cases)
    case (1 u ks st')
    then have s: "st' = st" "set ks \<subseteq> {parse_key_call o1}" "length ks \<le> 1" by auto
    show ?case unfolding s(1)
    proof (rule does_seq[OF dial], goal_cases)
      case (1 u ks2 st')
      then have s2: "st' = st" by simp
      show ?case unfolding s2 wrap_def
        by (rule does_wrap_last[OF does_request_unit])
          (use 1 s in \<open>auto simp: tunnel_calls_def\<close>)
    qed (use s in \<open>auto simp: tunnel_calls_def\<close>)
  qed (auto simp: tunnel_calls_def)
qed

end
