(* ===== verification/Instance.thy ===== *)
theory Instance
  imports Frames AgentState Tunnel "HOL-Library.Signed_Division"
begin

text \<open>
  Instances: deployment/instance/instance.go and deployment/instance/manager.go. An instance is
  its job name, number and VM; the cloud \<open>c\<close> and the state file \<open>p\<close> are what its operations
  use, and \<open>build\<close> stands for \<^verbatim>\<open>stateBuilder.Build\<close>. Durations are nanoseconds. Shown: what
  deleting an instance does to the outside and to the records, that a new VM is recorded before
  the code waits for it, and that a watch window below a second waits for nothing.
\<close>

section \<open>deployment/instance/instance.go\<close>

record Instance =
  it_jobName :: string
  it_id :: int
  it_vm :: string

definition Second :: int where "Second = 1000000000"
definition Millisecond :: int where "Millisecond = 1000000"

definition it_name :: "Instance \<Rightarrow> string" where
  "it_name i = it_jobName i @ ''/'' @ show_int (it_id i)"

definition tunnel_options :: "RegistryConf \<Rightarrow> TunnelOptions" where
  "tunnel_options r = \<lparr>to_Host = st_Host (rg_SSHTunnel r), to_Port = st_Port (rg_SSHTunnel r),
     to_User = st_User (rg_SSHTunnel r), to_PrivateKey = st_PrivateKey (rg_SSHTunnel r),
     to_Password = st_Password (rg_SSHTunnel r), to_LocalForwardPort = rg_Port r, to_RemoteForwardPort = rg_Port r\<rparr>"

definition Instance_WaitUntilReady :: "Instance \<Rightarrow> RegistryConf \<Rightarrow> nat \<Rightarrow> (world, unit) prog" where
  "Instance_WaitUntilReady i registryConfig stage =
     Perform stage (''Waiting for the agent on VM '' @ it_vm i @ '' to be ready'')
       (seq (if \<not> Registry_IsEmpty registryConfig
             then wrap ''Starting SSH tunnel'' (Tunnel_Start (NewSSHTunnel (tunnel_options registryConfig)))
             else ret ())
            (VM_WaitUntilReady (600 * Second) (500 * Millisecond)))"

definition Instance_Disks :: "(world, Disk list) prog" where
  "Instance_Disks = wrap ''Listing instance disks'' VM_Disks"

definition Instance_UpdateDisks :: "string \<Rightarrow> cloud \<Rightarrow> Instance \<Rightarrow> Manifest \<Rightarrow> nat \<Rightarrow> (world, Disk list) prog" where
  "Instance_UpdateDisks p c i deploymentManifest stage =
     bnd (wrap ''Getting disk pool'' (lift_sum (DiskPool_of deploymentManifest (it_jobName i)))) (\<lambda>diskPool.
     wrap ''Updating disks'' (VM_UpdateDisks p c stage (it_vm i) diskPool))"

text \<open>
  The watch times are milliseconds; the conversion to a duration and the difference are on 64
  bits, and the division truncates.
\<close>

definition int64_of :: "int \<Rightarrow> int" where
  "int64_of n = sint (of_int n :: 64 word)"

definition watch_attempts :: "WatchTime \<Rightarrow> int" where
  "watch_attempts t = int64_of (int64_of (wt_End t * Millisecond) - int64_of (wt_Start t * Millisecond)) sdiv Second"

definition waitUntilJobsAreRunning :: "Instance \<Rightarrow> WatchTime \<Rightarrow> nat \<Rightarrow> (world, unit) prog" where
  "waitUntilJobsAreRunning i updateWatchTime stage =
     Perform stage (''Waiting for instance '' @ it_name i @ '' to be running'')
       (seq (Sleep (int64_of (wt_Start updateWatchTime * Millisecond)))
            (VM_WaitToBeRunning (watch_attempts updateWatchTime) Second))"

definition UpdateJobs ::
  "(string \<Rightarrow> int \<Rightarrow> Manifest \<Rightarrow> nat \<Rightarrow> agent_state \<Rightarrow> (world, InstanceState) prog) \<Rightarrow> Instance \<Rightarrow> Manifest \<Rightarrow> nat \<Rightarrow> (world, unit) prog" where
  "UpdateJobs build i deploymentManifest stage =
     bnd (wrapf ''Building initial state for instance %s/%d'' [AStr (it_jobName i), AInt (it_id i)]
            (lift_outcome (BuildInitialState (it_jobName i) (it_id i) deploymentManifest))) (\<lambda>initialAgentState.
     seq (wrap ''Applying the initial agent state'' (VM_Apply (ToApplySpec initialAgentState)))
    (bnd (wrapf ''Getting state for instance %s/%d'' [AStr (it_jobName i), AInt (it_id i)] VM_GetState) (\<lambda>resolvedAgentState.
     bnd (wrapf ''Building state for instance %s/%d'' [AStr (it_jobName i), AInt (it_id i)]
            (build (it_jobName i) (it_id i) deploymentManifest stage resolvedAgentState)) (\<lambda>newAgentState.
     seq (Perform stage (''Updating instance '' @ it_name i)
           (seq (wrap ''Stopping the agent'' VM_Stop)
           (seq (wrap ''Applying the agent state'' (VM_Apply (ToApplySpec newAgentState)))
           (seq (wrap ''Running the pre-start script'' (VM_RunScript ''pre-start''))
                (wrap ''Starting the agent'' VM_Start)))))
    (seq (waitUntilJobsAreRunning i (mf_UpdateWatchTime deploymentManifest) stage)
         (Perform stage (''Running the post-start scripts '' @ it_name i)
           (wrap ''Running the post-start script'' (VM_RunScript ''post-start''))))))))"

definition stopJobs :: "Instance \<Rightarrow> nat \<Rightarrow> (world, unit) prog" where
  "stopJobs i stage = Perform stage (''Stopping jobs on instance '' @ it_name i) VM_Stop"

definition unmountDisks :: "Instance \<Rightarrow> nat \<Rightarrow> (world, unit) prog" where
  "unmountDisks i stage =
     bnd (wrapf ''Getting VM %s disks'' [AStr (it_vm i)] VM_Disks) (\<lambda>disks.
     for_each (\<lambda>disk. Perform stage (''Unmounting disk '' @ dk_CID disk)
       (wrapf ''Unmounting disk %s from VM %s'' [AStr (dk_CID disk), AStr (it_vm i)] (VM_UnmountDisk disk))) disks)"

definition shutdown :: "Instance \<Rightarrow> int \<Rightarrow> int \<Rightarrow> nat \<Rightarrow> (world, unit) prog" where
  "shutdown i pingTimeout pingDelay stage =
     bnd (attempt (Perform stage (''Waiting for the agent on VM '' @ it_vm i)
            (wrap ''Agent unreachable'' (VM_WaitUntilReady pingTimeout pingDelay)))) (\<lambda>waitingForAgentErr.
     case waitingForAgentErr of
       Inl e \<Rightarrow> ret ()
     | Inr _ \<Rightarrow> seq (stopJobs i stage) (unmountDisks i stage))"

definition Instance_Delete :: "string \<Rightarrow> cloud \<Rightarrow> Instance \<Rightarrow> int \<Rightarrow> int \<Rightarrow> nat \<Rightarrow> (world, unit) prog" where
  "Instance_Delete p c i pingTimeout pingDelay stage =
     bnd (wrapf ''Checking existance of vm for instance %s/%d'' [AStr (it_jobName i), AInt (it_id i)] (VM_Exists c (it_vm i))) (\<lambda>vmExists.
     seq (if vmExists then shutdown i pingTimeout pingDelay stage else ret ())
         (Perform stage (''Deleting VM '' @ it_vm i)
            (skip_not_found VMNotFoundError ''VM not found'' (VM_Delete p c (it_vm i)))))"

section \<open>deployment/instance/manager.go\<close>

definition InstanceManager_FindCurrent :: "string \<Rightarrow> (world, Instance list) prog" where
  "InstanceManager_FindCurrent p =
     bnd (wrap ''Finding currently deployed instances'' (VmManager_FindCurrent p)) (\<lambda>found.
     ret (case found of None \<Rightarrow> [] | Some vm \<Rightarrow> [\<lparr>it_jobName = ''unknown'', it_id = 0, it_vm = vm\<rparr>]))"

definition InstanceManager_Create ::
  "string \<Rightarrow> cloud \<Rightarrow> string \<Rightarrow> int \<Rightarrow> Manifest \<Rightarrow> CloudStemcell \<Rightarrow> RegistryConf \<Rightarrow> nat \<Rightarrow> (world, Instance \<times> Disk list) prog" where
  "InstanceManager_Create p c jobName id1 deploymentManifest cloudStemcell registryConfig stage =
     bnd (Perform_val stage (''Creating VM for instance '' @ jobName @ ''/'' @ show_int id1 @ '' from stemcell '' @ cs_CID cloudStemcell) ''''
           (bnd (wrap ''Creating VM'' (VmManager_Create p c (cs_CID cloudStemcell) deploymentManifest)) (\<lambda>vm.
            seq (wrapf ''Promoting stemcell as current %s'' [AStr (cs_CID cloudStemcell)] (PromoteAsCurrent p cloudStemcell))
                (ret vm)))) (\<lambda>vm.
     let i = \<lparr>it_jobName = jobName, it_id = id1, it_vm = vm\<rparr> in
     seq (wrap ''Waiting until instance is ready'' (Instance_WaitUntilReady i registryConfig stage))
    (bnd (wrap ''Updating instance disks'' (Instance_UpdateDisks p c i deploymentManifest stage)) (\<lambda>disks.
     ret (i, disks))))"

definition DeleteAll :: "string \<Rightarrow> cloud \<Rightarrow> int \<Rightarrow> int \<Rightarrow> nat \<Rightarrow> (world, unit) prog" where
  "DeleteAll p c pingTimeout pingDelay stage =
     bnd (InstanceManager_FindCurrent p) (\<lambda>instances.
     for_each (\<lambda>i. wrapf ''Deleting existing instance %s/%d'' [AStr (it_jobName i), AInt (it_id i)]
       (Instance_Delete p c i pingTimeout pingDelay stage)) instances)"

section \<open>Waiting for the jobs\<close>

text \<open>
  Within the range of durations, the number of attempts is the number of whole seconds in the
  watch window.
\<close>

lemma int64_of_small: "- (2 ^ 63) \<le> n \<Longrightarrow> n < 2 ^ 63 \<Longrightarrow> int64_of n = n"
  by (simp add: int64_of_def int_word_sint)

lemma watch_attempts_window:
  assumes "0 \<le> wt_Start t" "wt_Start t \<le> wt_End t" "wt_End t < 2 ^ 63 div Millisecond"
  shows "watch_attempts t = (wt_End t - wt_Start t) div 1000"
proof -
  have b: "0 \<le> n * Millisecond \<and> n * Millisecond < 2 ^ 63" if "0 \<le> n" "n \<le> wt_End t" for n
    using that assms(3) by (simp add: Millisecond_def)
  have c: "int64_of (wt_End t * Millisecond) = wt_End t * Millisecond" "int64_of (wt_Start t * Millisecond) = wt_Start t * Millisecond"
    using b[of "wt_End t"] b[of "wt_Start t"] assms(1,2) by (auto intro!: int64_of_small)
  have d: "int64_of (wt_End t * Millisecond - wt_Start t * Millisecond) = (wt_End t - wt_Start t) * Millisecond"
    using b[of "wt_End t"] b[of "wt_Start t"] assms(1,2) by (subst int64_of_small) (auto simp: algebra_simps Millisecond_def)
  have "(wt_End t - wt_Start t) * Millisecond sdiv Second = (wt_End t - wt_Start t) * Millisecond div Second"
    using assms(2) by (cases "wt_End t = wt_Start t") (simp_all add: signed_divide_int_def Millisecond_def Second_def sgn_if)
  also have "\<dots> = (wt_End t - wt_Start t) div 1000"
    by (simp add: Millisecond_def Second_def)
  finally show ?thesis by (simp add: watch_attempts_def c d)
qed

text \<open>
  A success means that the agent has reported a running job, unless the window is shorter than
  a second; then nothing is asked.
\<close>

lemma reported_unseen: "reported_running (w\<lparr>ui := u, simple_mode := s\<rparr>) w' = reported_running w w'"
  "reported_running (w\<lparr>clock := k\<rparr>) w' = reported_running w w'"
  "reported_running w (w'\<lparr>ui := u, simple_mode := s\<rparr>) = reported_running w w'"
  by (simp_all add: reported_running_def)

lemma waits_until_running:
  assumes "plain_answers w"
  shows "wp (waitUntilJobsAreRunning i t stage) (\<lambda>r w'. returns r \<and>
    (r = Ok () \<longrightarrow> watch_attempts t \<le> 0 \<or> reported_running w w')) w"
  unfolding waitUntilJobsAreRunning_def
proof (rule wp_Perform, goal_cases)
  case (1 r)
  show ?case by (simp add: unseen_def reported_unseen)
next
  case (2 u s)
  let ?w = "w\<lparr>ui := u, simple_mode := s\<rparr>"
  let ?v = "?w\<lparr>clock := clock w + max 0 (int64_of (wt_Start t * Millisecond))\<rparr>"
  have "plain_answers ?v" using assms by (simp add: plain_answers_def)
  from get_state_loop[OF this, of None "nat (watch_attempts t)" Second]
  show ?case unfolding wp_seq Sleep_def wp_modify outcome.case VM_WaitToBeRunning_def AttemptRetry_def
    by simp (erule wp_mono, auto simp: plainD reported_running_def elim!: returnsE)
qed

lemma window_below_second:
  assumes "watch_attempts t \<le> 0"
  shows "wp (waitUntilJobsAreRunning i t stage) (\<lambda>r w'. r = Ok () \<and> calls w' = calls w) w"
  unfolding waitUntilJobsAreRunning_def
  by (rule wp_Perform) (use assms in \<open>auto simp: unseen_def Sleep_def VM_WaitToBeRunning_def AttemptRetry_def wp_simps\<close>)

section \<open>Deleting an instance\<close>

definition shutdown_calls :: "call set" where
  "shutdown_calls = {CallPing, CallStop, CallListDisk} \<union> range CallUnmountDisk"

definition shutdown_post :: "DeploymentState \<Rightarrow> unit outcome \<Rightarrow> call list \<Rightarrow> DeploymentState \<Rightarrow> bool" where
  "shutdown_post st r ks st' \<longleftrightarrow> st' = st \<and> plain_result r \<and> set ks \<subseteq> shutdown_calls"

lemma does_VM_WaitUntilReady:
  assumes "0 < delay" "0 \<le> timeout"
  shows "does p st (VM_WaitUntilReady timeout delay) (\<lambda>r ks st'. st' = st \<and> plain_result r \<and> set ks \<subseteq> {CallPing}
    \<and> length ks \<le> Suc (nat (timeout div delay)))"
  unfolding VM_WaitUntilReady_def
proof (rule does_frame_ex, rule wp_mono, rule TimeoutRetry_ping[OF assms])
  fix w r and w' :: world
  assume "returns r \<and> plain_result r \<and> (\<exists>m\<le>Suc (nat (timeout div delay)). only_calls w CallPing m w')"
  then obtain m where "returns r" "plain_result r" "m \<le> Suc (nat (timeout div delay))" "only_calls w CallPing m w'" by blast
  then show "returns r \<and> files w' = files w \<and> answers w' = answers w \<and> tick w \<le> tick w' \<and>
      (\<exists>ks. calls w' = calls w @ ks \<and> plain_result r \<and> set ks \<subseteq> {CallPing} \<and> length ks \<le> Suc (nat (timeout div delay)))"
    by (auto simp: only_calls_def)
qed

lemma does_VM_Disks: "does p st VM_Disks (\<lambda>r ks st'. st' = st \<and> plain_result r \<and> ks = [CallListDisk])"
  unfolding VM_Disks_def
  by (rule does_bnd_wrap[OF does_request_val]) (auto dest: plain_answersD intro!: does_ret)

lemma does_unmount_loop:
  "does p st (for_each (\<lambda>disk. Perform stage (name disk)
       (wrapf msg (as disk) (VM_UnmountDisk disk))) disks) (shutdown_post st)"
proof (induction disks)
  case Nil
  then show ?case by (auto simp: shutdown_post_def intro: does_ret)
next
  case (Cons d ds)
  have one: "does p st (Perform stage (name d) (wrapf msg (as d) (VM_UnmountDisk d))) (shutdown_post st)"
    unfolding VM_UnmountDisk_def
    by (rule does_Perform_unskipped, rule does_wrap_last[OF does_request_unit])
      (auto simp: shutdown_post_def shutdown_calls_def plainD)
  show ?case unfolding for_each.simps
  proof (rule does_seq[OF one], goal_cases)
    case (1 u ks st')
    then show ?case by (auto simp: shutdown_post_def intro!: does_mono[OF Cons.IH])
  qed simp
qed

lemma does_shutdown:
  assumes "0 < pingDelay" "0 \<le> pingTimeout"
  shows "does p st (shutdown i pingTimeout pingDelay stage) (shutdown_post st)"
proof -
  have wait: "does p st (Perform stage name (wrap msg (VM_WaitUntilReady pingTimeout pingDelay))) (shutdown_post st)" for name msg
    unfolding wrap_def
    by (rule does_Perform_unskipped, rule does_wrap_last[OF does_VM_WaitUntilReady[OF assms]])
      (auto simp: shutdown_post_def shutdown_calls_def plainD)
  have stop: "does p st (stopJobs i stage) (shutdown_post st)"
    unfolding stopJobs_def VM_Stop_def wrap_def
    by (rule does_Perform_unskipped, rule does_wrap_last[OF does_request_unit])
      (auto simp: shutdown_post_def shutdown_calls_def plainD)
  have unmount: "does p st (unmountDisks i stage) (shutdown_post st)"
    unfolding unmountDisks_def
  proof (rule does_bnd_wrapf[OF does_VM_Disks], goal_cases)
    case (1 disks ks st')
    then have s: "st' = st" "ks = [CallListDisk]" by auto
    show ?case unfolding s by (rule does_mono[OF does_unmount_loop]) (auto simp: shutdown_post_def shutdown_calls_def)
  qed (auto simp: shutdown_post_def shutdown_calls_def)
  show ?thesis unfolding shutdown_def
  proof (rule does_bnd_attempt[OF wait], goal_cases)
    case (1 u ks st')
    then have s: "st' = st" "set ks \<subseteq> shutdown_calls" by (auto simp: shutdown_post_def)
    show ?case unfolding s(1) sum.case
    proof (rule does_seq[OF stop], goal_cases)
      case (1 u ks2 st')
      then have s2: "st' = st" "set ks2 \<subseteq> shutdown_calls" by (auto simp: shutdown_post_def)
      show ?case unfolding s2(1) by (rule does_mono[OF unmount]) (use s s2 in \<open>auto simp: shutdown_post_def\<close>)
    qed (use s in \<open>auto simp: shutdown_post_def\<close>)
  qed (auto intro!: does_ret simp: shutdown_post_def)
qed

text \<open>
  Deleting an instance: it asks whether the VM exists, shuts it down if so, and then makes
  exactly one \<^verbatim>\<open>delete_vm\<close> call, also for a VM that does not exist. An error before that call
  leaves the records alone; on success the VM and the stemcell are no longer the current ones.
\<close>

definition no_vm :: "DeploymentState \<Rightarrow> DeploymentState" where
  "no_vm st = st\<lparr>CurrentVMCID := '''', CurrentStemcellID := ''''\<rparr>"

definition deletes_vm :: "cloud \<Rightarrow> string \<Rightarrow> DeploymentState \<Rightarrow> unit outcome \<Rightarrow> call list \<Rightarrow> DeploymentState \<Rightarrow> bool" where
  "deletes_vm c vm st r ks st' \<longleftrightarrow> (\<exists>ks0. set ks0 \<subseteq> insert (cpi_call c ''has_vm'' [ArgStr vm]) shutdown_calls \<and>
     ((r = Ok () \<and> ks = ks0 @ [delete_vm_call c vm] \<and> st' = no_vm st)
    \<or> (failed r \<and> ks = ks0 \<and> st' = st)
    \<or> (failed r \<and> ks = ks0 @ [delete_vm_call c vm] \<and> (st' = st \<or> st' = st\<lparr>CurrentVMCID := ''''\<rparr>))))"

lemma does_Instance_Delete:
  assumes "0 < pingDelay" "0 \<le> pingTimeout"
  shows "does p st (Instance_Delete p c i pingTimeout pingDelay stage) (deletes_vm c (it_vm i) st)"
proof -
  let ?has = "cpi_call c ''has_vm'' [ArgStr (it_vm i)]"
  have del: "does p st (Perform stage name (skip_not_found VMNotFoundError msg (VM_Delete p c (it_vm i))))
      (\<lambda>r ks st'. (r = Ok () \<and> ks = [delete_vm_call c (it_vm i)] \<and> st' = no_vm st)
        \<or> (failed r \<and> ks = [delete_vm_call c (it_vm i)] \<and> (st' = st \<or> st' = st\<lparr>CurrentVMCID := ''''\<rparr>)))" for name msg
    by (rule does_skip_not_found, rule does_mono[OF does_VM_Delete]) (auto simp: no_vm_def)
  have down: "does p st (if b then shutdown i pingTimeout pingDelay stage else ret ()) (shutdown_post st)" for b
    by (rule does_if, rule does_shutdown[OF assms], rule does_ret) (simp add: shutdown_post_def)
  have ex: "does p st (VM_Exists c (it_vm i)) (\<lambda>r ks st'. st' = st \<and> plain_result r \<and> ks = [?has])"
    unfolding VM_Exists_def by (rule does_wrap_last[OF does_cloud(3)]) auto
  show ?thesis unfolding Instance_Delete_def
  proof (rule does_bnd_wrapf[OF ex], goal_cases)
    case (1 vmExists ks st')
    then have s: "st' = st" "ks = [?has]" by auto
    show ?case unfolding s
    proof (rule does_seq[OF down], goal_cases)
      case (1 u ks2 st')
      then have s2: "st' = st" "set ks2 \<subseteq> shutdown_calls" by (auto simp: shutdown_post_def)
      show ?case unfolding s2(1)
        by (rule does_mono[OF del])
          (use s2(2) in \<open>auto simp: deletes_vm_def intro!: exI[of _ "?has # ks2"]\<close>)
    next
      case (2 e ks2 st')
      then show ?case by (auto simp: deletes_vm_def shutdown_post_def intro!: exI[of _ "?has # ks2"])
    qed
  qed (auto simp: deletes_vm_def intro!: exI[of _ "[?has]"])
qed

lemma does_DeleteAll:
  assumes "0 < pingDelay" "0 \<le> pingTimeout"
  shows "does p st (DeleteAll p c pingTimeout pingDelay stage) (\<lambda>r ks st'.
    if CurrentVMCID st = '''' then ks = [] \<and> st' = st \<and> (r = Ok () \<or> failed r)
    else deletes_vm c (CurrentVMCID st) st r ks st')"
    (is "does p st _ ?Q")
proof -
  let ?is = "if CurrentVMCID st = '''' then [] else [\<lparr>it_jobName = ''unknown'', it_id = 0, it_vm = CurrentVMCID st\<rparr>]"
  have find: "does p st (InstanceManager_FindCurrent p) (answers_with ?is st)"
  proof -
    have "does p st (wrapf msg [] (VMRepo_FindCurrent p))
        (answers_with (if CurrentVMCID st \<noteq> '''' then Some (CurrentVMCID st) else None) st)" for msg
      by (rule does_wrap_last[OF does_finds(1)]) auto
    then show ?thesis unfolding InstanceManager_FindCurrent_def VmManager_FindCurrent_def wrap_def
      by (rule does_bnd_wrapf) (auto intro!: does_ret)
  qed

  have del: "does p st (wrapf msg as (Instance_Delete p c i pingTimeout pingDelay stage)) (deletes_vm c (it_vm i) st)" for i msg as
    by (rule does_wrap_last[OF does_Instance_Delete[OF assms]]) (auto simp: deletes_vm_def)
  show ?thesis unfolding DeleteAll_def
  proof (rule does_bnd[OF find], goal_cases)
    case (1 js ks st')
    then have s: "js = ?is" "ks = []" "st' = st" by auto
    show ?case
    proof (cases "CurrentVMCID st = ''''")
      case True
      then show ?thesis unfolding s by (simp add: does_ret)
    next
      case False
      have d: "does p st (for_each (\<lambda>i. wrapf ''Deleting existing instance %s/%d'' [AStr (it_jobName i), AInt (it_id i)]
          (Instance_Delete p c i pingTimeout pingDelay stage)) ?is) (deletes_vm c (CurrentVMCID st) st)"
        using False by (simp, intro does_seq[OF del]) (auto intro!: does_ret)
      show ?thesis unfolding s by (rule does_mono[OF d]) (use False in simp)
    qed
  qed (auto simp: deletes_vm_def)
qed

section \<open>Creating an instance\<close>

lemma does_lift_outcome: "returns x \<Longrightarrow> R x [] st \<Longrightarrow> does p st (lift_outcome x) R"
  by (rule doesI) (auto simp: wp_lift_outcome intro!: exI[of _ "[]"])

definition create_vm_call :: "cloud \<Rightarrow> string \<Rightarrow> string \<Rightarrow> ResourcePool \<Rightarrow> (string \<times> gomap) list \<Rightarrow> call" where
  "create_vm_call c ag stem rp nets = cpi_call c ''create_vm'' [ArgStr ag, ArgStr stem, ArgProps (rp_CloudProperties rp), ArgNets nets,
     ArgLocality [], ArgProps (rp_Env rp)]"

text \<open>
  A VM that exists in the cloud after \<^verbatim>\<open>Create\<close> failed is recorded, unless recording it was
  what failed.
\<close>

definition creates_vm :: "cloud \<Rightarrow> DeploymentState \<Rightarrow> string outcome \<Rightarrow> call list \<Rightarrow> DeploymentState \<Rightarrow> bool" where
  "creates_vm c st r ks st' \<longleftrightarrow> set ks \<subseteq> cpi_calls c {''create_vm'', ''set_vm_metadata''} \<and>
     (case r of Ok cid \<Rightarrow> st' = st\<lparr>CurrentVMCID := cid\<rparr>
      | Err e \<Rightarrow> plain e \<and> ((\<exists>cid. st' = st\<lparr>CurrentVMCID := cid\<rparr>)
          \<or> (st' = st \<and> set ks \<subseteq> cpi_calls c {''create_vm''}))
      | _ \<Rightarrow> False)"

lemma cpi_calls_mono: "M \<subseteq> N \<Longrightarrow> cpi_calls c M \<subseteq> cpi_calls c N"
  by (auto simp: cpi_calls_def)

lemma does_VmManager_Create:
  assumes job: "JobName d = Ok jn" and nets: "returns (NetworkInterfaces d jn)"
  shows "does p st (VmManager_Create p c stem d) (creates_vm c st)"
proof -
  have failed: "creates_vm c st (Err (WrapErrorf e m a)) [] st" for e m a by (auto simp: creates_vm_def cpi_calls_def)
  have gen: "does p st (wrapf m a Generate) (idle st)" for m a
    by (rule does_wrapf_idle, rule does_mono[OF does_Generate]) auto

  have meta: "does p st1 (bnd (attempt (SetVMMetadata c cid md)) (\<lambda>r.
       seq (case r of Inr _ \<Rightarrow> ret () | Inl e \<Rightarrow> if cloud_error_type e = Some NotImplementedError then ret ()
              else fail (WrapErrorf e m a)) (ret cid)))
     (\<lambda>r ks st'. st' = st1 \<and> ks = [cpi_call c ''set_vm_metadata'' [ArgStr cid, md]] \<and> (r = Ok cid \<or> failed r))" for st1 cid md m a
    by (rule does_bnd_attempt[OF does_cloud(5)]) (auto intro!: does_ret does_fail simp: seq_ret seq_fail)
  have cr: "cpi_call c ''create_vm'' as \<in> cpi_calls c {''create_vm'', ''set_vm_metadata''}"
    "cpi_call c ''create_vm'' as \<in> cpi_calls c {''create_vm''}"
    "cpi_call c ''set_vm_metadata'' as \<in> cpi_calls c {''create_vm'', ''set_vm_metadata''}" for as
    by (auto intro: cpi_callsI)
  have rec: "does p st (bnd (createAndRecordVm p c ag stem rp ifs) (\<lambda>cid. bnd (attempt (SetVMMetadata c cid md)) (\<lambda>r.
       seq (case r of Inr _ \<Rightarrow> ret () | Inl e \<Rightarrow> if cloud_error_type e = Some NotImplementedError then ret ()
              else fail (WrapErrorf e m a)) (ret cid)))) (creates_vm c st)" for ag rp ifs md m a
    by (rule does_bnd[OF does_createAndRecordVm], rule does_mono[OF meta])
      (auto simp: creates_vm_def cr elim!: returnsE)
  have net: "does p st (wrapf m a (lift_outcome (NetworkInterfaces d jn))) (idle st)" for m a
    by (rule does_wrapf_idle, rule does_lift_outcome[OF nets]) (use nets in simp)
  have rp: "does p st (wrapf m a (lift_sum x)) (idle st)" for m a and x :: "goerr + ResourcePool"
    by (rule does_wrapf_idle, rule does_lift_sum) auto

  have jb: "bnd (lift_outcome (JobName d)) f = f jn" for f :: "string \<Rightarrow> (world, string) prog"
    by (rule ext) (simp add: job bnd_def lift_outcome_def)
  show ?thesis unfolding VmManager_Create_def jb wrap_def
    by (rule does_bnd_idle[OF net], rule does_bnd_idle[OF rp], rule does_bnd_idle[OF gen], rule rec)
      (simp_all add: creates_vm_def)
qed

lemma does_Instance_WaitUntilReady:
  "does p st (Instance_WaitUntilReady i rg stage) (\<lambda>r ks st'. st' = st \<and> plain_result r
     \<and> set ks \<subseteq> insert CallPing (tunnel_calls (tunnel_options rg)))"
proof -
  have tun: "does p st (if b then wrapf m [] (Tunnel_Start (NewSSHTunnel (tunnel_options rg))) else ret ())
      (\<lambda>r ks st'. st' = st \<and> plain_result r \<and> set ks \<subseteq> tunnel_calls (tunnel_options rg))" for b m
    by (rule does_if, rule does_wrap_last[OF does_Tunnel_Start]) (auto intro!: does_ret)
  show ?thesis unfolding Instance_WaitUntilReady_def wrap_def
  proof (rule does_Perform_unskipped, rule does_seq[OF tun], goal_cases)
    case (1 u ks st')
    then have s: "st' = st" "set ks \<subseteq> tunnel_calls (tunnel_options rg)" by auto
    show ?case unfolding s(1)
      by (rule does_mono[OF does_VM_WaitUntilReady]) (use s(2) in \<open>auto simp: Millisecond_def Second_def\<close>)
  qed (auto simp: plainD)
qed

definition create_calls :: "cloud \<Rightarrow> RegistryConf \<Rightarrow> call set" where
  "create_calls c rg = cpi_calls c {''create_vm'', ''set_vm_metadata''} \<union> insert CallPing (tunnel_calls (tunnel_options rg)) \<union> disk_calls c"

text \<open>
  A created instance is the current VM, on the stemcell it was asked for; after that only the
  disks have changed.
\<close>

definition creates_instance :: "cloud \<Rightarrow> RegistryConf \<Rightarrow> CloudStemcell \<Rightarrow> DeploymentState
    \<Rightarrow> (Instance \<times> Disk list) outcome \<Rightarrow> call list \<Rightarrow> DeploymentState \<Rightarrow> bool" where
  "creates_instance c rg stem st r ks st' \<longleftrightarrow> set ks \<subseteq> create_calls c rg \<and> (case r of
      Ok (i, ds) \<Rightarrow> \<exists>x \<in> set (Stemcells st). stemcell_key x = (cs_Name stem, cs_Version stem)
        \<and> only_disks (st\<lparr>CurrentVMCID := it_vm i, CurrentStemcellID := sr_ID x\<rparr>) st'
    | Err e \<Rightarrow> plain e | _ \<Rightarrow> False)"

definition deployable :: "Manifest \<Rightarrow> bool" where
  "deployable d \<longleftrightarrow> (\<exists>jn. JobName d = Ok jn \<and> returns (NetworkInterfaces d jn))
     \<and> (\<forall>dp j. DiskPool_of d j = Inr dp \<longrightarrow> int64 (dp_DiskSize dp))"

lemma does_InstanceManager_Create:
  assumes "deployable d"
  shows "does p st (InstanceManager_Create p c jobName n d stem rg stage) (creates_instance c rg stem st)"
proof -
  obtain jn where jn: "JobName d = Ok jn" "returns (NetworkInterfaces d jn)" using assms by (auto simp: deployable_def)
  have vm: "does p st (Perform_val stage name z
       (bnd (wrapf m [] (VmManager_Create p c (cs_CID stem) d)) (\<lambda>vm. seq (wrapf m2 a2 (PromoteAsCurrent p stem)) (ret vm))))
      (\<lambda>r ks st'. set ks \<subseteq> create_calls c rg \<and> plain_result r \<and> (\<forall>vm. r = Ok vm \<longrightarrow>
         (\<exists>x \<in> set (Stemcells st). stemcell_key x = (cs_Name stem, cs_Version stem)
           \<and> st' = st\<lparr>CurrentVMCID := vm, CurrentStemcellID := sr_ID x\<rparr>)))" for name z m m2 a2
  proof (rule does_Perform_val_unskipped, rule does_bnd_wrapf[OF does_VmManager_Create[OF jn]], goal_cases)
    case (1 vm ks st')
    then have s: "st' = st\<lparr>CurrentVMCID := vm\<rparr>" "set ks \<subseteq> create_calls c rg" by (auto simp: creates_vm_def create_calls_def)
    show ?case unfolding s(1)
      by (rule does_seq_wrapf[OF does_PromoteAsCurrent]) (use s(2) in \<open>auto intro!: does_ret\<close>)
  qed (auto simp: creates_vm_def create_calls_def plainD)
  have disks: "does p st1 (wrapf m [] (Instance_UpdateDisks p c i d stage))
      (\<lambda>r ks st'. set ks \<subseteq> create_calls c rg \<and> plain_result r \<and> only_disks st1 st')" for st1 m i
  proof -
    have "does p st1 (wrapf m2 [] (VM_UpdateDisks p c stage (it_vm i) dp))
        (\<lambda>r ks st'. set ks \<subseteq> create_calls c rg \<and> plain_result r \<and> only_disks st1 st')" if "DiskPool_of d (it_jobName i) = Inr dp" for m2 dp
      by (rule does_wrap_last[OF stays_UpdateDisks[unfolded stays_def, rule_format]])
        (use that assms in \<open>auto simp: deployable_def create_calls_def\<close>)
    note D = this
    have "does p st1 (Instance_UpdateDisks p c i d stage)
        (\<lambda>r ks st'. set ks \<subseteq> create_calls c rg \<and> plain_result r \<and> only_disks st1 st')"
      unfolding Instance_UpdateDisks_def wrap_def
    proof (rule does_bnd_wrapf[where R = "\<lambda>r ks st'. ks = [] \<and> st' = st1 \<and> (\<forall>dp. r = Ok dp \<longrightarrow> DiskPool_of d (it_jobName i) = Inr dp)"])
      show "does p st1 (lift_sum (DiskPool_of d (it_jobName i)))
          (\<lambda>r ks st'. ks = [] \<and> st' = st1 \<and> (\<forall>dp. r = Ok dp \<longrightarrow> DiskPool_of d (it_jobName i) = Inr dp))"
        by (rule does_lift_sum) auto
    qed (auto simp: disk_frame.refl D)
    then show ?thesis by (rule does_wrap_last) auto
  qed
  show ?thesis unfolding InstanceManager_Create_def Let_def wrap_def
  proof (rule does_bnd[OF vm], goal_cases)
    case (1 vm ks st1)
    then obtain x where x: "x \<in> set (Stemcells st)" "stemcell_key x = (cs_Name stem, cs_Version stem)"
        "st1 = st\<lparr>CurrentVMCID := vm, CurrentStemcellID := sr_ID x\<rparr>" and k: "set ks \<subseteq> create_calls c rg" by auto
    show ?case
    proof (rule does_seq_wrapf[OF does_Instance_WaitUntilReady], goal_cases)
      case (1 u ks2 st2)
      then have s2: "st2 = st1" "set ks2 \<subseteq> create_calls c rg" by (auto simp: create_calls_def)
      show ?case unfolding s2(1)
        by (rule does_bnd[OF disks]) (use x k s2 in \<open>auto intro!: does_ret simp: creates_instance_def\<close>)
    qed (use k in \<open>auto simp: creates_instance_def create_calls_def\<close>)
  qed (auto simp: creates_instance_def)
qed

end
