(* ===== verification/Traces.thy ===== *)
theory Traces
  imports AgentState
begin

text \<open>
  The calls a program may make, and that it ends: \<open>adds K m\<close> says that from any world \<open>m\<close> comes to
  an end (it returns or panics), having only appended calls of the set \<open>K\<close>; what the outside is
  going to answer is not the program's to change. The rules follow the
  structure of programs; here they are used for the code that builds the agent's state, which
  never talks to the CPI.
\<close>

named_theorems adds_intros "calls made by the program combinators"

definition adds :: "call set \<Rightarrow> (world, 'a) prog \<Rightarrow> bool" where
  "adds K m \<longleftrightarrow> (\<forall>w. fst (m w) \<noteq> Hang \<and> answers (snd (m w)) = answers w \<and> (\<exists>ks. calls (snd (m w)) = calls w @ ks \<and> set ks \<subseteq> K))"

lemma adds_wp: "adds K m \<longleftrightarrow> (\<forall>w. wp m (\<lambda>r w'. r \<noteq> Hang \<and> answers w' = answers w \<and> (\<exists>ks. calls w' = calls w @ ks \<and> set ks \<subseteq> K)) w)"
  by (simp add: adds_def wp_iff)

lemma addsD: "adds K m \<Longrightarrow> wp m (\<lambda>r w'. r \<noteq> Hang \<and> answers w' = answers w \<and> (\<exists>ks. calls w' = calls w @ ks \<and> set ks \<subseteq> K)) w"
  by (simp add: adds_wp)

lemma adds_run: "adds K m \<Longrightarrow> m w = (r, w') \<Longrightarrow> \<exists>ks. calls w' = calls w @ ks \<and> set ks \<subseteq> K"
  unfolding adds_def by (metis snd_conv)

lemma adds_answers: "adds K m \<Longrightarrow> m w = (r, w') \<Longrightarrow> answers w' = answers w"
  unfolding adds_def by (metis snd_conv)

lemma adds_ends: "adds K m \<Longrightarrow> m w = (r, w') \<Longrightarrow> r \<noteq> Hang"
  unfolding adds_def by (metis fst_conv)

lemma adds_mono: "adds K m \<Longrightarrow> K \<subseteq> L \<Longrightarrow> adds L m"
  unfolding adds_def by blast

lemma adds_basic [adds_intros]:
  "adds K (ret x)" "adds K (fail e)" "adds K (panic s)" "adds K (gets f)" "adds K (lift_sum z)"
  "adds K (check b e)" "adds K (or_err oe)" "adds K (ask g)" "adds K Now"
  by (auto simp: adds_wp wp_simps Now_def Let_def split: sum.splits option.splits)

lemma adds_lift_outcome [adds_intros]: "r \<noteq> Hang \<Longrightarrow> adds K (lift_outcome r)"
  by (simp add: adds_def lift_outcome_def)

text \<open>The computations without effects all end.\<close>

lemma obind_ends: "r \<noteq> Hang \<Longrightarrow> (\<And>x. f x \<noteq> Hang) \<Longrightarrow> obind r f \<noteq> Hang"
  by (cases r) simp_all

lemma wrap_outcome_ends: "r \<noteq> Hang \<Longrightarrow> wrap_outcome m a r \<noteq> Hang"
  by (cases r) simp_all

lemma Interface_ends: "Interface n ips ds \<noteq> Hang"
  unfolding Interface_def Let_def manual_interface_def by (rule obind_ends) (auto split: list.splits option.splits)

lemma NetworkInterfaces_ends: "NetworkInterfaces d jobName \<noteq> Hang"
proof -
  have "interfaces_loop nets jns m \<noteq> Hang" for nets jns m
    by (induction jns arbitrary: m) (simp_all add: Let_def obind_ends wrap_outcome_ends Interface_ends)
  then show ?thesis unfolding NetworkInterfaces_def by (simp add: obind_ends split: option.split)
qed

lemma BuildInitialState_ends: "BuildInitialState jobName i d \<noteq> Hang"
  unfolding BuildInitialState_def
  by (simp add: obind_ends wrap_outcome_ends NetworkInterfaces_ends split: option.split)

lemma defaultAddress_ends: "defaultAddress ns ag \<noteq> Hang"
proof -
  have ip: "networkIp n ag \<noteq> Hang" for n unfolding networkIp_def by (auto split: option.split property.split)
  have "default_network ms ag \<noteq> Hang" for ms by (induction ms) (auto simp: ip split: option.split property.split)
  then show ?thesis unfolding defaultAddress_def using ip by (simp del: default_network.simps split: list.split)
qed

lemma JobName_ends: "JobName d \<noteq> Hang"
  by (simp add: JobName_def split: list.split)

lemmas outcome_ends = NetworkInterfaces_ends BuildInitialState_ends defaultAddress_ends JobName_ends

lemmas adds_outcome_ends [adds_intros] = outcome_ends [THEN adds_lift_outcome]

lemma adds_modify: "(\<And>w. calls (f w) = calls w \<and> answers (f w) = answers w) \<Longrightarrow> adds K (modify f)"
  by (simp add: adds_wp wp_modify)

lemma adds_bnd [adds_intros]:
  assumes "adds K m" "\<And>x. adds K (f x)"
  shows "adds K (bnd m f)"
  unfolding adds_wp
proof
  fix w :: world
  have "\<exists>ks. calls w'' = calls w @ ks \<and> set ks \<subseteq> K" if "calls w' = calls w @ ks" "set ks \<subseteq> K"
    "\<exists>ks. calls w'' = calls w' @ ks \<and> set ks \<subseteq> K" for w' w'' :: world and ks
    using that by auto
  then show "wp (bnd m f) (\<lambda>r w'. r \<noteq> Hang \<and> answers w' = answers w \<and> (\<exists>ks. calls w' = calls w @ ks \<and> set ks \<subseteq> K)) w"
    by (intro wp_bnd_rule[OF addsD[OF assms(1)]]) (auto intro!: wp_mono[OF addsD[OF assms(2)]])
qed

text \<open>What follows a program need only be considered for the results it can have.\<close>

lemma adds_bnd_result:
  assumes "adds K m" "\<And>w x w'. m w = (Ok x, w') \<Longrightarrow> adds K (f x)"
  shows "adds K (bnd m f)"
  unfolding adds_wp
proof
  fix w :: world
  have "wp m (\<lambda>r w'. r \<noteq> Hang \<and> answers w' = answers w \<and> (\<exists>ks. calls w' = calls w @ ks \<and> set ks \<subseteq> K) \<and> (\<forall>x. r = Ok x \<longrightarrow> adds K (f x))) w"
    by (rule wpI, intro conjI allI impI)
      (auto dest: adds_run[OF assms(1)] adds_ends[OF assms(1)] adds_answers[OF assms(1)] intro: assms(2))
  then show "wp (bnd m f) (\<lambda>r w'. r \<noteq> Hang \<and> answers w' = answers w \<and> (\<exists>ks. calls w' = calls w @ ks \<and> set ks \<subseteq> K)) w"
  proof (rule wp_bnd_rule, elim conjE exE, goal_cases)
    case (1 x w' ks)
    have "\<exists>ks. calls w'' = calls w @ ks \<and> set ks \<subseteq> K" if "\<exists>ks. calls w'' = calls w' @ ks \<and> set ks \<subseteq> K" for w'' :: world
      using that 1 by auto
    then show ?case using 1 by (intro wp_mono[OF addsD[of K "f x"]]) auto
  qed auto
qed

lemma adds_seq [adds_intros]: "adds K m \<Longrightarrow> adds K n \<Longrightarrow> adds K (seq m n)"
  unfolding seq_def by (rule adds_bnd)

lemma adds_same: "(\<And>w. snd (m' w) = snd (m w) \<and> (fst (m w) \<noteq> Hang \<longrightarrow> fst (m' w) \<noteq> Hang)) \<Longrightarrow> adds K m \<Longrightarrow> adds K m'"
  by (simp add: adds_def)

lemma adds_attempt [adds_intros]: "adds K m \<Longrightarrow> adds K (attempt m)"
  by (erule adds_same[rotated]) (auto simp: attempt_def split: prod.splits outcome.splits)

lemma adds_wrapf [adds_intros]: "adds K m \<Longrightarrow> adds K (wrapf msg a m)"
  by (erule adds_same[rotated]) (auto simp: wrapf_def split: prod.splits outcome.splits)

lemma adds_wrap [adds_intros]: "adds K m \<Longrightarrow> adds K (wrap msg m)"
  unfolding wrap_def by (rule adds_wrapf)

lemma adds_deferred [adds_intros]:
  assumes m: "adds K m" and d: "adds K d"
  shows "adds K (deferred m d)"
  unfolding adds_def
proof
  fix w
  obtain ks1 where 1: "calls (snd (m w)) = calls w @ ks1" "set ks1 \<subseteq> K" using m unfolding adds_def by blast
  obtain ks2 where 2: "calls (snd (d (snd (m w)))) = calls (snd (m w)) @ ks2" "set ks2 \<subseteq> K" using d unfolding adds_def by blast
  have "snd (deferred m d w) = snd (m w) \<or> snd (deferred m d w) = snd (d (snd (m w)))"
    by (auto simp: deferred_def split: prod.splits outcome.splits)
  moreover have "answers (snd (m w)) = answers w" "answers (snd (d (snd (m w)))) = answers w"
    using m d by (simp_all add: adds_def)
  moreover have "fst (m w) \<noteq> Hang" "fst (d (snd (m w))) \<noteq> Hang" using m d by (simp_all add: adds_def)
  then have "fst (deferred m d w) \<noteq> Hang"
    by (auto simp: deferred_def split: prod.splits outcome.splits)
  ultimately show "fst (deferred m d w) \<noteq> Hang \<and> answers (snd (deferred m d w)) = answers w \<and> (\<exists>ks. calls (snd (deferred m d w)) = calls w @ ks \<and> set ks \<subseteq> K)"
    using 1 2 by (auto intro: exI[of _ "ks1 @ ks2"])
qed

lemma adds_if [adds_intros]: "(b \<Longrightarrow> adds K m) \<Longrightarrow> (\<not> b \<Longrightarrow> adds K n) \<Longrightarrow> adds K (if b then m else n)"
  by simp

lemma adds_option [adds_intros]:
  "(x = None \<Longrightarrow> adds K m) \<Longrightarrow> (\<And>y. x = Some y \<Longrightarrow> adds K (f y)) \<Longrightarrow> adds K (case x of None \<Rightarrow> m | Some y \<Rightarrow> f y)"
  by (cases x) auto

lemma adds_sum [adds_intros]:
  "(\<And>e. x = Inl e \<Longrightarrow> adds K (g e)) \<Longrightarrow> (\<And>y. x = Inr y \<Longrightarrow> adds K (f y)) \<Longrightarrow> adds K (case x of Inl e \<Rightarrow> g e | Inr y \<Rightarrow> f y)"
  by (cases x) auto

lemma adds_pair [adds_intros]: "(\<And>a b. x = (a, b) \<Longrightarrow> adds K (f a b)) \<Longrightarrow> adds K (case x of (a, b) \<Rightarrow> f a b)"
  by (cases x) auto

lemma adds_list [adds_intros]:
  "(x = [] \<Longrightarrow> adds K m) \<Longrightarrow> (\<And>y ys. x = y # ys \<Longrightarrow> adds K (f y ys)) \<Longrightarrow> adds K (case x of [] \<Rightarrow> m | y # ys \<Rightarrow> f y ys)"
  by (cases x) auto

lemma adds_content [adds_intros]:
  "(\<And>j. x = CJson j \<Longrightarrow> adds K (f j)) \<Longrightarrow> (\<And>b. x = CBytes b \<Longrightarrow> adds K (g b)) \<Longrightarrow> (x = CDir \<Longrightarrow> adds K m)
    \<Longrightarrow> adds K (case x of CJson j \<Rightarrow> f j | CBytes b \<Rightarrow> g b | CDir \<Rightarrow> m)"
  by (cases x) auto

lemma adds_for_each [adds_intros]: "(\<And>x. x \<in> set xs \<Longrightarrow> adds K (f x)) \<Longrightarrow> adds K (for_each f xs)"
  by (induction xs) (simp_all add: adds_basic adds_seq)

lemma adds_map_prog [adds_intros]: "(\<And>x. x \<in> set xs \<Longrightarrow> adds K (f x)) \<Longrightarrow> adds K (map_prog f xs)"
  by (induction xs) (simp_all add: adds_basic adds_bnd)

section \<open>Requests, files and stages\<close>

lemma adds_request [adds_intros]: "k \<in> K \<Longrightarrow> adds K (request k f)"
  by (auto simp: adds_wp wp_request wp_simps Let_def)

lemma adds_requests [adds_intros]:
  "k \<in> K \<Longrightarrow> adds K (request_val k g)" "k \<in> K \<Longrightarrow> adds K (request_unit k)"
  "CallExt f args \<in> K \<Longrightarrow> adds K (ext f args)" "CallExt f args \<in> K \<Longrightarrow> adds K (ext_unit f args)"
  unfolding request_val_def request_unit_def ext_def ext_unit_def by (intro adds_intros, assumption)+

lemma adds_files [adds_intros]:
  "adds K (ReadFile p)" "adds K (WriteFile p c)" "adds K (RemoveAll p)" "adds K (MkdirAll p)" "adds K (FileExists p)"
  "adds K (RenameFile p q)" "adds K (TempPath c)" "adds K (OpenFile p)" "adds K TempDir" "adds K (CopyDir p q)"
  "adds K Generate" "adds K (Sleep d)" "adds K (put_ui e)"
  unfolding ReadFile_def WriteFile_def RemoveAll_def MkdirAll_def FileExists_def RenameFile_def TempPath_def OpenFile_def
    TempDir_def CopyDir_def Generate_def Sleep_def put_ui_def
  by (intro adds_intros adds_modify; simp add: set_file_def del_files_def copy_files_def)+

lemma adds_silently [adds_intros]: "adds K m \<Longrightarrow> adds K (silently m)"
  unfolding silently_def by (intro adds_intros)

lemma adds_lines [adds_intros]: "adds K (PrintLinef d s)" "adds K (BeginLinef d s)" "adds K (EndLinef d s)" "adds K (elapsedSince t)"
  "adds K (set_simple_mode d b)"
  unfolding PrintLinef_def BeginLinef_def EndLinef_def elapsedSince_def set_simple_mode_def
  by (intro adds_intros adds_modify; simp)+

lemma adds_stage_run [adds_intros]: "adds K m \<Longrightarrow> adds K (stage_run d n m)"
proof -
  have "adds K (stage_end d t x)" for t and x :: "'a \<times> goerr option"
    unfolding stage_end_def by (cases x) (auto split: option.splits goerr.splits intro!: adds_intros)
  then show "adds K m \<Longrightarrow> adds K (stage_run d n m)" unfolding stage_run_def by (intro adds_intros)
qed

lemma adds_Perform [adds_intros]: "adds K m \<Longrightarrow> adds K (Perform d n m)" "adds K m' \<Longrightarrow> adds K (Perform_val d n z m')"
  unfolding Perform_def Perform_val_def with_error_def by (intro adds_intros; assumption)+

section \<open>Building the agent's state makes no CPI call\<close>

definition non_cpi :: "call set" where
  "non_cpi = {k. \<forall>cmd inp. k \<noteq> CallCpi cmd inp}"

lemma non_cpi_simps [simp]:
  "CallExt f as \<in> non_cpi" "CallRun cmd \<in> non_cpi" "CallBlobPut i q \<in> non_cpi" "CallCompilePackage b bs \<in> non_cpi"
  "CallPing \<in> non_cpi" "CallStop \<in> non_cpi" "CallStart \<in> non_cpi" "CallApply s \<in> non_cpi" "CallGetState \<in> non_cpi"
  "CallRunScript q \<in> non_cpi" "cpi_call c meth cargs \<notin> non_cpi" "CallHttpGet u \<in> non_cpi"
  by (auto simp: non_cpi_def cpi_call_def)

lemma adds_Calculate [adds_intros]: "adds non_cpi (Calculate sha1_files p)"
  unfolding Calculate_def populateSha1_def by (intro adds_intros) simp_all

lemma adds_rendering [adds_intros]:
  "adds non_cpi (RenderedJob_DeleteSilently j)" "adds non_cpi (RenderedJobList_DeleteSilently js)"
  "adds non_cpi (Archive_DeleteSilently a)" "adds non_cpi (Compress sha1_files js)"
  unfolding RenderedJob_DeleteSilently_def RenderedJob_Delete_def RenderedJobList_DeleteSilently_def Archive_DeleteSilently_def
    Compress_def CompressFilesInDir_def
  by (intro adds_intros adds_modify; simp add: set_file_def)+

lemma adds_JobRenderer [adds_intros]: "adds non_cpi (JobRenderer_Render script j p1 p2 p3 n a)"
  unfolding JobRenderer_Render_def Let_def or_delete_def renderFile_def ERB_Render_def run_ruby_def
  by (intro adds_intros adds_modify; simp add: set_file_def)

lemma adds_render_jobs: "(\<And>j. adds non_cpi (render j)) \<Longrightarrow> adds non_cpi (render_jobs render js acc)"
  by (induction js arbitrary: acc) (auto intro!: adds_intros)

lemma adds_Blobstore_Add [adds_intros]: "adds non_cpi (Blobstore_Add p)"
  unfolding Blobstore_Add_def by (intro adds_intros) simp_all

lemma adds_Builder_Build:
  assumes "\<And>js d. adds non_cpi (compile js d)"
  shows "adds non_cpi (Builder_Build sha1_files script releases compile jobName i d stage ag)"
  unfolding Builder_Build_def renderJobTemplates_def JobListRenderer_Render_def Let_def
  by (intro adds_intros adds_render_jobs assms)

lemma adds_compile_step: "(\<And>q. adds non_cpi (cpl q)) \<Longrightarrow> adds non_cpi (compile_step h cpl refs q)"
  unfolding compile_step_def by (intro adds_intros) 

lemma adds_DependencyCompiler:
  assumes "\<And>q. adds non_cpi (cpl q)"
  shows "adds non_cpi (DependencyCompiler_Compile iter1 iter2 h cpl js stage)"
proof -
  have "adds non_cpi (compilePackages h cpl d ps refs)" for d ps refs
    by (induction ps arbitrary: refs) (auto intro!: adds_intros adds_compile_step assms)
  moreover have "adds non_cpi (resolveJobCompilationDependencies iter1 iter2 h js)"
    unfolding resolveJobCompilationDependencies_def Let_def by (intro adds_intros)
  ultimately show ?thesis unfolding DependencyCompiler_Compile_def by (intro adds_intros)
qed

text \<open>The repository of compiled packages over an index that only touches files.\<close>

lemma adds_RemotePackageCompiler:
  assumes "\<And>k. adds non_cpi (fnd k)" "\<And>k r. adds non_cpi (sav k r)"
  shows "adds non_cpi (RemotePackageCompiler_Compile fnd sav h a)"
  unfolding RemotePackageCompiler_Compile_def Let_def compile_source_def find_dependency_def
    CompiledPackageRepo_Find_def CompiledPackageRepo_Save_def
  by (intro adds_intros assms) simp_all

end
