(* ===== verification/Deployment.thy ===== *)
theory Deployment
  imports Instance Traces Tarball
begin

text \<open>
  Deployments: deployment/deployer.go, deployment/deployment.go, deployment/manager.go,
  deployment/factory.go and deployment/record.go, with the builder of the agent's state as
  deployment/instance/state/builder_factory.go puts it together. Shown: the order of the calls
  of a deployment, what is left of a deployment after its deletion, and when the record says
  that nothing has to be deployed.
\<close>

section \<open>deployment/instance/state/builder\_factory.go\<close>

text \<open>
  The package compiler keeps its records in the index in memory. The order in which Go
  iterates over the two maps of the dependency compiler is \<open>iter1\<close> and \<open>iter2\<close>.
\<close>

definition NewBuilder ::
  "(content list \<Rightarrow> string) \<Rightarrow> string \<Rightarrow> (nat list \<Rightarrow> nat list) \<Rightarrow> (nat list \<Rightarrow> nat list) \<Rightarrow> heap \<Rightarrow> Release list
    \<Rightarrow> string \<Rightarrow> int \<Rightarrow> Manifest \<Rightarrow> nat \<Rightarrow> agent_state \<Rightarrow> (world, InstanceState) prog" where
  "NewBuilder sha1_files script iter1 iter2 h releases =
     Builder_Build sha1_files script releases
       (DependencyCompiler_Compile iter1 iter2 h
         (RemotePackageCompiler_Compile (InMemoryIndex_Find dec_compiled)
           (\<lambda>k r. InMemoryIndex_Save k (json_of_compiled r)) h))"

section \<open>deployment/deployment.go\<close>

record Deployment =
  de_instances :: "Instance list"
  de_disks :: "Disk list"
  de_stemcells :: "CloudStemcell list"
  de_pingTimeout :: int
  de_pingDelay :: int

definition Deployment_deleteDisk :: "string \<Rightarrow> cloud \<Rightarrow> nat \<Rightarrow> Disk \<Rightarrow> (world, unit) prog" where
  "Deployment_deleteDisk p c deleteStage disk =
     Perform deleteStage (''Deleting disk '' @ dk_CID disk)
       (skip_not_found DiskNotFoundError ''Disk not found'' (Disk_Delete p c disk))"

definition Deployment_deleteStemcell :: "string \<Rightarrow> cloud \<Rightarrow> nat \<Rightarrow> CloudStemcell \<Rightarrow> (world, unit) prog" where
  "Deployment_deleteStemcell p c deleteStage stemcell =
     Perform deleteStage (''Deleting stemcell '' @ cs_CID stemcell)
       (skip_not_found StemcellNotFoundError ''Stemcell not found'' (CloudStemcell_Delete p c stemcell))"

text \<open>
  The three loops take the last element and drop it once it is deleted; after an error the
  rest of the slices is left in the object, which the callers then discard.
\<close>

definition Deployment_Delete :: "string \<Rightarrow> cloud \<Rightarrow> Deployment \<Rightarrow> nat \<Rightarrow> (world, unit) prog" where
  "Deployment_Delete p c d deleteStage =
     seq (for_each (\<lambda>i. Instance_Delete p c i (de_pingTimeout d) (de_pingDelay d) deleteStage) (rev (de_instances d)))
    (seq (for_each (Deployment_deleteDisk p c deleteStage) (rev (de_disks d)))
         (for_each (Deployment_deleteStemcell p c deleteStage) (rev (de_stemcells d))))"

section \<open>deployment/manager.go\<close>

text \<open>The factory of cmd/factory.go: \<^verbatim>\<open>NewFactory(10 * time.Second, 500 * time.Millisecond)\<close>.\<close>

definition NewDeployment :: "Instance list \<Rightarrow> Disk list \<Rightarrow> CloudStemcell list \<Rightarrow> Deployment" where
  "NewDeployment instances ds stemcells = \<lparr>de_instances = instances, de_disks = ds, de_stemcells = stemcells,
     de_pingTimeout = 10 * Second, de_pingDelay = 500 * Millisecond\<rparr>"

definition DeploymentManager_FindCurrent :: "string \<Rightarrow> (world, Deployment option) prog" where
  "DeploymentManager_FindCurrent p =
     bnd (wrap ''Finding current deployment instances'' (InstanceManager_FindCurrent p)) (\<lambda>instances.
     bnd (wrap ''Finding current deployment disks'' (DiskManager_FindCurrent p)) (\<lambda>ds.
     bnd (wrap ''Finding current deployment stemcells'' (StemcellManager_FindCurrent p)) (\<lambda>stemcells.
     ret (if length instances = 0 \<and> length ds = 0 \<and> length stemcells = 0 then None
          else Some (NewDeployment instances ds stemcells)))))"

definition DeploymentManager_Cleanup :: "string \<Rightarrow> cloud \<Rightarrow> nat \<Rightarrow> (world, unit) prog" where
  "DeploymentManager_Cleanup p c stage = seq (DiskManager_DeleteUnused p c stage) (StemcellManager_DeleteUnused p c stage)"

section \<open>deployment/deployer.go\<close>

type_synonym state_builder = "string \<Rightarrow> int \<Rightarrow> Manifest \<Rightarrow> nat \<Rightarrow> agent_state \<Rightarrow> (world, InstanceState) prog"

text \<open>The instances \<open>ids\<close> of one job, and the loop over the jobs; \<open>acc\<close> is what was created before.\<close>

fun createInstances ::
  "string \<Rightarrow> cloud \<Rightarrow> state_builder \<Rightarrow> Manifest \<Rightarrow> CloudStemcell \<Rightarrow> RegistryConf \<Rightarrow> nat \<Rightarrow> string \<Rightarrow> int list
    \<Rightarrow> Instance list \<times> Disk list \<Rightarrow> (world, Instance list \<times> Disk list) prog" where
  "createInstances p c build d stem rg stage jobName [] acc = ret acc"
| "createInstances p c build d stem rg stage jobName (instanceID # ids) acc =
     bnd (wrapf ''Creating instance %s/%d'' [AStr jobName, AInt instanceID]
            (InstanceManager_Create p c jobName instanceID d stem rg stage)) (\<lambda>(i, instanceDisks).
     seq (UpdateJobs build i d stage)
         (createInstances p c build d stem rg stage jobName ids (fst acc @ [i], snd acc @ instanceDisks)))"

fun createJobs ::
  "string \<Rightarrow> cloud \<Rightarrow> state_builder \<Rightarrow> Manifest \<Rightarrow> CloudStemcell \<Rightarrow> RegistryConf \<Rightarrow> nat \<Rightarrow> ManifestJob list
    \<Rightarrow> Instance list \<times> Disk list \<Rightarrow> (world, Instance list \<times> Disk list) prog" where
  "createJobs p c build d stem rg stage [] acc = ret acc"
| "createJobs p c build d stem rg stage (jobSpec # js) acc =
     (if mj_Instances jobSpec \<noteq> 1
      then fail (Errorf ''Job %s must have only one instance, found %d'' [AStr (mj_Name jobSpec), AInt (mj_Instances jobSpec)])
      else bnd (createInstances p c build d stem rg stage (mj_Name jobSpec) [0..mj_Instances jobSpec - 1] acc)
             (createJobs p c build d stem rg stage js))"

definition createAllInstances ::
  "string \<Rightarrow> cloud \<Rightarrow> state_builder \<Rightarrow> Manifest \<Rightarrow> CloudStemcell \<Rightarrow> RegistryConf \<Rightarrow> nat \<Rightarrow> (world, Instance list \<times> Disk list) prog" where
  "createAllInstances p c build deploymentManifest cloudStemcell registryConfig deployStage =
     (if length (mf_Jobs deploymentManifest) \<noteq> 1
      then fail (Errorf ''There must only be one job, found %d'' [AInt (int (length (mf_Jobs deploymentManifest)))])
      else createJobs p c build deploymentManifest cloudStemcell registryConfig deployStage (mf_Jobs deploymentManifest) ([], []))"

definition Deploy ::
  "string \<Rightarrow> cloud \<Rightarrow> state_builder \<Rightarrow> Manifest \<Rightarrow> CloudStemcell \<Rightarrow> RegistryConf \<Rightarrow> nat \<Rightarrow> (world, Deployment) prog" where
  "Deploy p c build deploymentManifest cloudStemcell registryConfig deployStage =
     seq (DeleteAll p c (10 * Second) (500 * Millisecond) deployStage)
    (bnd (createAllInstances p c build deploymentManifest cloudStemcell registryConfig deployStage) (\<lambda>(instances, ds).
     ret (NewDeployment instances ds [cloudStemcell])))"

section \<open>deployment/record.go\<close>

definition release_found :: "ReleaseRecord list \<Rightarrow> Release \<Rightarrow> bool" where
  "release_found recs release = list_ex (\<lambda>r. rr_Name r = rl_Name release \<and> rr_Version r = rl_Version release) recs"

definition IsDeployed :: "(content list \<Rightarrow> string) \<Rightarrow> string \<Rightarrow> string \<Rightarrow> Release list \<Rightarrow> ExtractedStemcell \<Rightarrow> (world, bool) prog" where
  "IsDeployed sha1_files p manifestPath releases stemcell =
     bnd (wrap ''Finding sha1 of currently deployed manifest'' (DeploymentRepo_FindCurrent p)) (\<lambda>found.
     case found of None \<Rightarrow> ret False
     | Some manifestSHA1 \<Rightarrow>
     bnd (wrap ''Calculating sha1 of current deployment manifest'' (Calculate sha1_files manifestPath)) (\<lambda>newSHA1.
     if manifestSHA1 \<noteq> newSHA1 then ret False else
     bnd (wrap ''Finding currently deployed stemcell'' (StemcellRepo_FindCurrent p)) (\<lambda>found.
     case found of None \<Rightarrow> ret False
     | Some currentStemcell \<Rightarrow>
     if sr_Name currentStemcell \<noteq> sm_Name (es_manifest stemcell) \<or> sr_Version currentStemcell \<noteq> sm_Version (es_manifest stemcell)
     then ret False else
     bnd (wrap ''Finding currently deployed release'' (ReleaseRepo_List p)) (\<lambda>currentReleaseRecords.
     ret (length currentReleaseRecords \<noteq> 0 \<and> length releases = length currentReleaseRecords
          \<and> list_all (release_found currentReleaseRecords) releases)))))"

definition Record_Clear :: "string \<Rightarrow> (world, unit) prog" where
  "Record_Clear p =
     seq (wrap ''Clearing sha1 of deployed manifest'' (DeploymentRepo_UpdateCurrent p ''''))
         (wrap ''Clearing releases'' (ReleaseRepo_Update p []))"

definition Record_Update :: "(content list \<Rightarrow> string) \<Rightarrow> string \<Rightarrow> string \<Rightarrow> Release list \<Rightarrow> (world, unit) prog" where
  "Record_Update sha1_files p manifestPath releases =
     bnd (wrap ''Calculating sha1 of current deployment manifest'' (Calculate sha1_files manifestPath)) (\<lambda>manifestSHA1.
     seq (wrap ''Saving sha1 of deployed manifest'' (DeploymentRepo_UpdateCurrent p manifestSHA1))
         (wrap ''Updating releases'' (ReleaseRepo_Update p (map (\<lambda>r. (rl_Name r, rl_Version r)) releases))))"

section \<open>When nothing has to be deployed\<close>

definition release_key :: "Release \<Rightarrow> string \<times> string" where
  "release_key r = (rl_Name r, rl_Version r)"

definition release_record_key :: "ReleaseRecord \<Rightarrow> string \<times> string" where
  "release_record_key r = (rr_Name r, rr_Version r)"

definition current_stemcell :: "DeploymentState \<Rightarrow> StemcellRecord option" where
  "current_stemcell st = (if CurrentStemcellID st = '''' then None
     else find (\<lambda>r. sr_ID r = CurrentStemcellID st) (Stemcells st))"

definition stemcell_is_current :: "DeploymentState \<Rightarrow> ExtractedStemcell \<Rightarrow> bool" where
  "stemcell_is_current st stem \<longleftrightarrow>
     (\<exists>s. current_stemcell st = Some s \<and> stemcell_key s = (sm_Name (es_manifest stem), sm_Version (es_manifest stem)))"

text \<open>The state records a deployment of a manifest with this SHA1, these releases and this stemcell.\<close>

definition deployed :: "DeploymentState \<Rightarrow> string \<Rightarrow> Release list \<Rightarrow> ExtractedStemcell \<Rightarrow> bool" where
  "deployed st sha rels stem \<longleftrightarrow> sha \<noteq> '''' \<and> CurrentManifestSHA1 st = sha \<and> stemcell_is_current st stem
     \<and> rels \<noteq> [] \<and> length rels = length (Releases st) \<and> release_key ` set rels \<subseteq> release_record_key ` set (Releases st)"

lemma reads_simps [simp]:
  "reads w x (Ok y) w' \<longleftrightarrow> ticked w w' \<and> y = x" "reads w x (Err e) w' \<longleftrightarrow> ticked w w'"
  "\<not> reads w x (Panic s) w'" "\<not> reads w x Hang w'"
  by (auto simp: reads_def)

lemma release_found_all: "list_all (release_found recs) rels \<longleftrightarrow> release_key ` set rels \<subseteq> release_record_key ` set recs"
  by (simp add: list_all_iff release_found_def list_ex_iff image_subset_iff)
    (simp add: release_key_def release_record_key_def image_iff eq_commute)

text \<open>With distinct release names that is the same set of releases.\<close>

lemma deployed_releases:
  assumes "deployed st sha rels stem" "distinct (map release_key rels)"
  shows "release_key ` set rels = release_record_key ` set (Releases st)"
proof (rule card_subset_eq)
  have "card (release_key ` set rels) = length (Releases st)"
    using distinct_card[OF assms(2)] assms(1) by (simp add: deployed_def)
  moreover have "card (release_record_key ` set (Releases st)) \<le> length (Releases st)"
    using card_length[of "map release_record_key (Releases st)"] by simp
  moreover show s: "release_key ` set rels \<subseteq> release_record_key ` set (Releases st)" using assms(1) by (simp add: deployed_def)
  ultimately show "card (release_key ` set rels) = card (release_record_key ` set (Releases st))"
    using card_mono[OF _ s] by simp
qed simp

lemma IsDeployed_wp:
  assumes l: "loaded p w st" and f: "files w m = Some (CBytes b)"
  shows "wp (IsDeployed sha1_files p m rels stem) (\<lambda>r w'. ticked w w' \<and> returns r
    \<and> (\<forall>x. r = Ok x \<longrightarrow> x = deployed st (sha1_files [CBytes b]) rels stem)) w"
    (is "wp _ ?Q w")
proof -
  note L = state_file.holds_ticked[OF l]
  have rels: "wp (bnd (wrap msg (ReleaseRepo_List p)) (\<lambda>recs.
       ret (length recs \<noteq> 0 \<and> length rels = length recs \<and> list_all (release_found recs) rels))) ?Q v"
    if "ticked w v" "CurrentManifestSHA1 st \<noteq> ''''" "CurrentManifestSHA1 st = sha1_files [CBytes b]" "stemcell_is_current st stem"
    for v msg
    by (rule wp_bnd_wrap[OF ReleaseRepo_List_reads[OF L[OF that(1)]]])
      (use that in \<open>auto simp: wp_ret deployed_def release_found_all intro: ticked_trans\<close>)
  have stem: "wp (bnd (wrap msg (StemcellRepo_FindCurrent p)) (\<lambda>found. case found of None \<Rightarrow> ret False
     | Some s \<Rightarrow> if sr_Name s \<noteq> sm_Name (es_manifest stem) \<or> sr_Version s \<noteq> sm_Version (es_manifest stem) then ret False
       else bnd (wrap ''Finding currently deployed release'' (ReleaseRepo_List p)) (\<lambda>recs.
       ret (length recs \<noteq> 0 \<and> length rels = length recs \<and> list_all (release_found recs) rels)))) ?Q v"
    if v: "ticked w v" "CurrentManifestSHA1 st \<noteq> ''''" "CurrentManifestSHA1 st = sha1_files [CBytes b]" for v msg
  proof (rule wp_bnd_wrap[OF StemcellRepo_FindCurrent_reads[OF L[OF v(1)]]], goal_cases)
    case (1 found v')
    then have s: "found = current_stemcell st" "ticked w v'" using v by (auto simp: current_stemcell_def intro: ticked_trans)
    show ?case using s rels[OF s(2) v(2,3)]
      by (auto simp: wp_ret deployed_def stemcell_is_current_def stemcell_key_def split: option.splits)
  qed (use v in \<open>auto intro: ticked_trans\<close>)
  show ?thesis unfolding IsDeployed_def
  proof (rule wp_bnd_wrap[OF DeploymentRepo_FindCurrent_reads[OF l]], goal_cases)
    case (1 found v)
    then have v: "ticked w v" and s: "found = (if CurrentManifestSHA1 st \<noteq> '''' then Some (CurrentManifestSHA1 st) else None)" by auto
    show ?case
    proof (cases "CurrentManifestSHA1 st = ''''")
      case True
      then show ?thesis using s v by (auto simp: wp_ret deployed_def)
    next
      case False
      have "files v m = Some (CBytes b)" using f v by (simp add: ticked_frame)
      note C = Calculate_file[OF this, of sha1_files]
      show ?thesis unfolding s if_P[OF False] option.case
      proof (rule wp_bnd_wrap[OF C], goal_cases)
        case (1 newSHA1 v')
        then have n: "newSHA1 = sha1_files [CBytes b]" "ticked w v'" using v by (auto intro: ticked_trans)
        show ?case unfolding n(1)
          using stem[OF n(2) False] n(2) by (cases "CurrentManifestSHA1 st = sha1_files [CBytes b]") (auto simp: wp_ret deployed_def)
      qed (use v in \<open>auto intro: ticked_trans\<close>)
    qed
  qed auto
qed

section \<open>Recording a deployment\<close>

text \<open>
  \<^verbatim>\<open>Update\<close> stores the SHA1 of the manifest and the releases, which \<^verbatim>\<open>IsDeployed\<close> then
  recognises, for at least one release and while the stemcell is the current one.
\<close>

lemma saved_other: "saved p w st w' \<Longrightarrow> q \<noteq> p \<Longrightarrow> files w' q = files w q"
  by (auto simp: saved_def set_file_def ticked_frame)

lemma proper_frame: "proper st \<Longrightarrow> reload_state (st\<lparr>CurrentManifestSHA1 := s, CurrentReleaseIDs := i, Releases := rs\<rparr>)
    = st\<lparr>CurrentManifestSHA1 := s, CurrentReleaseIDs := i, Releases := rs\<rparr>
  \<and> storable (st\<lparr>CurrentManifestSHA1 := s, CurrentReleaseIDs := i, Releases := rs\<rparr>)"
  by (simp only: reload_state_fix) (simp add: proper_def storable_def)

lemma UpdateCurrent_loaded:
  assumes inv: "repo_inv p w" and l: "loaded p w st"
  shows "wp (DeploymentRepo_UpdateCurrent p sha) (\<lambda>r w'. returns r \<and> repo_inv p w' \<and> (\<forall>q. q \<noteq> p \<longrightarrow> files w' q = files w q)
    \<and> (r = Ok () \<longrightarrow> loaded p w' (st\<lparr>CurrentManifestSHA1 := sha\<rparr>))) w"
proof (rule wpI)
  fix r w' assume run: "DeploymentRepo_UpdateCurrent p sha w = (r, w')"
  have i: "repo_inv p w'"
    by (rule keeps_snd[OF keeps_simple_updates(1) inv run])
  have pr: "proper st" by (rule loaded_proper[OF l])
  have "writes p w (st\<lparr>CurrentManifestSHA1 := sha\<rparr>) r w'"
    using wpD[OF DeploymentRepo_UpdateCurrent_writes[OF l] run] inv by (auto simp: repo_inv_def)
  moreover have "loaded p w' (st\<lparr>CurrentManifestSHA1 := sha\<rparr>)" if "saved p w (st\<lparr>CurrentManifestSHA1 := sha\<rparr>) w'"
    using state_file.storing_holds[OF l that] proper_frame[OF pr, where s = sha and i = "CurrentReleaseIDs st" and rs = "Releases st"] pr
    by (simp add: proper_def)
  ultimately show "returns r \<and> repo_inv p w' \<and> (\<forall>q. q \<noteq> p \<longrightarrow> files w' q = files w q)
    \<and> (r = Ok () \<longrightarrow> loaded p w' (st\<lparr>CurrentManifestSHA1 := sha\<rparr>))"
    using i by (auto simp: writes_def saved_other ticked_frame)
qed

lemma ReleaseRepo_Update_loaded:
  assumes inv: "repo_inv p w" and l: "loaded p w st"
  shows "wp (ReleaseRepo_Update p nvs) (\<lambda>r w'. returns r \<and> repo_inv p w' \<and> (\<forall>q. q \<noteq> p \<longrightarrow> files w' q = files w q)
    \<and> (r = Ok () \<longrightarrow> (\<exists>rs. map release_record_key rs = nvs
         \<and> loaded p w' (st\<lparr>CurrentReleaseIDs := map rr_ID rs, Releases := rs\<rparr>)))) w"
proof (rule wpI)
  fix r w' assume run: "ReleaseRepo_Update p nvs w = (r, w')"
  have i: "repo_inv p w'"
    by (rule keeps_snd[OF keeps_ReleaseRepo_Update inv run])
  have pr: "proper st" by (rule loaded_proper[OF l])
  obtain st2 where a: "atomic_writes w" "fresh_ids w (record_ids st2)" using inv by (auto simp: repo_inv_def)
  obtain rs where rs: "stores p w (\<lambda>_. rr_ID ` set rs)
    (\<lambda>_. distinct (map rr_ID rs) \<and> map (\<lambda>r. (rr_Name r, rr_Version r)) rs = nvs)
    (\<lambda>_. st\<lparr>CurrentReleaseIDs := map rr_ID rs, Releases := rs\<rparr>) r w'"
    using wpD[OF ReleaseRepo_Update_stores[OF l a] run] by blast
  have L: "loaded p w' (st\<lparr>CurrentReleaseIDs := map rr_ID rs, Releases := rs\<rparr>)"
    if "ticked w v" "saved p v (st\<lparr>CurrentReleaseIDs := map rr_ID rs, Releases := rs\<rparr>) w'" for v
    using state_file.storing_holds[OF state_file.holds_ticked[OF l that(1)] that(2)]
      proper_frame[OF pr, where s = "CurrentManifestSHA1 st" and i = "map rr_ID rs" and rs = rs] pr
    by (simp add: proper_def)
  have K: "map release_record_key rs = map (\<lambda>r. (rr_Name r, rr_Version r)) rs" by (simp add: release_record_key_def)
  show "returns r \<and> repo_inv p w' \<and> (\<forall>q. q \<noteq> p \<longrightarrow> files w' q = files w q)
    \<and> (r = Ok () \<longrightarrow> (\<exists>rs. map release_record_key rs = nvs
         \<and> loaded p w' (st\<lparr>CurrentReleaseIDs := map rr_ID rs, Releases := rs\<rparr>)))"
    using rs i by (cases r) (auto simp: saved_other ticked_frame K intro!: exI[of _ rs] L)
qed

definition recorded :: "string \<Rightarrow> DeploymentState \<Rightarrow> string \<Rightarrow> (string \<times> string) list \<Rightarrow> world \<Rightarrow> bool" where
  "recorded p st sha nvs w \<longleftrightarrow> (\<exists>rs. map release_record_key rs = nvs
     \<and> loaded p w (st\<lparr>CurrentManifestSHA1 := sha, CurrentReleaseIDs := map rr_ID rs, Releases := rs\<rparr>))"

lemma update_both:
  assumes "repo_inv p w" "loaded p w st"
  shows "wp (seq (wrap m1 (DeploymentRepo_UpdateCurrent p sha)) (wrap m2 (ReleaseRepo_Update p nvs)))
    (\<lambda>r w'. returns r \<and> (\<forall>q. q \<noteq> p \<longrightarrow> files w' q = files w q) \<and> (r = Ok () \<longrightarrow> recorded p st sha nvs w')) w"
proof (rule wp_seq_wrap[OF UpdateCurrent_loaded[OF assms]], goal_cases)
  case (1 u v)
  then have v: "repo_inv p v" "loaded p v (st\<lparr>CurrentManifestSHA1 := sha\<rparr>)" "\<forall>q. q \<noteq> p \<longrightarrow> files v q = files w q" by auto
  show ?case unfolding wp_wrap
    by (rule wp_mono[OF ReleaseRepo_Update_loaded[OF v(1,2)]])
      (use v(3) in \<open>auto simp: recorded_def elim!: returnsE\<close>)
qed auto

lemma Record_Update_wp:
  assumes inv: "repo_inv p w" and l: "loaded p w st" and f: "files w m = Some (CBytes b)" and ne: "m \<noteq> p"
  shows "wp (Record_Update sha1_files p m rels) (\<lambda>r w'. returns r \<and> files w' m = Some (CBytes b)
    \<and> (r = Ok () \<longrightarrow> recorded p st (sha1_files [CBytes b]) (map release_key rels) w')) w"
  unfolding Record_Update_def
proof (rule wp_bnd_wrap[OF Calculate_file[OF f]], goal_cases)
  case (1 sha v)
  then have s: "sha = sha1_files [CBytes b]" "ticked w v" by auto
  have K: "map (\<lambda>r. (rl_Name r, rl_Version r)) rels = map release_key rels" by (simp add: release_key_def)
  have v: "repo_inv p v" "loaded p v st" "files v m = Some (CBytes b)"
    using repo_inv_ticked[OF inv s(2)] state_file.holds_ticked[OF l s(2)] f s(2) by (simp_all add: ticked_frame)
  show ?case unfolding s(1) K
    by (rule wp_mono[OF update_both[OF v(1,2)]]) (use v(3) ne in auto)
qed (auto simp: f ticked_frame)

lemma recorded_deployed:
  assumes "recorded p st sha (map release_key rels) w"
  obtains st' where "loaded p w st'"
    "deployed st' sha rels stem \<longleftrightarrow> sha \<noteq> '''' \<and> rels \<noteq> [] \<and> stemcell_is_current st stem"
proof -
  obtain rs where rs: "map release_record_key rs = map release_key rels"
    "loaded p w (st\<lparr>CurrentManifestSHA1 := sha, CurrentReleaseIDs := map rr_ID rs, Releases := rs\<rparr>)"
    using assms by (auto simp: recorded_def)
  have "length rs = length rels" "release_record_key ` set rs = release_key ` set rels"
    using arg_cong[OF rs(1), of length] arg_cong[OF rs(1), of set] by simp_all
  then show thesis
    by (intro that[OF rs(2)]) (auto simp: deployed_def stemcell_is_current_def current_stemcell_def)
qed

lemma Update_then_IsDeployed:
  assumes "repo_inv p w" "loaded p w st" "files w m = Some (CBytes b)" "m \<noteq> p"
  shows "wp (seq (Record_Update sha1_files p m rels) (IsDeployed sha1_files p m rels stem)) (\<lambda>r w'. returns r
    \<and> (\<forall>x. r = Ok x \<longrightarrow> x = (sha1_files [CBytes b] \<noteq> '''' \<and> rels \<noteq> [] \<and> stemcell_is_current st stem))) w"
proof (rule wp_seq_rule[OF Record_Update_wp[OF assms]], goal_cases)
  case (1 u v)
  then have "recorded p st (sha1_files [CBytes b]) (map release_key rels) v" "files v m = Some (CBytes b)" by auto
  moreover then obtain st' where st': "loaded p v st'"
    "deployed st' (sha1_files [CBytes b]) rels stem \<longleftrightarrow> sha1_files [CBytes b] \<noteq> '''' \<and> rels \<noteq> [] \<and> stemcell_is_current st stem"
    using recorded_deployed by blast
  ultimately show ?case
    by (intro wp_mono[OF IsDeployed_wp[OF st'(1), of m b sha1_files rels stem]]) (auto simp only: st'(2))
qed auto

lemma Clear_then_IsDeployed:
  assumes "repo_inv p w" "loaded p w st" "files w m = Some (CBytes b)" "m \<noteq> p"
  shows "wp (seq (Record_Clear p) (IsDeployed sha1_files p m rels stem)) (\<lambda>r w'. returns r \<and> r \<noteq> Ok True) w"
proof (rule wp_seq_rule, unfold Record_Clear_def, rule update_both[OF assms(1,2)], goal_cases)
  case (1 u v)
  then have "files v m = Some (CBytes b)" "recorded p st '''' [] v" using assms(3,4) by auto
  moreover then obtain st' where "loaded p v st'" "CurrentManifestSHA1 st' = ''''" by (auto simp: recorded_def)
  moreover have "\<not> deployed st' sha rels stem" for sha using \<open>CurrentManifestSHA1 st' = ''''\<close> by (simp add: deployed_def)
  ultimately show ?case
    by (intro wp_mono[OF IsDeployed_wp]) auto
qed auto

section \<open>Deleting a deployment\<close>

text \<open>Two specifications of one program hold of the same calls and state.\<close>

lemma does_conj:
  assumes "does p st m R" "does p st m Q"
  shows "does p st m (\<lambda>r ks st'. R r ks st' \<and> Q r ks st')"
proof (rule doesI, rule wpI)
  fix w r w' assume s: "state_at p w st" and run: "m w = (r, w')"
  obtain ks st' where 1: "returns r" "moved w ks w'" "state_at p w' st'" "R r ks st'"
    using wpD[OF doesD[OF assms(1) s] run] by blast
  obtain ks2 st2 where 2: "moved w ks2 w'" "state_at p w' st2" "Q r ks2 st2"
    using wpD[OF doesD[OF assms(2) s] run] by blast
  have "ks2 = ks" "st2 = st'"
    using 1(2,3) 2(1,2) loaded_unique by (auto simp: moved_def state_at_def)
  then show "returns r \<and> (\<exists>ks st'. moved w ks w' \<and> state_at p w' st' \<and> R r ks st' \<and> Q r ks st')"
    using 1 2 by blast
qed

text \<open>Nothing recorded disappears from the records without its call to delete it.\<close>

definition accounted :: "cloud \<Rightarrow> DeploymentState \<Rightarrow> call list \<Rightarrow> DeploymentState \<Rightarrow> bool" where
  "accounted c st ks st' \<longleftrightarrow>
     (\<forall>x \<in> set (Disks st). x \<in> set (Disks st') \<or> delete_disk_call c (dr_CID x) \<in> set ks)
   \<and> (\<forall>x \<in> set (Stemcells st). x \<in> set (Stemcells st') \<or> delete_stemcell_call c (sr_CID x) \<in> set ks)
   \<and> (CurrentVMCID st' = CurrentVMCID st \<or> delete_vm_call c (CurrentVMCID st) \<in> set ks)"

interpretation accounts: journal "accounted c" for c
  by unfold_locales (auto simp: accounted_def)

lemma accounted_same: "Disks st' = Disks st \<Longrightarrow> Stemcells st' = Stemcells st \<Longrightarrow> CurrentVMCID st' = CurrentVMCID st \<Longrightarrow> accounted c st ks st'"
  by (simp add: accounted_def)

lemma accounts_DeleteUnused: "journals p (accounted c) (DiskManager_DeleteUnused p c d)"
  "journals p (accounted c) (StemcellManager_DeleteUnused p c d)"
  unfolding journals_def
  by (rule allI, rule does_mono[OF does_DiskManager_DeleteUnused], auto simp: accounted_def unused_disks_def)
    (rule does_mono[OF does_StemcellManager_DeleteUnused], auto simp: accounted_def unused_stemcells_def)

lemma does_Cleanup:
  "does p st (DeploymentManager_Cleanup p c d) (\<lambda>r ks st'. accounted c st ks st' \<and> plain_result r
     \<and> (r = Ok () \<longrightarrow> st' = st\<lparr>Disks := filter (\<lambda>x. dr_ID x = CurrentDiskID st) (Disks st),
                              Stemcells := filter (\<lambda>x. sr_ID x = CurrentStemcellID st) (Stemcells st)\<rparr>))"
proof (rule does_conj)
  show "does p st (DeploymentManager_Cleanup p c d) (\<lambda>r. accounted c st)"
    unfolding DeploymentManager_Cleanup_def by (intro journalsD accounts.rules accounts_DeleteUnused)
  show "does p st (DeploymentManager_Cleanup p c d) (\<lambda>r ks st'. plain_result r
     \<and> (r = Ok () \<longrightarrow> st' = st\<lparr>Disks := filter (\<lambda>x. dr_ID x = CurrentDiskID st) (Disks st),
                              Stemcells := filter (\<lambda>x. sr_ID x = CurrentStemcellID st) (Stemcells st)\<rparr>))"
    unfolding DeploymentManager_Cleanup_def
  proof (rule does_seq[OF does_DiskManager_DeleteUnused], goal_cases)
    case (1 u ks st')
    then have s: "st' = st\<lparr>Disks := filter (\<lambda>x. dr_ID x = CurrentDiskID st) (Disks st)\<rparr>" by auto
    show ?case unfolding s by (rule does_mono[OF does_StemcellManager_DeleteUnused]) (auto simp: failed_def)
  qed auto
qed

definition current_disk :: "DeploymentState \<Rightarrow> DiskRecord option" where
  "current_disk st = (if CurrentDiskID st = '''' then None else find (\<lambda>r. dr_ID r = CurrentDiskID st) (Disks st))"

definition current_instances :: "DeploymentState \<Rightarrow> Instance list" where
  "current_instances st = (if CurrentVMCID st = '''' then []
     else [\<lparr>it_jobName = ''unknown'', it_id = 0, it_vm = CurrentVMCID st\<rparr>])"

definition current_disks :: "DeploymentState \<Rightarrow> DiskRecord list" where
  "current_disks st = (case current_disk st of None \<Rightarrow> [] | Some r \<Rightarrow> [r])"

definition current_stemcells :: "DeploymentState \<Rightarrow> StemcellRecord list" where
  "current_stemcells st = (case current_stemcell st of None \<Rightarrow> [] | Some r \<Rightarrow> [r])"

lemma does_DeploymentManager_FindCurrent:
  "does p st (DeploymentManager_FindCurrent p) (answers_with
     (if current_instances st = [] \<and> current_disks st = [] \<and> current_stemcells st = [] then None
      else Some (NewDeployment (current_instances st) (map NewDisk (current_disks st)) (map NewCloudStemcell (current_stemcells st)))) st)"
proof -
  have I: "does p st (InstanceManager_FindCurrent p) (answers_with (current_instances st) st)"
  proof -
    have "does p st (wrapf msg [] (VMRepo_FindCurrent p))
        (answers_with (if CurrentVMCID st \<noteq> '''' then Some (CurrentVMCID st) else None) st)" for msg
      by (rule does_wrap_last[OF does_finds(1)]) auto
    then show ?thesis unfolding InstanceManager_FindCurrent_def VmManager_FindCurrent_def wrap_def
      by (rule does_bnd_wrapf) (auto intro!: does_ret simp: current_instances_def)
  qed
  have D: "does p st (DiskManager_FindCurrent p) (answers_with (map NewDisk (current_disks st)) st)"
    unfolding DiskManager_FindCurrent_def
    by (rule does_bnd_wrap[OF does_finds(2)])
      (auto intro!: does_ret simp: current_disks_def current_disk_def split: option.splits)
  have S: "does p st (StemcellManager_FindCurrent p) (answers_with (map NewCloudStemcell (current_stemcells st)) st)"
    unfolding StemcellManager_FindCurrent_def
    by (rule does_bnd_wrap[OF does_finds(6)])
      (auto intro!: does_ret simp: current_stemcells_def current_stemcell_def split: option.splits)
  have S2: "does p st (bnd (wrap msg (StemcellManager_FindCurrent p)) (\<lambda>stemcells.
     ret (if length is = 0 \<and> length ds = 0 \<and> length stemcells = 0 then None else Some (NewDeployment is ds stemcells))))
     (answers_with (if is = [] \<and> ds = [] \<and> current_stemcells st = [] then None
      else Some (NewDeployment is ds (map NewCloudStemcell (current_stemcells st)))) st)" for "is" ds msg
    by (rule does_bnd_wrap[OF S]) (auto intro!: does_ret)
  have D2: "does p st (bnd (wrap m1 (DiskManager_FindCurrent p)) (\<lambda>ds. bnd (wrap msg (StemcellManager_FindCurrent p)) (\<lambda>stemcells.
     ret (if length is = 0 \<and> length ds = 0 \<and> length stemcells = 0 then None else Some (NewDeployment is ds stemcells)))))
     (answers_with (if is = [] \<and> current_disks st = [] \<and> current_stemcells st = [] then None
      else Some (NewDeployment is (map NewDisk (current_disks st)) (map NewCloudStemcell (current_stemcells st)))) st)" for "is" m1 msg
  proof (rule does_bnd_wrap[OF D], goal_cases)
    case (1 ds ks st')
    then have s: "ds = map NewDisk (current_disks st)" "ks = []" "st' = st" by auto
    show ?case unfolding s by (rule does_mono[OF S2]) auto
  qed auto
  show ?thesis unfolding DeploymentManager_FindCurrent_def
  proof (rule does_bnd_wrap[OF I], goal_cases)
    case (1 "is" ks st')
    then have s: "is = current_instances st" "ks = []" "st' = st" by auto
    show ?case unfolding s by (rule does_mono[OF D2]) auto
  qed auto
qed

text \<open>The deletion of one of them, of at most one VM, disk and stemcell, in this order.\<close>

definition clears :: "cloud \<Rightarrow> (DeploymentState \<Rightarrow> DeploymentState) \<Rightarrow> DeploymentState \<Rightarrow> unit outcome \<Rightarrow> call list \<Rightarrow> DeploymentState \<Rightarrow> bool" where
  "clears c f st r ks st' \<longleftrightarrow> accounted c st ks st' \<and> plain_result r \<and> (r = Ok () \<longrightarrow> st' = f st)"

lemma clears_then:
  assumes "does p st m (clears c f st)" "does p (f st) n (clears c g (f st))"
  shows "does p st (seq m n) (clears c (g o f) st)"
proof (rule does_seq[OF assms(1)], goal_cases)
  case (1 u ks st')
  then have s: "st' = f st" "accounted c st ks st'" by (auto simp: clears_def)
  show ?case using s(2) unfolding s(1)
    by (intro does_mono[OF assms(2)]) (auto simp: clears_def intro: accounts.both)
qed (auto simp: clears_def)

definition clear_vm :: "DeploymentState \<Rightarrow> DeploymentState" where
  "clear_vm st = (if CurrentVMCID st = '''' then st else no_vm st)"

lemma accounted_remove:
  "wf_state st \<Longrightarrow> x \<in> set (Disks st) \<Longrightarrow> accounted c st [delete_disk_call c (dr_CID x)] (DiskRepo_remove x st)"
  "wf_state st \<Longrightarrow> y \<in> set (Stemcells st) \<Longrightarrow> accounted c st [delete_stemcell_call c (sr_CID y)] (StemcellRepo_remove y st)"
  by (auto simp: accounted_def DiskRepo_remove_def StemcellRepo_remove_def Let_def wf_disk_ids wf_stemcell_ids)

lemma does_delete_vms:
  assumes "0 < delay" "0 \<le> timeout"
  shows "does p st (for_each (\<lambda>i. Instance_Delete p c i timeout delay d) (rev (current_instances st))) (clears c clear_vm st)"
proof (cases "CurrentVMCID st = ''''")
  case True
  then show ?thesis by (auto simp: current_instances_def clears_def clear_vm_def accounts.none intro: does_ret)
next
  case False
  have "does p st (seq (Instance_Delete p c \<lparr>it_jobName = ''unknown'', it_id = 0, it_vm = CurrentVMCID st\<rparr> timeout delay d) (ret ()))
      (clears c clear_vm st)"
    by (rule does_seq[OF does_Instance_Delete[OF assms]])
      (use False in \<open>auto intro!: does_ret simp: clears_def clear_vm_def deletes_vm_def no_vm_def accounted_def\<close>)
  then show ?thesis using False by (simp add: current_instances_def)
qed

lemma does_delete_disks:
  "does p st (for_each (Deployment_deleteDisk p c d) (rev (map NewDisk (current_disks st)))) (clears c (\<lambda>st. fold DiskRepo_remove (current_disks st) st) st)"
proof (rule does_wf)
  assume wf: "wf_state st"
  show ?thesis
  proof (cases "current_disk st")
    case None
    then show ?thesis by (auto simp: current_disks_def clears_def accounts.none intro: does_ret)
  next
    case (Some x)
    then have x: "x \<in> set (Disks st)" by (auto simp: current_disk_def dest: find_SomeD split: if_splits)
    have disk_step: "does p st (Disk_Delete p c (NewDisk x)) (\<lambda>r ks st'.
        (deleted DiskNotFoundError r \<and> ks = [delete_disk_call c (dr_CID x)] \<and> st' = DiskRepo_remove x st) \<or> (failed r \<and> st' = st))"
      by (rule does_mono[OF does_Disk_Delete_record[OF x]]) auto
    have "does p st (seq (Deployment_deleteDisk p c d (NewDisk x)) (ret ())) (clears c (DiskRepo_remove x) st)"
    proof (rule does_seq)
      show "does p st (Deployment_deleteDisk p c d (NewDisk x)) (clears c (DiskRepo_remove x) st)"
        unfolding Deployment_deleteDisk_def
        by (rule does_mono[OF does_skip_not_found[OF disk_step]])
          (use accounted_remove(1)[OF wf x] in \<open>auto simp: clears_def failed_def accounted_same\<close>)
    qed (auto intro: does_ret simp: clears_def)
    then show ?thesis using Some by (simp add: current_disks_def clears_def[abs_def])
  qed
qed

lemma does_delete_stemcells:
  assumes "x \<in> set (Stemcells st)"
  shows "does p st (Deployment_deleteStemcell p c d (NewCloudStemcell x)) (clears c (StemcellRepo_remove x) st)"
proof (rule does_wf)
  assume wf: "wf_state st"
  have step: "does p st (CloudStemcell_Delete p c (NewCloudStemcell x)) (\<lambda>r ks st'.
        (deleted StemcellNotFoundError r \<and> ks = [delete_stemcell_call c (sr_CID x)] \<and> st' = StemcellRepo_remove x st)
        \<or> (failed r \<and> st' = st))"
    by (rule does_mono[OF does_CloudStemcell_Delete[OF assms]]) auto
  show ?thesis unfolding Deployment_deleteStemcell_def
    by (rule does_mono[OF does_skip_not_found[OF step]])
      (use accounted_remove(2)[OF wf assms] in \<open>auto simp: clears_def failed_def accounted_same\<close>)
qed

text \<open>The state when everything current has been deleted and the rest cleaned up.\<close>

definition cleared :: "DeploymentState \<Rightarrow> DeploymentState" where
  "cleared st = st\<lparr>CurrentVMCID := '''', CurrentStemcellID := '''', CurrentDiskID := '''', Disks := [], Stemcells := []\<rparr>"

definition without_current :: "DeploymentState \<Rightarrow> DeploymentState" where
  "without_current st = fold StemcellRepo_remove (current_stemcells st) (fold DiskRepo_remove (current_disks st) (clear_vm st))"

lemma does_Deployment_Delete:
  "does p st (Deployment_Delete p c (NewDeployment (current_instances st) (map NewDisk (current_disks st))
     (map NewCloudStemcell (current_stemcells st))) stage) (clears c without_current st)"
proof -
  have vm: "current_disks (clear_vm st) = current_disks st" "Stemcells (clear_vm st) = Stemcells st"
    by (simp_all add: current_disks_def current_disk_def clear_vm_def no_vm_def)
  have fd: "Stemcells (fold DiskRepo_remove xs s) = Stemcells s" for xs s
    by (induction xs arbitrary: s) (simp_all add: DiskRepo_remove_def Let_def)
  let ?st1 = "clear_vm st" and ?st2 = "fold DiskRepo_remove (current_disks st) (clear_vm st)"
  have D: "does p ?st1 (for_each (Deployment_deleteDisk p c stage) (rev (map NewDisk (current_disks st))))
      (clears c (fold DiskRepo_remove (current_disks st)) ?st1)"
    using does_delete_disks[of p ?st1 c stage] unfolding vm clears_def by simp
  have S: "does p ?st2 (for_each (Deployment_deleteStemcell p c stage) (rev (map NewCloudStemcell (current_stemcells st))))
      (clears c (fold StemcellRepo_remove (current_stemcells st)) ?st2)"
  proof (cases "current_stemcell st")
    case None
    then show ?thesis by (auto simp: current_stemcells_def clears_def accounts.none intro: does_ret)
  next
    case (Some x)
    then have "x \<in> set (Stemcells st)" by (auto simp: current_stemcell_def dest: find_SomeD split: if_splits)
    then have "x \<in> set (Stemcells ?st2)" by (simp add: fd vm)
    from does_delete_stemcells[OF this]
    have "does p ?st2 (seq (Deployment_deleteStemcell p c stage (NewCloudStemcell x)) (ret ())) (clears c (StemcellRepo_remove x) ?st2)"
      by (rule does_seq) (auto intro: does_ret simp: clears_def)
    then show ?thesis using Some by (simp add: current_stemcells_def clears_def[abs_def])
  qed
  have DS: "does p ?st1 (seq (for_each (Deployment_deleteDisk p c stage) (rev (map NewDisk (current_disks st))))
       (for_each (Deployment_deleteStemcell p c stage) (rev (map NewCloudStemcell (current_stemcells st)))))
      (clears c (fold StemcellRepo_remove (current_stemcells st) o fold DiskRepo_remove (current_disks st)) ?st1)"
    by (rule clears_then[OF D S])
  have "does p st (Deployment_Delete p c (NewDeployment (current_instances st) (map NewDisk (current_disks st))
     (map NewCloudStemcell (current_stemcells st))) stage)
     (clears c ((fold StemcellRepo_remove (current_stemcells st) o fold DiskRepo_remove (current_disks st)) o clear_vm) st)"
    unfolding Deployment_Delete_def NewDeployment_def Deployment.select_convs
    by (rule clears_then[OF does_delete_vms DS]) (simp_all add: Second_def Millisecond_def)
  moreover have "clears c ((fold StemcellRepo_remove (current_stemcells st) o fold DiskRepo_remove (current_disks st)) o clear_vm) st
      = clears c without_current st"
    by (intro ext) (simp add: clears_def without_current_def)
  ultimately show ?thesis by simp
qed

lemma clean_without_current:
  assumes "wf_state st" and "st' = without_current st"
  shows "st'\<lparr>Disks := filter (\<lambda>x. dr_ID x = CurrentDiskID st') (Disks st'),
             Stemcells := filter (\<lambda>x. sr_ID x = CurrentStemcellID st') (Stemcells st')\<rparr> = cleared st"
proof -
  have d: "CurrentDiskID st = '''' \<and> current_disks st = [] \<or> (\<exists>x. current_disks st = [x] \<and> dr_ID x = CurrentDiskID st)"
  proof (cases "CurrentDiskID st = ''''")
    case False
    then obtain y where "y \<in> set (Disks st)" "dr_ID y = CurrentDiskID st" using assms(1) by (auto simp: wf_state_def wf_disks_def)
    then show ?thesis using False find_ex[of y "Disks st" "\<lambda>r. dr_ID r = CurrentDiskID st"]
      by (auto simp: current_disks_def current_disk_def)
  qed (simp add: current_disks_def current_disk_def)
  have s: "CurrentStemcellID st = '''' \<and> current_stemcells st = [] \<or> (\<exists>x. current_stemcells st = [x] \<and> sr_ID x = CurrentStemcellID st)"
  proof (cases "CurrentStemcellID st = ''''")
    case False
    then obtain y where "y \<in> set (Stemcells st)" "sr_ID y = CurrentStemcellID st" using assms(1) by (auto simp: wf_state_def wf_stemcells_def)
    then show ?thesis using False find_ex[of y "Stemcells st" "\<lambda>r. sr_ID r = CurrentStemcellID st"]
      by (auto simp: current_stemcells_def current_stemcell_def)
  qed (simp add: current_stemcells_def current_stemcell_def)
  have n: "'''' \<notin> dr_ID ` set (Disks st)" "'''' \<notin> sr_ID ` set (Stemcells st)"
    using assms(1) by (simp_all add: wf_state_def wf_disks_def wf_stemcells_def)
  let ?v = "clear_vm st"
  have v: "CurrentVMCID ?v = ''''" "CurrentDiskID ?v = CurrentDiskID st" "Disks ?v = Disks st" "Stemcells ?v = Stemcells st"
      "CurrentStemcellID ?v = '''' \<or> CurrentStemcellID ?v = CurrentStemcellID st"
      "?v\<lparr>CurrentStemcellID := ''''\<rparr> = st\<lparr>CurrentVMCID := '''', CurrentStemcellID := ''''\<rparr>"
    by (auto simp: clear_vm_def no_vm_def)
  have c: "cleared st = ?v\<lparr>CurrentStemcellID := '''', CurrentDiskID := '''', Disks := [], Stemcells := []\<rparr>"
    using v(6) by (auto simp: cleared_def)
  have D: "\<exists>ds. set ds \<subseteq> set (Disks st) \<and> fold DiskRepo_remove (current_disks st) ?v = ?v\<lparr>CurrentDiskID := '''', Disks := ds\<rparr>"
    using d
  proof (elim disjE exE conjE)
    assume "CurrentDiskID st = ''''" "current_disks st = []"
    then show ?thesis using v(2,3) by (intro exI[of _ "Disks st"]) (cases "?v", simp)
  next
    fix x assume "current_disks st = [x]" "dr_ID x = CurrentDiskID st"
    then show ?thesis using v(2,3) by (simp add: DiskRepo_remove_def Let_def) (rule exI[of _ "filter (\<lambda>r. dr_ID r \<noteq> CurrentDiskID st) (Disks st)"], cases "?v", auto)
  qed
  then obtain ds where ds: "set ds \<subseteq> set (Disks st)"
    "fold DiskRepo_remove (current_disks st) ?v = ?v\<lparr>CurrentDiskID := '''', Disks := ds\<rparr>" by blast
  have w: "st' = fold StemcellRepo_remove (current_stemcells st) (?v\<lparr>CurrentDiskID := '''', Disks := ds\<rparr>)"
    unfolding assms(2) without_current_def ds(2) ..
  have S: "\<exists>ss. set ss \<subseteq> set (Stemcells st) \<and> st' = ?v\<lparr>CurrentDiskID := '''', Disks := ds, CurrentStemcellID := '''', Stemcells := ss\<rparr>"
    using s
  proof (elim disjE exE conjE)
    assume "CurrentStemcellID st = ''''" "current_stemcells st = []"
    then show ?thesis using v(4,5) by (intro exI[of _ "Stemcells st"]) (cases "?v", auto simp: w)
  next
    fix x assume x: "current_stemcells st = [x]" "sr_ID x = CurrentStemcellID st"
    show ?thesis using x v(4,5)
      by (intro exI[of _ "filter (\<lambda>r. sr_ID x \<noteq> sr_ID r) (Stemcells st)"])
        (cases "?v", auto simp: w StemcellRepo_remove_def Let_def)
  qed
  then obtain ss where ss: "set ss \<subseteq> set (Stemcells st)"
    "st' = ?v\<lparr>CurrentDiskID := '''', Disks := ds, CurrentStemcellID := '''', Stemcells := ss\<rparr>" by blast
  have "filter (\<lambda>x. dr_ID x = '''') ds = []" "filter (\<lambda>x. sr_ID x = '''') ss = []"
    using n ds(1) ss(1) by (auto simp: filter_empty_conv image_iff dest!: subsetD)
  then show ?thesis by (simp add: ss(2) c)
qed

section \<open>The calls of a deployment\<close>

lemma non_cpi_agent [simp]: "CallListDisk \<in> non_cpi" "CallUnmountDisk x \<in> non_cpi" "CallMountDisk x \<in> non_cpi" "CallMigrateDisk \<in> non_cpi"
  by (auto simp: non_cpi_def)

lemma adds_AttemptRetry [adds_intros]:
  assumes "adds K att"
  shows "adds K (AttemptRetry n delay att)"
proof -
  have "adds K (attempt_loop m delay att err)" for m err
    by (induction m arbitrary: err) (auto intro!: adds_intros assms)
  then show ?thesis by (simp add: AttemptRetry_def)
qed

lemma adds_UpdateJobs:
  assumes "\<And>jn n d stage ag. adds non_cpi (build jn n d stage ag)"
  shows "adds non_cpi (UpdateJobs build i d stage)"
  unfolding UpdateJobs_def waitUntilJobsAreRunning_def VM_WaitToBeRunning_def VM_Apply_def VM_GetState_def VM_Stop_def
    VM_Start_def VM_RunScript_def get_state_attempt_def
  by (intro adds_intros assms) simp_all

lemma adds_NewBuilder: "adds non_cpi (NewBuilder sha1_files script iter1 iter2 h releases jn n d stage ag)"
proof -
  have "adds non_cpi (InMemoryIndex_Find dec k)" "adds non_cpi (InMemoryIndex_Save k j)" for dec :: "json \<Rightarrow> goerr + CompiledPackageRecord" and k j
    unfolding InMemoryIndex_Find_def InMemoryIndex_Save_def by (intro adds_intros adds_modify; simp)+
  then show ?thesis unfolding NewBuilder_def
    by (intro adds_Builder_Build adds_DependencyCompiler adds_RemotePackageCompiler)
qed

text \<open>
  The three parts of a deployment: the deletion of the old VM, the creation of the new
  instance, and the update of its jobs, which makes no CPI call. The second part begins only
  when the CPI has been told to delete the old VM.
\<close>

definition delete_calls :: "cloud \<Rightarrow> string \<Rightarrow> call set" where
  "delete_calls c vm = {cpi_call c ''has_vm'' [ArgStr vm], delete_vm_call c vm} \<union> shutdown_calls"

definition deploys :: "cloud \<Rightarrow> RegistryConf \<Rightarrow> string \<Rightarrow> call list \<Rightarrow> bool" where
  "deploys c rg vm ks \<longleftrightarrow> (\<exists>kd kc ku. ks = kd @ kc @ ku \<and> set kd \<subseteq> delete_calls c vm
     \<and> set kc \<subseteq> create_calls c rg \<and> set ku \<subseteq> non_cpi
     \<and> (kc @ ku \<noteq> [] \<longrightarrow> vm = '''' \<or> delete_vm_call c vm \<in> set kd))"

definition creates :: "cloud \<Rightarrow> RegistryConf \<Rightarrow> call list \<Rightarrow> bool" where
  "creates c rg ks \<longleftrightarrow> (\<exists>kc ku. ks = kc @ ku \<and> set kc \<subseteq> create_calls c rg \<and> set ku \<subseteq> non_cpi)"

lemma does_DeleteAll_calls:
  "does p st (DeleteAll p c (10 * Second) (500 * Millisecond) stage) (\<lambda>r ks st'. set ks \<subseteq> delete_calls c (CurrentVMCID st)
     \<and> plain_result r \<and> (r = Ok () \<longrightarrow> CurrentVMCID st = '''' \<and> st' = st \<or> delete_vm_call c (CurrentVMCID st) \<in> set ks \<and> st' = no_vm st))"
  by (rule does_mono[OF does_DeleteAll])
    (auto simp: Second_def Millisecond_def deletes_vm_def delete_calls_def failed_def split: if_splits)

text \<open>The creation of all instances, as a run from a world with a known state.\<close>

lemma createAllInstances_run:
  assumes s: "state_at p w st" and dp: "deployable d"
    and build: "\<And>jn n d stage ag. adds non_cpi (build jn n d stage ag)"
  shows "wp (createAllInstances p c build d stem rg stage) (\<lambda>r w'. \<exists>ks. calls w' = calls w @ ks \<and> creates c rg ks) w"
    (is "wp _ ?Q w")
proof -
  have none: "creates c rg []" by (auto simp: creates_def)
  have one: "wp (createInstances p c build d stem rg stage jn [0] acc) ?Q w" for jn acc
    unfolding createInstances.simps
  proof (rule wp_bnd_wrapf[OF doesD[OF does_InstanceManager_Create[OF dp] s]], goal_cases)
    case (1 x v)
    obtain i ds where x: "x = (i, ds)" by (cases x)
    from 1 obtain ks where ks: "calls v = calls w @ ks" "set ks \<subseteq> create_calls c rg"
      by (auto simp: moved_def creates_instance_def)
    have "wp (seq (UpdateJobs build i d stage) (ret y)) ?Q v" for y
      by (rule wp_mono[OF addsD[OF adds_seq[OF adds_UpdateJobs[OF build] adds_basic(1)]]])
        (use ks in \<open>auto simp: creates_def\<close>)
    then show ?case by (simp add: x)
  next
    case (2 e v)
    then obtain ks where ks: "calls v = calls w @ ks" "set ks \<subseteq> create_calls c rg" by (auto simp: moved_def creates_instance_def)
    then have "creates c rg ks" unfolding creates_def by (intro exI[of _ ks] exI[of _ "[]"]) simp
    then show ?case using ks by blast
  qed auto
  have jobs: "wp (createJobs p c build d stem rg stage [j] acc) ?Q w" for j acc
  proof (cases "mj_Instances j = 1")
    case True
    then show ?thesis by (simp del: createInstances.simps) (rule wp_bnd_rule[OF one], auto simp: wp_ret)
  qed (auto simp: wp_fail none intro!: exI[of _ "[]"])
  show ?thesis unfolding createAllInstances_def
  proof (cases "length (mf_Jobs d) \<noteq> 1")
    case True
    then show "wp (if length (mf_Jobs d) \<noteq> 1 then fail (Errorf ''There must only be one job, found %d'' [AInt (int (length (mf_Jobs d)))])
      else createJobs p c build d stem rg stage (mf_Jobs d) ([], [])) ?Q w"
      by (auto simp: wp_fail none intro!: exI[of _ "[]"])
  next
    case False
    then obtain j where "mf_Jobs d = [j]" by (auto simp: length_Suc_conv)
    then show "wp (if length (mf_Jobs d) \<noteq> 1 then fail (Errorf ''There must only be one job, found %d'' [AInt (int (length (mf_Jobs d)))])
      else createJobs p c build d stem rg stage (mf_Jobs d) ([], [])) ?Q w"
      using jobs[of j "([], [])"] by simp
  qed
qed

lemma Deploy_calls:
  assumes s: "state_at p w st" and dp: "deployable d"
    and build: "\<And>jn n d stage ag. adds non_cpi (build jn n d stage ag)"
  shows "wp (Deploy p c build d stem rg stage) (\<lambda>r w'. \<exists>ks. calls w' = calls w @ ks \<and> deploys c rg (CurrentVMCID st) ks) w"
    (is "wp _ ?Q w")
  unfolding Deploy_def
proof (rule wp_seq_rule[OF doesD[OF does_DeleteAll_calls s]], goal_cases)
  case (1 u v)
  then obtain kd st1 where v: "moved w kd v" "state_at p v st1" "set kd \<subseteq> delete_calls c (CurrentVMCID st)"
    "CurrentVMCID st = '''' \<or> delete_vm_call c (CurrentVMCID st) \<in> set kd" by auto
  have D: "?Q r w'" if ks: "\<exists>ks. calls w' = calls v @ ks \<and> creates c rg ks" for r :: "Deployment outcome" and w'
  proof -
    from ks obtain ks where ks: "calls w' = calls v @ ks" "creates c rg ks" by blast
    then have "deploys c rg (CurrentVMCID st) (kd @ ks)" unfolding deploys_def creates_def using v(3,4) by blast
    then show ?thesis using ks v(1) by (auto simp: moved_def)
  qed
  show ?case
    by (rule wp_bnd_rule[OF createAllInstances_run[OF v(2) dp build]])
      (auto simp only: wp_ret split: prod.splits intro: D)
next
  case (2 e v)
  then obtain kd where "moved w kd v" "set kd \<subseteq> delete_calls c (CurrentVMCID st)" by auto
  moreover then have "deploys c rg (CurrentVMCID st) kd" unfolding deploys_def by (intro exI[of _ kd] exI[of _ "[]"]) auto
  ultimately show ?case by (auto simp: moved_def)
qed auto

text \<open>So a VM is created only after the CPI was told to delete the old one.\<close>

lemma create_vm_not_before:
  assumes "deploys c rg vm ks" "ks = pre @ k # rest" "k \<in> cpi_calls c {''create_vm''}" "vm \<noteq> ''''"
  shows "delete_vm_call c vm \<in> set pre"
proof -
  obtain kd kc ku where ks: "ks = kd @ kc @ ku" "set kd \<subseteq> delete_calls c vm" "set ku \<subseteq> non_cpi"
    "kc @ ku \<noteq> [] \<longrightarrow> delete_vm_call c vm \<in> set kd" using assms(1,4) unfolding deploys_def by blast
  have "k \<notin> delete_calls c vm"
    using assms(3) by (auto simp: delete_calls_def cpi_calls_def cpi_call_def delete_vm_call_def shutdown_calls_def)
  then have n: "k \<notin> set kd" using ks(2) by blast
  have "length kd \<le> length pre"
  proof (rule ccontr)
    assume "\<not> length kd \<le> length pre"
    then have "k = kd ! length pre"
      using arg_cong[OF assms(2)[unfolded ks(1)], of "\<lambda>l. l ! length pre"] by (simp add: nth_append)
    then show False using n \<open>\<not> length kd \<le> length pre\<close> by simp
  qed
  then have "take (length kd) pre = kd"
    using arg_cong[OF assms(2)[unfolded ks(1)], of "take (length kd)"] by simp
  then have p: "pre = kd @ drop (length kd) pre" by (metis append_take_drop_id)
  have "kc @ ku \<noteq> []"
  proof
    assume "kc @ ku = []"
    then have "k \<in> set kd" using assms(2) ks(1) by simp
    then show False using n by simp
  qed
  then show ?thesis using ks(4) p by (metis Un_iff set_append)
qed

text \<open>
  A manifest with the wrong number of jobs or instances is refused, but only after the old VM
  has been deleted.
\<close>

definition wrong_size :: "Manifest \<Rightarrow> bool" where
  "wrong_size d \<longleftrightarrow> length (mf_Jobs d) \<noteq> 1 \<or> mj_Instances (hd (mf_Jobs d)) \<noteq> 1"

lemma does_Deploy_wrong_size:
  assumes "wrong_size d"
  shows "does p st (Deploy p c build d stem rg stage) (\<lambda>r ks st'. failed r
    \<and> (if CurrentVMCID st = '''' then ks = [] \<and> st' = st else \<exists>r1. deletes_vm c (CurrentVMCID st) st r1 ks st'))"
proof -
  have c: "\<exists>e. plain e \<and> createAllInstances p c build d stem rg stage = fail e"
  proof (cases "length (mf_Jobs d) \<noteq> 1")
    case False
    then obtain j where "mf_Jobs d = [j]" by (auto simp: length_Suc_conv)
    then show ?thesis using assms
      by (simp add: createAllInstances_def wrong_size_def) (rule exI, rule conjI[rotated], rule refl, simp)
  qed (simp add: createAllInstances_def, rule exI, rule conjI[rotated], rule refl, simp)
  then obtain e where e: "plain e" "createAllInstances p c build d stem rg stage = fail e" by blast
  have f: "bnd (fail e) f = (fail e :: (world, Deployment) prog)" for f :: "Instance list \<times> Disk list \<Rightarrow> (world, Deployment) prog"
    by (rule ext) (simp add: bnd_def fail_def)
  show ?thesis unfolding Deploy_def e(2) f
    by (rule does_seq[OF does_DeleteAll])
      (use e(1) in \<open>auto simp: Second_def Millisecond_def deletes_vm_def failed_def intro!: does_fail split: if_splits\<close>)
qed

end
