(* ===== verification/Installation.thy ===== *)
theory Installation
  imports Deployment
begin

text \<open>
  The installation of the CPI on the local machine: installation/target.go, target_provider.go,
  job_resolver.go, package_compiler.go, job_renderer.go, installer.go, installation.go,
  uninstaller.go and the server manager of registry/server.go. A target is its path. Shown:
  that the target is the same on every run, what an installation is, and that a registry which
  was started is stopped again, whatever the code in between does.
\<close>

section \<open>installation/target.go\<close>

definition BlobstorePath :: "string \<Rightarrow> string" where
  "BlobstorePath target = JoinPath [target, ''blobs'']"

definition CompiledPackagedIndexPath :: "string \<Rightarrow> string" where
  "CompiledPackagedIndexPath target = JoinPath [target, ''compiled_packages.json'']"

definition TemplatesIndexPath :: "string \<Rightarrow> string" where
  "TemplatesIndexPath target = JoinPath [target, ''templates.json'']"

definition PackagesPath :: "string \<Rightarrow> string" where
  "PackagesPath target = JoinPath [target, ''packages'']"

definition JobsPath :: "string \<Rightarrow> string" where
  "JobsPath target = JoinPath [target, ''jobs'']"

definition TmpPath :: "string \<Rightarrow> string" where
  "TmpPath target = JoinPath [target, ''tmp'']"

section \<open>installation/target\_provider.go\<close>

definition NewTarget :: "string \<Rightarrow> string \<Rightarrow> (world, string) prog" where
  "NewTarget p installationsRootPath =
     bnd (wrap ''Loading deployment state'' (Load p)) (\<lambda>deploymentState.
     if InstallationID deploymentState = ''''
     then bnd (wrap ''Generating installation ID'' Generate) (\<lambda>installationID.
          seq (wrap ''Saving deployment state'' (Save p (deploymentState\<lparr>InstallationID := installationID\<rparr>)))
              (ret (JoinPath [installationsRootPath, installationID])))
     else ret (JoinPath [installationsRootPath, InstallationID deploymentState]))"

section \<open>installation/job\_resolver.go, package\_compiler.go\<close>

definition InstallationJobResolver_From :: "Release list \<Rightarrow> InstallationManifest \<Rightarrow> goerr + Job list" where
  "InstallationJobResolver_From releases installationManifest =
     map_sum_list (\<lambda>r. wraps ''Resolving job %s in release %s'' [AStr (tr_Name r), AStr (tr_Release r)]
       (JobResolver_Resolve releases (tr_Name r) (tr_Release r))) [im_Template installationManifest]"

definition PackageCompiler_For ::
  "(Job list \<Rightarrow> nat \<Rightarrow> (world, CompiledPackageRef list) prog) \<Rightarrow> Job list \<Rightarrow> nat \<Rightarrow> (world, CompiledPackageRef list) prog" where
  "PackageCompiler_For compile jobs stage =
     bnd (wrap ''Compiling job package dependencies for installation'' (compile jobs stage)) (\<lambda>compiledPackageRefs.
     ret (map (\<lambda>r. \<lparr>cpr_Name = cpr_Name r, cpr_Version = cpr_Version r, cpr_BlobstoreID = cpr_BlobstoreID r,
                    cpr_SHA1 = cpr_SHA1 r\<rparr>) compiledPackageRefs))"

section \<open>installation/job\_renderer.go\<close>

record RenderedJobRef =
  jr_Name :: string
  jr_Version :: string
  jr_BlobstoreID :: string
  jr_SHA1 :: string

definition compressAndUpload :: "RenderedJob \<Rightarrow> (world, RenderedJobRef) prog" where
  "compressAndUpload renderedJob =
     bnd (wrap ''Compressing rendered job templates'' (CompressFilesInDir (rn_path renderedJob))) (\<lambda>tarballPath.
     deferred
       (bnd (wrap ''Creating blob'' (request_val (CallExt ''blobstore.Create'' [tarballPath]) a_blob)) (\<lambda>blob.
        ret \<lparr>jr_Name = jb_Name (rn_job renderedJob), jr_Version = jb_Fingerprint (rn_job renderedJob),
             jr_BlobstoreID = br_BlobstoreID blob, jr_SHA1 = br_SHA1 blob\<rparr>))
       (silently (ext_unit ''compressor.CleanUp'' [tarballPath])))"

definition installation_renderJobTemplates ::
  "string \<Rightarrow> Job list \<Rightarrow> (string \<times> gomap option) list \<Rightarrow> gomap option \<Rightarrow> gomap option \<Rightarrow> string \<Rightarrow> nat
    \<Rightarrow> (world, RenderedJobRef list) prog" where
  "installation_renderJobTemplates script releaseJobs releaseJobProperties jobProperties globalProperties deploymentName stage =
     Perform_val stage ''Rendering job templates'' []
       (bnd (JobListRenderer_Render script releaseJobs releaseJobProperties jobProperties globalProperties deploymentName '''')
         (\<lambda>renderedJobList. deferred (map_prog compressAndUpload renderedJobList) (RenderedJobList_DeleteSilently renderedJobList)))"

definition RenderAndUploadFrom :: "string \<Rightarrow> InstallationManifest \<Rightarrow> Job list \<Rightarrow> nat \<Rightarrow> (world, RenderedJobRef list) prog" where
  "RenderAndUploadFrom script installationManifest jobs stage =
     bnd (wrap ''Rendering job templates for installation''
            (installation_renderJobTemplates script jobs [] (Some (im_Properties installationManifest)) (Some [])
               (im_Name installationManifest) stage)) (\<lambda>renderedJobRefs.
     seq (check (length renderedJobRefs = 1) (GoError ''Too many jobs rendered... oops?''))
         (ret renderedJobRefs))"

section \<open>registry/server.go\<close>

text \<open>
  The manager blocks until the listener is there or has failed; the requests are answered by
  \<open>HandleFunc\<close> of the registry.
\<close>

definition ServerManager_Start :: "string \<Rightarrow> string \<Rightarrow> string \<Rightarrow> int \<Rightarrow> (world, unit) prog" where
  "ServerManager_Start username password host port =
     wrap ''Starting registry listener'' (request_unit (CallStartRegistry username password host port))"

definition Server_Stop :: "(world, unit) prog" where
  "Server_Stop = wrap ''Stopping registry server'' (request_unit CallStopRegistry)"

section \<open>installation/installation.go\<close>

record InstalledJob =
  ij_Ref :: RenderedJobRef
  ij_Path :: string

text \<open>\<open>in_registryServer\<close> says whether there is a server.\<close>

record Installation =
  in_target :: string
  in_job :: InstalledJob
  in_manifest :: InstallationManifest
  in_registryServer :: bool

definition StartRegistry :: "Installation \<Rightarrow> (world, Installation) prog" where
  "StartRegistry i =
     (let config = im_Registry (in_manifest i) in
      if Registry_IsEmpty config then ret i
      else if in_registryServer i then fail (GoError ''Registry already started'')
      else seq (wrap ''Starting registry'' (ServerManager_Start (rg_Username config) (rg_Password config) (rg_Host config) (rg_Port config)))
               (ret (i\<lparr>in_registryServer := True\<rparr>)))"

definition StopRegistry :: "Installation \<Rightarrow> (world, Installation) prog" where
  "StopRegistry i =
     (if Registry_IsEmpty (im_Registry (in_manifest i)) then ret i
      else if \<not> in_registryServer i then fail (GoError ''Registry must be started before it can be stopped'')
      else seq (wrap ''Stopping registry'' Server_Stop) (ret (i\<lparr>in_registryServer := False\<rparr>)))"

definition stopRegistryNice :: "Installation \<Rightarrow> nat \<Rightarrow> (world, unit) prog" where
  "stopRegistryNice i stage = silently (Perform_val stage ''Stopping registry'' i (StopRegistry i))"

definition WithRunningRegistry :: "Installation \<Rightarrow> nat \<Rightarrow> (world, 'a) prog \<Rightarrow> (world, 'a) prog" where
  "WithRunningRegistry i stage fn =
     bnd (Perform_val stage ''Starting registry'' i (StartRegistry i)) (\<lambda>i'.
     deferred fn (stopRegistryNice i' stage))"

section \<open>installation/installer.go\<close>

definition Installer_installPackages :: "string \<Rightarrow> CompiledPackageRef list \<Rightarrow> (world, unit) prog" where
  "Installer_installPackages target compiledPackages =
     for_each (\<lambda>p. wrapf ''Installing package %s'' [AStr (cpr_Name p)]
       (Extract (cpr_BlobstoreID p) (cpr_SHA1 p) (JoinPath [PackagesPath target, cpr_Name p]))) compiledPackages"

definition installJob :: "string \<Rightarrow> RenderedJobRef \<Rightarrow> nat \<Rightarrow> (world, InstalledJob) prog" where
  "installJob target ref stage =
     (let jobDir = JoinPath [JobsPath target, jr_Name ref] in
      Perform_val stage (''Installing job '' @ jr_Name ref)
        \<lparr>ij_Ref = \<lparr>jr_Name = '''', jr_Version = '''', jr_BlobstoreID = '''', jr_SHA1 = ''''\<rparr>, ij_Path = ''''\<rparr>
        (seq (wrapf ''Extracting blob with ID %s'' [AStr (jr_BlobstoreID ref)] (Extract (jr_BlobstoreID ref) (jr_SHA1 ref) jobDir))
        (seq (wrapf ''Chmoding binaries for %s'' [AStr jobDir] (ChmodExecutables (JoinPath [jobDir, ''bin'', ''*''])))
             (ret \<lparr>ij_Ref = ref, ij_Path = jobDir\<rparr>))))"

definition Install ::
  "string \<Rightarrow> Release list \<Rightarrow> (Job list \<Rightarrow> nat \<Rightarrow> (world, CompiledPackageRef list) prog) \<Rightarrow> string
    \<Rightarrow> InstallationManifest \<Rightarrow> nat \<Rightarrow> (world, Installation) prog" where
  "Install target releases compile script manifest stage =
     bnd (wrap ''Resolving jobs from manifest'' (lift_sum (InstallationJobResolver_From releases manifest))) (\<lambda>jobs.
     bnd (PackageCompiler_For compile jobs stage) (\<lambda>compiledPackages.
     seq (Perform stage ''Installing packages'' (Installer_installPackages target compiledPackages))
    (bnd (wrap ''Rendering and uploading Jobs'' (RenderAndUploadFrom script manifest jobs stage)) (\<lambda>renderedJobRefs.
     case renderedJobRefs of [] \<Rightarrow> panic ''index out of range''
     | renderedCPIJob # _ \<Rightarrow>
       bnd (wrapf ''Installing job %s for CPI release'' [AStr (jr_Name renderedCPIJob)] (installJob target renderedCPIJob stage)) (\<lambda>installedJob.
       ret \<lparr>in_target = target, in_job = installedJob, in_manifest = manifest, in_registryServer = False\<rparr>)))))"

definition Installer_Cleanup :: "Installation \<Rightarrow> (world, unit) prog" where
  "Installer_Cleanup i = Extractor_Cleanup (jr_BlobstoreID (ij_Ref (in_job i))) (ij_Path (in_job i))"

section \<open>installation/uninstaller.go\<close>

definition Uninstall :: "string \<Rightarrow> (world, unit) prog" where
  "Uninstall installationTarget = RemoveAll installationTarget"

section \<open>The target\<close>

text \<open>
  The target is under the installations' root, by the id of the installation, which is made
  when there is none and then kept.
\<close>

lemma does_NewTarget:
  "does p st (NewTarget p dir) (\<lambda>r ks st'. ks = [] \<and> plain_result r \<and>
     (\<forall>t. r = Ok t \<longrightarrow> InstallationID st' \<noteq> '''' \<and> t = JoinPath [dir, InstallationID st']
        \<and> st' = st\<lparr>InstallationID := InstallationID st'\<rparr> \<and> (InstallationID st \<noteq> '''' \<longrightarrow> st' = st))
     \<and> (\<forall>e. r = Err e \<longrightarrow> st' = st))"
proof (rule doesI)
  fix w assume s: "state_at p w st"
  then have l: "loaded p w st" and a: "atomic_writes w" and pr: "proper st" and fr: "fresh_ids w (record_ids st)"
    by (auto simp: state_at_def repo_inv_def loaded_proper dest: loaded_unique)
  let ?P = "\<lambda>r w'. returns r \<and> (\<exists>ks st'. moved w ks w' \<and> state_at p w' st' \<and> ks = [] \<and> plain_result r \<and>
     (\<forall>t. r = Ok t \<longrightarrow> InstallationID st' \<noteq> '''' \<and> t = JoinPath [dir, InstallationID st']
        \<and> st' = st\<lparr>InstallationID := InstallationID st'\<rparr> \<and> (InstallationID st \<noteq> '''' \<longrightarrow> st' = st))
     \<and> (\<forall>e. r = Err e \<longrightarrow> st' = st))"
  have pe: "plain_errors (NewTarget p dir)"
    unfolding NewTarget_def by (intro plain_intros)
  have ids: "reload_state (st\<lparr>InstallationID := u\<rparr>) = st\<lparr>InstallationID := u\<rparr>" "storable (st\<lparr>InstallationID := u\<rparr>)"
    "DirectorID (st\<lparr>InstallationID := u\<rparr>) \<noteq> ''''" "wf_state (st\<lparr>InstallationID := u\<rparr>)" "record_ids (st\<lparr>InstallationID := u\<rparr>) = record_ids st" for u
    using pr state_at_wf[OF s] by (simp_all only: reload_state_fix) (simp_all add: proper_def storable_def wf_state_def record_ids_def)
  have tick: "state_at p v st \<and> moved w [] v" if "ticked w v" for v using state_at_ticked[OF s that] .
  have "wp (NewTarget p dir) (\<lambda>r w'. (\<exists>t. r = Ok t \<and> (\<exists>st'. moved w [] w' \<and> state_at p w' st' \<and>
       InstallationID st' \<noteq> '''' \<and> t = JoinPath [dir, InstallationID st']
        \<and> st' = st\<lparr>InstallationID := InstallationID st'\<rparr> \<and> (InstallationID st \<noteq> '''' \<longrightarrow> st' = st)))
     \<or> (\<exists>e. r = Err e \<and> ticked w w')) w" (is "wp _ ?Q w")
    unfolding NewTarget_def
  proof (rule Load_wp[OF l], goal_cases)
    case (1 w1)
    show ?case
    proof (cases "InstallationID st = ''''")
      case True
      show ?thesis unfolding if_P[OF True]
      proof (rule Generate_wp, goal_cases)
        case (1 u w2)
        have t: "ticked w w2" using \<open>ticked w w1\<close> 1 by (blast intro: ticked_trans)
        have "u \<in> generated w w2" by (rule generated_mono[OF \<open>ticked w w1\<close> 1])
        then have u: "u \<noteq> ''''" using fr by (auto simp: generated_def fresh_ids_def)
        show ?case
        proof (rule Save_wp[OF state_file.holds_ticked[OF l t]], goal_cases)
          case (2 w3)
          have inv: "repo_inv p w3"
            by (rule repo_inv_saved[OF l fr t _ 2 ids(4,2,3)]) (use a t ids(5) in \<open>auto simp: atomic_writes_ticked\<close>)
          have "state_at p w3 (st\<lparr>InstallationID := u\<rparr>)" "moved w [] w3"
            using state_at_saved[OF s inv t 2 ids(2,3)] unfolding ids(1) by simp_all
          then show ?case using u True by (auto simp: wp_ret intro!: exI[of _ "st\<lparr>InstallationID := u\<rparr>"])
        qed (use a t in \<open>auto simp: atomic_writes_ticked intro: ticked_trans\<close>)
      qed (use \<open>ticked w w1\<close> in \<open>auto intro: ticked_trans\<close>)
    next
      case False
      then show ?thesis using tick[OF \<open>ticked w w1\<close>] by (auto simp: wp_ret intro!: exI[of _ st])
    qed
  qed auto
  note Q = this
  show "wp (NewTarget p dir) ?P w"
  proof (rule wpI)
    fix r w' assume run: "NewTarget p dir w = (r, w')"
    have "?Q r w'" using wpD[OF Q run] .
    have p: "returns r" "plain_result r" using plain_errorsD[OF pe] run wpD[OF Q run] by (auto simp: plain_result_def)
    from \<open>?Q r w'\<close> show "?P r w'"
    proof (elim disjE exE conjE, goal_cases)
      case (1 t st')
      show ?case by (intro conjI p(1) exI[of _ "[]"] exI[of _ st']) (use 1 p in auto)
    next
      case (2 e)
      show ?case by (intro conjI p(1) exI[of _ "[]"] exI[of _ st]) (use 2 p tick[OF 2(2)] in auto)
    qed
  qed
qed

section \<open>The installation\<close>

text \<open>\<open>yields Q m\<close>: \<open>m\<close> never panics nor hangs, and whatever it returns as a result satisfies \<open>Q\<close>.\<close>

definition yields :: "('a \<Rightarrow> bool) \<Rightarrow> (world, 'a) prog \<Rightarrow> bool" where
  "yields Q m \<longleftrightarrow> (\<forall>w. returns (fst (m w)) \<and> (\<forall>x. fst (m w) = Ok x \<longrightarrow> Q x))"

abbreviation total :: "(world, 'a) prog \<Rightarrow> bool" where
  "total m \<equiv> yields (\<lambda>_. True) m"

lemma yieldsD: "yields Q m \<Longrightarrow> m w = (r, w') \<Longrightarrow> returns r \<and> (\<forall>x. r = Ok x \<longrightarrow> Q x)"
  unfolding yields_def by (metis fst_conv)

lemma yields_wp: "(\<And>w. wp m (\<lambda>r w'. returns r \<and> (\<forall>x. r = Ok x \<longrightarrow> Q x)) w) \<Longrightarrow> yields Q m"
  by (auto simp: yields_def wp_def split_beta)

lemma wp_yields: "yields Q m \<Longrightarrow> wp m (\<lambda>r w'. returns r \<and> (\<forall>x. r = Ok x \<longrightarrow> Q x)) w"
  by (simp add: yields_def wp_def split_beta)

lemma yields_mono: "yields P m \<Longrightarrow> (\<And>x. P x \<Longrightarrow> Q x) \<Longrightarrow> yields Q m"
  unfolding yields_def by blast

lemma yields_total: "yields P m \<Longrightarrow> total m"
  by (erule yields_mono) simp

lemma safe_total: "safe (\<lambda>_. True) m \<Longrightarrow> total m"
  unfolding yields_def safe_def by blast

lemma steady_True: "steady (\<lambda>_. True)"
  by (simp add: steady_def)

lemmas total_requests = safe_requests[OF steady_True, THEN safe_total]

lemma yields_ret: "Q x \<Longrightarrow> yields Q (ret x)"
  by (rule yields_wp) (simp add: wp_ret)

lemma yields_bnd: "yields P m \<Longrightarrow> (\<And>x. P x \<Longrightarrow> yields Q (f x)) \<Longrightarrow> yields Q (bnd m f)"
  by (rule yields_wp, rule wp_bnd_rule, erule wp_yields) (auto intro: wp_yields)

lemma yields_seq: "total m \<Longrightarrow> yields Q n \<Longrightarrow> yields Q (seq m n)"
  unfolding seq_def by (rule yields_bnd)

lemma yields_check: "(b \<Longrightarrow> yields Q n) \<Longrightarrow> yields Q (seq (check b e) n)"
  by (rule yields_wp) (simp add: wp_simps wp_yields)

lemma yields_lift_sum: "(\<And>y. x = Inr y \<Longrightarrow> Q y) \<Longrightarrow> yields Q (lift_sum x)"
  by (rule yields_wp) (auto simp: wp_lift_sum split: sum.splits)

lemma yields_wrapf: "yields Q m \<Longrightarrow> yields Q (wrapf msg a m)" "yields Q m \<Longrightarrow> yields Q (wrap msg m)"
proof -
  show w: "yields Q (wrapf msg a m)" if "yields Q m" for a
    by (rule yields_wp, unfold wp_wrapf, rule wp_mono[OF wp_yields[OF that]]) (auto split: outcome.splits)
  show "yields Q m \<Longrightarrow> yields Q (wrap msg m)" unfolding wrap_def by (rule w)
qed

lemma yields_deferred: "yields Q m \<Longrightarrow> total d \<Longrightarrow> yields Q (deferred m d)"
proof (rule yields_wp, unfold wp_deferred, rule wp_mono, erule wp_yields)
  fix w and r :: "'a outcome" and w' assume d: "total d" and r: "returns r \<and> (\<forall>x. r = Ok x \<longrightarrow> Q x)"
  let ?G = "\<lambda>r. returns r \<and> (\<forall>x. r = Ok x \<longrightarrow> Q x)"
  have "wp d (\<lambda>q w''. case q of Panic s \<Rightarrow> ?G (Panic s) | Hang \<Rightarrow> ?G Hang | _ \<Rightarrow> ?G r) w'"
    by (rule wp_mono[OF wp_yields[OF d]]) (use r in \<open>auto elim!: returnsE\<close>)
  then show "case r of Hang \<Rightarrow> ?G Hang
    | _ \<Rightarrow> wp d (\<lambda>q w''. case q of Panic s \<Rightarrow> ?G (Panic s) | Hang \<Rightarrow> ?G Hang | _ \<Rightarrow> ?G r) w'"
    using r by (cases r) simp_all
qed

lemma total_silently: "total m \<Longrightarrow> total (silently m)"
  unfolding silently_def
  by (rule yields_wp) (simp add: wp_simps, erule wp_mono[OF wp_yields], auto simp: wp_ret split: outcome.splits)

lemma yields_Perform_val: "yields Q m \<Longrightarrow> Q z \<Longrightarrow> yields Q (Perform_val d n z m)"
proof (rule yields_wp, rule wp_Perform_val)
  fix w u s assume "yields Q m" "Q z"
  then show "wp m (\<lambda>r w'. returns (unskip z r) \<and> (\<forall>x. unskip z r = Ok x \<longrightarrow> Q x)) (w\<lparr>ui := u, simple_mode := s\<rparr>)"
    by (intro wp_mono[OF wp_yields[OF \<open>yields Q m\<close>]]) (auto simp: unskip_def split: outcome.splits if_splits)
qed (simp add: unseen_def)

lemma yields_Perform_plain:
  assumes "yields Q m" "plain_errors m"
  shows "yields Q (Perform_val d n z m)"
proof (rule yields_wp, rule wp_Perform_val)
  fix w u s
  show "wp m (\<lambda>r w'. returns (unskip z r) \<and> (\<forall>x. unskip z r = Ok x \<longrightarrow> Q x)) (w\<lparr>ui := u, simple_mode := s\<rparr>)"
    by (rule wpI) (use assms in \<open>auto simp: unskip_def dest: yieldsD plain_errorsD plainD split: outcome.splits if_splits\<close>)
qed (simp add: unseen_def)

lemma total_Perform: "total m \<Longrightarrow> total (Perform d n m)"
proof (rule yields_wp, rule wp_Perform)
  fix w u s assume "total m"
  then show "wp m (\<lambda>r w'. returns (unskip () r) \<and> (\<forall>x. unskip () r = Ok x \<longrightarrow> True)) (w\<lparr>ui := u, simple_mode := s\<rparr>)"
    by (intro wp_mono[OF wp_yields]) (auto simp: returns_unskip)
qed (simp add: unseen_def)

lemma total_loop: "(\<And>x. total (f x)) \<Longrightarrow> total (for_each f xs)"
  by (induction xs) (auto intro: yields_seq yields_ret)

lemma yields_map_prog: "(\<And>x. yields (Q x) (f x)) \<Longrightarrow> yields (list_all2 Q xs) (map_prog f xs)"
proof (induction xs)
  case Nil
  then show ?case by (simp add: yields_ret)
next
  case (Cons x xs)
  show ?case unfolding map_prog.simps
    by (rule yields_bnd[OF Cons.prems], rule yields_bnd[OF Cons.IH[OF Cons.prems]], rule yields_ret) simp
qed

lemma total_steps:
  "total (RemoveAll q)" "total (Extract id1 sha dir)" "total (CompressFilesInDir dir)" "total (ChmodExecutables g)"
proof -
  have r: "safe (\<lambda>_. True) (RemoveAll q)" for q
    unfolding RemoveAll_def by (intro safe_intros safe_requests steady_True safe_modify) simp
  show "total (RemoveAll q)" by (rule safe_total[OF r])
  have f: "safe (\<lambda>_. True) (DecompressFileToDir a b)" "safe (\<lambda>_. True) (MkdirAll a)" "safe (\<lambda>_. True) (FileExists a)" for a b
    unfolding DecompressFileToDir_def MkdirAll_def FileExists_def
    by (intro safe_intros safe_requests safe_request steady_True safe_modify; simp)+
  have s: "safe (\<lambda>_. True) (silently m)" if "safe (\<lambda>_. True) m" for m :: "(world, unit) prog"
    unfolding silently_def by (intro safe_intros that)
  show "total (Extract id1 sha dir)" unfolding Extract_def
    by (intro safe_total safe_intros f s safe_requests steady_True r safe_ret)
  show "total (CompressFilesInDir dir)" unfolding CompressFilesInDir_def
    by (intro safe_total safe_intros safe_request steady_True safe_modify) simp
  show "total (ChmodExecutables g)" unfolding ChmodExecutables_def
    by (intro safe_total safe_intros safe_requests steady_True)
qed

text \<open>
  An installation has the one job of the manifest's template, under the target's jobs, and no
  server yet.
\<close>

definition installed :: "string \<Rightarrow> InstallationManifest \<Rightarrow> Installation \<Rightarrow> bool" where
  "installed target m i \<longleftrightarrow> in_target i = target \<and> in_manifest i = m \<and> \<not> in_registryServer i
     \<and> jr_Name (ij_Ref (in_job i)) = tr_Name (im_Template m) \<and> ij_Path (in_job i) = JoinPath [JobsPath target, tr_Name (im_Template m)]"

lemma compressAndUpload_name: "yields (\<lambda>r. jr_Name r = jb_Name (rn_job j)) (compressAndUpload j)"
  unfolding compressAndUpload_def
  by (rule yields_bnd[OF yields_wrapf(2)[OF total_steps(3)]], rule yields_deferred,
      rule yields_bnd[OF yields_wrapf(2)[OF total_requests(2)]], rule yields_ret, simp)
     (intro total_silently total_requests)

lemma RenderAndUploadFrom_names:
  "yields (\<lambda>refs. length refs = 1 \<and> map jr_Name refs = map jb_Name jobs) (RenderAndUploadFrom script m jobs stage)"
proof -
  have R: "yields (\<lambda>l. map rn_job l = jobs) (JobListRenderer_Render script jobs ps p2 p3 n a)" for ps p2 p3 n a
    by (rule yields_wp, rule wp_mono[OF JobListRenderer_Render_runs]) blast
  have "yields (\<lambda>refs. refs = [] \<or> map jr_Name refs = map jb_Name jobs)
      (installation_renderJobTemplates script jobs ps p2 p3 n stage)" for ps p2 p3 n
    unfolding installation_renderJobTemplates_def
  proof (rule yields_Perform_val[OF yields_bnd[OF R]])
    fix l :: "RenderedJob list" assume l: "map rn_job l = jobs"
    have "map jr_Name refs = map jb_Name jobs" if "list_all2 (\<lambda>j r. jr_Name r = jb_Name (rn_job j)) l refs" for refs
      unfolding l[symmetric] using that by (induction rule: list_all2_induct) auto
    moreover have "total (RenderedJobList_DeleteSilently l)"
      by (rule yields_wp, rule wp_mono[OF ListDeleteSilently_ok]) simp
    ultimately show "yields (\<lambda>refs. refs = [] \<or> map jr_Name refs = map jb_Name jobs)
        (deferred (map_prog compressAndUpload l) (RenderedJobList_DeleteSilently l))"
      by (intro yields_deferred yields_mono[OF yields_map_prog[OF compressAndUpload_name]]) blast
  qed simp
  note R' = this
  show ?thesis unfolding RenderAndUploadFrom_def
    by (rule yields_bnd[OF yields_wrapf(2)[OF R']], rule yields_check, rule yields_ret) auto
qed

lemma installJob_yields:
  "yields (\<lambda>ij. ij_Ref ij = ref \<and> ij_Path ij = JoinPath [JobsPath target, jr_Name ref]) (installJob target ref stage)"
  unfolding installJob_def Let_def
  by (rule yields_Perform_plain, intro yields_seq yields_wrapf total_steps yields_ret, simp, intro plain_seq plain_wrapf plain_basic)

lemma InstallationJobResolver_From_name:
  "InstallationJobResolver_From releases m = Inr jobs \<Longrightarrow> map jb_Name jobs = [tr_Name (im_Template m)]"
  by (auto simp: InstallationJobResolver_From_def map_sum_list_Inr list_all2_Cons1 wraps_def JobResolver_Resolve_def
      Release_FindJobByName_def find_Some_iff split: option.splits sum.splits)

lemma Install_yields:
  assumes compile: "\<And>js n. total (compile js n)"
  shows "yields (installed target m) (Install target releases compile script m stage)"
proof -
  have tail: "yields (installed target m) (case refs of [] \<Rightarrow> panic ''index out of range''
      | j # _ \<Rightarrow> bnd (wrapf ''Installing job %s for CPI release'' [AStr (jr_Name j)] (installJob target j stage)) (\<lambda>ij.
          ret \<lparr>in_target = target, in_job = ij, in_manifest = m, in_registryServer = False\<rparr>))"
    if n: "map jb_Name jobs = [tr_Name (im_Template m)]" "length refs = 1 \<and> map jr_Name refs = map jb_Name jobs" for refs jobs
  proof -
    obtain j where r: "refs = [j]" and j: "jr_Name j = tr_Name (im_Template m)" using n by (cases refs) auto
    show ?thesis unfolding r list.case
      by (rule yields_bnd[OF yields_wrapf(1)[OF installJob_yields]], rule yields_ret) (auto simp: installed_def j)
  qed
  have packages: "total (Installer_installPackages target cs)" for cs
    unfolding Installer_installPackages_def by (intro total_loop yields_wrapf total_steps)
  have compiled: "total (PackageCompiler_For compile jobs stage)" for jobs
    unfolding PackageCompiler_For_def by (rule yields_bnd[OF yields_wrapf(2)[OF compile]]) (rule yields_ret, simp)
  show ?thesis unfolding Install_def
  proof (rule yields_bnd)
    show "yields (\<lambda>jobs. map jb_Name jobs = [tr_Name (im_Template m)])
        (wrap ''Resolving jobs from manifest'' (lift_sum (InstallationJobResolver_From releases m)))"
      by (intro yields_wrapf yields_lift_sum InstallationJobResolver_From_name)
  qed (rule yields_bnd[OF compiled], rule yields_seq[OF total_Perform[OF packages]],
      rule yields_bnd[OF yields_wrapf(2)[OF RenderAndUploadFrom_names]], rule tail)
qed

section \<open>The registry's life\<close>

text \<open>
  A configured registry runs exactly while the function does: it is started before it and
  stopped after it, also when the function failed; when it cannot be started, the function is
  not run. Without a configuration nothing is called.
\<close>

lemma does_silently:
  assumes "does p st m (\<lambda>r ks st'. Q (Ok ()) ks st')"
  shows "does p st (silently m) Q"
  unfolding silently_def
  by (rule does_seq[where R = "\<lambda>r ks st'. Q (Ok ()) ks st' \<and> (\<exists>x. r = Ok x)"], rule does_attempt, rule does_mono[OF assms])
     (auto elim!: returnsE intro: does_ret)

lemma does_deferred:
  assumes "does p st m (\<lambda>r ks st'. does p st' d (\<lambda>_ ks' st''. Q r (ks @ ks') st''))"
  shows "does p st (deferred m d) Q"
proof (rule doesI)
  fix w assume s: "state_at p w st"
  let ?G = "\<lambda>r w'. returns r \<and> (\<exists>ks st'. moved w ks w' \<and> state_at p w' st' \<and> Q r ks st')"
  show "wp (deferred m d) ?G w"
    unfolding wp_deferred
  proof (rule wp_mono[OF doesD[OF assms s]], elim conjE exE)
    fix r v ks st'
    assume r: "returns r" and v: "moved w ks v" "state_at p v st'" "does p st' d (\<lambda>_ ks' st''. Q r (ks @ ks') st'')"
    have "wp d (\<lambda>q w''. returns q \<and> ?G r w'') v"
      by (rule wp_mono[OF doesD[OF v(3,2)]]) (use r moved_trans[OF v(1)] in blast)
    then have "wp d (\<lambda>q w''. case q of Panic s \<Rightarrow> ?G (Panic s) w'' | Hang \<Rightarrow> ?G Hang w'' | _ \<Rightarrow> ?G r w'') v"
      by (rule wp_mono) (auto elim!: returnsE; blast)
    then show "case r of Hang \<Rightarrow> ?G Hang v
      | _ \<Rightarrow> wp d (\<lambda>q w''. case q of Panic s \<Rightarrow> ?G (Panic s) w'' | Hang \<Rightarrow> ?G Hang w'' | _ \<Rightarrow> ?G r w'') v"
      using r by (cases r) simp_all
  qed
qed

lemma does_StopRegistry:
  assumes "\<not> Registry_IsEmpty (im_Registry (in_manifest i))" "in_registryServer i"
  shows "does p st (StopRegistry i) (\<lambda>r ks st'. ks = [CallStopRegistry] \<and> st' = st)"
proof -
  have "does p st (seq (wrap ''Stopping registry'' Server_Stop) (ret (i\<lparr>in_registryServer := False\<rparr>)))
      (\<lambda>r ks st'. ks = [CallStopRegistry] \<and> st' = st)"
    unfolding Server_Stop_def
    by (rule does_seq_wrap, rule does_wrap, rule does_mono[OF does_request_unit]) (auto intro: does_ret)
  then show ?thesis using assms by (simp add: StopRegistry_def)
qed

definition registry_call :: "Installation \<Rightarrow> call" where
  "registry_call i = (let c = im_Registry (in_manifest i) in CallStartRegistry (rg_Username c) (rg_Password c) (rg_Host c) (rg_Port c))"

lemma does_StartRegistry:
  assumes "\<not> Registry_IsEmpty (im_Registry (in_manifest i))" "\<not> in_registryServer i"
  shows "does p st (StartRegistry i) (\<lambda>r ks st'. ks = [registry_call i] \<and> st' = st \<and> plain_result r
    \<and> (\<forall>i'. r = Ok i' \<longrightarrow> i' = i\<lparr>in_registryServer := True\<rparr>))"
proof -
  have "does p st (seq (wrap ''Starting registry'' (ServerManager_Start u q h n)) (ret (i\<lparr>in_registryServer := True\<rparr>)))
      (\<lambda>r ks st'. ks = [CallStartRegistry u q h n] \<and> st' = st \<and> plain_result r
        \<and> (\<forall>i'. r = Ok i' \<longrightarrow> i' = i\<lparr>in_registryServer := True\<rparr>))" for u q h n
    unfolding ServerManager_Start_def
    by (rule does_seq_wrap, rule does_wrap, rule does_mono[OF does_request_unit]) (auto intro: does_ret)
  then show ?thesis using assms by (simp add: StartRegistry_def registry_call_def Let_def)
qed

lemma does_WithRunningRegistry:
  assumes fn: "does p st fn R" and i: "\<not> in_registryServer i"
  shows "does p st (WithRunningRegistry i stage fn) (\<lambda>r ks st'.
    if Registry_IsEmpty (im_Registry (in_manifest i)) then R r ks st'
    else (ks = [registry_call i] \<and> st' = st \<and> (\<exists>e. r = Err e))
      \<or> (\<exists>ks'. ks = registry_call i # ks' @ [CallStopRegistry] \<and> R r ks' st'))"
proof (cases "Registry_IsEmpty (im_Registry (in_manifest i))")
  case True
  have "StartRegistry i = ret i" "StopRegistry i = ret i" using True by (simp_all add: StartRegistry_def StopRegistry_def)
  then have "does p st (WithRunningRegistry i stage fn) R"
    unfolding WithRunningRegistry_def stopRegistryNice_def
    by (intro does_bnd[where R = "\<lambda>r ks st'. r = Ok i \<and> ks = [] \<and> st' = st"] does_Perform_val)
       (auto intro!: does_ret does_deferred does_silently does_Perform_val does_mono[OF fn])
  with True show ?thesis by simp
next
  case False
  have stop: "does p st'' (stopRegistryNice (i\<lparr>in_registryServer := True\<rparr>) stage) (\<lambda>r ks st'. ks = [CallStopRegistry] \<and> st' = st'')" for st''
    unfolding stopRegistryNice_def
    by (rule does_silently, rule does_Perform_val, rule does_StopRegistry) (simp_all add: False)
  have start: "does p st (Perform_val stage ''Starting registry'' i (StartRegistry i))
      (\<lambda>r ks st'. ks = [registry_call i] \<and> st' = st \<and> (\<forall>i'. r = Ok i' \<longrightarrow> i' = i\<lparr>in_registryServer := True\<rparr>))"
    by (rule does_Perform_val, rule does_mono[OF does_StartRegistry[OF False i]])
       (auto simp: unskip_def plain_result_def dest: plainD split: outcome.splits if_splits)
  have "does p st (WithRunningRegistry i stage fn) (\<lambda>r ks st'. (ks = [registry_call i] \<and> st' = st \<and> (\<exists>e. r = Err e))
      \<or> (\<exists>ks'. ks = registry_call i # ks' @ [CallStopRegistry] \<and> R r ks' st'))"
    unfolding WithRunningRegistry_def
  proof (rule does_bnd[OF start], goal_cases)
    case (1 i' ks st')
    then have i': "i' = i\<lparr>in_registryServer := True\<rparr>" "ks = [registry_call i]" "st' = st" by simp_all
    show ?case unfolding i' by (rule does_deferred, rule does_mono[OF fn], rule does_mono[OF stop]) auto
  qed auto
  with False show ?thesis by simp
qed

end

