(* ===== verification/CpiRelease.thy ===== *)
theory CpiRelease
  imports Installation
begin

text \<open>
  The CPI release: cpi/release/validator.go and installer.go, and the collaborators that
  installation/installer\_factory.go gives an installer. Shown: what a valid CPI release has,
  and that an installed CPI is cleaned up after its use, whose error comes first.
\<close>

section \<open>cpi/release/validator.go\<close>

definition ReleaseBinaryName :: string where
  "ReleaseBinaryName = ''bin/cpi''"

definition CpiValidator_Validate :: "Release \<Rightarrow> string \<Rightarrow> goerr + unit" where
  "CpiValidator_Validate release cpiReleaseJobName = (case Release_FindJobByName release cpiReleaseJobName of
      None \<Rightarrow> Inl (Errorf ''CPI release must contain specified job %s'' [AStr cpiReleaseJobName])
    | Some job \<Rightarrow> (case FindTemplateByValue job ReleaseBinaryName of
          None \<Rightarrow> Inl (Errorf ''Specified CPI release job %s must contain a template that renders to target %s''
                    [AStr cpiReleaseJobName, AStr ReleaseBinaryName])
        | Some _ \<Rightarrow> Inr ()))"

section \<open>installation/installer\_factory.go\<close>

text \<open>The compiler of an installation: the local one, with the index in the target's file.\<close>

definition installation_index_find :: "string \<Rightarrow> index_key \<Rightarrow> (world, CompiledPackageRecord) prog" where
  "installation_index_find target = FileIndex_Find (CompiledPackagedIndexPath target) dec_compiled"

definition installation_index_save :: "string \<Rightarrow> index_key \<Rightarrow> CompiledPackageRecord \<Rightarrow> (world, unit) prog" where
  "installation_index_save target k r = FileIndex_Save (CompiledPackagedIndexPath target) k (json_of_compiled r)"

definition InstallationStatePackageCompiler :: "heap \<Rightarrow> string \<Rightarrow> nat \<Rightarrow> (world, CompiledPackageRecord \<times> bool) prog" where
  "InstallationStatePackageCompiler h target =
     PackageCompiler_Compile (installation_index_find target) (installation_index_save target) h (PackagesPath target)"

definition JobDependencyCompiler ::
  "(nat list \<Rightarrow> nat list) \<Rightarrow> (nat list \<Rightarrow> nat list) \<Rightarrow> heap \<Rightarrow> string \<Rightarrow> Job list \<Rightarrow> nat \<Rightarrow> (world, CompiledPackageRef list) prog" where
  "JobDependencyCompiler iter1 iter2 h target =
     DependencyCompiler_Compile iter1 iter2 h (InstallationStatePackageCompiler h target)"

section \<open>cpi/release/installer.go\<close>

definition ValidateCpiRelease :: "Release list \<Rightarrow> InstallationManifest \<Rightarrow> nat \<Rightarrow> (world, unit) prog" where
  "ValidateCpiRelease releases installationManifest stage =
     Perform stage ''Validating cpi release''
       (let cpiReleaseName = tr_Release (im_Template installationManifest) in
        case ReleaseManager_Find releases cpiReleaseName of
          None \<Rightarrow> fail (Errorf ''installation release %s must refer to a provided release'' [AStr cpiReleaseName])
        | Some cpiRelease \<Rightarrow> wrapf ''Invalid CPI release %s'' [AStr cpiReleaseName]
            (lift_sum (CpiValidator_Validate cpiRelease (tr_Name (im_Template installationManifest)))))"

text \<open>An installer: how it installs a manifest in a stage.\<close>

type_synonym installer = "InstallationManifest \<Rightarrow> nat \<Rightarrow> (world, Installation) prog"

definition installCpiRelease :: "installer \<Rightarrow> InstallationManifest \<Rightarrow> nat \<Rightarrow> (world, Installation) prog" where
  "installCpiRelease install installationManifest stage =
     wrap ''Installing CPI'' (PerformComplex stage ''installing CPI'' (install installationManifest))"

definition cleanupInstall :: "Installation \<Rightarrow> nat \<Rightarrow> (world, unit) prog" where
  "cleanupInstall i stage = Perform stage ''Cleaning up rendered CPI jobs'' (Installer_Cleanup i)"

text \<open>
  A deferred call that sets the named result: its error is returned when the body has none.
\<close>

definition deferred_err :: "(world, 'a) prog \<Rightarrow> (world, unit) prog \<Rightarrow> (world, 'a) prog" where
  "deferred_err m d w = (case m w of
      (Hang, w') \<Rightarrow> (Hang, w')
    | (r, w') \<Rightarrow> (case d w' of
          (Panic s, w'') \<Rightarrow> (Panic s, w'')
        | (Hang, w'') \<Rightarrow> (Hang, w'')
        | (Err e, w'') \<Rightarrow> (case r of Ok _ \<Rightarrow> Err e | _ \<Rightarrow> r, w'')
        | (Ok _, w'') \<Rightarrow> (r, w'')))"

definition WithInstalledCpiRelease ::
  "installer \<Rightarrow> InstallationManifest \<Rightarrow> nat \<Rightarrow> (Installation \<Rightarrow> (world, 'a) prog) \<Rightarrow> (world, 'a) prog" where
  "WithInstalledCpiRelease install installationManifest stage fn =
     bnd (installCpiRelease install installationManifest stage) (\<lambda>i.
     deferred_err (fn i) (cleanupInstall i stage))"

definition NewInstaller ::
  "(nat list \<Rightarrow> nat list) \<Rightarrow> (nat list \<Rightarrow> nat list) \<Rightarrow> string \<Rightarrow> heap \<Rightarrow> Release list \<Rightarrow> string \<Rightarrow> installer" where
  "NewInstaller iter1 iter2 script h releases target =
     Install target releases (JobDependencyCompiler iter1 iter2 h target) script"

section \<open>A valid CPI release\<close>

definition cpi_release_valid :: "Release list \<Rightarrow> InstallationManifest \<Rightarrow> bool" where
  "cpi_release_valid releases m \<longleftrightarrow> (\<exists>r j. ReleaseManager_Find releases (tr_Release (im_Template m)) = Some r
     \<and> Release_FindJobByName r (tr_Name (im_Template m)) = Some j \<and> ReleaseBinaryName \<in> snd ` set (jb_Templates j))"

lemma FindTemplateByValue_iff: "FindTemplateByValue j v \<noteq> None \<longleftrightarrow> v \<in> snd ` set (jb_Templates j)"
  by (auto simp: FindTemplateByValue_def find_None_iff split_beta) force

lemma CpiValidator_Validate_iff:
  "CpiValidator_Validate r n = Inr () \<longleftrightarrow> (\<exists>j. Release_FindJobByName r n = Some j \<and> ReleaseBinaryName \<in> snd ` set (jb_Templates j))"
  unfolding CpiValidator_Validate_def by (auto simp: FindTemplateByValue_iff[symmetric] split: option.splits)

text \<open>The step succeeds exactly for a valid release; it makes no call.\<close>

lemma ValidateCpiRelease_wp:
  "wp (ValidateCpiRelease releases m stage) (\<lambda>r w'. calls w' = calls w \<and> files w' = files w \<and> returns r
     \<and> (r = Ok () \<longleftrightarrow> cpi_release_valid releases m)) w"
  unfolding ValidateCpiRelease_def
proof (rule wp_Perform, goal_cases)
  case 1
  then show ?case by (simp add: unseen_def)
next
  case (2 u s)
  have bad: "(a, ReleaseBinaryName) \<notin> set (jb_Templates j)"
    if "CpiValidator_Validate r n = Inl e" "Release_FindJobByName r n = Some j" for r n e j a
    using that CpiValidator_Validate_iff[of r n] by force
  have good: "\<exists>j. Release_FindJobByName r n = Some j \<and> ReleaseBinaryName \<in> snd ` set (jb_Templates j)"
    if "CpiValidator_Validate r n = Inr x" for r n x
    using that CpiValidator_Validate_iff[of r n] by simp
  show ?case
    by (auto simp: Let_def wp_simps cpi_release_valid_def unskip_def WrapErrorf_def split: option.splits sum.splits
        dest: bad dest!: good)
qed

section \<open>The use of an installed CPI\<close>

lemma wp_deferred_err:
  "wp (deferred_err m d) Q w = wp m (\<lambda>r w'. case r of Hang \<Rightarrow> Q Hang w' | _ \<Rightarrow>
     wp d (\<lambda>q w''. case q of Panic s \<Rightarrow> Q (Panic s) w'' | Hang \<Rightarrow> Q Hang w''
       | Err e \<Rightarrow> Q (case r of Ok _ \<Rightarrow> Err e | _ \<Rightarrow> r) w'' | Ok _ \<Rightarrow> Q r w'') w') w"
  by (simp add: wp_def deferred_err_def split: prod.splits outcome.splits)

lemma does_deferred_err:
  assumes "does p st m (\<lambda>r ks st'. does p st' d (\<lambda>q ks' st''. Q (case (q, r) of (Err e, Ok _) \<Rightarrow> Err e | _ \<Rightarrow> r) (ks @ ks') st''))"
  shows "does p st (deferred_err m d) Q"
proof (rule doesI)
  fix w assume s: "state_at p w st"
  let ?G = "\<lambda>r w'. returns r \<and> (\<exists>ks st'. moved w ks w' \<and> state_at p w' st' \<and> Q r ks st')"
  let ?c = "\<lambda>q r. case (q, r) of (Err e, Ok _) \<Rightarrow> Err e | _ \<Rightarrow> r"
  show "wp (deferred_err m d) ?G w"
    unfolding wp_deferred_err
  proof (rule wp_mono[OF doesD[OF assms s]], elim conjE exE)
    fix r v ks st'
    assume r: "returns r" and v: "moved w ks v" "state_at p v st'" "does p st' d (\<lambda>q ks' st''. Q (?c q r) (ks @ ks') st'')"
    have "wp d (\<lambda>q w''. returns q \<and> ?G (?c q r) w'') v"
    proof (rule wp_mono[OF doesD[OF v(3,2)]], elim conjE exE)
      fix q v' ks' st''
      assume q: "returns q" "moved v ks' v'" "state_at p v' st''" "Q (?c q r) (ks @ ks') st''"
      have "returns (?c q r)" using q(1) r by (auto elim!: returnsE)
      then show "returns q \<and> ?G (?c q r) v'" using q moved_trans[OF v(1)] by blast
    qed
    then have "wp d (\<lambda>q w''. case q of Panic s \<Rightarrow> ?G (Panic s) w'' | Hang \<Rightarrow> ?G Hang w''
       | Err e \<Rightarrow> ?G (case r of Ok _ \<Rightarrow> Err e | _ \<Rightarrow> r) w'' | Ok _ \<Rightarrow> ?G r w'') v"
      by (rule wp_mono) (use r in \<open>(auto elim!: returnsE; blast)\<close>)
    then show "case r of Hang \<Rightarrow> ?G Hang v
      | _ \<Rightarrow> wp d (\<lambda>q w''. case q of Panic s \<Rightarrow> ?G (Panic s) w'' | Hang \<Rightarrow> ?G Hang w''
       | Err e \<Rightarrow> ?G (case r of Ok _ \<Rightarrow> Err e | _ \<Rightarrow> r) w'' | Ok _ \<Rightarrow> ?G r w'') v"
      using r by (cases r) simp_all
  qed
qed

definition delete_blob_call :: "Installation \<Rightarrow> call" where
  "delete_blob_call i = CallExt ''blobstore.Delete'' [jr_BlobstoreID (ij_Ref (in_job i))]"

lemma Installer_Cleanup_wp:
  "wp (Installer_Cleanup i) (\<lambda>r w'. returns r \<and> calls w' = calls w @ [delete_blob_call i]) w"
  unfolding Installer_Cleanup_def Extractor_Cleanup_def silently_def ext_unit_def RemoveAll_def
  by (auto simp: wp_simps wp_request_unit del_files_def delete_blob_call_def split: option.splits)

lemma cleanupInstall_wp:
  "wp (cleanupInstall i stage) (\<lambda>r w'. returns r \<and> calls w' = calls w @ [delete_blob_call i]) w"
  unfolding cleanupInstall_def
  by (rule wp_Perform, simp add: unseen_def) (rule wp_mono[OF Installer_Cleanup_wp], simp add: returns_unskip)

text \<open>
  The function runs only when the CPI has been installed, and then the rendered job is deleted
  from the blobstore, whatever the function returned; the result is the function's, unless only
  the cleanup failed.
\<close>

lemma WithInstalledCpiRelease_wp:
  assumes install: "\<And>n. yields I (install m n)"
    and fn: "\<And>i w. I i \<Longrightarrow> wp (fn i) (\<lambda>r w'. returns r \<and> (\<exists>ks. calls w' = calls w @ ks \<and> R i r ks)) w"
  shows "wp (WithInstalledCpiRelease install m stage fn) (\<lambda>r w'. returns r \<and>
    ((\<exists>e. fst (installCpiRelease install m stage w) = Err e \<and> r = Err e \<and> w' = snd (installCpiRelease install m stage w))
     \<or> (\<exists>i rf ks. I i \<and> R i rf ks \<and> ((\<exists>e. rf = Err e) \<longrightarrow> r = rf) \<and> (r = rf \<or> (\<exists>e. r = Err e))
         \<and> calls w' = calls (snd (installCpiRelease install m stage w)) @ ks @ [delete_blob_call i]))) w"
  (is "wp _ ?G w")
proof -
  have "wp (installCpiRelease install m stage) (\<lambda>r w'. returns r \<and> (\<forall>i. r = Ok i \<longrightarrow> I i)) w"
    unfolding installCpiRelease_def wrap_def wp_wrapf
    by (rule wp_PerformComplex, simp add: unseen_def) (rule wp_mono[OF wp_yields[OF install]], auto elim!: returnsE)
  then have "wp (installCpiRelease install m stage) (\<lambda>r w'. (r, w') = installCpiRelease install m stage w
      \<and> returns r \<and> (\<forall>i. r = Ok i \<longrightarrow> I i)) w"
    by (auto simp: wp_def split: prod.splits)
  then show ?thesis unfolding WithInstalledCpiRelease_def
  proof (rule wp_bnd_rule, goal_cases)
    case (1 i v)
    then have i: "I i" "v = snd (installCpiRelease install m stage w)" by (auto dest: sym)
    show ?case unfolding wp_deferred_err
    proof (rule wp_mono[OF fn[OF i(1)]], elim conjE exE)
      fix r and v' :: world and ks assume r: "returns r" "calls v' = calls v @ ks" "R i r ks"
      let ?Q = "\<lambda>q (u :: world). returns q \<and> (\<exists>i rf ks. I i \<and> R i rf ks \<and> ((\<exists>e. rf = Err e) \<longrightarrow> q = rf) \<and> (q = rf \<or> (\<exists>e. q = Err e))
         \<and> calls u = calls v @ ks @ [delete_blob_call i])"
      have "?Q (case q of Err e \<Rightarrow> (case r of Ok _ \<Rightarrow> Err e | _ \<Rightarrow> r) | _ \<Rightarrow> r) u"
        if "returns q" "calls u = calls v' @ [delete_blob_call i]" for q u
        using that r i(1) by (auto elim!: returnsE intro!: exI[of _ i] exI[of _ r] exI[of _ ks])
      then have "wp (cleanupInstall i stage) (\<lambda>q u. returns q \<and> ?Q (case q of Err e \<Rightarrow> (case r of Ok _ \<Rightarrow> Err e | _ \<Rightarrow> r) | _ \<Rightarrow> r) u) v'"
        by (intro wp_mono[OF cleanupInstall_wp]) blast
      note C = this
      show "case r of Hang \<Rightarrow> ?G Hang v' | _ \<Rightarrow> wp (cleanupInstall i stage) (\<lambda>q w''. case q of Panic s \<Rightarrow> ?G (Panic s) w''
         | Hang \<Rightarrow> ?G Hang w'' | Err e \<Rightarrow> ?G (case r of Ok _ \<Rightarrow> Err e | _ \<Rightarrow> r) w'' | Ok _ \<Rightarrow> ?G r w'') v'"
      proof -
        have QG: "?G q u" if "?Q q u" for q u using that unfolding i(2)[symmetric] by blast
        have "wp (cleanupInstall i stage) (\<lambda>q w''. case q of Panic s \<Rightarrow> ?G (Panic s) w''
           | Hang \<Rightarrow> ?G Hang w'' | Err e \<Rightarrow> ?G (case r of Ok _ \<Rightarrow> Err e | _ \<Rightarrow> r) w'' | Ok _ \<Rightarrow> ?G r w'') v'"
        proof (rule wp_mono[OF C], erule conjE)
          fix q u
          assume q: "returns q" "?Q (case q of Err e \<Rightarrow> (case r of Ok _ \<Rightarrow> Err e | _ \<Rightarrow> r) | _ \<Rightarrow> r) u"
          show "case q of Panic s \<Rightarrow> ?G (Panic s) u | Hang \<Rightarrow> ?G Hang u
            | Err e \<Rightarrow> ?G (case r of Ok _ \<Rightarrow> Err e | _ \<Rightarrow> r) u | Ok _ \<Rightarrow> ?G r u"
            by (rule returnsE[OF q(1)]) (use QG[OF q(2)] in simp_all)
        qed
        note W = this
        show ?thesis by (rule returnsE[OF r(1)]) (use W in \<open>simp_all only: outcome.case\<close>)
      qed
    qed
  qed (auto elim!: returnsE dest: sym)
qed

end
