(* ===== verification/Migrator.thy ===== *)
theory Migrator
  imports Effects InstallManifest
begin

text \<open>
  The migration of the state file of the old \<^verbatim>\<open>bosh micro\<close> tool,
  config/legacy\_deployment\_state\_migrator.go. Unmarshalling YAML is a parameter. Shown: what the
  state has after a migration, that it satisfies the invariant of the repositories, and that the
  old file is removed only once the new one is written.
\<close>

record LegacyInstance =
  li_UUID :: string
  li_VMCID :: string
  li_DiskCID :: string
  li_StemcellCID :: string
  li_StemcellName :: string

record legacyDeploymentState =
  ld_Instances :: "LegacyInstance list"

definition LegacyDeploymentStatePath :: "string \<Rightarrow> string" where
  "LegacyDeploymentStatePath deploymentManifestPath = JoinPath [Dir deploymentManifestPath, ''bosh-deployments.yml'']"

text \<open>
  \<open>ReplaceAllString\<close> with the pattern of a newline, a dash or a space, and \<open> :\<close>: the colon of a
  key goes, at the first level of the list only. A JSON document has no such line.
\<close>

fun fix_keys :: "string \<Rightarrow> string" where
  "fix_keys (a # b # c # d # s) =
     (if a = CHR 0x0A \<and> (b = CHR ''-'' \<or> b = CHR '' '') \<and> c = CHR '' '' \<and> d = CHR '':''
      then a # b # CHR '' '' # fix_keys s else a # fix_keys (b # c # d # s))"
| "fix_keys s = s"

fun parsable :: "content \<Rightarrow> content" where
  "parsable (CBytes s) = CBytes (fix_keys s)"
| "parsable c = c"

text \<open>The records of the first instance, each with a new id.\<close>

definition legacy_director :: "legacyDeploymentState \<Rightarrow> (world, string) prog" where
  "legacy_director l = (case ld_Instances l of
      i # _ \<Rightarrow> if li_UUID i \<noteq> '''' then ret (li_UUID i) else wrap ''Generating UUID'' Generate
    | [] \<Rightarrow> wrap ''Generating UUID'' Generate)"

definition legacy_disk :: "LegacyInstance \<Rightarrow> DeploymentState \<Rightarrow> (world, DeploymentState) prog" where
  "legacy_disk i st =
     (if li_DiskCID i \<noteq> ''''
      then bnd (wrap ''Generating UUID'' Generate) (\<lambda>uuid.
           ret (st\<lparr>CurrentDiskID := uuid,
                  Disks := [\<lparr>dr_ID = uuid, dr_CID = li_DiskCID i, dr_Size = 0, dr_CloudProperties = Some []\<rparr>]\<rparr>))
      else ret st)"

definition legacy_vm :: "LegacyInstance \<Rightarrow> DeploymentState \<Rightarrow> DeploymentState" where
  "legacy_vm i st = (if li_VMCID i \<noteq> '''' then st\<lparr>CurrentVMCID := li_VMCID i\<rparr> else st)"

definition legacy_stemcell :: "LegacyInstance \<Rightarrow> DeploymentState \<Rightarrow> (world, DeploymentState) prog" where
  "legacy_stemcell i st =
     (if li_StemcellCID i \<noteq> ''''
      then bnd (wrap ''Generating UUID'' Generate) (\<lambda>uuid.
           let stemcellName = (if li_StemcellName i = '''' then ''unknown-stemcell'' else li_StemcellName i) in
           ret (st\<lparr>Stemcells := [\<lparr>sr_ID = uuid, sr_Name = stemcellName, sr_Version = '''', sr_CID = li_StemcellCID i\<rparr>]\<rparr>))
      else ret st)"

definition migrate :: "(content \<Rightarrow> goerr + legacyDeploymentState) \<Rightarrow> string \<Rightarrow> (world, DeploymentState) prog" where
  "migrate unmarshal configPath =
     bnd (wrapf ''Reading legacy deployment state file %s'' [AStr configPath] (ReadFile configPath)) (\<lambda>bytes.
     bnd (wrap ''Parsing job manifest'' (lift_sum (unmarshal (parsable bytes)))) (\<lambda>l.
     bnd (legacy_director l) (\<lambda>directorID.
     let st = zero_state\<lparr>DirectorID := directorID\<rparr> in
     case ld_Instances l of [] \<Rightarrow> ret st
     | i # _ \<Rightarrow> bnd (legacy_disk i st) (\<lambda>st. legacy_stemcell i (legacy_vm i st)))))"

definition MigrateIfExists :: "(content \<Rightarrow> goerr + legacyDeploymentState) \<Rightarrow> string \<Rightarrow> string \<Rightarrow> (world, bool) prog" where
  "MigrateIfExists unmarshal p configPath =
     bnd (FileExists configPath) (\<lambda>exists.
     if \<not> exists then ret False
     else bnd (migrate unmarshal configPath) (\<lambda>deploymentState.
          seq (wrap ''Saving migrated deployment state'' (Save p deploymentState))
         (seq (wrap ''Deleting legacy deployment state'' (RemoveAll configPath))
              (ret True))))"

section \<open>What is migrated\<close>

definition migrated_from :: "legacyDeploymentState \<Rightarrow> DeploymentState \<Rightarrow> bool" where
  "migrated_from l st \<longleftrightarrow> DirectorID st \<noteq> '''' \<and> InstallationID st = '''' \<and> CurrentStemcellID st = ''''
     \<and> CurrentManifestSHA1 st = '''' \<and> CurrentReleaseIDs st = [] \<and> Releases st = []
     \<and> (case ld_Instances l of
          [] \<Rightarrow> CurrentVMCID st = '''' \<and> CurrentDiskID st = '''' \<and> Disks st = [] \<and> Stemcells st = []
        | i # _ \<Rightarrow> (li_UUID i \<noteq> '''' \<longrightarrow> DirectorID st = li_UUID i) \<and> CurrentVMCID st = li_VMCID i
            \<and> (if li_DiskCID i = '''' then CurrentDiskID st = '''' \<and> Disks st = []
               else Disks st = [\<lparr>dr_ID = CurrentDiskID st, dr_CID = li_DiskCID i, dr_Size = 0, dr_CloudProperties = Some []\<rparr>])
            \<and> map (\<lambda>s. (sr_Name s, sr_Version s, sr_CID s)) (Stemcells st) = (if li_StemcellCID i = '''' then []
               else [(if li_StemcellName i = '''' then ''unknown-stemcell'' else li_StemcellName i, '''', li_StemcellCID i)]))"

definition new_ids :: "world \<Rightarrow> world \<Rightarrow> DeploymentState \<Rightarrow> bool" where
  "new_ids w w' st \<longleftrightarrow> ticked w w' \<and> '''' \<notin> record_ids st \<and> record_ids st \<subseteq> generated w w'"

lemma new_ids_ticked: "new_ids w v st \<Longrightarrow> ticked v w' \<Longrightarrow> new_ids w w' st"
  by (auto simp: new_ids_def intro: ticked_trans generated_earlier)

lemma generated_nonempty: "fresh_ids w S \<Longrightarrow> u \<in> generated w v \<Longrightarrow> u \<noteq> ''''"
  by (auto simp: generated_def fresh_ids_def)

lemma Generate_new:
  assumes "fresh_ids w {}" "ticked w v"
    and "\<And>u v'. ticked v v' \<Longrightarrow> u \<in> generated w v' \<Longrightarrow> u \<noteq> '''' \<Longrightarrow> wp (f u) Q v'"
    and "\<And>e v'. ticked w v' \<Longrightarrow> Q (Err e) v'"
  shows "wp (bnd (wrap msg Generate) f) Q v"
  by (rule Generate_wp)
    (use assms generated_mono[OF assms(2)] generated_nonempty[OF assms(1)] ticked_trans[OF assms(2)] in \<open>blast+\<close>)

lemma legacy_director_wp:
  assumes f: "fresh_ids w {}" "ticked w v"
    and ok: "\<And>u v'. ticked w v' \<Longrightarrow> u \<noteq> '''' \<Longrightarrow> (\<And>i is. ld_Instances l = i # is \<Longrightarrow> li_UUID i \<noteq> '''' \<Longrightarrow> u = li_UUID i) \<Longrightarrow>
      wp (g u) Q v'"
    and err: "\<And>e v'. ticked w v' \<Longrightarrow> Q (Err e) v'"
  shows "wp (bnd (legacy_director l) g) Q v"
proof -
  have gen: "wp (bnd (wrap ''Generating UUID'' Generate) g) Q v"
    if "\<And>i is. ld_Instances l = i # is \<Longrightarrow> li_UUID i = ''''"
  proof (rule Generate_new[OF f])
    fix u :: string and v' assume "ticked v v'" "u \<noteq> ''''"
    then show "wp (g u) Q v'" by (intro ok ticked_trans[OF f(2)]) (simp_all add: that)
  qed (rule err)
  show ?thesis
  proof (cases "ld_Instances l")
    case Nil
    have "wp (bnd (wrap ''Generating UUID'' Generate) g) Q v" by (rule gen) (simp add: Nil)
    then show ?thesis by (simp add: legacy_director_def Nil)
  next
    case (Cons i is')
    show ?thesis
    proof (cases "li_UUID i = ''''")
      case True
      have "wp (bnd (wrap ''Generating UUID'' Generate) g) Q v" by (rule gen) (simp add: Cons True)
      then show ?thesis by (simp add: legacy_director_def Cons True)
    next
      case False
      have "wp (g (li_UUID i)) Q v" by (rule ok[OF f(2) False]) (simp add: Cons)
      then show ?thesis using False by (simp add: legacy_director_def Cons wp_bnd wp_ret)
    qed
  qed
qed

lemma legacy_disk_wp:
  assumes f: "fresh_ids w {}" "ticked w v" and st: "Disks st = []" "Stemcells st = []" "Releases st = []"
    and ok: "\<And>uuid ds v'. new_ids w v' (st\<lparr>CurrentDiskID := uuid, Disks := ds\<rparr>) \<Longrightarrow>
      (if li_DiskCID i = '''' then uuid = CurrentDiskID st \<and> ds = []
       else ds = [\<lparr>dr_ID = uuid, dr_CID = li_DiskCID i, dr_Size = 0, dr_CloudProperties = Some []\<rparr>]) \<Longrightarrow>
      wp (g (st\<lparr>CurrentDiskID := uuid, Disks := ds\<rparr>)) Q v'"
    and err: "\<And>e v'. ticked w v' \<Longrightarrow> Q (Err e) v'"
  shows "wp (bnd (legacy_disk i st) g) Q v"
proof (cases "li_DiskCID i = ''''")
  case True
  have "wp (g st) Q v"
  proof -
    have "st\<lparr>CurrentDiskID := CurrentDiskID st, Disks := []\<rparr> = st" using st(1) by (cases st) simp
    note e = this
    show ?thesis
      using ok[where uuid = "CurrentDiskID st" and ds = "[]" and v' = v, unfolded e] True st f(2) by (simp add: new_ids_def record_ids_def)
  qed
  then show ?thesis using True by (simp add: legacy_disk_def wp_bnd wp_ret)
next
  case False
  have "wp (bnd (wrap ''Generating UUID'' Generate) (\<lambda>uuid. g (st\<lparr>CurrentDiskID := uuid,
      Disks := [\<lparr>dr_ID = uuid, dr_CID = li_DiskCID i, dr_Size = 0, dr_CloudProperties = Some []\<rparr>]\<rparr>))) Q v"
  proof (rule Generate_new[OF f])
    fix u v' assume "ticked v v'" "u \<in> generated w v'" "u \<noteq> ''''"
    then show "wp (g (st\<lparr>CurrentDiskID := u,
      Disks := [\<lparr>dr_ID = u, dr_CID = li_DiskCID i, dr_Size = 0, dr_CloudProperties = Some []\<rparr>]\<rparr>)) Q v'"
      by (intro ok) (use False st ticked_trans[OF f(2)] in \<open>auto simp: new_ids_def record_ids_def\<close>)
  qed (rule err)
  then show ?thesis using False
    by (simp add: legacy_disk_def wp_bnd) (erule wp_mono, auto simp: wp_ret split: outcome.splits)
qed

lemma legacy_stemcell_wp:
  assumes f: "fresh_ids w {}" and st: "new_ids w v st" "Stemcells st = []"
    and ok: "\<And>ss v'. new_ids w v' (st\<lparr>Stemcells := ss\<rparr>) \<Longrightarrow>
      map (\<lambda>s. (sr_Name s, sr_Version s, sr_CID s)) ss = (if li_StemcellCID i = '''' then []
        else [(if li_StemcellName i = '''' then ''unknown-stemcell'' else li_StemcellName i, '''', li_StemcellCID i)]) \<Longrightarrow>
      Q (Ok (st\<lparr>Stemcells := ss\<rparr>)) v'"
    and err: "\<And>e v'. ticked w v' \<Longrightarrow> Q (Err e) v'"
  shows "wp (legacy_stemcell i st) Q v"
proof (cases "li_StemcellCID i = ''''")
  case True
  have "st\<lparr>Stemcells := []\<rparr> = st" using st(2) by (cases st) simp
  note e = this
  show ?thesis using ok[where ss = "[]" and v' = v, unfolded e] st True by (simp add: legacy_stemcell_def wp_ret)
next
  case False
  have v: "ticked w v" using st(1) by (simp add: new_ids_def)
  show ?thesis using False unfolding legacy_stemcell_def Let_def if_P[OF False]
  proof (intro Generate_new[OF f v])
    fix u v' assume v': "ticked v v'" "u \<in> generated w v'" "u \<noteq> ''''"
    have "new_ids w v' (st\<lparr>Stemcells := [\<lparr>sr_ID = u, sr_Name = n, sr_Version = '''', sr_CID = li_StemcellCID i\<rparr>]\<rparr>)" for n
      using new_ids_ticked[OF st(1) v'(1)] v'(2,3) st(2) by (auto simp: new_ids_def record_ids_def)
    then show "wp (ret (st\<lparr>Stemcells := [\<lparr>sr_ID = u, sr_Name = if li_StemcellName i = '''' then ''unknown-stemcell'' else li_StemcellName i,
        sr_Version = '''', sr_CID = li_StemcellCID i\<rparr>]\<rparr>)) Q v'"
      unfolding wp_ret by (intro ok) (use False in simp_all)
  qed (rule err)
qed

text \<open>A migration gives a state made from the old one, with new ids, or an error.\<close>

lemma migrate_wp:
  assumes f: "fresh_ids w {}"
  shows "wp (migrate unmarshal q) (\<lambda>r w'. ticked w w' \<and> returns r \<and> (\<forall>st. r = Ok st \<longrightarrow> new_ids w w' st
    \<and> (\<exists>c l. files w q = Some c \<and> unmarshal (parsable c) = Inr l \<and> migrated_from l st))) w"
    (is "wp _ ?Q w")
  unfolding migrate_def
proof (rule wp_bnd_wrapf[OF ReadFile_wp], goal_cases)
  case (1 c v)
  then have c: "files w q = Some c" by simp
  show ?case
  proof (cases "unmarshal (parsable c)")
    case (Inl e)
    then show ?thesis using 1 by (simp add: wp_simps)
  next
    case (Inr l)
    have "wp (bnd (legacy_director l) (\<lambda>u. let st = zero_state\<lparr>DirectorID := u\<rparr> in
       case ld_Instances l of [] \<Rightarrow> ret st
       | i # _ \<Rightarrow> bnd (legacy_disk i st) (\<lambda>st. legacy_stemcell i (legacy_vm i st)))) ?Q v"
    proof (rule legacy_director_wp[OF f], goal_cases)
      case (2 u v')
      let ?st = "zero_state\<lparr>DirectorID := u\<rparr>"
      show ?case
      proof (cases "ld_Instances l")
        case Nil
        then show ?thesis using 1 2 Inr
          by (auto simp: wp_ret new_ids_def record_ids_def zero_state_def migrated_from_def)
      next
        case (Cons i is')
        have "wp (bnd (legacy_disk i ?st) (\<lambda>st. legacy_stemcell i (legacy_vm i st))) ?Q v'"
        proof (rule legacy_disk_wp[OF f], goal_cases)
          case (5 uuid ds v1)
          let ?st1 = "legacy_vm i (?st\<lparr>CurrentDiskID := uuid, Disks := ds\<rparr>)"
          have "new_ids w v1 ?st1" "Stemcells ?st1 = []" using 5(1) by (simp_all add: legacy_vm_def new_ids_def record_ids_def zero_state_def)
          then show ?case
          proof (rule legacy_stemcell_wp[OF f], goal_cases)
            case (1 ss v2)
            have "migrated_from l (?st1\<lparr>Stemcells := ss\<rparr>)"
              using 1(2) 5(2) 2(2,3) by (simp add: migrated_from_def Cons legacy_vm_def zero_state_def split: if_splits)
            then show ?case using 1(1) Inr c by (auto simp: new_ids_def)
          qed (use 2 in auto)
        qed (use 2 in \<open>auto simp: zero_state_def\<close>)
        then show ?thesis by (simp add: Cons)
      qed
    qed (use 1 in auto)
    then show ?thesis by (simp add: Inr wp_simps wp_wrap)
  qed
qed auto

section \<open>The migration\<close>

text \<open>
  What a run of the migration leaves: \<open>True\<close> means that the new file holds a state made from the
  old one, which satisfies the repositories' invariant, and that the old file is gone;
  \<open>False\<close>, that there was none; and after an error the old file is still there.
\<close>

definition migration_post ::
  "(content \<Rightarrow> goerr + legacyDeploymentState) \<Rightarrow> string \<Rightarrow> string \<Rightarrow> world \<Rightarrow> bool outcome \<Rightarrow> world \<Rightarrow> bool" where
  "migration_post unmarshal p q w r w' \<longleftrightarrow> calls w' = calls w \<and> (case r of
      Ok True \<Rightarrow> files w' q = None \<and> repo_inv p w' \<and> (\<exists>st c l. loaded p w' st \<and> files w q = Some c
          \<and> unmarshal (parsable c) = Inr l \<and> migrated_from l st)
    | Ok False \<Rightarrow> files w q = None \<and> w' = w
    | Err e \<Rightarrow> files w q \<noteq> None \<and> files w' q = files w q
    | _ \<Rightarrow> False)"

lemma wf_migrated: "migrated_from l st \<Longrightarrow> '''' \<notin> record_ids st \<Longrightarrow> wf_state st \<and> storable st \<and> reload_state st = st"
  by (auto simp: migrated_from_def wf_state_def wf_disks_def wf_stemcells_def wf_releases_def storable_def int64_def record_ids_def
      reload_state_fix reload_disk_def reload_map_def map_eq_Cons_conv split: list.splits if_splits)

lemma migrated_saved:
  assumes "fresh_ids w {}" "atomic_writes w" "p \<noteq> ''''" "new_ids w v st" "migrated_from l st" "saved p v st v'"
  shows "repo_inv p v' \<and> loaded p v' st"
proof -
  have t: "ticked w v" and ids: "record_ids st \<subseteq> generated w v" and wf: "wf_state st" "storable st" "reload_state st = st"
    using assms(4) wf_migrated[OF assms(5)] by (simp_all add: new_ids_def)
  have l: "loaded p v' st"
    using assms(3,5) wf saved_frame(7)[OF assms(6)] by (simp add: loaded_def migrated_from_def)
  have "generated w v \<subseteq> generated w v'" using saved_frame(4)[OF assms(6)] by (auto simp: generated_def)
  then have "fresh_ids v' (record_ids st)"
    using t saved_frame(1,4)[OF assms(6)] ids by (intro fresh_ids_mono[OF assms(1)]) (auto dest: ticked_frame)
  moreover have "atomic_writes v'" using assms(2) t saved_frame(5)[OF assms(6)] by (simp add: atomic_writes_ticked)
  ultimately show ?thesis using l wf(1) by (auto simp: repo_inv_def)
qed

lemma MigrateIfExists_wp:
  assumes f: "fresh_ids w {}" and a: "atomic_writes w" and p: "p \<noteq> ''''" "\<not> below q p"
  shows "wp (MigrateIfExists unmarshal p q) (migration_post unmarshal p q w) w"
proof (cases "files w q")
  case None
  then show ?thesis by (simp add: MigrateIfExists_def FileExists_def wp_simps migration_post_def)
next
  case (Some c0)
  have qp: "q \<noteq> p" using p(2) by (auto simp: below_def)
  have "wp (bnd (migrate unmarshal q) (\<lambda>st. seq (wrap ''Saving migrated deployment state'' (Save p st))
      (seq (wrap ''Deleting legacy deployment state'' (RemoveAll q)) (ret True)))) (migration_post unmarshal p q w) w"
  proof (rule wp_bnd_rule[OF migrate_wp[OF f]], goal_cases)
    case (1 st v)
    then obtain c l where t: "ticked w v" and n: "new_ids w v st" and m: "files w q = Some c" "unmarshal (parsable c) = Inr l" "migrated_from l st"
      by auto
    have av: "atomic_writes v" using a t by (simp add: atomic_writes_ticked)
    show ?case
    proof (rule wp_seq_rule[where P = "\<lambda>r v'. (r = Ok () \<and> saved p v st v') \<or> (\<exists>e. r = Err e \<and> ticked v v')"], goal_cases)
      case 1
      show ?case unfolding wp_wrap by (rule wp_mono[OF Save_saved[OF p(1) av]]) (auto split: outcome.splits)
    next
      case (2 x v')
      then have s: "saved p v st v'" by simp
      note inv = migrated_saved[OF f a p(1) n m(3) s]
      have fr: "files v' q = files w q" "calls v' = calls w" using saved_frame(2,6)[OF s] qp t by (simp_all add: ticked_frame)
      have gone: "repo_inv p u \<and> loaded p u st" if "files u p = files v' p" "answers u = answers v'" "tick v' \<le> tick u" for u
        using repo_inv_elsewhere[OF _ that] inv that by (auto simp: loaded_def)
      have "wp (RemoveAll q) (\<lambda>r u. calls u = calls v' \<and> ((r = Ok () \<and> files u q = None \<and> files u p = files v' p
          \<and> answers u = answers v' \<and> tick v' \<le> tick u) \<or> (\<exists>e. r = Err e \<and> files u = files v'))) v'"
        using p(2) by (auto simp: RemoveAll_def wp_simps Let_def del_files_def below_def split: option.splits)
      then have "wp (wrap ''Deleting legacy deployment state'' (RemoveAll q)) (\<lambda>r u. calls u = calls w
          \<and> ((r = Ok () \<and> files u q = None \<and> repo_inv p u \<and> loaded p u st) \<or> (\<exists>e. r = Err e \<and> files u q = files w q))) v'"
        unfolding wp_wrap by (rule wp_mono) (use gone fr in \<open>auto split: outcome.splits\<close>)
      then show ?case
        by (rule wp_seq_rule) (use m Some in \<open>auto simp: wp_ret migration_post_def\<close>)
    qed (use t Some in \<open>auto simp: migration_post_def ticked_frame\<close>)
  qed (use Some in \<open>auto simp: migration_post_def ticked_frame\<close>)
  then show ?thesis using Some by (simp add: MigrateIfExists_def FileExists_def wp_bnd wp_gets)
qed


end
