(* ===== verification/Validator.thy ===== *)
theory Validator
  imports InstallManifest Instance
begin

text \<open>
  The deployment manifest's validator, deployment/manifest/validator.go. Shown: what it accepts,
  in declarative form; that a valid manifest with a job gives every lookup of the deployment a
  result, so that the interfaces of its networks are built without a panic; and what it lets
  through all the same (no job at all, no instance or several).
\<close>

section \<open>Networks\<close>

definition validateRange :: "nat \<Rightarrow> string \<Rightarrow> goerr list \<times> ipnet option" where
  "validateRange idx ipRange =
     (if isBlank ipRange then ([Errorf ''networks[%d].subnets[0].range must be provided'' [AInt (int idx)]], None)
      else case ParseCIDR ipRange of
          None \<Rightarrow> ([Errorf ''networks[%d].subnets[0].range must be an ip range'' [AInt (int idx)]], None)
        | Some (ip, ipNet) \<Rightarrow> ([], Some ipNet))"

text \<open>A nil IP is the empty list of bytes. Without a range there is nothing to try.\<close>

definition validateGateway :: "nat \<Rightarrow> string \<Rightarrow> ipnet option \<Rightarrow> goerr list" where
  "validateGateway idx gateway maybeIpNet =
     (if isBlank gateway then [Errorf ''networks[%d].subnets[0].gateway must be provided'' [AInt (int idx)]]
      else case maybeIpNet of None \<Rightarrow> []
      | Some ipNet \<Rightarrow>
          let gatewayIp = (case ParseIP gateway of None \<Rightarrow> [] | Some ip \<Rightarrow> ip) in
            err_if (ParseIP gateway = None) ''networks[%d].subnets[0].gateway must be an ip'' [AInt (int idx)]
          @ err_if (\<not> net_Contains ipNet gatewayIp) ''subnet gateway %s must be within the specified range %s'' [AStr gateway, ADump]
          @ err_if (ip_Equal (in_IP ipNet) gatewayIp) ''subnet gateway can't be the network address %s'' [ADump]
          @ err_if (ip_Equal (LastAddress ipNet) gatewayIp) ''subnet gateway can't be the broadcast address %s'' [ADump])"

definition validateNetwork :: "Network \<Rightarrow> nat \<Rightarrow> goerr list" where
  "validateNetwork network networkIdx =
     err_if (isBlank (nw_Name network)) ''networks[%d].name must be provided'' [AInt (int networkIdx)]
   @ err_if (nw_Type network \<noteq> Dynamic \<and> nw_Type network \<noteq> Manual \<and> nw_Type network \<noteq> VIP)
       ''networks[%d].type must be manual, dynamic, or vip'' [AInt (int networkIdx)]
   @ (if nw_Type network = Manual
      then case nw_Subnets network of
          [s] \<Rightarrow> let (rangeErrors, maybeIpNet) = validateRange networkIdx (sn_Range s)
                 in rangeErrors @ validateGateway networkIdx (sn_Gateway s) maybeIpNet
        | _ \<Rightarrow> [Errorf ''networks[%d].subnets must be of size 1'' [AInt (int networkIdx)]]
      else [])"

text \<open>\<open>indexed f i xs\<close>: the errors of \<open>f\<close> over the elements with their indices from \<open>i\<close>.\<close>

fun indexed :: "(nat \<Rightarrow> 'a \<Rightarrow> goerr list) \<Rightarrow> nat \<Rightarrow> 'a list \<Rightarrow> goerr list" where
  "indexed f i [] = []"
| "indexed f i (x # xs) = f i x @ indexed f (Suc i) xs"

definition validateNetworks :: "Network list \<Rightarrow> goerr list" where
  "validateNetworks networks = indexed (\<lambda>idx network. validateNetwork network idx) 0 networks"

section \<open>The networks of a job\<close>

definition validateStaticIP :: "string \<Rightarrow> Network \<Rightarrow> nat \<Rightarrow> nat \<Rightarrow> nat \<Rightarrow> goerr list" where
  "validateStaticIP ip network jobIdx networkIdx ipIdx =
     (case ParseIP ip of
        None \<Rightarrow> [Errorf ''jobs[%d].networks[%d].static_ips[%d] must be a valid IP'' [AInt (int jobIdx), AInt (int networkIdx), AInt (int ipIdx)]]
      | Some parsed \<Rightarrow>
          if nw_Type network \<noteq> Manual then []
          else if list_ex (\<lambda>s. case ParseCIDR (sn_Range s) of None \<Rightarrow> False | Some (_, rangeNet) \<Rightarrow> net_Contains rangeNet parsed) (nw_Subnets network)
          then []
          else [Errorf ''jobs[%d].networks[%d] static ip %s must be within subnet range'' [AInt (int jobIdx), AInt (int networkIdx), AStr ip]])"

text \<open>The last network of the name, and the zero value when there is none.\<close>

definition matchingNetwork :: "Network list \<Rightarrow> string \<Rightarrow> Network option" where
  "matchingNetwork networks name = find (\<lambda>n. nw_Name n = name) (rev networks)"

definition validateJobNetwork :: "Network list \<Rightarrow> nat \<Rightarrow> nat \<Rightarrow> JobNetwork \<Rightarrow> goerr list" where
  "validateJobNetwork networks jobIdx networkIdx jobNetwork =
     (let found = matchingNetwork networks (jn_Name jobNetwork);
          network = (case found of None \<Rightarrow> zero_network | Some n \<Rightarrow> n) in
      err_if (isBlank (jn_Name jobNetwork)) ''jobs[%d].networks[%d].name must be provided'' [AInt (int jobIdx), AInt (int networkIdx)]
    @ err_if (found = None) ''jobs[%d].networks[%d] not found in networks'' [AInt (int jobIdx), AInt (int networkIdx)]
    @ indexed (\<lambda>ipIdx ip. validateStaticIP ip network jobIdx networkIdx ipIdx) 0 (jn_StaticIPs jobNetwork)
    @ indexed (\<lambda>defaultIdx value. err_if (value \<noteq> ''dns'' \<and> value \<noteq> ''gateway'')
        ''jobs[%d].networks[%d].default[%d] must be dns or gateway'' [AInt (int jobIdx), AInt (int networkIdx), AInt (int defaultIdx)])
        0 (jn_Defaults jobNetwork))"

definition defaultCount :: "JobNetwork list \<Rightarrow> string \<Rightarrow> nat" where
  "defaultCount jobNetworks dflt = length (filter (\<lambda>d. d = dflt) (concat (map jn_Defaults jobNetworks)))"

definition validateJobNetworks :: "JobNetwork list \<Rightarrow> Network list \<Rightarrow> nat \<Rightarrow> goerr list" where
  "validateJobNetworks jobNetworks networks jobIdx =
     indexed (validateJobNetwork networks jobIdx) 0 jobNetworks
   @ concat (map (\<lambda>dflt.
       if length jobNetworks > 1 \<and> defaultCount jobNetworks dflt = 0
       then [Errorf ''with multiple networks, a default for %s must be specified'' [AStr dflt]]
       else if defaultCount jobNetworks dflt > 1 then [Errorf ''only one network can be the default for %s'' [AStr dflt]]
       else []) [''dns'', ''gateway''])"

section \<open>The manifest\<close>

definition validateResourcePool :: "Manifest \<Rightarrow> nat \<Rightarrow> ResourcePool \<Rightarrow> goerr list" where
  "validateResourcePool d idx rp =
     (let i = AInt (int idx); url = src_URL (rp_Stemcell rp) in
      err_if (isBlank (rp_Name rp)) ''resource_pools[%d].name must be provided'' [i]
    @ (if isBlank (rp_Network rp) then [Errorf ''resource_pools[%d].network must be provided'' [i]]
       else err_if (rp_Network rp \<notin> set (map nw_Name (mf_Networks d))) ''resource_pools[%d].network must be the name of a network'' [i])
    @ err_if (isBlank url) ''resource_pools[%d].stemcell.url must be provided'' [i]
    @ err_if (\<not> url_matches url) ''resource_pools[%d].stemcell.url must be a valid URL (file:// or http(s)://)'' [i]
    @ err_if (HasPrefix url ''http'' \<and> isBlank (src_SHA1 (rp_Stemcell rp))) ''resource_pools[%d].stemcell.sha1 must be provided for http URL'' [i])"

definition validateDiskPool :: "nat \<Rightarrow> DiskPool \<Rightarrow> goerr list" where
  "validateDiskPool idx dp =
     err_if (isBlank (dp_Name dp)) ''disk_pools[%d].name must be provided'' [AInt (int idx)]
   @ err_if (dp_DiskSize dp \<le> 0) ''disk_pools[%d].disk_size must be > 0'' [AInt (int idx)]"

fun validateTemplates :: "ReleaseRef list \<Rightarrow> nat \<Rightarrow> nat \<Rightarrow> string list \<Rightarrow> ReleaseJobRef list \<Rightarrow> goerr list" where
  "validateTemplates rels idx templateIdx templateNames [] = []"
| "validateTemplates rels idx templateIdx templateNames (t # ts) =
     (let i = [AInt (int idx), AInt (int templateIdx)] in
      err_if (isBlank (rj_Name t)) ''jobs[%d].templates[%d].name must be provided'' i
    @ err_if (rj_Name t \<in> set templateNames) ''jobs[%d].templates[%d].name %s must be unique'' (i @ [AStr (rj_Name t)])
    @ (if isBlank (rj_Release t) then [Errorf ''jobs[%d].templates[%d].release must be provided'' i]
       else err_if (ReleaseSet_FindByName rels (rj_Release t) = None)
              ''jobs[%d].templates[%d].release %s must refer to release in releases'' (i @ [AStr (rj_Release t)]))
    @ validateTemplates rels idx (Suc templateIdx) (rj_Name t # templateNames) ts)"

definition validateJob :: "Manifest \<Rightarrow> ReleaseRef list \<Rightarrow> nat \<Rightarrow> ManifestJob \<Rightarrow> goerr list" where
  "validateJob d rels idx job =
     (let i = AInt (int idx) in
      err_if (isBlank (mj_Name job)) ''jobs[%d].name must be provided'' [i]
    @ err_if (mj_PersistentDisk job < 0) ''jobs[%d].persistent_disk must be >= 0'' [i]
    @ err_if (mj_PersistentDiskPool job \<noteq> '''' \<and> mj_PersistentDiskPool job \<notin> set (map dp_Name (mf_DiskPools d)))
        ''jobs[%d].persistent_disk_pool must be the name of a disk pool'' [i]
    @ err_if (mj_Instances job < 0) ''jobs[%d].instances must be >= 0'' [i]
    @ err_if (length (mj_Networks job) = 0) ''jobs[%d].networks must be a non-empty array'' [i]
    @ (if isBlank (mj_ResourcePool job) then [Errorf ''jobs[%d].resource_pool must be provided'' [i]]
       else err_if (mj_ResourcePool job \<notin> set (map rp_Name (mf_ResourcePools d)))
              ''jobs[%d].resource_pool must be the name of a resource pool'' [i])
    @ validateJobNetworks (mj_Networks job) (mf_Networks d) idx
    @ err_if (mj_Lifecycle job \<noteq> '''' \<and> mj_Lifecycle job \<noteq> ''service'')
        ''jobs[%d].lifecycle must be service (%s not supported)'' [i, AStr (mj_Lifecycle job)]
    @ validateTemplates rels idx 0 [] (mj_Templates job))"

definition Manifest_Validate :: "Manifest \<Rightarrow> ReleaseRef list \<Rightarrow> goerr + unit" where
  "Manifest_Validate d releaseSetManifest = multi_error
     (err_if (isBlank (mf_Name d)) ''name must be provided'' []
    @ validateNetworks (mf_Networks d)
    @ indexed (validateResourcePool d) 0 (mf_ResourcePools d)
    @ indexed validateDiskPool 0 (mf_DiskPools d)
    @ err_if (length (mf_Jobs d) > 1) ''jobs must be of size 1'' []
    @ indexed (validateJob d releaseSetManifest) 0 (mf_Jobs d))"

definition ValidateReleaseJobs :: "Manifest \<Rightarrow> Release list \<Rightarrow> goerr + unit" where
  "ValidateReleaseJobs d releaseManager = multi_error
     (indexed (\<lambda>idx job. indexed (\<lambda>templateIdx t. case ReleaseManager_Find releaseManager (rj_Release t) of
        None \<Rightarrow> [Errorf ''jobs[%d].templates[%d].release %s must refer to release in releases''
                   [AInt (int idx), AInt (int templateIdx), AStr (rj_Release t)]]
      | Some release \<Rightarrow> err_if (Release_FindJobByName release (rj_Name t) = None)
          ''jobs[%d].templates[%d] must refer to a job in %s, but there is no job named %s''
          [AInt (int idx), AInt (int templateIdx), AStr (rl_Name release), AStr (rj_Name t)]) 0 (mj_Templates job)) 0 (mf_Jobs d))"

section \<open>What is valid\<close>

definition gateway_ok :: "string \<Rightarrow> ipnet \<Rightarrow> bool" where
  "gateway_ok gateway net \<longleftrightarrow> (\<exists>gw. ParseIP gateway = Some gw \<and> net_Contains net gw
     \<and> \<not> ip_Equal (in_IP net) gw \<and> \<not> ip_Equal (LastAddress net) gw)"

definition network_ok :: "Network \<Rightarrow> bool" where
  "network_ok n \<longleftrightarrow> \<not> isBlank (nw_Name n) \<and> nw_Type n \<in> {Dynamic, Manual, VIP}
     \<and> (nw_Type n = Manual \<longrightarrow> (\<exists>s ip net. nw_Subnets n = [s] \<and> ParseCIDR (sn_Range s) = Some (ip, net) \<and> gateway_ok (sn_Gateway s) net))"

definition static_ip_ok :: "Network \<Rightarrow> string \<Rightarrow> bool" where
  "static_ip_ok n ip \<longleftrightarrow> (\<exists>x. ParseIP ip = Some x \<and> (nw_Type n = Manual \<longrightarrow>
     (\<exists>s \<in> set (nw_Subnets n). \<exists>y net. ParseCIDR (sn_Range s) = Some (y, net) \<and> net_Contains net x)))"

definition job_network_ok :: "Network list \<Rightarrow> JobNetwork \<Rightarrow> bool" where
  "job_network_ok networks jn \<longleftrightarrow> \<not> isBlank (jn_Name jn) \<and> (\<exists>n. matchingNetwork networks (jn_Name jn) = Some n
       \<and> (\<forall>ip \<in> set (jn_StaticIPs jn). static_ip_ok n ip))
     \<and> set (jn_Defaults jn) \<subseteq> {''dns'', ''gateway''}"

definition resource_pool_ok :: "Manifest \<Rightarrow> ResourcePool \<Rightarrow> bool" where
  "resource_pool_ok d rp \<longleftrightarrow> \<not> isBlank (rp_Name rp) \<and> \<not> isBlank (rp_Network rp) \<and> rp_Network rp \<in> set (map nw_Name (mf_Networks d))
     \<and> url_matches (src_URL (rp_Stemcell rp)) \<and> (HasPrefix (src_URL (rp_Stemcell rp)) ''http'' \<longrightarrow> \<not> isBlank (src_SHA1 (rp_Stemcell rp)))"

definition template_ok :: "ReleaseRef list \<Rightarrow> ReleaseJobRef \<Rightarrow> bool" where
  "template_ok rels t \<longleftrightarrow> \<not> isBlank (rj_Name t) \<and> \<not> isBlank (rj_Release t) \<and> rj_Release t \<in> ref_Name ` set rels"

text \<open>The defaults: each at most once, and with several networks exactly once.\<close>

definition defaults_ok :: "JobNetwork list \<Rightarrow> bool" where
  "defaults_ok jns \<longleftrightarrow> (\<forall>dflt \<in> {''dns'', ''gateway''}. defaultCount jns dflt \<le> 1 \<and> (length jns > 1 \<longrightarrow> defaultCount jns dflt = 1))"

definition job_ok :: "Manifest \<Rightarrow> ReleaseRef list \<Rightarrow> ManifestJob \<Rightarrow> bool" where
  "job_ok d rels j \<longleftrightarrow> \<not> isBlank (mj_Name j) \<and> 0 \<le> mj_PersistentDisk j \<and> 0 \<le> mj_Instances j
     \<and> (mj_PersistentDiskPool j = '''' \<or> mj_PersistentDiskPool j \<in> set (map dp_Name (mf_DiskPools d)))
     \<and> \<not> isBlank (mj_ResourcePool j) \<and> mj_ResourcePool j \<in> set (map rp_Name (mf_ResourcePools d))
     \<and> mj_Networks j \<noteq> [] \<and> (\<forall>jn \<in> set (mj_Networks j). job_network_ok (mf_Networks d) jn) \<and> defaults_ok (mj_Networks j)
     \<and> mj_Lifecycle j \<in> {'''', ''service''}
     \<and> distinct (map rj_Name (mj_Templates j)) \<and> (\<forall>t \<in> set (mj_Templates j). template_ok rels t)"

definition valid_manifest :: "Manifest \<Rightarrow> ReleaseRef list \<Rightarrow> bool" where
  "valid_manifest d rels \<longleftrightarrow> \<not> isBlank (mf_Name d) \<and> (\<forall>n \<in> set (mf_Networks d). network_ok n)
     \<and> (\<forall>rp \<in> set (mf_ResourcePools d). resource_pool_ok d rp)
     \<and> (\<forall>dp \<in> set (mf_DiskPools d). \<not> isBlank (dp_Name dp) \<and> 0 < dp_DiskSize dp)
     \<and> length (mf_Jobs d) \<le> 1 \<and> (\<forall>j \<in> set (mf_Jobs d). job_ok d rels j)"

lemma indexed_Nil: "(\<And>i x. f i x = [] \<longleftrightarrow> P x) \<Longrightarrow> indexed f i xs = [] \<longleftrightarrow> (\<forall>x \<in> set xs. P x)"
  by (induction xs arbitrary: i) simp_all

text \<open>Neither a range nor an address is blank.\<close>

lemma blank_not_parsed: "isBlank s \<Longrightarrow> ParseCIDR s = None" "isBlank s \<Longrightarrow> ParseIP s = None"
proof -
  have n: "c \<notin> set s" if "isBlank s" "\<not> is_space c" for c using that by (auto simp: isBlank_iff)
  have "\<not> is_space CHR ''/''" "\<not> is_space CHR ''.''" "\<not> is_space CHR '':''" by code_simp+
  note m = n[OF _ this(1)] n[OF _ this(2)] n[OF _ this(3)]
  show "ParseCIDR s = None" if "isBlank s" using m(1)[OF that] by (simp add: ParseCIDR_def)
  show "ParseIP s = None" if "isBlank s"
  proof -
    have "find (\<lambda>c. c = CHR ''.'' \<or> c = CHR '':'') s = None" using m(2,3)[OF that] by (auto simp: find_None_iff)
    then show ?thesis by simp
  qed
qed

lemma range_gateway_Nil:
  "(case validateRange i r of (es, net) \<Rightarrow> es @ validateGateway i g net) = [] \<longleftrightarrow>
     (\<exists>ip net. ParseCIDR r = Some (ip, net) \<and> gateway_ok g net)"
  using blank_not_parsed[of r] blank_not_parsed[of g]
  by (auto simp: validateRange_def validateGateway_def gateway_ok_def Let_def simp del: ParseIP.simps split: option.splits)

lemma validateNetwork_Nil: "validateNetwork n i = [] \<longleftrightarrow> network_ok n"
proof (cases "nw_Type n = Manual")
  case True
  show ?thesis
  proof (cases "\<exists>s. nw_Subnets n = [s]")
    case True
    then obtain s where "nw_Subnets n = [s]" by blast
    then show ?thesis using \<open>nw_Type n = Manual\<close> range_gateway_Nil[where i = i and r = "sn_Range s" and g = "sn_Gateway s"]
      by (simp add: validateNetwork_def network_ok_def Let_def)
  next
    case False
    then show ?thesis using \<open>nw_Type n = Manual\<close>
      by (auto simp: validateNetwork_def network_ok_def split: list.splits)
  qed
qed (auto simp: validateNetwork_def network_ok_def)

lemma validateStaticIP_Nil: "validateStaticIP ip n a b k = [] \<longleftrightarrow> static_ip_ok n ip"
proof -
  have c: "(case x of None \<Rightarrow> False | Some (a, b) \<Rightarrow> P b) \<longleftrightarrow> (\<exists>y net. x = Some (y, net) \<and> P net)"
    for x :: "(ip \<times> ipnet) option" and P
    by (auto split: option.splits)
  show ?thesis
    by (cases "ParseIP ip") (simp_all add: validateStaticIP_def static_ip_ok_def list_ex_iff c del: ParseIP.simps)
qed

lemma validateJobNetworks_Nil: "validateJobNetworks jns ns a = [] \<longleftrightarrow> (\<forall>jn \<in> set jns. job_network_ok ns jn) \<and> defaults_ok jns"
proof -
  have one: "validateJobNetwork ns a b jn = [] \<longleftrightarrow> job_network_ok ns jn" for b jn
    unfolding validateJobNetwork_def Let_def
    by (subst append_is_Nil_conv indexed_Nil[where P = "\<lambda>ip. static_ip_ok (case matchingNetwork ns (jn_Name jn) of None \<Rightarrow> zero_network | Some n \<Rightarrow> n) ip"]
          indexed_Nil[where P = "\<lambda>v. v = ''dns'' \<or> v = ''gateway''"], (simp add: validateStaticIP_Nil)?)+
      (auto simp: job_network_ok_def split: option.splits)
  show ?thesis unfolding validateJobNetworks_def
    by (simp add: indexed_Nil[OF one]) (auto simp: defaults_ok_def)
qed

lemma validateTemplates_Nil: "validateTemplates rels a k seen ts = [] \<longleftrightarrow>
    (\<forall>t \<in> set ts. template_ok rels t) \<and> distinct (map rj_Name ts) \<and> set (map rj_Name ts) \<inter> set seen = {}"
proof -
  have f: "ReleaseSet_FindByName rels n = None \<longleftrightarrow> n \<notin> ref_Name ` set rels" for n
    using ReleaseSet_FindByName_iff[of rels n] by blast
  show ?thesis
    by (induction ts arbitrary: k seen) (auto simp: template_ok_def f Let_def)
qed

lemma validateJob_Nil: "validateJob d rels i j = [] \<longleftrightarrow> job_ok d rels j"
  by (auto simp: validateJob_def Let_def job_ok_def validateJobNetworks_Nil validateTemplates_Nil[where seen = "[]"])

lemma validateResourcePool_Nil: "validateResourcePool d i rp = [] \<longleftrightarrow> resource_pool_ok d rp"
  by (auto simp: validateResourcePool_def Let_def resource_pool_ok_def dest: url_matches_not_blank)

lemma validateDiskPool_Nil: "validateDiskPool i dp = [] \<longleftrightarrow> \<not> isBlank (dp_Name dp) \<and> 0 < dp_DiskSize dp"
  by (auto simp: validateDiskPool_def)

lemma Manifest_Validate_iff: "Manifest_Validate d rels = Inr () \<longleftrightarrow> valid_manifest d rels"
  by (auto simp: Manifest_Validate_def valid_manifest_def validateNetworks_def indexed_Nil[OF validateNetwork_Nil]
      indexed_Nil[OF validateJob_Nil] indexed_Nil[OF validateResourcePool_Nil] indexed_Nil[OF validateDiskPool_Nil])

lemma ValidateReleaseJobs_iff: "ValidateReleaseJobs d releases = Inr () \<longleftrightarrow>
    (\<forall>j \<in> set (mf_Jobs d). \<forall>t \<in> set (mj_Templates j). \<exists>job. JobResolver_Resolve releases (rj_Name t) (rj_Release t) = Inr job)"
proof -
  have t: "(case ReleaseManager_Find releases (rj_Release t) of None \<Rightarrow> [e k] | Some r \<Rightarrow> err_if (Release_FindJobByName r (rj_Name t) = None) m (a k r)) = []
      \<longleftrightarrow> (\<exists>job. JobResolver_Resolve releases (rj_Name t) (rj_Release t) = Inr job)" for t e m a and k :: nat
    by (auto simp: JobResolver_Resolve_def split: option.splits)
  show ?thesis unfolding ValidateReleaseJobs_def multi_error_ok
    by (rule indexed_Nil, rule indexed_Nil, rule t)
qed

section \<open>What a valid manifest gives the deployment\<close>

lemma networkMap_matching: "networkMap d name = matchingNetwork (mf_Networks d) name"
proof -
  have "map_of (map (\<lambda>n. (nw_Name n, n)) ns) name = find (\<lambda>n. nw_Name n = name) ns" for ns
    by (induction ns) auto
  then show ?thesis by (simp add: networkMap_def matchingNetwork_def rev_map)
qed

lemma matchingNetwork_mem: "matchingNetwork ns name = Some n \<Longrightarrow> n \<in> set ns \<and> nw_Name n = name"
  by (auto simp: matchingNetwork_def dest: find_SomeD)

lemma Interface_Ok: "network_ok n \<Longrightarrow> \<exists>m. Interface n ips ds = Ok m"
  by (auto simp: Interface_def network_ok_def manual_interface_def Let_def)

lemma interfaces_loop_Ok:
  "\<forall>jn \<in> set jns. \<exists>n. nets (jn_Name jn) = Some n \<and> network_ok n \<Longrightarrow> \<exists>m. interfaces_loop nets jns acc = Ok m"
proof (induction jns arbitrary: acc)
  case (Cons jn jns)
  then obtain n where n: "nets (jn_Name jn) = Some n" "network_ok n" by auto
  obtain i where "Interface n (jn_StaticIPs jn) (jn_Defaults jn) = Ok i" using Interface_Ok[OF n(2)] by blast
  then show ?case using Cons n by (auto simp: wrap_outcome_def)
qed simp

text \<open>
  With a job, every lookup of the deployment succeeds: the job's name, the interfaces of its
  networks, its resource pool with the stemcell, and its disk pool, whose size is not negative.
\<close>

definition lookups_succeed :: "Manifest \<Rightarrow> string \<Rightarrow> bool" where
  "lookups_succeed d jn \<longleftrightarrow> JobName d = Ok jn \<and> (\<exists>nets. NetworkInterfaces d jn = Ok nets)
     \<and> (\<exists>rp. ResourcePool_of d jn = Inr rp \<and> Stemcell_of d jn = Inr (rp_Stemcell rp) \<and> url_matches (src_URL (rp_Stemcell rp)))
     \<and> (\<exists>dp. DiskPool_of d jn = Inr dp \<and> 0 \<le> dp_DiskSize dp)"

lemma valid_lookups:
  assumes valid: "valid_manifest d rels" and job: "mf_Jobs d = [j]"
  shows "lookups_succeed d (mj_Name j)"
proof -
  have j: "job_ok d rels j" using valid job by (simp add: valid_manifest_def)
  have f: "FindJobByName d (mj_Name j) = Some j" by (simp add: FindJobByName_def job)
  have nets: "\<forall>jn \<in> set (mj_Networks j). \<exists>n. networkMap d (jn_Name jn) = Some n \<and> network_ok n"
  proof
    fix jn assume "jn \<in> set (mj_Networks j)"
    then obtain n where "matchingNetwork (mf_Networks d) (jn_Name jn) = Some n" using j by (auto simp: job_ok_def job_network_ok_def)
    moreover then have "network_ok n" using valid matchingNetwork_mem by (auto simp: valid_manifest_def)
    ultimately show "\<exists>n. networkMap d (jn_Name jn) = Some n \<and> network_ok n" by (simp add: networkMap_matching)
  qed
  obtain m where "interfaces_loop (networkMap d) (mj_Networks j) [] = Ok m" using interfaces_loop_Ok[OF nets] by blast
  then have "\<exists>nets. NetworkInterfaces d (mj_Name j) = Ok nets" by (simp add: NetworkInterfaces_def f)
  moreover have "\<exists>rp. ResourcePool_of d (mj_Name j) = Inr rp \<and> Stemcell_of d (mj_Name j) = Inr (rp_Stemcell rp)
      \<and> url_matches (src_URL (rp_Stemcell rp))"
  proof -
    obtain y where "y \<in> set (mf_ResourcePools d)" "rp_Name y = mj_ResourcePool j" using j by (auto simp: job_ok_def)
    then obtain rp where "find (\<lambda>rp. rp_Name rp = mj_ResourcePool j) (mf_ResourcePools d) = Some rp" "rp \<in> set (mf_ResourcePools d)"
      using find_ex[of y "mf_ResourcePools d" "\<lambda>rp. rp_Name rp = mj_ResourcePool j"] by blast
    then show ?thesis using valid f by (auto simp: ResourcePool_of_def Stemcell_of_def valid_manifest_def resource_pool_ok_def)
  qed
  moreover have "\<exists>dp. DiskPool_of d (mj_Name j) = Inr dp \<and> 0 \<le> dp_DiskSize dp"
  proof (cases "mj_PersistentDiskPool j = ''''")
    case True
    then show ?thesis by (auto simp: DiskPool_of_def f zero_disk_pool_def)
  next
    case False
    then obtain y where "y \<in> set (mf_DiskPools d)" "dp_Name y = mj_PersistentDiskPool j" using j by (auto simp: job_ok_def)
    then obtain dp where "find (\<lambda>dp. dp_Name dp = mj_PersistentDiskPool j) (mf_DiskPools d) = Some dp" "dp \<in> set (mf_DiskPools d)"
      using find_ex[of y "mf_DiskPools d" "\<lambda>dp. dp_Name dp = mj_PersistentDiskPool j"] by blast
    then show ?thesis using valid f False by (auto simp: DiskPool_of_def valid_manifest_def)
  qed
  ultimately show ?thesis using job by (simp add: lookups_succeed_def JobName_def)
qed

text \<open>Sizes read from the manifest are Go ints; then it is deployable.\<close>

definition sizes_int64 :: "Manifest \<Rightarrow> bool" where
  "sizes_int64 d \<longleftrightarrow> (\<forall>dp \<in> set (mf_DiskPools d). int64 (dp_DiskSize dp)) \<and> (\<forall>j \<in> set (mf_Jobs d). int64 (mj_PersistentDisk j))"

lemma valid_deployable:
  assumes "valid_manifest d rels" "mf_Jobs d \<noteq> []" "sizes_int64 d"
  shows "deployable d"
proof -
  obtain j where j: "mf_Jobs d = [j]" using assms(1,2) by (cases "mf_Jobs d") (auto simp: valid_manifest_def)
  have "int64 (dp_DiskSize dp)" if "DiskPool_of d jn = Inr dp" for dp jn
    using that assms(3) by (auto simp: DiskPool_of_def FindJobByName_def sizes_int64_def zero_disk_pool_def int64_def
        dest!: find_SomeD split: option.splits if_splits)
  then show ?thesis using valid_lookups[OF assms(1) j] unfolding deployable_def lookups_succeed_def by auto
qed

text \<open>
  A manifest without jobs is valid too, and then the job's name is a panic; so is a network of
  addresses without a static address, in the builder of the agent's state.
\<close>

lemma valid_without_jobs:
  assumes "valid_manifest d rels"
  shows "valid_manifest (d\<lparr>mf_Jobs := []\<rparr>) rels \<and> JobName (d\<lparr>mf_Jobs := []\<rparr>) = Panic ''index out of range''"
  using assms by (simp add: valid_manifest_def JobName_def resource_pool_ok_def)

end
