(* ===== verification/ManifestParser.thy ===== *)
theory ManifestParser
  imports Validator
begin

text \<open>
  The deployment manifest's parser, deployment/manifest/parser.go. \<^verbatim>\<open>yaml.Unmarshal\<close> is a
  parameter, from the contents of the file to the raw records below; a nil map of YAML is the
  empty one, except where the code tells them apart. Shown: what a parsed manifest has of the raw one, and that
  with the sizes of Go ints it is deployable once validated.
\<close>

section \<open>What YAML gives\<close>

record RawSubnet =
  rws_Range :: string
  rws_Gateway :: string
  rws_DNS :: "string list"
  rws_CloudProperties :: yamlmap

record RawNetwork =
  rwn_Name :: string
  rwn_Type :: string
  rwn_CloudProperties :: yamlmap
  rwn_Subnets :: "RawSubnet list"
  rwn_IP :: string
  rwn_Netmask :: string
  rwn_Gateway :: string
  rwn_DNS :: "string list"

record RawResourcePool =
  rwp_Name :: string
  rwp_Network :: string
  rwp_CloudProperties :: yamlmap
  rwp_Env :: yamlmap
  rwp_Stemcell :: SourceRef

record RawDiskPool =
  rwd_Name :: string
  rwd_DiskSize :: int
  rwd_CloudProperties :: yamlmap

record RawReleaseJobRef =
  rwf_Name :: string
  rwf_Release :: string
  rwf_Properties :: "yamlmap option"

record RawJobNetwork =
  rwo_Name :: string
  rwo_Defaults :: "string list"
  rwo_StaticIPs :: "string list"

record RawJob =
  rwj_Name :: string
  rwj_Instances :: int
  rwj_Lifecycle :: string
  rwj_Templates :: "RawReleaseJobRef list"
  rwj_Jobs :: "RawReleaseJobRef list"
  rwj_Networks :: "RawJobNetwork list"
  rwj_PersistentDisk :: int
  rwj_PersistentDiskPool :: string
  rwj_ResourcePool :: string
  rwj_Properties :: "yamlmap option"

record RawManifest =
  dm_Name :: string
  dm_UpdateWatchTime :: "string option"
  dm_Networks :: "RawNetwork list"
  dm_ResourcePools :: "RawResourcePool list"
  dm_DiskPools :: "RawDiskPool list"
  dm_Jobs :: "RawJob list"
  dm_InstanceGroups :: "RawJob list"
  dm_Properties :: yamlmap

section \<open>The parts\<close>

definition parseSubnet :: "string \<Rightarrow> RawSubnet \<Rightarrow> goerr + Subnet" where
  "parseSubnet name s =
     sbind (wraps ''Parsing network subnet %s cloud_properties: %#v'' [AStr name, ADump] (BuildMap (rws_CloudProperties s))) (\<lambda>cp.
     Inr \<lparr>sn_Range = rws_Range s, sn_Gateway = rws_Gateway s, sn_DNS = rws_DNS s, sn_CloudProperties = Some cp\<rparr>)"

definition parseNetwork :: "RawNetwork \<Rightarrow> goerr + Network" where
  "parseNetwork n =
     sbind (wraps ''Parsing network %s cloud_properties: %#v'' [AStr (rwn_Name n), ADump] (BuildMap (rwn_CloudProperties n))) (\<lambda>cp.
     sbind (map_sum_list (parseSubnet (rwn_Name n)) (rwn_Subnets n)) (\<lambda>subnets.
     Inr \<lparr>nw_Name = rwn_Name n, nw_Type = rwn_Type n, nw_CloudProperties = Some cp, nw_DNS = rwn_DNS n, nw_Subnets = subnets\<rparr>))"

definition parseNetworkManifests :: "RawNetwork list \<Rightarrow> goerr + Network list" where
  "parseNetworkManifests = map_sum_list parseNetwork"

definition parseResourcePool :: "string \<Rightarrow> RawResourcePool \<Rightarrow> (world, ResourcePool) prog" where
  "parseResourcePool path r =
     bnd (wrapf ''Parsing resource_pool %s cloud_properties: %#v'' [AStr (rwp_Name r), ADump] (lift_sum (BuildMap (rwp_CloudProperties r)))) (\<lambda>cp.
     bnd (wrapf ''Parsing resource_pool %s env: %#v'' [AStr (rwp_Name r), ADump] (lift_sum (BuildMap (rwp_Env r)))) (\<lambda>env.
     bnd (wrapf ''Resolving stemcell path %s'' [AStr ''''] (AbsolutifyPath path (src_URL (rwp_Stemcell r)))) (\<lambda>url.
     ret \<lparr>rp_Name = rwp_Name r, rp_Network = rwp_Network r, rp_CloudProperties = Some cp, rp_Env = Some env,
          rp_Stemcell = (rwp_Stemcell r)\<lparr>src_URL := url\<rparr>\<rparr>)))"

definition parseResourcePoolManifests :: "RawResourcePool list \<Rightarrow> string \<Rightarrow> (world, ResourcePool list) prog" where
  "parseResourcePoolManifests rawResourcePools path = map_prog (parseResourcePool path) rawResourcePools"

definition parseDiskPool :: "RawDiskPool \<Rightarrow> goerr + DiskPool" where
  "parseDiskPool d =
     sbind (wraps ''Parsing disk_pool %s cloud_properties: %#v'' [AStr (rwd_Name d), ADump] (BuildMap (rwd_CloudProperties d))) (\<lambda>cp.
     Inr \<lparr>dp_Name = rwd_Name d, dp_DiskSize = rwd_DiskSize d, dp_CloudProperties = Some cp\<rparr>)"

definition parseDiskPoolManifests :: "RawDiskPool list \<Rightarrow> goerr + DiskPool list" where
  "parseDiskPoolManifests = map_sum_list parseDiskPool"

definition parseJobRef :: "RawReleaseJobRef \<Rightarrow> goerr + ReleaseJobRef" where
  "parseJobRef r = (case rwf_Properties r of
      None \<Rightarrow> Inr \<lparr>rj_Name = rwf_Name r, rj_Release = rwf_Release r, rj_Properties = None\<rparr>
    | Some m \<Rightarrow> sbind (wraps ''Parsing release job properties: %#v'' [ADump] (BuildMap m)) (\<lambda>p.
        Inr \<lparr>rj_Name = rwf_Name r, rj_Release = rwf_Release r, rj_Properties = Some p\<rparr>))"

definition parseJobNetwork :: "RawJobNetwork \<Rightarrow> JobNetwork" where
  "parseJobNetwork n = \<lparr>jn_Name = rwo_Name n, jn_Defaults = rwo_Defaults n, jn_StaticIPs = rwo_StaticIPs n\<rparr>"

definition raw_templates :: "RawJob \<Rightarrow> RawReleaseJobRef list" where
  "raw_templates j = (if length (rwj_Jobs j) > 0 then rwj_Jobs j else rwj_Templates j)"

definition parseJob :: "RawJob \<Rightarrow> goerr + ManifestJob" where
  "parseJob rawJob =
     (if length (rwj_Templates rawJob) > 0 \<and> length (rwj_Jobs rawJob) > 0
      then Inl (GoError (''Deployment specifies both templates and jobs keys for instance_group '' @ rwj_Name rawJob @ '', only one is allowed''))
      else
       sbind (map_sum_list parseJobRef (raw_templates rawJob)) (\<lambda>refs.
       sbind (case rwj_Properties rawJob of None \<Rightarrow> Inr None
              | Some m \<Rightarrow> sbind (wraps ''Parsing job %s properties: %#v'' [AStr (rwj_Name rawJob), ADump] (BuildMap m)) (\<lambda>p. Inr (Some p))) (\<lambda>properties.
       Inr \<lparr>mj_Name = rwj_Name rawJob, mj_Instances = rwj_Instances rawJob, mj_Lifecycle = rwj_Lifecycle rawJob, mj_Templates = refs,
            mj_Networks = map parseJobNetwork (rwj_Networks rawJob), mj_PersistentDisk = rwj_PersistentDisk rawJob,
            mj_PersistentDiskPool = rwj_PersistentDiskPool rawJob, mj_ResourcePool = rwj_ResourcePool rawJob,
            mj_Properties = properties\<rparr>)))"

definition parseJobManifests :: "RawJob list \<Rightarrow> goerr + ManifestJob list" where
  "parseJobManifests = map_sum_list parseJob"

section \<open>The manifest\<close>

definition default_watch_time :: WatchTime where
  "default_watch_time = \<lparr>wt_Start = 0, wt_End = 300000\<rparr>"

definition raw_jobs :: "RawManifest \<Rightarrow> RawJob list" where
  "raw_jobs m = (if length (dm_InstanceGroups m) > 0 then dm_InstanceGroups m else dm_Jobs m)"

definition parseDeploymentManifest :: "RawManifest \<Rightarrow> string \<Rightarrow> (world, Manifest) prog" where
  "parseDeploymentManifest depManifest path =
     bnd (wrapf ''Parsing networks: %#v'' [ADump] (lift_sum (parseNetworkManifests (dm_Networks depManifest)))) (\<lambda>networks.
     bnd (wrapf ''Parsing resource_pools: %#v'' [ADump] (parseResourcePoolManifests (dm_ResourcePools depManifest) path)) (\<lambda>resourcePools.
     bnd (wrapf ''Parsing disk_pools: %#v'' [ADump] (lift_sum (parseDiskPoolManifests (dm_DiskPools depManifest)))) (\<lambda>diskPools.
     seq (check (\<not> (length (dm_Jobs depManifest) > 0 \<and> length (dm_InstanceGroups depManifest) > 0))
            (GoError ''Deployment specifies both jobs and instance_groups keys, only one is allowed''))
    (bnd (wrapf ''Parsing jobs: %#v'' [ADump] (lift_sum (parseJobManifests (raw_jobs depManifest)))) (\<lambda>jobs.
     bnd (wrapf ''Parsing global manifest properties: %#v'' [ADump] (lift_sum (BuildMap (dm_Properties depManifest)))) (\<lambda>properties.
     bnd (case dm_UpdateWatchTime depManifest of
            None \<Rightarrow> ret default_watch_time
          | Some s \<Rightarrow> wrap ''Parsing update watch time'' (lift_sum (NewWatchTime s))) (\<lambda>updateWatchTime.
     ret \<lparr>mf_Name = dm_Name depManifest, mf_Properties = Some properties, mf_Jobs = jobs, mf_Networks = networks,
          mf_DiskPools = diskPools, mf_ResourcePools = resourcePools, mf_UpdateWatchTime = updateWatchTime\<rparr>)))))))"

definition Manifest_Parse :: "(content \<Rightarrow> goerr + RawManifest) \<Rightarrow> string \<Rightarrow> (world, Manifest) prog" where
  "Manifest_Parse unmarshal path =
     bnd (wrapf ''Reading file %s'' [AStr path] (ReadFile path)) (\<lambda>contents.
     bnd (wrap ''Unmarshalling BOSH deployment manifest'' (lift_sum (unmarshal contents))) (\<lambda>comboManifest.
     wrap ''Unmarshalling BOSH deployment manifest'' (parseDeploymentManifest comboManifest path)))"

section \<open>What a parsed manifest has\<close>

text \<open>
  The parts keep their order and names; jobs come from one of the two keys, templates from one
  of the two keys of the job, and the watch time has its default.
\<close>

definition parsed_job :: "RawJob \<Rightarrow> ManifestJob \<Rightarrow> bool" where
  "parsed_job r j \<longleftrightarrow> mj_Name j = rwj_Name r \<and> mj_Instances j = rwj_Instances r \<and> mj_PersistentDisk j = rwj_PersistentDisk r
     \<and> mj_ResourcePool j = rwj_ResourcePool r \<and> (rwj_Templates r = [] \<or> rwj_Jobs r = [])
     \<and> map (\<lambda>t. (rj_Name t, rj_Release t)) (mj_Templates j) = map (\<lambda>t. (rwf_Name t, rwf_Release t)) (raw_templates r)
     \<and> map jn_Name (mj_Networks j) = map rwo_Name (rwj_Networks r)"

definition parsed_manifest :: "RawManifest \<Rightarrow> Manifest \<Rightarrow> bool" where
  "parsed_manifest r d \<longleftrightarrow> mf_Name d = dm_Name r \<and> (dm_Jobs r = [] \<or> dm_InstanceGroups r = [])
     \<and> map nw_Name (mf_Networks d) = map rwn_Name (dm_Networks r)
     \<and> map rp_Name (mf_ResourcePools d) = map rwp_Name (dm_ResourcePools r)
     \<and> map (\<lambda>p. (dp_Name p, dp_DiskSize p)) (mf_DiskPools d) = map (\<lambda>p. (rwd_Name p, rwd_DiskSize p)) (dm_DiskPools r)
     \<and> list_all2 parsed_job (raw_jobs r) (mf_Jobs d)
     \<and> (case dm_UpdateWatchTime r of None \<Rightarrow> mf_UpdateWatchTime d = default_watch_time
        | Some s \<Rightarrow> NewWatchTime s = Inr (mf_UpdateWatchTime d))"

text \<open>\<open>gives Q m\<close>: \<open>m\<close> only reads, returns, and its result satisfies \<open>Q\<close>.\<close>

definition gives :: "('a \<Rightarrow> bool) \<Rightarrow> (world, 'a) prog \<Rightarrow> bool" where
  "gives Q m \<longleftrightarrow> (\<forall>w. wp m (\<lambda>r w'. ticked w w' \<and> returns r \<and> (\<forall>x. r = Ok x \<longrightarrow> Q x)) w)"

lemma givesD: "gives Q m \<Longrightarrow> wp m (\<lambda>r w'. ticked w w' \<and> returns r \<and> (\<forall>x. r = Ok x \<longrightarrow> Q x)) w"
  by (simp add: gives_def)

lemma gives_mono: "gives P m \<Longrightarrow> (\<And>x. P x \<Longrightarrow> Q x) \<Longrightarrow> gives Q m"
  unfolding gives_def by (intro allI, rule wp_mono, blast) auto

lemma gives_ret: "Q x \<Longrightarrow> gives Q (ret x)"
  by (simp add: gives_def wp_ret)

lemma gives_lift_sum: "(\<And>y. x = Inr y \<Longrightarrow> Q y) \<Longrightarrow> gives Q (lift_sum x)"
  by (auto simp: gives_def wp_simps split: sum.splits)

lemma gives_sum: "gives (\<lambda>y. x = Inr y) (lift_sum x)"
  by (rule gives_lift_sum)

lemma gives_check: "gives (\<lambda>_. b) (check b e)"
  by (auto simp: gives_def wp_simps)

lemma gives_wrapf: "gives Q m \<Longrightarrow> gives Q (wrapf msg a m)"
  unfolding gives_def wp_wrapf by (intro allI, rule wp_mono, blast) (auto elim!: returnsE)

lemma gives_wrap: "gives Q m \<Longrightarrow> gives Q (wrap msg m)"
  unfolding wrap_def by (rule gives_wrapf)

lemma gives_bnd:
  assumes "gives P m" "\<And>x. P x \<Longrightarrow> gives Q (f x)"
  shows "gives Q (bnd m f)"
  unfolding gives_def
proof
  fix w
  show "wp (bnd m f) (\<lambda>r w'. ticked w w' \<and> returns r \<and> (\<forall>x. r = Ok x \<longrightarrow> Q x)) w"
    by (rule wp_bnd_rule[OF givesD[OF assms(1)]])
      (auto intro!: wp_mono[OF givesD[OF assms(2)]] intro: ticked_trans)
qed

lemma gives_seq: "gives P m \<Longrightarrow> (\<And>x. P x \<Longrightarrow> gives Q n) \<Longrightarrow> gives Q (seq m n)"
  unfolding seq_def by (rule gives_bnd)

lemma gives_map_prog: "(\<And>x. gives (Q x) (f x)) \<Longrightarrow> gives (list_all2 Q xs) (map_prog f xs)"
proof (induction xs)
  case Nil
  then show ?case by (simp add: gives_ret)
next
  case (Cons x xs)
  show ?case unfolding map_prog.simps
    by (rule gives_bnd[OF Cons.prems], rule gives_bnd[OF Cons.IH[OF Cons.prems]], rule gives_ret) simp
qed

lemma gives_ReadFile: "gives (\<lambda>_. True) (ReadFile path)"
  unfolding gives_def by (intro allI, rule wp_mono[OF ReadFile_wp]) simp

lemma gives_AbsolutifyPath: "gives (\<lambda>_. True) (AbsolutifyPath m f)"
  unfolding gives_def by (intro allI, rule wp_mono[OF AbsolutifyPath_wp]) simp

lemma list_all2_map_eq: "list_all2 (\<lambda>x y. f x = Inr y) xs ys \<Longrightarrow> (\<And>x y. f x = Inr y \<Longrightarrow> g y = h x) \<Longrightarrow> map g ys = map h xs"
  by (induction rule: list_all2_induct) auto

lemma parseJob_parsed: "parseJob r = Inr j \<Longrightarrow> parsed_job r j"
proof -
  assume "parseJob r = Inr j"
  then obtain refs where refs: "map_sum_list parseJobRef (raw_templates r) = Inr refs" "rwj_Templates r = [] \<or> rwj_Jobs r = []"
      "mj_Templates j = refs" "mj_Name j = rwj_Name r" "mj_Instances j = rwj_Instances r" "mj_PersistentDisk j = rwj_PersistentDisk r"
      "mj_ResourcePool j = rwj_ResourcePool r" "mj_Networks j = map parseJobNetwork (rwj_Networks r)"
    by (auto simp: parseJob_def sbind_Inr_iff split: if_splits)
  have "map (\<lambda>t. (rj_Name t, rj_Release t)) refs = map (\<lambda>t. (rwf_Name t, rwf_Release t)) (raw_templates r)"
    by (rule list_all2_map_eq[OF refs(1)[unfolded map_sum_list_Inr]])
      (auto simp: parseJobRef_def sbind_Inr_iff split: option.splits)
  then show "parsed_job r j" using refs by (simp add: parsed_job_def parseJobNetwork_def comp_def)
qed

lemma parseDeploymentManifest_gives: "gives (parsed_manifest m) (parseDeploymentManifest m path)"
proof -
  have nets: "map nw_Name ns = map rwn_Name (dm_Networks m)" if "parseNetworkManifests (dm_Networks m) = Inr ns" for ns
    by (rule list_all2_map_eq[OF that[unfolded parseNetworkManifests_def map_sum_list_Inr]]) (auto simp: parseNetwork_def sbind_Inr_iff wraps_Inr_iff)
  have pools: "map (\<lambda>p. (dp_Name p, dp_DiskSize p)) ps = map (\<lambda>p. (rwd_Name p, rwd_DiskSize p)) (dm_DiskPools m)"
    if "parseDiskPoolManifests (dm_DiskPools m) = Inr ps" for ps
    by (rule list_all2_map_eq[OF that[unfolded parseDiskPoolManifests_def map_sum_list_Inr]]) (auto simp: parseDiskPool_def sbind_Inr_iff wraps_Inr_iff)
  have jobs: "list_all2 parsed_job (raw_jobs m) js" if "parseJobManifests (raw_jobs m) = Inr js" for js
    using that[unfolded parseJobManifests_def map_sum_list_Inr] by (rule list_all2_mono) (rule parseJob_parsed)
  have one: "gives (\<lambda>p. rp_Name p = rwp_Name r) (parseResourcePool path r)" for r
    unfolding parseResourcePool_def
    by (rule gives_bnd[where P = "\<lambda>_. True"], rule gives_wrapf, rule gives_lift_sum, simp)+
      (rule gives_bnd[OF gives_wrapf[OF gives_AbsolutifyPath]], rule gives_ret, simp)
  have rps: "gives (\<lambda>ps. map rp_Name ps = map rwp_Name (dm_ResourcePools m)) (parseResourcePoolManifests (dm_ResourcePools m) path)"
  proof -
    have "map rp_Name ps = map rwp_Name rs" if "list_all2 (\<lambda>r p. rp_Name p = rwp_Name r) rs ps" for rs ps
      using that by (induction rule: list_all2_induct) auto
    note eq = this
    show ?thesis unfolding parseResourcePoolManifests_def
      by (rule gives_mono[OF _ eq], rule gives_map_prog, rule one)
  qed
  have wt: "gives (\<lambda>t. case dm_UpdateWatchTime m of None \<Rightarrow> t = default_watch_time | Some s \<Rightarrow> NewWatchTime s = Inr t)
      (case dm_UpdateWatchTime m of None \<Rightarrow> ret default_watch_time | Some s \<Rightarrow> wrap msg (lift_sum (NewWatchTime s)))" for msg
    by (cases "dm_UpdateWatchTime m") (auto intro: gives_ret gives_wrap gives_lift_sum)
  show ?thesis unfolding parseDeploymentManifest_def
    by (rule gives_bnd[OF gives_wrapf[OF gives_sum]], rule gives_bnd[OF gives_wrapf[OF rps]],
        rule gives_bnd[OF gives_wrapf[OF gives_sum]], rule gives_seq[OF gives_check],
        rule gives_bnd[OF gives_wrapf[OF gives_sum]], rule gives_bnd[OF gives_wrapf[OF gives_sum]],
        rule gives_bnd[OF wt], rule gives_ret)
      (simp add: parsed_manifest_def nets pools jobs split: option.splits)
qed

lemma Manifest_Parse_gives: "wp (Manifest_Parse unmarshal path) (\<lambda>r w'. ticked w w' \<and> returns r \<and> (\<forall>d. r = Ok d \<longrightarrow>
    (\<exists>c m. files w path = Some c \<and> unmarshal c = Inr m \<and> parsed_manifest m d))) w"
  unfolding Manifest_Parse_def
proof (rule wp_bnd_wrapf[OF ReadFile_wp], goal_cases)
  case (1 c v)
  then have c: "files w path = Some c" "ticked w v" by auto
  have "gives (\<lambda>d. \<exists>m. unmarshal c = Inr m \<and> parsed_manifest m d)
     (bnd (wrap msg (lift_sum (unmarshal c))) (\<lambda>m. wrap msg2 (parseDeploymentManifest m path)))" for msg msg2
  proof (rule gives_bnd[OF gives_wrap[OF gives_lift_sum[where Q = "\<lambda>m. unmarshal c = Inr m"]]])
    fix m assume "unmarshal c = Inr m"
    then show "gives (\<lambda>d. \<exists>m. unmarshal c = Inr m \<and> parsed_manifest m d) (wrap msg2 (parseDeploymentManifest m path))"
      by (intro gives_wrap gives_mono[OF parseDeploymentManifest_gives]) blast
  qed
  then show ?case by (rule wp_mono[OF givesD]) (use c in \<open>auto intro: ticked_trans\<close>)
qed auto

text \<open>
  With Go ints in the YAML, a manifest that is parsed, validated and has a job can be deployed.
\<close>

definition raw_sizes_int64 :: "RawManifest \<Rightarrow> bool" where
  "raw_sizes_int64 m \<longleftrightarrow> (\<forall>p \<in> set (dm_DiskPools m). int64 (rwd_DiskSize p)) \<and> (\<forall>j \<in> set (raw_jobs m). int64 (rwj_PersistentDisk j))"

lemma parsed_sizes: 
  assumes "parsed_manifest m d" "raw_sizes_int64 m"
  shows "sizes_int64 d"
proof -
  have "int64 (dp_DiskSize p)" if "p \<in> set (mf_DiskPools d)" for p
  proof -
    have "(dp_Name p, dp_DiskSize p) \<in> set (map (\<lambda>p. (dp_Name p, dp_DiskSize p)) (mf_DiskPools d))" using that by auto
    then have "(dp_Name p, dp_DiskSize p) \<in> set (map (\<lambda>p. (rwd_Name p, rwd_DiskSize p)) (dm_DiskPools m))"
      using assms(1) by (simp only: parsed_manifest_def)
    then show ?thesis using assms(2) by (auto simp: raw_sizes_int64_def)
  qed
  moreover have "int64 (mj_PersistentDisk j)" if "j \<in> set (mf_Jobs d)" for j
  proof -
    obtain r where "r \<in> set (raw_jobs m)" "parsed_job r j"
    proof -
      obtain i where i: "i < length (mf_Jobs d)" "mf_Jobs d ! i = j" using \<open>j \<in> set (mf_Jobs d)\<close> by (auto simp: in_set_conv_nth)
      moreover have "list_all2 parsed_job (raw_jobs m) (mf_Jobs d)" using assms(1) by (simp add: parsed_manifest_def)
      ultimately have "parsed_job (raw_jobs m ! i) j" "raw_jobs m ! i \<in> set (raw_jobs m)" by (auto simp: list_all2_conv_all_nth)
      then show thesis by (intro that)
    qed
    then show ?thesis using assms(2) by (auto simp: raw_sizes_int64_def parsed_job_def)
  qed
  ultimately show ?thesis by (simp add: sizes_int64_def)
qed

lemma parsed_deployable:
  assumes "parsed_manifest m d" "raw_sizes_int64 m" "Manifest_Validate d rels = Inr ()" "raw_jobs m \<noteq> []"
  shows "deployable d"
proof (rule valid_deployable)
  show "mf_Jobs d \<noteq> []" using assms(1,4) by (auto simp: parsed_manifest_def)
qed (use assms parsed_sizes in \<open>auto simp: Manifest_Validate_iff\<close>)

end
