(* ===== verification/Commands.thy ===== *)
theory Commands
  imports CpiRelease Migrator ManifestParser
begin

text \<open>
  The commands: cmd/deployment\_preparer.go, deployment\_deleter.go, the manifest parsers, the
  configurator of the temporary root, deploy\_cmd.go, delete\_cmd.go, version.go and runner.go, with
  what cmd/factory.go passes to them. Everything outside the repository that they use is in one
  record of parameters. Shown: what has been checked before a deployment makes its first CPI
  call, what deleting a deployment leaves, and how the arguments are read.
\<close>

section \<open>The outside\<close>

record parsed_url =
  pu_Scheme :: string
  pu_Host :: string
  pu_User :: "(string \<times> string) option"

text \<open>
  SHA-1 of a string and of files, what \<^verbatim>\<open>yaml.Unmarshal\<close> makes of each kind of file, the ruby
  program, the orders in which two Go maps are iterated, and \<^verbatim>\<open>url.Parse\<close>.
\<close>

record externals =
  x_sha1_str :: "string \<Rightarrow> string"
  x_sha1_files :: "content list \<Rightarrow> string"
  x_release_set :: "content \<Rightarrow> goerr + ReleaseRef list"
  x_installation :: "content \<Rightarrow> goerr + RawInstallation"
  x_deployment :: "content \<Rightarrow> goerr + RawManifest"
  x_release :: "content \<Rightarrow> goerr + ReleaseManifest"
  x_job :: "content \<Rightarrow> goerr + JobManifest"
  x_stemcell :: "content \<Rightarrow> goerr + RawStemcell"
  x_legacy :: "content \<Rightarrow> goerr + legacyDeploymentState"
  x_script :: string
  x_iter1 :: "nat list \<Rightarrow> nat list"
  x_iter2 :: "nat list \<Rightarrow> nat list"
  x_url :: "string \<Rightarrow> goerr + parsed_url"

section \<open>cmd/factory.go\<close>

definition loadTarballProvider :: "string \<Rightarrow> provider" where
  "loadTarballProvider workspaceRootPath =
     \<lparr>pv_basePath = JoinPath [workspaceRootPath, ''downloads''], pv_downloadAttempts = 3, pv_delayTimeout = 500 * Millisecond\<rparr>"

definition loadTargetProvider :: "string \<Rightarrow> string \<Rightarrow> (world, string) prog" where
  "loadTargetProvider workspaceRootPath p = NewTarget p (JoinPath [workspaceRootPath, ''installations''])"

definition loadReleaseFetcher ::
  "externals \<Rightarrow> string \<Rightarrow> ReleaseRef \<Rightarrow> nat \<Rightarrow> heap \<times> Release list \<Rightarrow> (world, heap \<times> Release list) prog" where
  "loadReleaseFetcher X ws releaseRef stage = (\<lambda>(h, releases).
     DownloadAndExtract (x_sha1_str X) (x_sha1_files X) (x_release X) (x_job X) (loadTarballProvider ws) h releases releaseRef stage)"

definition loadStemcellFetcher :: "externals \<Rightarrow> string \<Rightarrow> Manifest \<Rightarrow> nat \<Rightarrow> (world, ExtractedStemcell option) prog" where
  "loadStemcellFetcher X ws = GetStemcell (x_sha1_str X) (x_sha1_files X) (x_stemcell X) (loadTarballProvider ws)"

definition loadCpiInstaller :: "externals \<Rightarrow> heap \<Rightarrow> Release list \<Rightarrow> string \<Rightarrow> installer" where
  "loadCpiInstaller X h releases target = NewInstaller (x_iter1 X) (x_iter2 X) (x_script X) h releases target"

definition loadBuilder :: "externals \<Rightarrow> heap \<Rightarrow> Release list \<Rightarrow> state_builder" where
  "loadBuilder X h releases = NewBuilder (x_sha1_files X) (x_script X) (x_iter1 X) (x_iter2 X) h releases"

section \<open>blobstore/blobstore\_factory.go, cloud/factory.go\<close>

record BlobstoreConfig =
  bc_Endpoint :: string
  bc_Username :: string
  bc_Password :: string

definition parseBlobstoreURL :: "(string \<Rightarrow> goerr + parsed_url) \<Rightarrow> string \<Rightarrow> goerr + BlobstoreConfig" where
  "parseBlobstoreURL parse blobstoreURL =
     sbind (wraps ''Parsing Mbus URL'' [] (parse blobstoreURL)) (\<lambda>u.
     let (username, password) = (case pu_User u of None \<Rightarrow> ('''', '''') | Some userInfo \<Rightarrow> userInfo) in
     Inr \<lparr>bc_Endpoint = pu_Scheme u @ ''://'' @ pu_Host u, bc_Username = username, bc_Password = password\<rparr>)"

definition BlobstoreFactory_Create :: "(string \<Rightarrow> goerr + parsed_url) \<Rightarrow> string \<Rightarrow> goerr + BlobstoreConfig" where
  "BlobstoreFactory_Create parse blobstoreURL =
     sbind (wraps ''Creating blobstore config'' [] (parseBlobstoreURL parse blobstoreURL)) (\<lambda>blobstoreConfig.
     Inr (blobstoreConfig\<lparr>bc_Endpoint := bc_Endpoint blobstoreConfig @ ''/blobs''\<rparr>))"

definition CloudFactory_NewCloud :: "Installation \<Rightarrow> string \<Rightarrow> (world, cloud) prog" where
  "CloudFactory_NewCloud installation directorID =
     NewCloud (jr_Name (ij_Ref (in_job installation))) (ij_Path (in_job installation))
       (JobsPath (in_target installation)) (PackagesPath (in_target installation)) directorID"

section \<open>cmd/temp\_root\_configurator.go\<close>

definition PrepareAndSetTempRoot :: "string \<Rightarrow> (world, unit) prog" where
  "PrepareAndSetTempRoot path =
     bnd (FileExists path) (\<lambda>exists.
     seq (if exists then RemoveAll path else ret ())
         (ext_unit ''fs.ChangeTempRoot'' [path]))"

section \<open>The manifests\<close>

definition ReleaseSetAndInstallationManifest ::
  "externals \<Rightarrow> string \<Rightarrow> (world, ReleaseRef list \<times> InstallationManifest) prog" where
  "ReleaseSetAndInstallationManifest X deploymentManifestPath =
     bnd (wrapf ''Parsing release set manifest %s'' [AStr deploymentManifestPath]
            (ReleaseSet_Parse (x_release_set X) deploymentManifestPath)) (\<lambda>releaseSetManifest.
     bnd (wrapf ''Parsing installation manifest %s'' [AStr deploymentManifestPath]
            (InstallationManifest_Parse (x_installation X) deploymentManifestPath releaseSetManifest)) (\<lambda>installationManifest.
     ret (releaseSetManifest, installationManifest)))"

definition zero_manifest :: Manifest where
  "zero_manifest = \<lparr>mf_Name = '''', mf_Properties = None, mf_Jobs = [], mf_Networks = [], mf_DiskPools = [],
     mf_ResourcePools = [], mf_UpdateWatchTime = \<lparr>wt_Start = 0, wt_End = 0\<rparr>\<rparr>"

definition GetDeploymentManifest ::
  "externals \<Rightarrow> Release list \<Rightarrow> string \<Rightarrow> ReleaseRef list \<Rightarrow> nat \<Rightarrow> (world, Manifest) prog" where
  "GetDeploymentManifest X releases deploymentManifestPath releaseSetManifest stage =
     Perform_val stage ''Validating deployment manifest'' zero_manifest
      (bnd (wrapf ''Parsing deployment manifest %s'' [AStr deploymentManifestPath]
              (Manifest_Parse (x_deployment X) deploymentManifestPath)) (\<lambda>deploymentManifest.
       seq (wrap ''Validating deployment manifest'' (lift_sum (Manifest_Validate deploymentManifest releaseSetManifest)))
      (seq (wrap ''Validating deployment jobs refer to jobs in release'' (lift_sum (ValidateReleaseJobs deploymentManifest releases)))
           (ret deploymentManifest))))"

section \<open>Stages that keep what was done\<close>

text \<open>
  The release manager keeps its releases when a later step of the stage fails, and they are
  deleted at the end; a closure therefore returns the state \<open>s\<close> it has reached together with
  the outcome \<open>r\<close> of what it did, a panic included. \<open>keeping s m f\<close> runs a step that does not
  change \<open>s\<close>; \<open>complex_run\<close> is \<^verbatim>\<open>PerformComplex\<close> on such a closure.
\<close>

definition catch :: "(world, 'a) prog \<Rightarrow> (world, 'a outcome) prog" where
  "catch m w = (case m w of (Hang, w') \<Rightarrow> (Hang, w') | (r, w') \<Rightarrow> (Ok r, w'))"

definition keeping :: "'s \<Rightarrow> (world, 'a) prog \<Rightarrow> ('a \<Rightarrow> (world, 's \<times> 'b outcome) prog) \<Rightarrow> (world, 's \<times> 'b outcome) prog" where
  "keeping s m f = bnd (catch m) (\<lambda>r. case r of Ok x \<Rightarrow> f x | Err e \<Rightarrow> ret (s, Err e) | Panic msg \<Rightarrow> ret (s, Panic msg) | Hang \<Rightarrow> ret (s, Hang))"

definition complex_run :: "nat \<Rightarrow> string \<Rightarrow> (nat \<Rightarrow> (world, 's \<times> 'a outcome) prog) \<Rightarrow> (world, 's \<times> 'a outcome) prog" where
  "complex_run d name closure =
     seq (PrintLinef d '''') (seq (set_simple_mode d False)
    (seq (PrintLinef d (''Started '' @ name))
    (bnd Now (\<lambda>startTime.
     seq (set_simple_mode (Suc d) True)
    (bnd (closure (Suc d)) (\<lambda>(s, r). bnd (elapsedSince startTime) (\<lambda>t.
       seq (case r of
              Err e \<Rightarrow> PrintLinef d (''Failed '' @ name @ '' ('' @ t @ '')'')
            | Ok x \<Rightarrow> PrintLinef d (''Finished '' @ name @ '' ('' @ t @ '')'')
            | _ \<Rightarrow> ret ())
           (ret (s, r)))))))))"

primrec fetch_all ::
  "(ReleaseRef \<Rightarrow> 's \<Rightarrow> (world, 's) prog) \<Rightarrow> ReleaseRef list \<Rightarrow> 's \<Rightarrow> ('s \<Rightarrow> (world, 's \<times> 'b outcome) prog) \<Rightarrow> (world, 's \<times> 'b outcome) prog" where
  "fetch_all f [] s k = k s"
| "fetch_all f (r # rs) s k = keeping s (f r s) (\<lambda>s'. fetch_all f rs s' k)"

section \<open>cmd/deployment\_preparer.go\<close>

text \<open>
  The compiled releases among those the manager has: a release of the deployment's templates
  must have been compiled for the stemcell, every other one is taken for the CPI's and must not
  be compiled. The stemcell is nil when it could not be fetched.
\<close>

primrec check_compiled :: "heap \<Rightarrow> string list \<Rightarrow> ExtractedStemcell option \<Rightarrow> Release list \<Rightarrow> unit outcome" where
  "check_compiled h nonCpiReleases extractedStemcell [] = Ok ()"
| "check_compiled h nonCpiReleases extractedStemcell (release # rs) =
     (if rl_Name release \<in> set nonCpiReleases then
        if rl_isCompiled release then
          (case rl_Packages release of [] \<Rightarrow> Panic ''index out of range''
           | a # _ \<Rightarrow> (case extractedStemcell of None \<Rightarrow> Panic ''nil pointer dereference''
              | Some stemcell \<Rightarrow>
                  if ToLower (pk_Stemcell (h ! a)) \<noteq> ToLower (OsAndVersion stemcell)
                  then Err (Errorf ''OS/Version mismatch between deployment stemcell and compiled package stemcell for release %s''
                         [AStr (rl_Name release)])
                  else check_compiled h nonCpiReleases extractedStemcell rs))
        else check_compiled h nonCpiReleases extractedStemcell rs
      else if rl_isCompiled release
           then Err (Errorf ''CPI is not allowed to be a compiled release. The provided CPI release %s is compiled'' [AStr (rl_Name release)])
           else check_compiled h nonCpiReleases extractedStemcell rs)"

definition nonCpiReleases :: "Manifest \<Rightarrow> InstallationManifest \<Rightarrow> string list" where
  "nonCpiReleases d im = removeAll (tr_Release (im_Template im))
     (case GetListOfTemplateReleases d of None \<Rightarrow> [] | Some names \<Rightarrow> names)"

definition validate_step ::
  "externals \<Rightarrow> string \<Rightarrow> string \<Rightarrow> nat
    \<Rightarrow> (world, (heap \<times> Release list) \<times> (InstallationManifest \<times> Manifest \<times> ExtractedStemcell option) outcome) prog" where
  "validate_step X ws deploymentManifestPath stage =
     keeping ([], []) (ReleaseSetAndInstallationManifest X deploymentManifestPath) (\<lambda>(releaseSetManifest, installationManifest).
     fetch_all (\<lambda>releaseRef. loadReleaseFetcher X ws releaseRef stage) releaseSetManifest ([], []) (\<lambda>s.
     keeping s (ValidateCpiRelease (snd s) installationManifest stage) (\<lambda>_.
     keeping s (GetDeploymentManifest X (snd s) deploymentManifestPath releaseSetManifest stage) (\<lambda>deploymentManifest.
     keeping s (attempt (loadStemcellFetcher X ws deploymentManifest stage)) (\<lambda>fetched.
     keeping s (lift_outcome (check_compiled (fst s) (nonCpiReleases deploymentManifest installationManifest)
                  (case fetched of Inl e \<Rightarrow> None | Inr extractedStemcell \<Rightarrow> extractedStemcell) (snd s))) (\<lambda>_.
     ret (s, case fetched of Inl e \<Rightarrow> Err e | Inr extractedStemcell \<Rightarrow> Ok (installationManifest, deploymentManifest, extractedStemcell))))))))"

definition deploy ::
  "externals \<Rightarrow> string \<Rightarrow> string \<Rightarrow> heap \<times> Release list \<Rightarrow> Installation \<Rightarrow> DeploymentState \<Rightarrow> ExtractedStemcell
    \<Rightarrow> InstallationManifest \<Rightarrow> Manifest \<Rightarrow> nat \<Rightarrow> (world, unit) prog" where
  "deploy X p deploymentManifestPath s installation deploymentState extractedStemcell installationManifest deploymentManifest stage =
     bnd (wrap ''Creating CPI client from CPI installation'' (CloudFactory_NewCloud installation (DirectorID deploymentState))) (\<lambda>cloud.
     bnd (Upload p cloud extractedStemcell stage) (\<lambda>uploaded. case uploaded of None \<Rightarrow> panic ''nil pointer dereference''
     | Some cloudStemcell \<Rightarrow>
     bnd (wrap ''Creating blobstore client'' (lift_sum (BlobstoreFactory_Create (x_url X) (im_Mbus installationManifest)))) (\<lambda>blobstore.
     seq (PerformComplex stage ''deploying'' (\<lambda>deployStage.
            seq (wrap ''Clearing deployment record'' (Record_Clear p))
           (seq (wrap ''Deploying'' (Deploy p cloud (loadBuilder X (fst s) (snd s)) deploymentManifest cloudStemcell
                   (im_Registry installationManifest) deployStage))
                (wrap ''Updating deployment record'' (Record_Update (x_sha1_files X) p deploymentManifestPath (snd s))))))
         (StemcellManager_DeleteUnused p cloud stage))))"

text \<open>A stemcell that was fetched without an error is not nil, and neither is an uploaded one.\<close>

definition PrepareDeployment :: "externals \<Rightarrow> string \<Rightarrow> string \<Rightarrow> string \<Rightarrow> nat \<Rightarrow> (world, unit) prog" where
  "PrepareDeployment X ws p deploymentManifestPath stage =
     seq (PrintLinef 0 (''Deployment state: '' @ p))
    (bnd (StateService_Exists p) (\<lambda>exists.
     seq (if exists then ret () else
            bnd (wrap ''Migrating legacy deployment state file''
                   (MigrateIfExists (x_legacy X) p (LegacyDeploymentStatePath deploymentManifestPath))) (\<lambda>migrated.
            if migrated then PrintLinef 0 (''Migrated legacy deployments file: '' @ LegacyDeploymentStatePath deploymentManifestPath)
            else ret ()))
    (bnd (wrap ''Loading deployment state'' (Load p)) (\<lambda>deploymentState.
     bnd (wrap ''Determining installation target'' (loadTargetProvider ws p)) (\<lambda>target.
     seq (wrap ''Setting temp root'' (PrepareAndSetTempRoot (TmpPath target)))
    (bnd (complex_run stage ''validating'' (validate_step X ws deploymentManifestPath)) (\<lambda>(s, validated).
     deferred
       (bnd (lift_outcome validated) (\<lambda>(installationManifest, deploymentManifest, fetched).
        case fetched of None \<Rightarrow> panic ''nil pointer dereference''
        | Some extractedStemcell \<Rightarrow>
        deferred
          (bnd (wrap ''Checking if deployment has changed'' (IsDeployed (x_sha1_files X) p deploymentManifestPath (snd s) extractedStemcell)) (\<lambda>isDeployed.
           if isDeployed then PrintLinef 0 ''No deployment, stemcell or release changes. Skipping deploy.''
           else WithInstalledCpiRelease (loadCpiInstaller X (fst s) (snd s) target) installationManifest stage (\<lambda>installation.
                WithRunningRegistry installation stage
                  (deploy X p deploymentManifestPath s installation deploymentState extractedStemcell installationManifest deploymentManifest stage))))
          (silently (ExtractedStemcell_Delete extractedStemcell))))
       (silently (ReleaseManager_DeleteAll (snd s))))))))))"

section \<open>cmd/deployment\_deleter.go\<close>

definition findCurrentDeploymentAndDelete :: "string \<Rightarrow> cloud \<Rightarrow> nat \<Rightarrow> (world, unit) prog" where
  "findCurrentDeploymentAndDelete p cloud stage =
     bnd (wrap ''Finding current deployment'' (DeploymentManager_FindCurrent p)) (\<lambda>deployment.
     PerformComplex stage ''deleting deployment'' (\<lambda>deleteStage. case deployment of
         None \<Rightarrow> ret ()
       | Some d \<Rightarrow> Deployment_Delete p cloud d deleteStage))"

definition deploymentManager :: "externals \<Rightarrow> Installation \<Rightarrow> string \<Rightarrow> string \<Rightarrow> (world, cloud) prog" where
  "deploymentManager X installation directorID installationMbus =
     bnd (wrap ''Creating CPI client from CPI installation'' (CloudFactory_NewCloud installation directorID)) (\<lambda>cloud.
     seq (wrap ''Creating blobstore client'' (lift_sum (BlobstoreFactory_Create (x_url X) installationMbus)))
         (ret cloud))"

definition findAndDeleteDeployment :: "externals \<Rightarrow> string \<Rightarrow> nat \<Rightarrow> Installation \<Rightarrow> string \<Rightarrow> string \<Rightarrow> (world, unit) prog" where
  "findAndDeleteDeployment X p stage installation directorID installationMbus =
     bnd (deploymentManager X installation directorID installationMbus) (\<lambda>cloud.
     seq (wrap ''Deleting deployment'' (findCurrentDeploymentAndDelete p cloud stage))
         (DeploymentManager_Cleanup p cloud stage))"

definition validate_deletion ::
  "externals \<Rightarrow> string \<Rightarrow> string \<Rightarrow> nat \<Rightarrow> (world, (heap \<times> Release list) \<times> InstallationManifest outcome) prog" where
  "validate_deletion X ws deploymentManifestPath stage =
     keeping ([], []) (ReleaseSetAndInstallationManifest X deploymentManifestPath) (\<lambda>(releaseSetManifest, installationManifest).
     keeping ([], []) (lift_sum (case ReleaseSet_FindByName releaseSetManifest (tr_Release (im_Template installationManifest)) of
         None \<Rightarrow> Inl (Errorf ''installation release %s must refer to a release in releases'' [AStr (tr_Release (im_Template installationManifest))])
       | Some cpiReleaseRef \<Rightarrow> Inr cpiReleaseRef)) (\<lambda>cpiReleaseRef.
     keeping ([], []) (loadReleaseFetcher X ws cpiReleaseRef stage ([], [])) (\<lambda>s.
     keeping s (ValidateCpiRelease (snd s) installationManifest stage) (\<lambda>_.
     ret (s, Ok installationManifest)))))"

definition DeleteDeployment :: "externals \<Rightarrow> string \<Rightarrow> string \<Rightarrow> string \<Rightarrow> nat \<Rightarrow> (world, unit) prog" where
  "DeleteDeployment X ws p deploymentManifestPath stage =
     seq (PrintLinef 0 (''Deployment state: '' @ p))
    (bnd (StateService_Exists p) (\<lambda>exists.
     if \<not> exists then PrintLinef 0 ''No deployment state file found.''
     else
     bnd (wrap ''Loading deployment state'' (Load p)) (\<lambda>deploymentState.
     bnd (wrap ''Determining installation target'' (loadTargetProvider ws p)) (\<lambda>target.
     seq (wrap ''Setting temp root'' (PrepareAndSetTempRoot (TmpPath target)))
    (bnd (complex_run stage ''validating'' (validate_deletion X ws deploymentManifestPath)) (\<lambda>(s, validated).
     deferred
       (bnd (lift_outcome validated) (\<lambda>installationManifest.
        WithInstalledCpiRelease (loadCpiInstaller X (fst s) (snd s) target) installationManifest stage (\<lambda>installation.
          WithRunningRegistry installation stage
           (seq (findAndDeleteDeployment X p stage installation (DirectorID deploymentState) (im_Mbus installationManifest))
                (Perform stage ''Uninstalling local artifacts for CPI and deployment''
                  (seq (Uninstall (in_target installation))
                       (Cleanup p)))))))
       (silently (ReleaseManager_DeleteAll (snd s)))))))))"

section \<open>cmd/deploy\_cmd.go, delete\_cmd.go, version.go\<close>

definition parseCmdInputs :: "string \<Rightarrow> string list \<Rightarrow> goerr + string" where
  "parseCmdInputs name args = (case args of
      [path] \<Rightarrow> Inr path
    | _ \<Rightarrow> Inl (GoError (''Invalid usage - '' @ name @ '' command requires exactly 1 argument'')))"

text \<open>\<^verbatim>\<open>filepath.Abs\<close>, for which the working directory is read only when it is needed.\<close>

definition Abs :: "string \<Rightarrow> (world, string) prog" where
  "Abs path = (if HasPrefix path ''/'' then ret (Clean path)
     else bnd (bnd (ask a_str) lift_sum) (\<lambda>wd. ret (JoinPath [wd, path])))"

text \<open>What both commands do with their argument, before the deployment itself.\<close>

definition with_manifest :: "string \<Rightarrow> (string \<Rightarrow> (world, unit) prog) \<Rightarrow> string list \<Rightarrow> (world, unit) prog" where
  "with_manifest name run args =
     bnd (lift_sum (parseCmdInputs name args)) (\<lambda>deploymentManifestPath.
     bnd (attempt (Abs deploymentManifestPath)) (\<lambda>abs. case abs of
       Inl err \<Rightarrow> seq (ErrorLinef 0 (''Failed getting absolute path to deployment file '' @ deploymentManifestPath))
         (fail (WrapErrorf err ''Getting absolute path to deployment file %s'' [AStr deploymentManifestPath]))
     | Inr manifestAbsFilePath \<Rightarrow>
       bnd (FileExists manifestAbsFilePath) (\<lambda>exists.
       if \<not> exists then seq (ErrorLinef 0 (''Deployment '' @ manifestAbsFilePath @ '' does not exist''))
         (fail (Errorf ''Deployment manifest does not exist at %s'' [AStr manifestAbsFilePath]))
       else seq (PrintLinef 0 (''Deployment manifest: '' @ manifestAbsFilePath))
            (run manifestAbsFilePath))))"

definition deployCmd_Run :: "externals \<Rightarrow> string \<Rightarrow> nat \<Rightarrow> string list \<Rightarrow> (world, unit) prog" where
  "deployCmd_Run X ws stage = with_manifest ''deploy'' (\<lambda>m. PrepareDeployment X ws (DeploymentStatePath m) m stage)"

definition deleteCmd_Run :: "externals \<Rightarrow> string \<Rightarrow> nat \<Rightarrow> string list \<Rightarrow> (world, unit) prog" where
  "deleteCmd_Run X ws stage = with_manifest ''delete'' (\<lambda>m. DeleteDeployment X ws (DeploymentStatePath m) m stage)"

definition versionCmd_Run :: "string list \<Rightarrow> (world, unit) prog" where
  "versionCmd_Run args = PrintLinef 0 ''version [DEV BUILD]''"

end
