(* ===== verification/CommandLine.thy ===== *)
theory CommandLine
  imports Commands
begin

text \<open>
  The command line: cmd/cmd.go, help\_cmd.go, runner.go, and the list of commands of factory.go.
  Shown: how the arguments are read, and the table the help prints.
\<close>

section \<open>cmd/cmd.go, factory.go\<close>

record MetaEnv =
  me_Example :: string
  me_Default :: string
  me_Description :: string

record Meta =
  mt_Synopsis :: string
  mt_Usage :: string
  mt_Env :: "(string \<times> MetaEnv) list"

definition genericEnv :: "(string \<times> MetaEnv) list" where
  "genericEnv =
     [(''BOSH_INIT_LOG_LEVEL'', \<lparr>me_Example = ''debug'', me_Default = ''none'',
         me_Description = ''none, info, debug, warn, or error''\<rparr>),
      (''BOSH_INIT_LOG_PATH'', \<lparr>me_Example = ''/path/to/file.log'', me_Default = ''standard out/err'',
         me_Description = ''The path where logs will be written''\<rparr>)]"

datatype Cmd = deployCmd | deleteCmd | helpCmd | versionCmd

definition CommandList_Create :: "string \<Rightarrow> goerr + Cmd" where
  "CommandList_Create name =
     (if name = ''deploy'' then Inr deployCmd
      else if name = ''delete'' then Inr deleteCmd
      else if name = ''help'' then Inr helpCmd
      else if name = ''version'' then Inr versionCmd
      else Inl (Errorf ''Command %s unknown. See bosh-init help'' [AStr name]))"

definition commands :: "string list" where
  "commands = [''deploy'', ''delete'', ''help'', ''version'']"

definition Cmd_Name :: "Cmd \<Rightarrow> string" where
  "Cmd_Name c = (case c of deployCmd \<Rightarrow> ''deploy'' | deleteCmd \<Rightarrow> ''delete'' | helpCmd \<Rightarrow> ''help'' | versionCmd \<Rightarrow> ''version'')"

definition Cmd_Meta :: "Cmd \<Rightarrow> Meta" where
  "Cmd_Meta c = (case c of
      deployCmd \<Rightarrow> \<lparr>mt_Synopsis = ''Create or update a deployment'', mt_Usage = ''<deployment_manifest_path>'', mt_Env = genericEnv\<rparr>
    | deleteCmd \<Rightarrow> \<lparr>mt_Synopsis = ''Delete existing deployment'', mt_Usage = ''<deployment_manifest_path>'', mt_Env = genericEnv\<rparr>
    | helpCmd \<Rightarrow> \<lparr>mt_Synopsis = ''Show help message'', mt_Usage = ''[command]'', mt_Env = []\<rparr>
    | versionCmd \<Rightarrow> \<lparr>mt_Synopsis = ''Show version'', mt_Usage = ''version'', mt_Env = []\<rparr>)"

section \<open>cmd/help\_cmd.go\<close>

text \<open>Go maps are lists of pairs with different keys; their order is lost by the sorting.\<close>

definition pad_key :: "nat \<Rightarrow> string \<Rightarrow> string" where
  "pad_key maxLen key = ''    '' @ key @ ''    '' @ replicate (maxLen - length key) CHR '' ''"

definition sortedPairs :: "(string \<times> string) list \<Rightarrow> (string \<times> string) list" where
  "sortedPairs pairs =
     (let maxLen = foldl (\<lambda>m key. max m (length key)) 0 (map fst pairs) in
      map (\<lambda>key. (pad_key maxLen key, case map_of pairs key of None \<Rightarrow> '''' | Some v \<Rightarrow> v)) (sort_strings (map fst pairs)))"

definition sortedEnvs :: "(string \<times> MetaEnv) list \<Rightarrow> (string \<times> string) list" where
  "sortedEnvs metaEnvs = sortedPairs (map (\<lambda>(name, env).
     (if me_Example env \<noteq> '''' then name @ ''='' @ me_Example env else name,
      if me_Default env \<noteq> '''' then me_Description env @ ''. Default: '' @ me_Default env else me_Description env)) metaEnvs)"

definition sortedCommands :: "(string \<times> string) list" where
  "sortedCommands = sortedPairs (map (\<lambda>key. (key, case CommandList_Create key of Inl e \<Rightarrow> '''' | Inr cmd \<Rightarrow> mt_Synopsis (Cmd_Meta cmd))) commands)"

record helpContext =
  hc_Name :: string
  hc_IsSubcommand :: bool
  hc_Synopsis :: string
  hc_Usage :: string
  hc_Commands :: "(string \<times> string) list"
  hc_Envs :: "(string \<times> string) list"

abbreviation NL :: string where
  "NL \<equiv> [CHR 0x0A]"

definition rows :: "(string \<times> string) list \<Rightarrow> string" where
  "rows ps = concat (map (\<lambda>(key, value). NL @ key @ value) ps)"

definition TrimRightNL :: "string \<Rightarrow> string" where
  "TrimRightNL s = rev (dropWhile (\<lambda>c. c = CHR 0x0A \<or> c = CHR 0x0D) (rev s))"

definition helpContext_Render :: "helpContext \<Rightarrow> string" where
  "helpContext_Render c = TrimRightNL
     (''NAME:'' @ NL @ ''    '' @ hc_Name c @ '' - '' @ hc_Synopsis c @ NL @ NL @
      ''USAGE:'' @ NL @ ''    bosh-init [global options]'' @
        (if hc_IsSubcommand c then '' '' @ hc_Name c else '''') @
        (if hc_Usage c \<noteq> '''' then '' '' @ hc_Usage c else '''') @
      (if hc_Commands c \<noteq> [] then NL @ NL @ ''COMMANDS:'' @ rows (hc_Commands c) else '''') @
      (if hc_Envs c \<noteq> [] then NL @ NL @ ''ENVIRONMENT VARIABLES:'' @ rows (hc_Envs c) else '''') @ NL @ NL @
      ''GLOBAL OPTIONS:'' @ NL @
      ''    --help, -h       Show help message'' @ NL @
      ''    --version, -v    Show version'')"

definition printGeneral :: "(world, unit) prog" where
  "printGeneral = PrintLinef 0 (Sprintf0 (helpContext_Render
     \<lparr>hc_Name = ''bosh-init'', hc_IsSubcommand = False, hc_Synopsis = ''A command line tool to initialize BOSH deployments'',
      hc_Usage = ''<command> [arguments...]'', hc_Commands = sortedCommands, hc_Envs = []\<rparr>))"

definition printCommand :: "string \<Rightarrow> Meta \<Rightarrow> (world, unit) prog" where
  "printCommand name meta = PrintLinef 0 (Sprintf0 (helpContext_Render
     \<lparr>hc_Name = name, hc_IsSubcommand = True, hc_Synopsis = mt_Synopsis meta, hc_Usage = mt_Usage meta,
      hc_Commands = [], hc_Envs = sortedEnvs (mt_Env meta)\<rparr>))"

definition printMissing :: "string \<Rightarrow> (world, unit) prog" where
  "printMissing cmdName = PrintLinef 0 (Sprintf0
     (''No help found for command '' @ cmdName @ ''. Run bosh-init help to see all available commands.''))"

definition helpCmd_Run :: "string list \<Rightarrow> (world, unit) prog" where
  "helpCmd_Run args = (case args of [] \<Rightarrow> printGeneral
     | name # _ \<Rightarrow> (case CommandList_Create name of
           Inl e \<Rightarrow> printMissing name
         | Inr cmd \<Rightarrow> printCommand (Cmd_Name cmd) (Cmd_Meta cmd)))"

section \<open>cmd/runner.go\<close>

definition Cmd_Run :: "externals \<Rightarrow> string \<Rightarrow> Cmd \<Rightarrow> nat \<Rightarrow> string list \<Rightarrow> (world, unit) prog" where
  "Cmd_Run X ws cmd stage args = (case cmd of
      deployCmd \<Rightarrow> deployCmd_Run X ws stage args
    | deleteCmd \<Rightarrow> deleteCmd_Run X ws stage args
    | helpCmd \<Rightarrow> helpCmd_Run args
    | versionCmd \<Rightarrow> versionCmd_Run args)"

definition help_flags :: "string list" where
  "help_flags = [''help'', ''-h'', ''--help'']"

definition version_flags :: "string list" where
  "version_flags = [''version'', ''-v'', ''--version'']"

primrec scan_args :: "string list \<Rightarrow> string list \<Rightarrow> string list" where
  "scan_args before [] = before"
| "scan_args before (arg # rest) =
     (if arg \<in> set help_flags then ''help'' # before @ rest
      else if arg \<in> set version_flags then [''version'']
      else scan_args (before @ [arg]) rest)"

definition processArgs :: "string list \<Rightarrow> string list" where
  "processArgs args = (if args = [] then [''help''] else scan_args [] args)"

definition Runner_Run :: "externals \<Rightarrow> string \<Rightarrow> nat \<Rightarrow> string list \<Rightarrow> (world, unit) prog" where
  "Runner_Run X ws stage args = (case processArgs args of
      [] \<Rightarrow> panic ''index out of range''
    | commandName # rest \<Rightarrow>
        bnd (lift_sum (CommandList_Create commandName)) (\<lambda>cmd.
        wrapf ''Command %s failed'' [AStr commandName] (Cmd_Run X ws cmd stage rest)))"

section \<open>ui/fmt/error.go, main.go\<close>

text \<open>
  \<open>text msg args\<close> is the formatted message of an error and \<open>show e\<close> is \<^verbatim>\<open>e.Error()\<close>. The
  errors of commands, which \<^verbatim>\<open>MultilineError\<close> lays out with their output, come from outside
  and are shown like the others.
\<close>

fun prefixingMultilineError :: "(goerr \<Rightarrow> string) \<Rightarrow> (string \<Rightarrow> fmt_arg list \<Rightarrow> string) \<Rightarrow> goerr \<Rightarrow> string \<Rightarrow> string" where
  "prefixingMultilineError show text (ComplexError msg args cause) prefix =
     prefix @ text msg args @ '':'' @ NL @ prefixingMultilineError show text cause (prefix @ ''  '')"
| "prefixingMultilineError show text (MultiError errors) prefix =
     Join (map (\<lambda>sibling. prefixingMultilineError show text sibling prefix) errors) NL"
| "prefixingMultilineError show text e prefix = prefix @ show e"

definition MultilineError :: "(goerr \<Rightarrow> string) \<Rightarrow> (string \<Rightarrow> fmt_arg list \<Rightarrow> string) \<Rightarrow> goerr \<Rightarrow> string" where
  "MultilineError show text err = prefixingMultilineError show text err ''''"

text \<open>The result is the exit code.\<close>

definition main_run :: "externals \<Rightarrow> (goerr \<Rightarrow> string) \<Rightarrow> (string \<Rightarrow> fmt_arg list \<Rightarrow> string) \<Rightarrow> string \<Rightarrow> string list \<Rightarrow> (world, nat) prog" where
  "main_run X show text home args =
     (let workspaceRootPath = JoinPath [home, ''.bosh_init''] in
      bnd (attempt (Runner_Run X workspaceRootPath 0 args)) (\<lambda>r. case r of
        Inr _ \<Rightarrow> ret 0
      | Inl err \<Rightarrow>
          seq (ErrorLinef 0 '''')
         (seq (ErrorLinef 0 (Sprintf0 (MultilineError show text err)))
         (seq (if Contains (show err) ''Invalid usage''
               then seq (ErrorLinef 0 '''') (silently (Runner_Run X workspaceRootPath 0 (''help'' # args)))
               else ret ())
              (ret 1)))))"

section \<open>The arguments\<close>

text \<open>
  The first of the words that ask for the help or the version decides, wherever it stands;
  without one the arguments are left as they are.
\<close>

definition flag :: "string \<Rightarrow> bool" where
  "flag a \<longleftrightarrow> a \<in> set help_flags \<or> a \<in> set version_flags"

lemma scan_args_find:
  "scan_args before args = (case find flag args of
      None \<Rightarrow> before @ args
    | Some a \<Rightarrow> if a \<in> set help_flags then ''help'' # before @ remove1 a args else [''version''])"
proof (induction args arbitrary: before)
  case (Cons b bs)
  show ?case
  proof (cases "flag b")
    case False
    then have "find flag bs = Some a \<Longrightarrow> a \<noteq> b" for a by (auto simp: find_Some_iff)
    then show ?thesis using False Cons by (auto simp: flag_def split: option.splits)
  qed (auto simp: flag_def)
qed simp

lemma processArgs_find:
  "processArgs args = (case find flag args of
      None \<Rightarrow> if args = [] then [''help''] else args
    | Some a \<Rightarrow> if a \<in> set help_flags then ''help'' # remove1 a args else [''version''])"
  by (auto simp: processArgs_def scan_args_find split: option.splits)

lemma processArgs_not_empty: "processArgs args \<noteq> []"
  by (auto simp: processArgs_find split: option.splits)

section \<open>The help's tables\<close>

lemma string_less_irrefl: "\<not> string_less s s"
  by (induction s) simp_all

lemma string_less_trans: "string_less s t \<Longrightarrow> string_less t u \<Longrightarrow> string_less s u"
proof (induction s t arbitrary: u rule: string_less.induct)
  case (2 b t)
  then show ?case by (cases u) auto
next
  case (3 a s b t)
  then show ?case by (cases u) auto
qed simp

lemma string_less_total: "s \<noteq> t \<Longrightarrow> string_less s t \<or> string_less t s"
proof (induction s arbitrary: t)
  case Nil
  then show ?case by (cases t) auto
next
  case step: (Cons a s)
  show ?case
  proof (cases t)
    case (Cons b t')
    have "a = b \<or> (of_char a :: nat) < of_char b \<or> (of_char b :: nat) < of_char a"
      using linorder_neqE_nat[of "of_char a" "of_char b"] by auto
    moreover have "string_less s t' \<or> string_less t' s" if "a = b" by (rule step.IH) (use step.prems Cons that in simp)
    ultimately show ?thesis unfolding Cons by auto
  qed simp
qed

lemma insert_string_sorted:
  "sorted_wrt (\<lambda>a b. \<not> string_less b a) l \<Longrightarrow> sorted_wrt (\<lambda>a b. \<not> string_less b a) (insert_string s l)"
proof (induction l)
  case (Cons t ts)
  have S: "set (insert_string s ts) = insert s (set ts)" using arg_cong[OF mset_insert_string[of s ts], of set_mset] by simp
  show ?case
  proof (cases "string_less t s")
    case True
    then have "\<not> string_less s t" using string_less_trans string_less_irrefl by blast
    then show ?thesis using True Cons by (simp add: S)
  next
    case False
    have "\<not> string_less x s" if "x \<in> set ts" for x
      using Cons.prems that False string_less_total[of s t] string_less_trans[of x s t] by auto
    then show ?thesis using False Cons.prems by simp
  qed
qed simp

lemma sort_strings_sorted: "sorted_wrt (\<lambda>a b. \<not> string_less b a) (sort_strings l)"
  unfolding sort_strings_def by (induction l) (simp_all add: insert_string_sorted)

lemma foldl_max_length: "x \<in> set xs \<Longrightarrow> length x \<le> foldl (\<lambda>m key. max m (length key)) n xs"
proof -
  have g: "n \<le> foldl (\<lambda>m key. max m (length key)) n xs" for n and xs :: "'a list list"
    by (induction xs arbitrary: n) (auto intro: order_trans[OF max.cobounded1])
  show "x \<in> set xs \<Longrightarrow> length x \<le> foldl (\<lambda>m key. max m (length key)) n xs"
    by (induction xs arbitrary: n) (auto intro: order_trans[OF max.cobounded2 g])
qed

text \<open>The table has a row for every entry, in the order of the keys, with one column for the values.\<close>

lemma sortedPairs_table:
  assumes "distinct (map fst pairs)"
  shows "\<exists>ps n. mset ps = mset pairs \<and> sorted_wrt (\<lambda>x y. string_less (fst x) (fst y)) ps
    \<and> sortedPairs pairs = map (\<lambda>(k, v). (pad_key n k, v)) ps \<and> (\<forall>(k, v) \<in> set (sortedPairs pairs). length k = n + 8)"
proof -
  define ks where "ks = sort_strings (map fst pairs)"
  define n where "n = foldl (\<lambda>m key. max m (length key)) 0 (map fst pairs)"
  define look where "look = (\<lambda>k. case map_of pairs k of None \<Rightarrow> '''' | Some v \<Rightarrow> v)"
  define ps where "ps = map (\<lambda>k. (k, look k)) ks"
  have out: "sortedPairs pairs = map (\<lambda>(k, v). (pad_key n k, v)) ps"
    by (simp add: sortedPairs_def Let_def ps_def ks_def n_def look_def)
  have m: "mset ks = mset (map fst pairs)" by (simp add: ks_def mset_sort_strings)
  have "mset ps = image_mset (\<lambda>k. (k, look k)) (mset (map fst pairs))" using m by (simp add: ps_def)
  also have "\<dots> = mset (map (\<lambda>p. (fst p, look (fst p))) pairs)" by (simp add: multiset.map_comp comp_def)
  also have "map (\<lambda>p. (fst p, look (fst p))) pairs = pairs"
    by (rule map_idI) (use assms in \<open>auto simp: look_def split: option.splits dest: eq_key_imp_eq_value map_of_SomeD\<close>)
  finally have mp: "mset ps = mset pairs" .
  have d: "distinct ks" using m assms by (metis mset_eq_imp_distinct_iff)
  have so: "sorted_wrt (\<lambda>a b. string_less a b) ks"
    using sort_strings_sorted[of "map fst pairs", folded ks_def] d
  proof (induction ks)
    case (Cons k ks)
    then show ?case using string_less_total[of k] by fastforce
  qed simp
  then have so: "sorted_wrt (\<lambda>x y. string_less (fst x) (fst y)) ps" by (simp add: ps_def sorted_wrt_map)
  have "\<forall>(k, v) \<in> set (sortedPairs pairs). length k = n + 8"
  proof -
    have "length k \<le> n" if "k \<in> set ks" for k
      unfolding n_def by (rule foldl_max_length) (use that m in \<open>metis set_mset_mset\<close>)
    then show ?thesis by (auto simp: out ps_def pad_key_def)
  qed
  with mp so out show ?thesis by blast
qed

section \<open>Mistakes in the arguments\<close>

text \<open>A command that only prints.\<close>

definition prints :: "(world, 'a) prog \<Rightarrow> bool" where
  "prints m \<longleftrightarrow> (\<forall>w. wp m (\<lambda>r w'. returns r \<and> files w' = files w \<and> calls w' = calls w) w)"

lemma prints_lines: "prints (PrintLinef d s)" "prints (ErrorLinef d s)" "prints (ret x)" "prints (fail e)" "prints (lift_sum z)"
  by (auto simp: prints_def PrintLinef_def ErrorLinef_def put_ui_def wp_simps split: sum.splits)

lemma prints_bnd: "prints m \<Longrightarrow> (\<And>x. prints (f x)) \<Longrightarrow> prints (bnd m f)"
  unfolding prints_def
proof (intro allI)
  fix w :: world
  assume m: "\<forall>w. wp m (\<lambda>r w'. returns r \<and> files w' = files w \<and> calls w' = calls w) w"
    and f: "\<And>x. \<forall>w. wp (f x) (\<lambda>r w'. returns r \<and> files w' = files w \<and> calls w' = calls w) w"
  show "wp (bnd m f) (\<lambda>r w'. returns r \<and> files w' = files w \<and> calls w' = calls w) w"
    by (rule wp_bnd_rule[OF m[THEN spec]]) (auto intro!: wp_mono[OF f[THEN spec]])
qed

lemma prints_seq: "prints m \<Longrightarrow> prints n \<Longrightarrow> prints (seq m n)"
  unfolding seq_def by (rule prints_bnd)

lemma prints_wrapf: "prints m \<Longrightarrow> prints (wrapf msg a m)"
  unfolding prints_def wp_wrapf by (intro allI, rule wp_mono, blast) (auto elim!: returnsE)

lemma prints_helpCmd: "prints (helpCmd_Run args)"
  unfolding helpCmd_Run_def printGeneral_def printCommand_def printMissing_def
  by (auto simp: prints_lines split: list.splits sum.splits)

lemma help_prints: "prints (Runner_Run X ws 0 (''help'' # args))"
proof -
  have "processArgs (''help'' # args) = ''help'' # args" by (simp add: processArgs_def help_flags_def)
  then have r: "Runner_Run X ws 0 (''help'' # args) = bnd (lift_sum (Inr helpCmd)) (\<lambda>cmd. wrapf ''Command %s failed'' [AStr ''help''] (Cmd_Run X ws cmd 0 args))"
    by (simp add: Runner_Run_def CommandList_Create_def)
  have "prints (wrapf ''Command %s failed'' [AStr ''help''] (Cmd_Run X ws helpCmd 0 args))"
    unfolding Cmd_Run_def Cmd.case by (intro prints_wrapf prints_helpCmd)
  then show ?thesis unfolding r by (simp add: prints_def wp_simps)
qed

lemma main_run_failing:
  assumes "\<And>w. wp (Runner_Run X (JoinPath [home, ''.bosh_init'']) 0 args) (\<lambda>r w'. (\<exists>e. r = Err e) \<and> files w' = files w \<and> calls w' = calls w) w"
  shows "wp (main_run X show text home args) (\<lambda>r w'. r = Ok 1 \<and> files w' = files w \<and> calls w' = calls w) w"
proof -
  have e: "wp (ErrorLinef 0 s) (\<lambda>r w'. r = Ok () \<and> files w' = files w \<and> calls w' = calls w) w" for s and w :: world
    by (simp add: ErrorLinef_def put_ui_def wp_simps)
  have h: "wp (silently (Runner_Run X ws 0 (''help'' # args))) (\<lambda>r w'. r = Ok () \<and> files w' = files w \<and> calls w' = calls w) w" for ws w
    using help_prints[of X ws args] unfolding prints_def silently_def
    by (simp add: wp_simps) (rule wp_mono, blast, auto elim!: returnsE simp: wp_simps)
  have tail: "wp (seq (ErrorLinef 0 '''') (seq (ErrorLinef 0 s) (seq (if b then seq (ErrorLinef 0 '''')
      (silently (Runner_Run X ws 0 (''help'' # args))) else ret ()) (ret 1))))
      (\<lambda>r w'. r = Ok (1 :: nat) \<and> files w' = files w \<and> calls w' = calls w) w" for s b ws and w :: world
    by (cases b) (auto simp: ErrorLinef_def put_ui_def wp_simps intro!: wp_mono[OF h])
  have A: "wp (attempt (Runner_Run X (JoinPath [home, ''.bosh_init'']) 0 args))
      (\<lambda>r w'. (\<exists>e. r = Ok (Inl e)) \<and> files w' = files w \<and> calls w' = calls w) w"
    by (simp add: wp_attempt, rule wp_mono[OF assms]) auto
  show ?thesis unfolding main_run_def Let_def
  proof (rule wp_bnd_rule[OF A], goal_cases)
    case (1 x w')
    then obtain e where "x = Inl e" by auto
    then show ?case using 1 by (simp only: sum.case) (rule wp_mono[OF tail], auto)
  qed auto
qed

text \<open>
  An unknown command, or a deployment command without exactly one argument, ends with code 1
  having printed only.
\<close>

lemma wrong_arguments:
  assumes "\<forall>a \<in> set (c # args). \<not> flag a" "CommandList_Create c = Inl e \<or> (c \<in> {''deploy'', ''delete''} \<and> length args \<noteq> 1)"
  shows "wp (main_run X show text home (c # args)) (\<lambda>r w'. r = Ok 1 \<and> files w' = files w \<and> calls w' = calls w) w"
proof (rule main_run_failing)
  fix w
  have "find flag (c # args) = None" using assms(1) by (auto simp: find_None_iff)
  then have p: "processArgs (c # args) = c # args" by (simp add: processArgs_find del: find.simps)
  have args: "\<exists>e. parseCmdInputs n args = Inl e" if "length args \<noteq> 1" for n
    using that by (auto simp: parseCmdInputs_def split: list.splits)
  show "wp (Runner_Run X (JoinPath [home, ''.bosh_init'']) 0 (c # args)) (\<lambda>r w'. (\<exists>e. r = Err e) \<and> files w' = files w \<and> calls w' = calls w) w"
    using assms(2)
  proof (elim disjE conjE)
    assume "CommandList_Create c = Inl e"
    then show ?thesis by (simp add: Runner_Run_def p wp_simps)
  next
    assume c: "c \<in> {''deploy'', ''delete''}" and n: "length args \<noteq> 1"
    obtain e1 e2 where "parseCmdInputs ''deploy'' args = Inl e1" "parseCmdInputs ''delete'' args = Inl e2" using args[OF n] by blast
    then show ?thesis using c
      by (auto simp: Runner_Run_def p CommandList_Create_def Cmd_Run_def deployCmd_Run_def deleteCmd_Run_def with_manifest_def wp_simps)
  qed
qed

end
