(* ===== verification/Wiring.thy ===== *)
theory Wiring
  imports CommandLine
begin

text \<open>
  How the program is put together: cmd/factory.go, which makes the collaborators of the two
  commands when they are first asked for and keeps them in its fields, and the context of
  installation/installer\_factory.go, which does the same for one installation. A collaborator is an
  object with the constructor that made it and the constructor's arguments; loggers and their tags are left out.
  Shown: which collaborators share the release manager, the service of the deployment state, the
  repositories and the blobstore. The models of the commands rely on it: they have one list of
  releases, one state file, one index and one blobstore.
\<close>

section \<open>Objects and fields\<close>

datatype dep = Obj nat | Given string | Number int | Path string

record obj =
  ob_new :: string
  ob_args :: "dep list"

text \<open>
  The fields that have been loaded: those of \<^verbatim>\<open>factory\<close> (\<open>f.\<close>), of \<^verbatim>\<open>deploymentManagerFactory2\<close> (\<open>d.\<close>)
  and of \<^verbatim>\<open>installerFactoryContext\<close> (\<open>c.\<close>), with the three strings they hold.
\<close>

record wiring =
  wi_objs :: "obj list"
  wi_loaded :: "string \<rightharpoonup> nat"
  wi_workspaceRootPath :: string
  wi_deploymentManifestPath :: string
  wi_target :: string

type_synonym loader = "(wiring, nat) prog"

definition alloc :: "string \<Rightarrow> dep list \<Rightarrow> loader" where
  "alloc c args w = (Ok (length (wi_objs w)), w\<lparr>wi_objs := wi_objs w @ [\<lparr>ob_new = c, ob_args = args\<rparr>]\<rparr>)"

text \<open>Arguments are evaluated from the left; \<open>once\<close> is the pattern of every field.\<close>

definition made_of :: "string \<Rightarrow> (wiring, dep) prog list \<Rightarrow> loader" where
  "made_of c args = bnd (map_prog id args) (alloc c)"

definition once :: "string \<Rightarrow> loader \<Rightarrow> loader" where
  "once field create = bnd (gets (\<lambda>w. wi_loaded w field)) (\<lambda>x. case x of
      Some a \<Rightarrow> ret a
    | None \<Rightarrow> bnd create (\<lambda>a. seq (modify (\<lambda>w. w\<lparr>wi_loaded := (wi_loaded w)(field \<mapsto> a)\<rparr>)) (ret a)))"

definition held :: "loader \<Rightarrow> (wiring, dep) prog" where
  "held l = bnd l (\<lambda>a. ret (Obj a))"

definition given :: "string \<Rightarrow> (wiring, dep) prog" where
  "given s = ret (Given s)"

definition number :: "int \<Rightarrow> (wiring, dep) prog" where
  "number n = ret (Number n)"

definition path_of :: "(wiring \<Rightarrow> string) \<Rightarrow> (wiring, dep) prog" where
  "path_of f = bnd (gets f) (\<lambda>s. ret (Path s))"

section \<open>The factory\<close>

definition NewFactory :: "string \<Rightarrow> wiring" where
  "NewFactory workspaceRootPath = \<lparr>wi_objs = [], wi_loaded = Map.empty, wi_workspaceRootPath = workspaceRootPath,
     wi_deploymentManifestPath = '''', wi_target = ''''\<rparr>"

definition f_loadCMDRunner :: loader where
  "f_loadCMDRunner = once ''f.runner'' (made_of ''boshsys.NewExecCmdRunner'' [])"

definition f_loadCompressor :: loader where
  "f_loadCompressor = once ''f.compressor'' (made_of ''boshcmd.NewTarballCompressor'' [held f_loadCMDRunner, given ''fs''])"

definition f_loadCompiledPackageRepo :: loader where
  "f_loadCompiledPackageRepo = once ''f.compiledPackageRepo''
     (made_of ''bistatepkg.NewCompiledPackageRepo'' [held (made_of ''biindex.NewInMemoryIndex'' [])])"

definition f_loadRegistryServerManager :: loader where
  "f_loadRegistryServerManager = once ''f.registryServerManager'' (made_of ''biregistry.NewServerManager'' [])"

definition f_loadSSHTunnelFactory :: loader where
  "f_loadSSHTunnelFactory = once ''f.sshTunnelFactory'' (made_of ''bisshtunnel.NewFactory'' [])"

definition f_loadReleaseManager :: loader where
  "f_loadReleaseManager = once ''f.releaseManager'' (made_of ''birel.NewManager'' [])"

definition f_loadReleaseJobResolver :: loader where
  "f_loadReleaseJobResolver = once ''f.releaseJobResolver'' (made_of ''bideplrel.NewJobResolver'' [held f_loadReleaseManager])"

text \<open>The renderer of job lists, which both the builder and the installer make.\<close>

definition newJobListRenderer :: "(wiring, dep) prog \<Rightarrow> loader" where
  "newJobListRenderer runner = made_of ''bitemplate.NewJobListRenderer''
     [held (made_of ''bitemplate.NewJobRenderer'' [held (made_of ''bitemplateerb.NewERBRenderer'' [given ''fs'', runner]), given ''fs''])]"

definition f_loadBuilderFactory :: loader where
  "f_loadBuilderFactory = once ''f.stateBuilderFactory''
    (bnd (newJobListRenderer (held f_loadCMDRunner)) (\<lambda>jobListRenderer.
     bnd (made_of ''bicrypto.NewSha1Calculator'' [given ''fs'']) (\<lambda>sha1Calculator.
     bnd (made_of ''bitemplate.NewRenderedJobListCompressor'' [given ''fs'', held f_loadCompressor, held (ret sha1Calculator)]) (\<lambda>compressor.
     made_of ''biinstancestate.NewBuilderFactory''
       [held f_loadCompiledPackageRepo, held f_loadReleaseJobResolver, held (ret jobListRenderer), held (ret compressor)]))))"

definition f_loadInstanceFactory :: loader where
  "f_loadInstanceFactory = once ''f.instanceFactory'' (made_of ''biinstance.NewFactory'' [held f_loadBuilderFactory])"

definition f_loadInstanceManagerFactory :: loader where
  "f_loadInstanceManagerFactory = once ''f.instanceManagerFactory''
     (made_of ''biinstance.NewManagerFactory'' [held f_loadSSHTunnelFactory, held f_loadInstanceFactory])"

definition f_loadDeploymentFactory :: loader where
  "f_loadDeploymentFactory = once ''f.deploymentFactory''
     (made_of ''bidepl.NewFactory'' [number (10 * Second), number (500 * Millisecond)])"

definition f_loadAgentClientFactory :: loader where
  "f_loadAgentClientFactory = once ''f.agentClientFactory'' (made_of ''bihttpagent.NewAgentClientFactory'' [number (1 * Second)])"

definition f_loadBlobstoreFactory :: loader where
  "f_loadBlobstoreFactory = once ''f.blobstoreFactory'' (made_of ''biblobstore.NewBlobstoreFactory'' [given ''uuidGenerator'', given ''fs''])"

definition f_loadCPIReleaseValidator :: loader where
  "f_loadCPIReleaseValidator = once ''f.cpiReleaseValidator'' (made_of ''bicpirel.NewValidator'' [])"

definition f_loadReleaseExtractor :: loader where
  "f_loadReleaseExtractor = once ''f.releaseExtractor''
    (bnd (made_of ''birel.NewValidator'' [given ''fs'']) (\<lambda>releaseValidator.
     made_of ''birel.NewExtractor'' [given ''fs'', held f_loadCompressor, held (ret releaseValidator)]))"

definition f_loadTarballProvider :: loader where
  "f_loadTarballProvider = once ''f.tarballProvider''
    (bnd (made_of ''bitarball.NewCache'' [path_of (\<lambda>w. JoinPath [wi_workspaceRootPath w, ''downloads'']), given ''fs'']) (\<lambda>tarballCache.
     bnd (made_of ''bihttpclient.NewHTTPClient'' [given ''bitarball.HTTPClient'']) (\<lambda>httpClient.
     bnd (made_of ''bicrypto.NewSha1Calculator'' [given ''fs'']) (\<lambda>sha1Calculator.
     made_of ''bitarball.NewProvider'' [held (ret tarballCache), given ''fs'', held (ret httpClient), held (ret sha1Calculator),
       number 3, number (500 * Millisecond)]))))"

definition f_loadReleaseSetValidator :: loader where
  "f_loadReleaseSetValidator = once ''f.releaseSetValidator'' (made_of ''birelsetmanifest.NewValidator'' [])"

definition f_loadReleaseSetParser :: loader where
  "f_loadReleaseSetParser = once ''f.releaseSetParser'' (made_of ''birelsetmanifest.NewParser'' [given ''fs'', held f_loadReleaseSetValidator])"

definition f_loadInstallationValidator :: loader where
  "f_loadInstallationValidator = once ''f.installationValidator'' (made_of ''biinstallmanifest.NewValidator'' [])"

definition f_loadInstallationParser :: loader where
  "f_loadInstallationParser = once ''f.installationParser''
    (bnd (made_of ''boshuuid.NewGenerator'' []) (\<lambda>uuidGenerator.
     made_of ''biinstallmanifest.NewParser'' [given ''fs'', held (ret uuidGenerator), held f_loadInstallationValidator]))"

definition f_loadDeploymentParser :: loader where
  "f_loadDeploymentParser = once ''f.deploymentParser'' (made_of ''bideplmanifest.NewParser'' [given ''fs''])"

definition f_loadDeploymentValidator :: loader where
  "f_loadDeploymentValidator = once ''f.deploymentValidator'' (made_of ''bideplmanifest.NewValidator'' [])"

definition f_loadCloudFactory :: loader where
  "f_loadCloudFactory = once ''f.cloudFactory'' (made_of ''bicloud.NewFactory'' [given ''fs'', held f_loadCMDRunner])"

section \<open>The collaborators of a command\<close>

definition d_loadDeploymentStateService :: loader where
  "d_loadDeploymentStateService = once ''d.deploymentStateService'' (made_of ''biconfig.NewFileSystemDeploymentStateService''
     [given ''fs'', given ''uuidGenerator'', path_of (\<lambda>w. DeploymentStatePath (wi_deploymentManifestPath w))])"

definition d_loadLegacyDeploymentStateMigrator :: loader where
  "d_loadLegacyDeploymentStateMigrator = once ''d.legacyDeploymentStateMigrator''
     (made_of ''biconfig.NewLegacyDeploymentStateMigrator'' [held d_loadDeploymentStateService, given ''fs'', given ''uuidGenerator''])"

definition d_loadStemcellRepo :: loader where
  "d_loadStemcellRepo = once ''d.stemcellRepo''
     (made_of ''biconfig.NewStemcellRepo'' [held d_loadDeploymentStateService, given ''uuidGenerator''])"

definition d_loadVMRepo :: loader where
  "d_loadVMRepo = once ''d.vmRepo'' (made_of ''biconfig.NewVMRepo'' [held d_loadDeploymentStateService])"

definition d_loadDiskRepo :: loader where
  "d_loadDiskRepo = once ''d.diskRepo'' (made_of ''biconfig.NewDiskRepo'' [held d_loadDeploymentStateService, given ''uuidGenerator''])"

definition d_loadDiskManagerFactory :: loader where
  "d_loadDiskManagerFactory = once ''d.diskManagerFactory'' (made_of ''bidisk.NewManagerFactory'' [held d_loadDiskRepo])"

definition d_loadDiskDeployer :: loader where
  "d_loadDiskDeployer = once ''d.diskDeployer'' (made_of ''bivm.NewDiskDeployer'' [held d_loadDiskManagerFactory, held d_loadDiskRepo])"

definition d_loadVMManagerFactory :: loader where
  "d_loadVMManagerFactory = once ''d.vmManagerFactory'' (made_of ''bivm.NewManagerFactory''
     [held d_loadVMRepo, held d_loadStemcellRepo, held d_loadDiskDeployer, given ''uuidGenerator'', given ''fs''])"

definition d_loadStemcellManagerFactory :: loader where
  "d_loadStemcellManagerFactory = once ''d.stemcellManagerFactory'' (made_of ''bistemcell.NewManagerFactory'' [held d_loadStemcellRepo])"

definition d_loadDeploymentManagerFactory :: loader where
  "d_loadDeploymentManagerFactory = once ''d.deploymentManagerFactory'' (made_of ''bidepl.NewManagerFactory''
     [held d_loadVMManagerFactory, held f_loadInstanceManagerFactory, held d_loadDiskManagerFactory, held d_loadStemcellManagerFactory,
      held f_loadDeploymentFactory])"

definition d_loadDeployer :: loader where
  "d_loadDeployer = once ''d.deployer'' (made_of ''bidepl.NewDeployer''
     [held d_loadVMManagerFactory, held f_loadInstanceManagerFactory, held f_loadDeploymentFactory])"

definition d_loadInstallerFactory :: loader where
  "d_loadInstallerFactory = once ''d.installerFactory'' (made_of ''biinstall.NewInstallerFactory''
     [given ''ui'', held f_loadCMDRunner, held f_loadCompressor, held f_loadReleaseJobResolver, given ''uuidGenerator'',
      held f_loadRegistryServerManager, given ''fs''])"

text \<open>These are made anew each time they are asked for.\<close>

definition d_loadTargetProvider :: loader where
  "d_loadTargetProvider = made_of ''biinstall.NewTargetProvider''
     [held d_loadDeploymentStateService, given ''uuidGenerator'', path_of (\<lambda>w. JoinPath [wi_workspaceRootPath w, ''installations''])]"

definition d_loadCpiUninstaller :: loader where
  "d_loadCpiUninstaller = made_of ''biinstall.NewUninstaller'' [given ''fs'']"

definition d_loadCpiInstaller :: loader where
  "d_loadCpiInstaller = made_of ''bicpirel.CpiInstaller''
     [held f_loadReleaseManager, held d_loadInstallerFactory, held (made_of ''bicpirel.NewValidator'' [])]"

definition d_loadReleaseFetcher :: loader where
  "d_loadReleaseFetcher = made_of ''birel.NewFetcher'' [held f_loadTarballProvider, held f_loadReleaseExtractor, held f_loadReleaseManager]"

definition d_loadStemcellFetcher :: loader where
  "d_loadStemcellFetcher =
     bnd (made_of ''bistemcell.NewReader'' [held f_loadCompressor, given ''fs'']) (\<lambda>stemcellReader.
     bnd (made_of ''bistemcell.NewExtractor'' [held (ret stemcellReader), given ''fs'']) (\<lambda>stemcellExtractor.
     made_of ''bistemcell.Fetcher'' [held f_loadTarballProvider, held (ret stemcellExtractor)]))"

definition d_loadReleaseSetAndInstallationManifestParser :: loader where
  "d_loadReleaseSetAndInstallationManifestParser = made_of ''ReleaseSetAndInstallationManifestParser''
     [held f_loadReleaseSetParser, held f_loadInstallationParser]"

definition d_loadDeploymentManifestParser :: loader where
  "d_loadDeploymentManifestParser = made_of ''DeploymentManifestParser''
     [held f_loadDeploymentParser, held f_loadDeploymentValidator, held f_loadReleaseManager]"

definition newTempRootConfigurator :: loader where
  "newTempRootConfigurator = made_of ''NewTempRootConfigurator'' [given ''fs'']"

definition d_loadDeploymentPreparer :: loader where
  "d_loadDeploymentPreparer =
     bnd (made_of ''biconfig.NewDeploymentRepo'' [held d_loadDeploymentStateService]) (\<lambda>deploymentRepo.
     bnd (made_of ''biconfig.NewReleaseRepo'' [held d_loadDeploymentStateService, given ''uuidGenerator'']) (\<lambda>releaseRepo.
     bnd (made_of ''bicrypto.NewSha1Calculator'' [given ''fs'']) (\<lambda>sha1Calculator.
     bnd (made_of ''bidepl.NewRecord'' [held (ret deploymentRepo), held (ret releaseRepo), held d_loadStemcellRepo, held (ret sha1Calculator)]) (\<lambda>deploymentRecord.
     bnd d_loadCpiInstaller (\<lambda>cpiInstaller.
     made_of ''NewDeploymentPreparer''
       [given ''ui'', held d_loadDeploymentStateService, held d_loadLegacyDeploymentStateMigrator, held f_loadReleaseManager,
        held (ret deploymentRecord), held f_loadCloudFactory, held d_loadStemcellManagerFactory, held f_loadAgentClientFactory,
        held d_loadVMManagerFactory, held f_loadBlobstoreFactory, held d_loadDeployer, path_of wi_deploymentManifestPath,
        held (ret cpiInstaller), held d_loadReleaseFetcher, held d_loadStemcellFetcher, held d_loadReleaseSetAndInstallationManifestParser,
        held d_loadDeploymentManifestParser, held newTempRootConfigurator, held d_loadTargetProvider])))))"

definition d_loadDeploymentDeleter :: loader where
  "d_loadDeploymentDeleter =
     bnd d_loadCpiInstaller (\<lambda>cpiInstaller.
     made_of ''NewDeploymentDeleter''
       [given ''ui'', held d_loadDeploymentStateService, held f_loadReleaseManager, held f_loadCloudFactory, held f_loadAgentClientFactory,
        held f_loadBlobstoreFactory, held d_loadDeploymentManagerFactory, path_of wi_deploymentManifestPath, held (ret cpiInstaller),
        held d_loadCpiUninstaller, held d_loadReleaseFetcher, held d_loadReleaseSetAndInstallationManifestParser,
        held newTempRootConfigurator, held d_loadTargetProvider])"

text \<open>The getters of the two commands make a new \<^verbatim>\<open>deploymentManagerFactory2\<close> for the manifest.\<close>

definition new_fields :: "string \<Rightarrow> wiring \<Rightarrow> wiring" where
  "new_fields prefix w = w\<lparr>wi_loaded := (\<lambda>field. if HasPrefix field prefix then None else wi_loaded w field)\<rparr>"

definition deployment_preparer :: "string \<Rightarrow> loader" where
  "deployment_preparer deploymentManifestPath =
     seq (modify (\<lambda>w. (new_fields ''d.'' w)\<lparr>wi_deploymentManifestPath := deploymentManifestPath\<rparr>)) d_loadDeploymentPreparer"

definition deployment_deleter :: "string \<Rightarrow> loader" where
  "deployment_deleter deploymentManifestPath =
     seq (modify (\<lambda>w. (new_fields ''d.'' w)\<lparr>wi_deploymentManifestPath := deploymentManifestPath\<rparr>)) d_loadDeploymentDeleter"

section \<open>The context of an installation\<close>

definition c_Blobstore :: loader where
  "c_Blobstore = once ''c.blobstore'' (bnd (made_of ''boshblob.NewLocalBlobstore''
       [given ''fs'', given ''uuidGenerator'', path_of (\<lambda>w. BlobstorePath (wi_target w))]) (\<lambda>localBlobstore.
     made_of ''boshblob.NewSHA1VerifiableBlobstore'' [held (ret localBlobstore)]))"

definition c_BlobExtractor :: loader where
  "c_BlobExtractor = once ''c.blobExtractor'' (made_of ''blobextract.NewExtractor'' [given ''fs'', held f_loadCompressor, held c_Blobstore])"

definition c_CompiledPackageRepo :: loader where
  "c_CompiledPackageRepo = once ''c.compiledPackageRepo''
     (bnd (made_of ''biindex.NewFileIndex'' [path_of (\<lambda>w. CompiledPackagedIndexPath (wi_target w)), given ''fs'']) (\<lambda>compiledPackageIndex.
      made_of ''bistatepkg.NewCompiledPackageRepo'' [held (ret compiledPackageIndex)]))"

definition c_InstallationStatePackageCompiler :: loader where
  "c_InstallationStatePackageCompiler = once ''c.packageCompiler'' (made_of ''biinstallpkg.NewPackageCompiler''
     [held f_loadCMDRunner, path_of (\<lambda>w. PackagesPath (wi_target w)), given ''fs'', held f_loadCompressor, held c_Blobstore,
      held c_CompiledPackageRepo, held c_BlobExtractor])"

definition c_JobDependencyCompiler :: loader where
  "c_JobDependencyCompiler = once ''c.jobDependencyCompiler''
     (made_of ''bistatejob.NewDependencyCompiler'' [held c_InstallationStatePackageCompiler])"

definition c_JobResolver :: loader where
  "c_JobResolver = made_of ''NewJobResolver'' [held f_loadReleaseJobResolver]"

definition c_PackageCompiler :: loader where
  "c_PackageCompiler = made_of ''NewPackageCompiler'' [held c_JobDependencyCompiler, given ''fs'']"

definition c_JobRenderer :: loader where
  "c_JobRenderer = bnd (newJobListRenderer (held f_loadCMDRunner)) (\<lambda>jobListRenderer.
     made_of ''NewJobRenderer'' [held (ret jobListRenderer), held f_loadCompressor, held c_Blobstore])"

text \<open>
  \<^verbatim>\<open>NewInstaller\<close> of the installer's factory; the runner, the extractor, the resolver and the server
  manager are those the factory was given, which are the loaded ones.
\<close>

definition installer_for :: "string \<Rightarrow> loader" where
  "installer_for target =
     seq (modify (\<lambda>w. (new_fields ''c.'' w)\<lparr>wi_target := target\<rparr>))
     (made_of ''NewInstaller'' [path_of wi_target, held c_JobRenderer, held c_JobResolver, held c_PackageCompiler, held c_BlobExtractor,
        held f_loadRegistryServerManager])"

section \<open>Who shares what\<close>

definition made :: "string \<Rightarrow> wiring \<Rightarrow> nat" where
  "made c w = length (filter (\<lambda>x. ob_new x = c) (wi_objs w))"

text \<open>
  The fields with their constructors, each after those whose objects its own is made from. The two
  repositories of compiled packages have the same constructor and are left out of \<open>singles\<close>.
\<close>

definition fields :: "(string \<times> string \<times> nat) list" where
  "fields =
    [(''f.runner'', ''boshsys.NewExecCmdRunner'', 0),
     (''f.compressor'', ''boshcmd.NewTarballCompressor'', 1),
     (''f.registryServerManager'', ''biregistry.NewServerManager'', 0),
     (''f.sshTunnelFactory'', ''bisshtunnel.NewFactory'', 0),
     (''f.releaseManager'', ''birel.NewManager'', 0),
     (''f.releaseJobResolver'', ''bideplrel.NewJobResolver'', 1),
     (''f.stateBuilderFactory'', ''biinstancestate.NewBuilderFactory'', 2),
     (''f.instanceFactory'', ''biinstance.NewFactory'', 3),
     (''f.instanceManagerFactory'', ''biinstance.NewManagerFactory'', 4),
     (''f.deploymentFactory'', ''bidepl.NewFactory'', 0),
     (''f.agentClientFactory'', ''bihttpagent.NewAgentClientFactory'', 0),
     (''f.blobstoreFactory'', ''biblobstore.NewBlobstoreFactory'', 0),
     (''f.releaseExtractor'', ''birel.NewExtractor'', 2),
     (''f.tarballProvider'', ''bitarball.NewProvider'', 0),
     (''f.releaseSetValidator'', ''birelsetmanifest.NewValidator'', 0),
     (''f.releaseSetParser'', ''birelsetmanifest.NewParser'', 1),
     (''f.installationValidator'', ''biinstallmanifest.NewValidator'', 0),
     (''f.installationParser'', ''biinstallmanifest.NewParser'', 1),
     (''f.deploymentParser'', ''bideplmanifest.NewParser'', 0),
     (''f.deploymentValidator'', ''bideplmanifest.NewValidator'', 0),
     (''f.cloudFactory'', ''bicloud.NewFactory'', 1),
     (''d.deploymentStateService'', ''biconfig.NewFileSystemDeploymentStateService'', 0),
     (''d.legacyDeploymentStateMigrator'', ''biconfig.NewLegacyDeploymentStateMigrator'', 1),
     (''d.stemcellRepo'', ''biconfig.NewStemcellRepo'', 1),
     (''d.vmRepo'', ''biconfig.NewVMRepo'', 1),
     (''d.diskRepo'', ''biconfig.NewDiskRepo'', 1),
     (''d.diskManagerFactory'', ''bidisk.NewManagerFactory'', 2),
     (''d.diskDeployer'', ''bivm.NewDiskDeployer'', 3),
     (''d.vmManagerFactory'', ''bivm.NewManagerFactory'', 4),
     (''d.stemcellManagerFactory'', ''bistemcell.NewManagerFactory'', 2),
     (''d.deploymentManagerFactory'', ''bidepl.NewManagerFactory'', 5),
     (''d.deployer'', ''bidepl.NewDeployer'', 5),
     (''d.installerFactory'', ''biinstall.NewInstallerFactory'', 2),
     (''c.blobstore'', ''boshblob.NewSHA1VerifiableBlobstore'', 10),
     (''c.blobExtractor'', ''blobextract.NewExtractor'', 12),
     (''c.packageCompiler'', ''biinstallpkg.NewPackageCompiler'', 13),
     (''c.jobDependencyCompiler'', ''bistatejob.NewDependencyCompiler'', 14)]"

definition singles :: "(string \<times> string) list" where
  "singles = map (\<lambda>(field, c, _). (field, c)) fields"

definition level :: "string \<Rightarrow> nat" where
  "level field = (if field = ''f.compiledPackageRepo'' then 0 else if field = ''c.compiledPackageRepo'' then 10
     else case map_of fields field of None \<Rightarrow> 100 | Some (_, n) \<Rightarrow> n)"

definition field_of :: "string \<Rightarrow> string \<Rightarrow> nat \<Rightarrow> bool" where
  "field_of field c n \<longleftrightarrow> level field = n
     \<and> ((field, c) \<in> set singles \<or> (field \<notin> fst ` set singles \<and> c \<notin> snd ` set singles))"

named_theorems loads_intros "programs that load collaborators"

lemma fields_of:
  "field_of ''f.runner'' ''boshsys.NewExecCmdRunner'' 0"
  "field_of ''f.compressor'' ''boshcmd.NewTarballCompressor'' 1"
  "field_of ''f.compiledPackageRepo'' ''bistatepkg.NewCompiledPackageRepo'' 0"
  "field_of ''f.registryServerManager'' ''biregistry.NewServerManager'' 0"
  "field_of ''f.sshTunnelFactory'' ''bisshtunnel.NewFactory'' 0"
  "field_of ''f.releaseManager'' ''birel.NewManager'' 0"
  "field_of ''f.releaseJobResolver'' ''bideplrel.NewJobResolver'' 1"
  "field_of ''f.stateBuilderFactory'' ''biinstancestate.NewBuilderFactory'' 2"
  "field_of ''f.instanceFactory'' ''biinstance.NewFactory'' 3"
  "field_of ''f.instanceManagerFactory'' ''biinstance.NewManagerFactory'' 4"
  "field_of ''f.deploymentFactory'' ''bidepl.NewFactory'' 0"
  "field_of ''f.agentClientFactory'' ''bihttpagent.NewAgentClientFactory'' 0"
  "field_of ''f.blobstoreFactory'' ''biblobstore.NewBlobstoreFactory'' 0"
  "field_of ''f.releaseExtractor'' ''birel.NewExtractor'' 2"
  "field_of ''f.tarballProvider'' ''bitarball.NewProvider'' 0"
  "field_of ''f.releaseSetValidator'' ''birelsetmanifest.NewValidator'' 0"
  "field_of ''f.releaseSetParser'' ''birelsetmanifest.NewParser'' 1"
  "field_of ''f.installationValidator'' ''biinstallmanifest.NewValidator'' 0"
  "field_of ''f.installationParser'' ''biinstallmanifest.NewParser'' 1"
  "field_of ''f.deploymentParser'' ''bideplmanifest.NewParser'' 0"
  "field_of ''f.deploymentValidator'' ''bideplmanifest.NewValidator'' 0"
  "field_of ''f.cloudFactory'' ''bicloud.NewFactory'' 1"
  "field_of ''d.deploymentStateService'' ''biconfig.NewFileSystemDeploymentStateService'' 0"
  "field_of ''d.legacyDeploymentStateMigrator'' ''biconfig.NewLegacyDeploymentStateMigrator'' 1"
  "field_of ''d.stemcellRepo'' ''biconfig.NewStemcellRepo'' 1"
  "field_of ''d.vmRepo'' ''biconfig.NewVMRepo'' 1"
  "field_of ''d.diskRepo'' ''biconfig.NewDiskRepo'' 1"
  "field_of ''d.diskManagerFactory'' ''bidisk.NewManagerFactory'' 2"
  "field_of ''d.diskDeployer'' ''bivm.NewDiskDeployer'' 3"
  "field_of ''d.vmManagerFactory'' ''bivm.NewManagerFactory'' 4"
  "field_of ''d.stemcellManagerFactory'' ''bistemcell.NewManagerFactory'' 2"
  "field_of ''d.deploymentManagerFactory'' ''bidepl.NewManagerFactory'' 5"
  "field_of ''d.deployer'' ''bidepl.NewDeployer'' 5"
  "field_of ''d.installerFactory'' ''biinstall.NewInstallerFactory'' 2"
  "field_of ''c.blobstore'' ''boshblob.NewSHA1VerifiableBlobstore'' 10"
  "field_of ''c.blobExtractor'' ''blobextract.NewExtractor'' 12"
  "field_of ''c.compiledPackageRepo'' ''bistatepkg.NewCompiledPackageRepo'' 10"
  "field_of ''c.packageCompiler'' ''biinstallpkg.NewPackageCompiler'' 13"
  "field_of ''c.jobDependencyCompiler'' ''bistatejob.NewDependencyCompiler'' 14"
  by code_simp+

lemma singles_distinct: "distinct (map fst singles)" "distinct (map snd singles)"
  by code_simp+

section \<open>Every collaborator is made once\<close>

text \<open>The only object of a constructor of \<open>singles\<close> is the one in its field, if that is set.\<close>

definition cached :: "wiring \<Rightarrow> bool" where
  "cached w \<longleftrightarrow> (\<forall>(field, c) \<in> set singles. \<forall>a. wi_loaded w field = Some a \<longleftrightarrow> a < length (wi_objs w) \<and> ob_new (wi_objs w ! a) = c)"

definition reaches :: "nat \<Rightarrow> wiring \<Rightarrow> wiring \<Rightarrow> bool" where
  "reaches n w v \<longleftrightarrow> (cached w \<longrightarrow> cached v) \<and> (\<forall>field. n \<le> level field \<longrightarrow> wi_loaded v field = wi_loaded w field)
     \<and> dom (wi_loaded w) \<subseteq> dom (wi_loaded v)"

lemma reaches_refl: "reaches n w w"
  by (simp add: reaches_def)

lemma reaches_trans: "reaches n w v \<Longrightarrow> reaches n v u \<Longrightarrow> reaches n w u"
  unfolding reaches_def by (metis subset_trans)

text \<open>\<open>loads n m\<close>: \<open>m\<close> succeeds, setting only fields below the level \<open>n\<close>; \<open>ends_making c n m\<close>: so it does, and last makes an object with \<open>c\<close>.\<close>

definition loads :: "nat \<Rightarrow> (wiring, 'a) prog \<Rightarrow> bool" where
  "loads n m \<longleftrightarrow> (\<forall>w. \<exists>x v. m w = (Ok x, v) \<and> reaches n w v)"

definition ends_making :: "string \<Rightarrow> nat \<Rightarrow> loader \<Rightarrow> bool" where
  "ends_making c n m \<longleftrightarrow> (\<forall>w. \<exists>args v. m w = alloc c args v \<and> reaches n w v)"

lemma loads_basic [loads_intros]: "loads n (ret x)" "loads n (given s)" "loads n (number k)" "loads n (path_of f)" "loads n (gets g)"
  by (simp_all add: loads_def ret_def given_def number_def path_of_def gets_def bnd_def reaches_refl)

lemma loadsE:
  assumes "loads n m" obtains x v where "m w = (Ok x, v)" "reaches n w v"
  using assms unfolding loads_def by blast

lemma loads_bnd [loads_intros]:
  assumes m: "loads n m" and f: "\<And>x. loads n (f x)" shows "loads n (bnd m f)"
  unfolding loads_def
proof
  fix w
  obtain x v where 1: "m w = (Ok x, v)" "reaches n w v" by (rule loadsE[OF m])
  obtain y u where 2: "f x v = (Ok y, u)" "reaches n v u" by (rule loadsE[OF f])
  have "bnd m f w = (Ok y, u)" using 1 2 by (simp add: bnd_def)
  then show "\<exists>y u. bnd m f w = (Ok y, u) \<and> reaches n w u" using reaches_trans[OF 1(2) 2(2)] by blast
qed

lemma loads_ref [loads_intros]: "loads n l \<Longrightarrow> loads n (held l)"
  unfolding held_def by (intro loads_intros)

lemma loads_args [loads_intros]: "loads n (map_prog id [])" "loads n m \<Longrightarrow> loads n (map_prog id ms) \<Longrightarrow> loads n (map_prog id (m # ms))"
  by (simp_all add: loads_basic) (intro loads_intros)

lemma ends_making_bnd [loads_intros]:
  assumes m: "loads n m" and f: "\<And>x. ends_making c n (f x)" shows "ends_making c n (bnd m f)"
  unfolding ends_making_def
proof
  fix w
  obtain x v where 1: "m w = (Ok x, v)" "reaches n w v" by (rule loadsE[OF m])
  obtain args u where 2: "f x v = alloc c args u" "reaches n v u" using f unfolding ends_making_def by blast
  have "bnd m f w = alloc c args u" using 1 2 by (simp add: bnd_def)
  then show "\<exists>args u. bnd m f w = alloc c args u \<and> reaches n w u" using reaches_trans[OF 1(2) 2(2)] by blast
qed

lemma ends_making_made_of [loads_intros]:
  assumes "loads n (map_prog id args)" shows "ends_making c n (made_of c args)"
proof -
  have "ends_making c n (alloc c as)" for as unfolding ends_making_def using reaches_refl by blast
  then show ?thesis unfolding made_of_def by (rule ends_making_bnd[OF assms])
qed

lemma singles_unique: "(f1, c1) \<in> set singles \<Longrightarrow> (f2, c2) \<in> set singles \<Longrightarrow> (f1 = f2 \<longleftrightarrow> c1 = c2)"
  using singles_distinct by (metis eq_key_imp_eq_value distinct_map inj_onD prod.collapse prod.inject snd_conv)

lemma loads_made_of [loads_intros]:
  assumes c: "c \<notin> snd ` set singles" and args: "loads n (map_prog id args)"
  shows "loads n (made_of c args)"
proof -
  have "loads n (alloc c as)" for as
    unfolding loads_def alloc_def reaches_def cached_def using c by (force simp: nth_append less_Suc_eq)
  then show ?thesis unfolding made_of_def by (intro loads_bnd args)
qed

text \<open>A field is made when there is none, and then there is no object of its constructor.\<close>

lemma loads_once:
  assumes fc: "field_of field c k" and m: "ends_making c k m" and n: "k < n"
  shows "loads n (once field m)"
  unfolding loads_def
proof
  fix w
  show "\<exists>x v. once field m w = (Ok x, v) \<and> reaches n w v"
  proof (cases "wi_loaded w field")
    case (Some a)
    then show ?thesis by (simp add: once_def bnd_def gets_def ret_def reaches_refl)
  next
    case None
    obtain args v where v: "m w = alloc c args v" "reaches k w v" using m unfolding ends_making_def by blast
    let ?u = "v\<lparr>wi_objs := wi_objs v @ [\<lparr>ob_new = c, ob_args = args\<rparr>], wi_loaded := (wi_loaded v)(field \<mapsto> length (wi_objs v))\<rparr>"
    have run: "once field m w = (Ok (length (wi_objs v)), ?u)"
      by (simp add: once_def bnd_def gets_def None v(1) alloc_def seq_def modify_def ret_def)
    have lf: "level field = k" using fc by (simp add: field_of_def)
    then have unset: "wi_loaded v field = None" using v(2) None by (simp add: reaches_def)
    have "cached ?u" if w: "cached w"
    proof -
      have v': "cached v" using w v(2) by (simp add: reaches_def)
      have "wi_loaded ?u f = Some a \<longleftrightarrow> a < length (wi_objs ?u) \<and> ob_new (wi_objs ?u ! a) = c'" if f: "(f, c') \<in> set singles" for f c' a
      proof -
        have "f = field \<longleftrightarrow> c' = c" using f fc singles_unique unfolding field_of_def by (metis image_eqI fst_conv snd_conv)
        moreover have "wi_loaded v f = Some a \<longleftrightarrow> a < length (wi_objs v) \<and> ob_new (wi_objs v ! a) = c'"
          using v' f by (auto simp: cached_def)
        ultimately show ?thesis using unset by (auto simp: nth_append less_Suc_eq split: if_splits)
      qed
      then show ?thesis unfolding cached_def by blast
    qed
    moreover have "wi_loaded ?u f = wi_loaded w f" if "n \<le> level f" for f
      using that n lf v(2) by (auto simp: reaches_def)
    moreover have "dom (wi_loaded w) \<subseteq> dom (wi_loaded ?u)" using v(2) by (auto simp: reaches_def)
    ultimately show ?thesis unfolding run reaches_def by blast
  qed
qed

lemma others [loads_intros]:
  "''bistatepkg.NewCompiledPackageRepo'' \<notin> snd ` set singles"
  "''biindex.NewInMemoryIndex'' \<notin> snd ` set singles"
  "''bitemplate.NewJobListRenderer'' \<notin> snd ` set singles"
  "''bitemplate.NewJobRenderer'' \<notin> snd ` set singles"
  "''bitemplateerb.NewERBRenderer'' \<notin> snd ` set singles"
  "''bicrypto.NewSha1Calculator'' \<notin> snd ` set singles"
  "''bitemplate.NewRenderedJobListCompressor'' \<notin> snd ` set singles"
  "''birel.NewValidator'' \<notin> snd ` set singles" "''bitarball.NewCache'' \<notin> snd ` set singles"
  "''bihttpclient.NewHTTPClient'' \<notin> snd ` set singles"
  "''boshuuid.NewGenerator'' \<notin> snd ` set singles"
  "''biinstall.NewTargetProvider'' \<notin> snd ` set singles"
  "''biinstall.NewUninstaller'' \<notin> snd ` set singles" "''bicpirel.CpiInstaller'' \<notin> snd ` set singles"
  "''bicpirel.NewValidator'' \<notin> snd ` set singles" "''birel.NewFetcher'' \<notin> snd ` set singles"
  "''bistemcell.NewReader'' \<notin> snd ` set singles" "''bistemcell.NewExtractor'' \<notin> snd ` set singles"
  "''bistemcell.Fetcher'' \<notin> snd ` set singles"
  "''ReleaseSetAndInstallationManifestParser'' \<notin> snd ` set singles"
  "''DeploymentManifestParser'' \<notin> snd ` set singles"
  "''NewTempRootConfigurator'' \<notin> snd ` set singles"
  "''biconfig.NewDeploymentRepo'' \<notin> snd ` set singles"
  "''biconfig.NewReleaseRepo'' \<notin> snd ` set singles" "''bidepl.NewRecord'' \<notin> snd ` set singles"
  "''NewDeploymentPreparer'' \<notin> snd ` set singles" "''NewDeploymentDeleter'' \<notin> snd ` set singles"
  "''boshblob.NewLocalBlobstore'' \<notin> snd ` set singles"
  "''biindex.NewFileIndex'' \<notin> snd ` set singles" "''NewJobResolver'' \<notin> snd ` set singles"
  "''NewPackageCompiler'' \<notin> snd ` set singles" "''NewJobRenderer'' \<notin> snd ` set singles"
  "''NewInstaller'' \<notin> snd ` set singles"
  by code_simp+

lemmas loads_fields [loads_intros] = fields_of [THEN loads_once]

lemma loads_newJobListRenderer [loads_intros]: "loads n runner \<Longrightarrow> loads n (newJobListRenderer runner)"
  unfolding newJobListRenderer_def by (intro loads_intros; simp)

text \<open>The loaders, from those that need no other.\<close>

lemma loads_level_0 [loads_intros]:
  "0 < n \<Longrightarrow> loads n f_loadCMDRunner"
  "0 < n \<Longrightarrow> loads n f_loadCompiledPackageRepo"
  "0 < n \<Longrightarrow> loads n f_loadRegistryServerManager"
  "0 < n \<Longrightarrow> loads n f_loadSSHTunnelFactory"
  "0 < n \<Longrightarrow> loads n f_loadReleaseManager"
  "0 < n \<Longrightarrow> loads n f_loadDeploymentFactory"
  "0 < n \<Longrightarrow> loads n f_loadAgentClientFactory"
  "0 < n \<Longrightarrow> loads n f_loadBlobstoreFactory"
  "0 < n \<Longrightarrow> loads n f_loadTarballProvider"
  "0 < n \<Longrightarrow> loads n f_loadReleaseSetValidator"
  "0 < n \<Longrightarrow> loads n f_loadInstallationValidator"
  "0 < n \<Longrightarrow> loads n f_loadDeploymentParser"
  "0 < n \<Longrightarrow> loads n f_loadDeploymentValidator"
  "0 < n \<Longrightarrow> loads n d_loadDeploymentStateService"
  unfolding f_loadCMDRunner_def f_loadCompiledPackageRepo_def f_loadRegistryServerManager_def f_loadSSHTunnelFactory_def f_loadReleaseManager_def f_loadDeploymentFactory_def f_loadAgentClientFactory_def f_loadBlobstoreFactory_def f_loadTarballProvider_def f_loadReleaseSetValidator_def f_loadInstallationValidator_def f_loadDeploymentParser_def f_loadDeploymentValidator_def d_loadDeploymentStateService_def
  by (intro loads_intros; simp)+

lemma loads_level_1 [loads_intros]:
  "1 < n \<Longrightarrow> loads n f_loadCompressor"
  "1 < n \<Longrightarrow> loads n f_loadReleaseJobResolver"
  "1 < n \<Longrightarrow> loads n f_loadReleaseSetParser"
  "1 < n \<Longrightarrow> loads n f_loadInstallationParser"
  "1 < n \<Longrightarrow> loads n f_loadCloudFactory"
  "1 < n \<Longrightarrow> loads n d_loadLegacyDeploymentStateMigrator"
  "1 < n \<Longrightarrow> loads n d_loadStemcellRepo"
  "1 < n \<Longrightarrow> loads n d_loadVMRepo"
  "1 < n \<Longrightarrow> loads n d_loadDiskRepo"
  unfolding f_loadCompressor_def f_loadReleaseJobResolver_def f_loadReleaseSetParser_def f_loadInstallationParser_def f_loadCloudFactory_def d_loadLegacyDeploymentStateMigrator_def d_loadStemcellRepo_def d_loadVMRepo_def d_loadDiskRepo_def
  by (intro loads_intros; simp)+

lemma loads_level_2 [loads_intros]:
  "2 < n \<Longrightarrow> loads n f_loadBuilderFactory"
  "2 < n \<Longrightarrow> loads n f_loadReleaseExtractor"
  "2 < n \<Longrightarrow> loads n d_loadDiskManagerFactory"
  "2 < n \<Longrightarrow> loads n d_loadStemcellManagerFactory"
  "2 < n \<Longrightarrow> loads n d_loadInstallerFactory"
  unfolding f_loadBuilderFactory_def f_loadReleaseExtractor_def d_loadDiskManagerFactory_def d_loadStemcellManagerFactory_def d_loadInstallerFactory_def
  by (intro loads_intros; simp)+

lemma loads_level_3 [loads_intros]:
  "3 < n \<Longrightarrow> loads n f_loadInstanceFactory"
  "3 < n \<Longrightarrow> loads n d_loadDiskDeployer"
  unfolding f_loadInstanceFactory_def d_loadDiskDeployer_def
  by (intro loads_intros; simp)+

lemma loads_level_4 [loads_intros]:
  "4 < n \<Longrightarrow> loads n f_loadInstanceManagerFactory"
  "4 < n \<Longrightarrow> loads n d_loadVMManagerFactory"
  unfolding f_loadInstanceManagerFactory_def d_loadVMManagerFactory_def
  by (intro loads_intros; simp)+

lemma loads_level_5 [loads_intros]:
  "5 < n \<Longrightarrow> loads n d_loadDeploymentManagerFactory"
  "5 < n \<Longrightarrow> loads n d_loadDeployer"
  unfolding d_loadDeploymentManagerFactory_def d_loadDeployer_def
  by (intro loads_intros; simp)+

lemma loads_level_10 [loads_intros]:
  "10 < n \<Longrightarrow> loads n c_Blobstore"
  "10 < n \<Longrightarrow> loads n c_CompiledPackageRepo"
  unfolding c_Blobstore_def c_CompiledPackageRepo_def
  by (intro loads_intros; simp)+

lemma loads_level_12 [loads_intros]:
  "12 < n \<Longrightarrow> loads n c_BlobExtractor"
  unfolding c_BlobExtractor_def
  by (intro loads_intros; simp)+

lemma loads_level_13 [loads_intros]:
  "13 < n \<Longrightarrow> loads n c_InstallationStatePackageCompiler"
  unfolding c_InstallationStatePackageCompiler_def
  by (intro loads_intros; simp)+

lemma loads_level_14 [loads_intros]:
  "14 < n \<Longrightarrow> loads n c_JobDependencyCompiler"
  unfolding c_JobDependencyCompiler_def
  by (intro loads_intros; simp)+

lemma loads_anew [loads_intros]:
  "6 < n \<Longrightarrow> loads n d_loadTargetProvider" "6 < n \<Longrightarrow> loads n d_loadCpiUninstaller" "6 < n \<Longrightarrow> loads n d_loadCpiInstaller"
  "6 < n \<Longrightarrow> loads n d_loadReleaseFetcher" "6 < n \<Longrightarrow> loads n d_loadStemcellFetcher" "6 < n \<Longrightarrow> loads n newTempRootConfigurator"
  "6 < n \<Longrightarrow> loads n d_loadReleaseSetAndInstallationManifestParser" "6 < n \<Longrightarrow> loads n d_loadDeploymentManifestParser"
  unfolding d_loadTargetProvider_def d_loadCpiUninstaller_def d_loadCpiInstaller_def d_loadReleaseFetcher_def d_loadStemcellFetcher_def
    newTempRootConfigurator_def d_loadReleaseSetAndInstallationManifestParser_def d_loadDeploymentManifestParser_def
  by (intro loads_intros; simp)+

lemma loads_commands: "loads 10 d_loadDeploymentPreparer" "loads 10 d_loadDeploymentDeleter"
  unfolding d_loadDeploymentPreparer_def d_loadDeploymentDeleter_def
  by (intro loads_intros; simp)+

lemma loads_installer: "loads 20 (made_of ''NewInstaller'' [path_of wi_target, held c_JobRenderer, held c_JobResolver, held c_PackageCompiler,
    held c_BlobExtractor, held f_loadRegistryServerManager])"
  unfolding c_JobRenderer_def c_JobResolver_def c_PackageCompiler_def
  by (intro loads_intros; simp)

text \<open>
  The whole wiring of a command: the getter of one of the two commands, and the installer of the
  CPI for the target.
\<close>

definition wired :: "bool \<Rightarrow> string \<Rightarrow> string \<Rightarrow> string \<Rightarrow> wiring" where
  "wired deleting workspaceRootPath deploymentManifestPath target =
     snd (seq (if deleting then deployment_deleter deploymentManifestPath else deployment_preparer deploymentManifestPath)
              (installer_for target) (NewFactory workspaceRootPath))"

lemma cached_made:
  assumes "cached w" "(field, c) \<in> set singles"
  shows "made c w = (case wi_loaded w field of None \<Rightarrow> 0 | Some _ \<Rightarrow> 1)"
proof -
  have "made c w = card {a. a < length (wi_objs w) \<and> ob_new (wi_objs w ! a) = c}"
    by (simp add: made_def length_filter_conv_card)
  also have "{a. a < length (wi_objs w) \<and> ob_new (wi_objs w ! a) = c} = {a. wi_loaded w field = Some a}"
    using assms by (auto simp: cached_def)
  finally show ?thesis by (simp split: option.split)
qed

text \<open>\<open>fills field m\<close>: \<open>m\<close> leaves the field set.\<close>

definition fills :: "string \<Rightarrow> (wiring, 'a) prog \<Rightarrow> bool" where
  "fills field m \<longleftrightarrow> (\<forall>w x v. m w = (Ok x, v) \<longrightarrow> wi_loaded v field \<noteq> None)"

lemma fills_once: "fills field (once field m)"
  by (auto simp: fills_def once_def bnd_def gets_def seq_def modify_def ret_def split: option.splits prod.splits outcome.splits)

lemma fills_first:
  assumes "fills field m" "\<And>x. loads 100 (f x)" shows "fills field (bnd m f)"
  unfolding fills_def
proof (intro allI impI)
  fix w y u assume run: "bnd m f w = (Ok y, u)"
  obtain x v where 1: "m w = (Ok x, v)" "f x v = (Ok y, u)" using run by (rule bnd_OkE)
  obtain z t where 2: "f x v = (Ok z, t)" "reaches 100 v t" by (rule loadsE[OF assms(2)])
  have "wi_loaded v field \<noteq> None" using assms(1) 1(1) by (auto simp: fills_def)
  then show "wi_loaded u field \<noteq> None" using 1(2) 2 by (auto simp: reaches_def dom_def)
qed

lemma fills_rest: "(\<And>x. fills field (f x)) \<Longrightarrow> fills field (bnd m f)"
  unfolding fills_def by (auto elim!: bnd_OkE)

lemma fills_args: "fills field m \<Longrightarrow> loads 100 (map_prog id ms) \<Longrightarrow> fills field (map_prog id (held m # ms))"
  "fills field (map_prog id ms) \<Longrightarrow> fills field (map_prog id (a # ms))"
  by (simp_all add: held_def) (intro fills_first fills_rest loads_intros; simp)+

lemma loads_alloc: "c \<notin> snd ` set singles \<Longrightarrow> loads n (alloc c args)"
  unfolding loads_def alloc_def reaches_def cached_def by (force simp: nth_append less_Suc_eq)

lemma fills_made_of: "fills field (map_prog id args) \<Longrightarrow> c \<notin> snd ` set singles \<Longrightarrow> fills field (made_of c args)"
  unfolding made_of_def by (rule fills_first, assumption, rule loads_alloc)

lemma fills_service: "fills ''d.deploymentStateService'' d_loadDeploymentStateService"
  "fills ''f.releaseManager'' f_loadReleaseManager"
  unfolding d_loadDeploymentStateService_def f_loadReleaseManager_def by (rule fills_once)+

lemma fills_installer: "fills ''f.releaseManager'' d_loadCpiInstaller"
  unfolding d_loadCpiInstaller_def
  by (rule fills_made_of, rule fills_args(1), rule fills_service) (intro loads_intros; simp)+

lemma fills_commands:
  "fills ''f.releaseManager'' d_loadDeploymentPreparer" "fills ''d.deploymentStateService'' d_loadDeploymentPreparer"
  "fills ''f.releaseManager'' d_loadDeploymentDeleter" "fills ''d.deploymentStateService'' d_loadDeploymentDeleter"
proof -
  show "fills ''f.releaseManager'' d_loadDeploymentPreparer" unfolding d_loadDeploymentPreparer_def
    by (rule fills_rest, rule fills_rest, rule fills_rest, rule fills_rest, rule fills_first, rule fills_installer)
      (intro loads_intros; simp)
  show "fills ''d.deploymentStateService'' d_loadDeploymentPreparer" unfolding d_loadDeploymentPreparer_def
    by (rule fills_first, rule fills_made_of, rule fills_args(1), rule fills_service) (intro loads_intros; simp)+
  show "fills ''f.releaseManager'' d_loadDeploymentDeleter" unfolding d_loadDeploymentDeleter_def
    by (rule fills_first, rule fills_installer) (intro loads_intros; simp)
  show "fills ''d.deploymentStateService'' d_loadDeploymentDeleter" unfolding d_loadDeploymentDeleter_def
    by (rule fills_rest, rule fills_made_of, rule fills_args(2), rule fills_args(1), rule fills_service) (intro loads_intros; simp)+
qed

lemma wired_cached:
  "cached (wired deleting ws m target) \<and> wi_loaded (wired deleting ws m target) ''f.releaseManager'' \<noteq> None
     \<and> wi_loaded (wired deleting ws m target) ''d.deploymentStateService'' \<noteq> None"
proof -
  let ?w0 = "(new_fields ''d.'' (NewFactory ws))\<lparr>wi_deploymentManifestPath := m\<rparr>"
  let ?c = "if deleting then d_loadDeploymentDeleter else d_loadDeploymentPreparer"
  have "loads 10 ?c" using loads_commands by simp
  then obtain x v where v: "?c ?w0 = (Ok x, v)" "reaches 10 ?w0 v" by (rule loadsE)
  let ?w1 = "(new_fields ''c.'' v)\<lparr>wi_target := target\<rparr>"
  obtain y u where u: "made_of ''NewInstaller'' [path_of wi_target, held c_JobRenderer, held c_JobResolver, held c_PackageCompiler,
      held c_BlobExtractor, held f_loadRegistryServerManager] ?w1 = (Ok y, u)" "reaches 20 ?w1 u"
    by (rule loadsE[OF loads_installer])
  have u_is: "wired deleting ws m target = u"
    using v(1) u(1) by (cases deleting)
      (simp_all add: wired_def deployment_deleter_def deployment_preparer_def installer_for_def seq_def bnd_def modify_def)
  have w0: "wi_loaded ?w0 = Map.empty" "wi_objs ?w0 = []" by (auto simp: new_fields_def NewFactory_def)
  then have "cached ?w0" by (simp add: cached_def)
  then have cv: "cached v" using v(2) by (simp add: reaches_def)
  have none: "wi_loaded v field = None" if "10 \<le> level field" for field
    using v(2) that w0(1) by (simp add: reaches_def)
  have "list_all (\<lambda>(field, c). HasPrefix field ''c.'' \<longrightarrow> 10 \<le> level field) singles" by code_simp
  then have "wi_loaded ?w1 field = wi_loaded v field" if "(field, c) \<in> set singles" for field c
    using none[of field] that by (auto simp: new_fields_def list_all_iff)
  then have "cached ?w1" using cv unfolding cached_def by (auto simp: new_fields_def)
  moreover have "wi_loaded v ''f.releaseManager'' \<noteq> None \<and> wi_loaded v ''d.deploymentStateService'' \<noteq> None"
    using v(1) fills_commands by (cases deleting) (fastforce simp: fills_def)+
  then have "wi_loaded ?w1 ''f.releaseManager'' \<noteq> None \<and> wi_loaded ?w1 ''d.deploymentStateService'' \<noteq> None"
    by (simp add: new_fields_def HasPrefix_def)
  ultimately show ?thesis using u(2) unfolding u_is reaches_def by blast
qed

text \<open>One release manager and one service of the deployment state; of the others at most one.\<close>

lemma wired_made:
  "made ''birel.NewManager'' (wired deleting ws m target) = 1"
  "made ''biconfig.NewFileSystemDeploymentStateService'' (wired deleting ws m target) = 1"
  "c \<in> snd ` set singles \<Longrightarrow> made c (wired deleting ws m target) \<le> 1"
proof -
  let ?w = "wired deleting ws m target"
  have one: "(''f.releaseManager'', ''birel.NewManager'') \<in> set singles"
    "(''d.deploymentStateService'', ''biconfig.NewFileSystemDeploymentStateService'') \<in> set singles" by code_simp+
  show "made ''birel.NewManager'' ?w = 1" "made ''biconfig.NewFileSystemDeploymentStateService'' ?w = 1"
    using cached_made[of ?w, OF _ one(1)] cached_made[of ?w, OF _ one(2)] wired_cached[of deleting ws m target] by auto
  assume "c \<in> snd ` set singles"
  then obtain field where "(field, c) \<in> set singles" by auto
  then show "made c ?w \<le> 1"
    using cached_made[of ?w field c] wired_cached[of deleting ws m target] by (simp split: option.splits)
qed

lemma wired_all: "list_all (\<lambda>(field, c). made c (wired deleting ws m target) \<le> 1) singles"
  unfolding list_all_iff
proof (clarify)
  fix field c assume "(field, c) \<in> set singles"
  then have "snd (field, c) \<in> snd ` set singles" by (rule imageI)
  then show "made c (wired deleting ws m target) \<le> 1" unfolding snd_conv by (rule wired_made(3))
qed

end
