(* ===== verification/Examples.thy ===== *)
theory Examples
  imports Release Cloud RepoSteps
begin

text \<open>
  Concrete inputs on which the properties of the root theory are applied: small package
  graphs, worlds whose outside answers are given, manifests and state files.
\<close>

section \<open>Package graphs\<close>

definition ex_package :: "string \<Rightarrow> nat list \<Rightarrow> Package" where
  "ex_package name ds = \<lparr>pk_Name = name, pk_Fingerprint = ''f'', pk_SHA1 = ''s'', pk_Stemcell = '''',
     pk_Dependencies = ds, pk_ExtractedPath = ''/x'', pk_ArchivePath = ''/a''\<rparr>"

text \<open>A cycle, with a package below it.\<close>

definition ex_cycle :: heap where
  "ex_cycle = [ex_package ''a'' [1], ex_package ''b'' [0, 2], ex_package ''c'' []]"

text \<open>A chain of four packages.\<close>

definition ex_chain :: heap where
  "ex_chain = [ex_package ''a'' [1], ex_package ''b'' [2], ex_package ''c'' [3], ex_package ''d'' []]"

definition ex_job :: "nat list \<Rightarrow> Job" where
  "ex_job ps = \<lparr>jb_Name = ''j'', jb_Fingerprint = ''f'', jb_SHA1 = ''s'', jb_ExtractedPath = ''/j'',
     jb_Templates = [], jb_PackageNames = [], jb_Packages = ps, jb_Properties = []\<rparr>"

section \<open>Worlds\<close>

text \<open>An outside that answers every request with success; the n-th UUID is n+1 times the letter u.\<close>

definition ok_answer :: "nat \<Rightarrow> answer" where
  "ok_answer n = \<lparr>a_err = None, a_torn = None, a_str = Inr ''/tmp/x'', a_uuid = Inr (replicate (Suc n) CHR ''u''),
     a_cpi = Inr (Inr \<lparr>co_Result = PStr ''cid'', co_Error = None, co_Log = ''''\<rparr>),
     a_state = Inr \<lparr>as_JobState = ''running'', as_NetworkSpecs = []\<rparr>, a_strs = Inr [],
     a_blob = Inr \<lparr>br_Name = ''n'', br_Version = ''v'', br_SHA1 = ''s'', br_BlobstoreID = ''b''\<rparr>,
     a_files = [], a_elapsed = 0\<rparr>"

definition ex_world :: world where
  "ex_world = \<lparr>files = Map.empty, calls = [], tick = 0, clock = 0, answers = ok_answer,
     simple_mode = (\<lambda>_. True), ui = [], mem_index = Map.empty\<rparr>"

lemma ex_world_fresh [simp]: "fresh_ids ex_world {}"
  by (auto simp: fresh_ids_def ex_world_def ok_answer_def)

lemma ex_world_atomic [simp]: "atomic_writes ex_world"
  by (simp add: atomic_writes_def ex_world_def ok_answer_def)

end
