(* ===== verification/CommandTraces.thy ===== *)
theory CommandTraces
  imports CommandLine
begin

text \<open>
  The calls the commands make, by the rules of \<^verbatim>\<open>Traces\<close>: what deploying does before the
  deployment itself makes no CPI call, and deleting a deployment asks the CPI for nothing but
  the state of the VM and deletions.
\<close>

section \<open>Files and repositories\<close>

lemma adds_state_file [adds_intros]:
  "adds K (Load p)" "adds K (Save p st)" "adds K (StateService_Exists p)" "adds K (StateFile.Cleanup p)"
  unfolding Load_def Save_def initDefaults_def StateService_Exists_def StateFile.Cleanup_def Let_def
  by (intro adds_intros)+

lemma adds_NewTarget [adds_intros]: "adds K (NewTarget p dir)"
  unfolding NewTarget_def by (intro adds_intros)

lemma adds_paths [adds_intros]: "adds K (ExpandPath q)" "adds K (AbsolutifyPath m q)"
  unfolding ExpandPath_def AbsolutifyPath_def by (intro adds_intros)+

lemma adds_indices [adds_intros]:
  "adds K (readRawEntries q)" "adds K (writeRawEntries q es)" "adds K (FileIndex_Find q dec k)" "adds K (FileIndex_Save q k v)"
  unfolding readRawEntries_def writeRawEntries_def FileIndex_Find_def FileIndex_Save_def
  by (intro adds_intros)+

lemma adds_repos [adds_intros]:
  "adds K (VMRepo_FindCurrent p)" "adds K (VMRepo_ClearCurrent p)" "adds K (StemcellRepo_ClearCurrent p)"
  "adds K (DiskRepo_Find p cid)" "adds K (DiskRepo_Delete p d)" "adds K (DiskRepo_FindCurrent p)" "adds K (DiskRepo_All p)"
  "adds K (StemcellRepo_Find p n v)" "adds K (StemcellRepo_Delete p s)" "adds K (StemcellRepo_FindCurrent p)" "adds K (StemcellRepo_All p)"
  "adds K (DeploymentRepo_FindCurrent p)" "adds K (ReleaseRepo_List p)"
  unfolding VMRepo_FindCurrent_def VMRepo_ClearCurrent_def VMRepo_UpdateCurrent_def StemcellRepo_ClearCurrent_def DiskRepo_Find_def DiskRepo_Delete_def
    DiskRepo_FindCurrent_def DiskRepo_All_def StemcellRepo_Find_def StemcellRepo_Delete_def StemcellRepo_FindCurrent_def
    StemcellRepo_All_def DeploymentRepo_FindCurrent_def StemcellRepo_updateConfig_def StemcellRepo_load_def DiskRepo_load_def ReleaseRepo_List_def Let_def
  by (intro adds_intros)+

lemma adds_migration [adds_intros]: "adds K (MigrateIfExists u p q)"
  unfolding MigrateIfExists_def migrate_def legacy_director_def legacy_disk_def legacy_stemcell_def Let_def
  by (intro adds_intros)

section \<open>Downloads and releases\<close>

lemma adds_PerformComplex [adds_intros]: "(\<And>s. adds K (f s)) \<Longrightarrow> adds K (PerformComplex d n f)"
  unfolding PerformComplex_def by (intro adds_intros)

lemma adds_catch [adds_intros]: "adds K m \<Longrightarrow> adds K (catch m)"
  by (erule adds_same[rotated]) (auto simp: catch_def split: prod.splits outcome.splits)

text \<open>\<open>catch\<close> lets a computation that does not end through, so what it yields is a result.\<close>

lemma catch_Ok: "catch m w = (Ok r, w') \<Longrightarrow> r \<noteq> Hang"
  by (auto simp: catch_def split: prod.splits outcome.splits)

lemma adds_keeping [adds_intros]:
  assumes "adds K m" "\<And>x. adds K (f x)" shows "adds K (keeping s m f)"
  unfolding keeping_def
proof (rule adds_bnd_result[OF adds_catch[OF assms(1)]])
  fix w r w' assume "catch m w = (Ok r, w')"
  then show "adds K (case r of Ok x \<Rightarrow> f x | Err e \<Rightarrow> ret (s, Err e) | Panic msg \<Rightarrow> ret (s, Panic msg) | Hang \<Rightarrow> ret (s, Hang))"
    using catch_Ok by (cases r) (auto intro: adds_intros assms)
qed

text \<open>\<open>results P m\<close>: whatever \<open>m\<close> yields satisfies \<open>P\<close>; what follows need only be considered then.\<close>

definition results :: "('a \<Rightarrow> bool) \<Rightarrow> (world, 'a) prog \<Rightarrow> bool" where
  "results P m \<longleftrightarrow> (\<forall>w. wp m (\<lambda>r w'. \<forall>x. r = Ok x \<longrightarrow> P x) w)"

lemma results_ret: "P x \<Longrightarrow> results P (ret x)"
  by (simp add: results_def wp_ret)

lemma resultsD: "results P m \<Longrightarrow> m w = (Ok x, w') \<Longrightarrow> P x"
  unfolding results_def by (drule spec[of _ w], drule (1) wpD) simp

lemma resultsI: "(\<And>w x w'. m w = (Ok x, w') \<Longrightarrow> P x) \<Longrightarrow> results P m"
  unfolding results_def by (auto intro!: wpI)

lemma results_bnd: "results P m \<Longrightarrow> (\<And>x. P x \<Longrightarrow> results Q (f x)) \<Longrightarrow> results Q (bnd m f)"
  by (rule resultsI) (elim bnd_OkE, blast dest: resultsD)

lemma results_any: "results (\<lambda>_. True) m"
  by (rule resultsI) simp

lemma adds_results: "adds K m \<Longrightarrow> results P m \<Longrightarrow> (\<And>x. P x \<Longrightarrow> adds K (f x)) \<Longrightarrow> adds K (bnd m f)"
  by (rule adds_bnd_result) (auto dest: resultsD)

lemma results_wrap: "results P m \<Longrightarrow> results P (wrap msg m)"
  unfolding wrap_def by (rule resultsI) (blast dest: wrapf_OkE resultsD)

text \<open>
  \<open>ends Q m\<close>: the outcome that \<open>m\<close> carries along with its state is not that of a computation
  that does not end, and a success satisfies \<open>Q\<close>.
\<close>

definition ends :: "('s \<Rightarrow> 'a \<Rightarrow> bool) \<Rightarrow> (world, 's \<times> 'a outcome) prog \<Rightarrow> bool" where
  "ends Q = results (\<lambda>(s, r). r \<noteq> Hang \<and> (\<forall>x. r = Ok x \<longrightarrow> Q s x))"

lemma ends_ret: "r \<noteq> Hang \<Longrightarrow> (\<And>x. r = Ok x \<Longrightarrow> Q s x) \<Longrightarrow> ends Q (ret (s, r))"
  unfolding ends_def by (rule results_ret) simp

lemma ends_keeping:
  assumes "results P m" "\<And>x. P x \<Longrightarrow> ends Q (f x)"
  shows "ends Q (keeping s m f)"
proof -
  have "results (\<lambda>r. r \<noteq> Hang \<and> (\<forall>x. r = Ok x \<longrightarrow> P x)) (catch m)"
    by (rule resultsI) (auto simp: catch_def dest: resultsD[OF assms(1)] split: prod.splits outcome.splits)
  then show ?thesis unfolding keeping_def ends_def
    by (rule results_bnd) (auto split: outcome.splits intro!: results_ret assms(2)[unfolded ends_def])
qed

lemma ends_keeping_any: "(\<And>x. ends Q (f x)) \<Longrightarrow> ends Q (keeping s m f)"
  by (rule ends_keeping[OF results_any])

lemma ends_fetch_all: "(\<And>s. ends Q (k s)) \<Longrightarrow> ends Q (fetch_all f rs s k)"
  by (induction rs arbitrary: s) (auto intro: ends_keeping_any)

lemma ends_complex_run: "(\<And>s. ends Q (f s)) \<Longrightarrow> ends Q (complex_run d name f)"
  unfolding ends_def complex_run_def seq_def
  by (rule results_bnd[OF results_any], rule results_bnd[OF results_any], rule results_bnd[OF results_any],
      rule results_bnd[OF results_any], rule results_bnd[OF results_any], rule results_bnd, assumption)
     (clarsimp, (rule results_bnd[OF results_any])+, simp add: results_ret)

lemma adds_complex_run [adds_intros]: "(\<And>s. adds K (f s)) \<Longrightarrow> adds K (complex_run d n f)"
proof -
  have "adds K (case r of Ok x \<Rightarrow> PrintLinef d a | Err e \<Rightarrow> PrintLinef d b | _ \<Rightarrow> ret ())" for r :: "'b outcome" and a b
    by (cases r) (simp_all add: adds_intros)
  then show "(\<And>s. adds K (f s)) \<Longrightarrow> adds K (complex_run d n f)"
    unfolding complex_run_def by (intro adds_intros)
qed

text \<open>The outcome carried by the stage of a validation, and what is done with it.\<close>

lemma adds_validated:
  assumes "\<And>s. adds K (f s)" "\<And>s. ends Q (f s)" "\<And>s. adds K (h s)"
    "\<And>s x. Q s x \<Longrightarrow> adds K (g s x)"
  shows "adds K (bnd (complex_run d name f) (\<lambda>(s, validated). deferred (bnd (lift_outcome validated) (g s)) (h s)))"
proof (rule adds_results[OF adds_complex_run[OF assms(1)] ends_complex_run[OF assms(2), unfolded ends_def]], clarify, goal_cases)
  case (1 s r)
  then have r: "r \<noteq> Hang" "\<And>x. r = Ok x \<Longrightarrow> Q s x" by auto
  have "adds K (bnd (lift_outcome r) (g s))"
    by (rule adds_results[OF adds_lift_outcome[OF r(1)], where P = "Q s"])
      (auto simp: results_def wp_lift_outcome r(2) assms(4))
  then show ?case by (intro adds_deferred assms(3))
qed

lemma adds_fetch_all [adds_intros]:
  "(\<And>r s. adds K (f r s)) \<Longrightarrow> (\<And>s. adds K (k s)) \<Longrightarrow> adds K (fetch_all f rs s k)"
  by (induction rs arbitrary: s) (auto intro!: adds_intros)

lemma adds_DecompressFileToDir [adds_intros]: "adds non_cpi (DecompressFileToDir a b)"
  unfolding DecompressFileToDir_def by (intro adds_intros adds_modify) (simp_all add: set_file_def)

lemma adds_Provider_Get [adds_intros]: "adds non_cpi (Provider_Get s1 s2 pv src desc stage)"
  unfolding Provider_Get_def Let_def Cache_Get_def downloadRetryable_def download_def Cache_Save_def
  by (intro adds_intros) simp_all

lemma adds_read_packages: "adds non_cpi (read_packages dir b ms s)"
proof (induction ms arbitrary: s)
  case (Cons m ms)
  have "adds non_cpi (read_package dir b m s)"
    unfolding read_package_def Let_def by (cases s) (auto intro!: adds_intros split: prod.splits)
  then show ?case by (auto intro!: adds_intros Cons)
qed (simp add: adds_intros)

lemma adds_read_jobs: "adds non_cpi (read_jobs u dir h ps ms jobs errs)"
proof (induction ms arbitrary: jobs errs)
  case (Cons m ms)
  have "adds non_cpi (JobReader_Read u a b)" for a b unfolding JobReader_Read_def by (intro adds_intros)
  then show ?case by (auto simp: Let_def intro!: adds_intros Cons)
qed (simp add: adds_intros)

lemma adds_ReleaseExtractor [adds_intros]: "adds non_cpi (ReleaseExtractor_Extract ur uj h tarball)"
  unfolding ReleaseExtractor_Extract_def ReleaseReader_Read_def newReleaseFromManifest_def newPackagesFromManifestPackages_def
    Release_Validate_def Let_def
  by (intro adds_intros adds_read_packages adds_read_jobs) simp_all

lemma adds_fetchers [adds_intros]:
  "adds non_cpi (loadReleaseFetcher X ws ref stage s)" "adds non_cpi (loadStemcellFetcher X ws d stage)"
  unfolding loadReleaseFetcher_def DownloadAndExtract_def loadStemcellFetcher_def GetStemcell_def StemcellExtractor_Extract_def
    StemcellReader_Read_def Let_def
  by (intro adds_intros; simp)+

lemma adds_parsers [adds_intros]:
  "adds K (ReleaseSetAndInstallationManifest X m)" "adds K (GetDeploymentManifest X rels m refs stage)"
  "adds K (ValidateCpiRelease rels im stage)"
  unfolding ReleaseSetAndInstallationManifest_def ReleaseSet_Parse_def InstallationManifest_Parse_def GetDeploymentManifest_def
    Manifest_Parse_def parseDeploymentManifest_def parseResourcePoolManifests_def parseResourcePool_def ValidateCpiRelease_def Let_def
  by (intro adds_intros)+

lemma adds_cleanups [adds_intros]:
  "adds K (ExtractedStemcell_Delete stem)" "adds K (ReleaseManager_DeleteAll rels)"
  unfolding ExtractedStemcell_Delete_def ReleaseManager_DeleteAll_def Release_Delete_def by (intro adds_intros)+

lemma adds_PrepareAndSetTempRoot [adds_intros]: "adds non_cpi (PrepareAndSetTempRoot q)"
  unfolding PrepareAndSetTempRoot_def by (intro adds_intros) simp

lemma adds_IsDeployed [adds_intros]: "adds non_cpi (IsDeployed sha p m rels stem)"
  unfolding IsDeployed_def by (intro adds_intros)

section \<open>What a deployment has checked\<close>

text \<open>The compiled releases are of the templates, and compiled for the stemcell.\<close>

definition compiled_ok :: "heap \<Rightarrow> string list \<Rightarrow> ExtractedStemcell option \<Rightarrow> Release list \<Rightarrow> bool" where
  "compiled_ok h names stem rels \<longleftrightarrow> (\<forall>r \<in> set rels. rl_isCompiled r \<longrightarrow> rl_Name r \<in> set names \<and> rl_Packages r \<noteq> []
     \<and> (\<exists>s. stem = Some s \<and> ToLower (pk_Stemcell (h ! hd (rl_Packages r))) = ToLower (OsAndVersion s)))"

lemma check_compiled_iff: "check_compiled h names stem rels = Ok () \<longleftrightarrow> compiled_ok h names stem rels"
proof (induction rels)
  case (Cons r rels)
  then show ?case by (cases "rl_Packages r") (auto simp: compiled_ok_def split: option.splits)
qed (simp add: compiled_ok_def)

text \<open>Without a stemcell the first compiled release of the templates makes it panic.\<close>

lemma check_compiled_nil:
  assumes "\<And>x. x \<in> set pre \<Longrightarrow> \<not> rl_isCompiled x" "rl_isCompiled r" "rl_Name r \<in> set names" "rl_Packages r \<noteq> []"
  shows "check_compiled h names None (pre @ r # rs) = Panic ''nil pointer dereference''"
  using assms by (induction pre) (auto split: list.splits)

definition checked :: "externals \<Rightarrow> heap \<times> Release list \<Rightarrow> InstallationManifest \<Rightarrow> Manifest \<Rightarrow> ExtractedStemcell option \<Rightarrow> bool" where
  "checked X s im d stem \<longleftrightarrow>
     (\<exists>c raw refs. x_deployment X c = Inr raw \<and> parsed_manifest raw d \<and> valid_manifest d refs)
     \<and> (\<forall>j \<in> set (mf_Jobs d). \<forall>t \<in> set (mj_Templates j). \<exists>job. JobResolver_Resolve (snd s) (rj_Name t) (rj_Release t) = Inr job)
     \<and> cpi_release_valid (snd s) im \<and> compiled_ok (fst s) (nonCpiReleases d im) stem (snd s)"


lemma GetDeploymentManifest_wp:
  "wp (GetDeploymentManifest X rels m refs stage) (\<lambda>r w'. returns r \<and> files w' = files w \<and> calls w' = calls w \<and> (\<forall>d. r = Ok d \<longrightarrow>
     (\<exists>c raw. files w m = Some c \<and> x_deployment X c = Inr raw \<and> parsed_manifest raw d) \<and> valid_manifest d refs
     \<and> ValidateReleaseJobs d rels = Inr ())) w"
  unfolding GetDeploymentManifest_def
proof (rule wp_Perform_val, simp add: unseen_def, rule wp_bnd_wrapf[OF Manifest_Parse_gives], goal_cases)
  case (1 u s d w')
  then have "files w' = files w" "calls w' = calls w" by (auto simp: ticked_frame)
  with 1 show ?case
    by (auto simp: wp_simps unskip_def Manifest_Validate_iff[symmetric] split: sum.splits outcome.splits)
next
  case (2 u s e w')
  then have "files w' = files w" "calls w' = calls w" by (auto simp: ticked_frame)
  with 2 show ?case by (auto simp: unskip_def)
qed auto

lemma check_compiled_ends: "check_compiled h names stem rels \<noteq> Hang"
  by (induction rels) (auto split: option.split list.split)

lemmas adds_check_compiled [adds_intros] = check_compiled_ends [THEN adds_lift_outcome]

lemma checkedI:
  assumes "x_deployment X c = Inr raw" "parsed_manifest raw d" "valid_manifest d refs"
    "\<forall>j \<in> set (mf_Jobs d). \<forall>t \<in> set (mj_Templates j). \<exists>job. JobResolver_Resolve (snd s) (rj_Name t) (rj_Release t) = Inr job"
    "cpi_release_valid (snd s) im" "compiled_ok (fst s) (nonCpiReleases d im) stem (snd s)"
  shows "checked X s im d stem"
  using assms unfolding checked_def by blast

lemma validate_step_checked:
  "ends (\<lambda>s (im, d, stem). checked X s im d stem) (validate_step X ws m stage)"
proof -
  have manifest: "results (\<lambda>d. (\<exists>c raw refs. x_deployment X c = Inr raw \<and> parsed_manifest raw d \<and> valid_manifest d refs)
      \<and> ValidateReleaseJobs d rels = Inr ()) (GetDeploymentManifest X rels m refs stage)" for rels refs
    unfolding results_def by (rule allI, rule wp_mono[OF GetDeploymentManifest_wp]) blast
  have compiled: "results (\<lambda>_. compiled_ok h names stem rels) (lift_outcome (check_compiled h names stem rels))" for h names stem rels
    by (auto simp: results_def wp_lift_outcome check_compiled_iff[symmetric])
  have cpi: "results (\<lambda>_. cpi_release_valid rels im) (ValidateCpiRelease rels im stage)" for rels im
    unfolding results_def by (rule allI, rule wp_mono[OF ValidateCpiRelease_wp]) simp
  show ?thesis unfolding validate_step_def
    by (rule ends_keeping_any, unfold split_beta, rule ends_fetch_all, rule ends_keeping[OF cpi], rule ends_keeping[OF manifest],
        rule ends_keeping_any, rule ends_keeping[OF compiled], rule ends_ret)
       (simp split: sum.split, clarsimp simp: ValidateReleaseJobs_iff split: sum.splits, rule checkedI, assumption+, simp_all)
qed


text \<open>
  When the manifest, the releases or the stemcell do not pass the checks, a deployment makes no
  CPI call at all.
\<close>

lemma PrepareDeployment_unchecked:
  assumes "\<And>s im d stem. \<not> checked X s im d stem"
  shows "adds non_cpi (PrepareDeployment X ws p m stage)"
proof -
  have V: "adds non_cpi (validate_step X ws m s)" for s
    unfolding validate_step_def by (intro adds_intros)
  show ?thesis unfolding PrepareDeployment_def loadTargetProvider_def
    by (rule adds_seq, rule adds_intros, rule adds_bnd, rule adds_intros, rule adds_seq, (intro adds_intros)[1],
      rule adds_bnd, (intro adds_intros)[1], rule adds_bnd, (intro adds_intros)[1], rule adds_seq, (intro adds_intros)[1],
      rule adds_validated[OF V validate_step_checked])
     (intro adds_intros, use assms in \<open>auto split: prod.splits\<close>)
qed

section \<open>Deleting a deployment\<close>

text \<open>The calls that create nothing.\<close>

definition deleting :: "call set" where
  "deleting = {k. \<forall>cmd inp. k = CallCpi cmd inp \<longrightarrow> ci_Method inp \<in> {''has_vm'', ''delete_vm'', ''delete_disk'', ''delete_stemcell''}}"

lemma non_cpi_deleting: "non_cpi \<subseteq> deleting"
  by (auto simp: non_cpi_def deleting_def)

lemmas adds_deleting = adds_mono[OF _ non_cpi_deleting]

lemma adds_CmdRunner:
  assumes "meth \<in> {''has_vm'', ''delete_vm'', ''delete_disk'', ''delete_stemcell''}"
  shows "adds deleting (CmdRunner_Run c meth as)"
  unfolding CmdRunner_Run_def Let_def
  by (intro adds_intros) (use assms in \<open>simp add: deleting_def\<close>)

lemma adds_property [adds_intros]:
  "(\<And>b. adds K (f b)) \<Longrightarrow> adds K m \<Longrightarrow> adds K (case x of PBool b \<Rightarrow> f b | _ \<Rightarrow> m)"
  by (cases x) simp_all

lemma adds_deletions [adds_intros]:
  "adds deleting (HasVM c cid)" "adds deleting (DeleteVM c cid)" "adds deleting (DeleteDisk c cid)" "adds deleting (DeleteStemcell c cid)"
  unfolding HasVM_def DeleteVM_def DeleteDisk_def DeleteStemcell_def check_output_def
  by (intro adds_intros adds_CmdRunner; simp)+

lemma adds_not_found [adds_intros]:
  "adds K (allow_not_found a b r)" "adds K m \<Longrightarrow> adds K (skip_not_found a b m)"
  unfolding allow_not_found_def skip_not_found_def by (intro adds_intros; assumption)+

lemma adds_record_deletions [adds_intros]:
  "adds deleting (VM_Delete p c cid)" "adds deleting (Disk_Delete p c d)" "adds deleting (CloudStemcell_Delete p c s)"
  unfolding VM_Delete_def Disk_Delete_def CloudStemcell_Delete_def by (intro adds_intros)+

text \<open>Pinging ends, whatever the agent answers: every round takes at least the delay.\<close>

lemma adds_ping:
  assumes d: "0 < delay" and t: "0 \<le> timeout" and k: "CallPing \<in> K"
  shows "adds K (VM_WaitUntilReady timeout delay)"
proof -
  let ?ends = "\<lambda>w r w'. r \<noteq> Hang \<and> answers w' = answers w \<and> (\<exists>ks. calls w' = calls w @ ks \<and> set ks \<subseteq> K)"
  have loop: "dl < clock w + int n * delay \<Longrightarrow>
      wp (timeout_loop (Suc n) dl delay ping_attempt) (?ends w) w" for n dl and w :: world
  proof (induction n arbitrary: w)
    case 0
    then show ?case using k
      by (auto simp: ping_attempt_def wp_request wp_simps Let_def Now_def Sleep_def split: option.split)
  next
    case (Suc n)
    let ?c = "clock w + int (a_elapsed (answers w (tick w)))"
    let ?v = "w\<lparr>calls := calls w @ [CallPing], tick := Suc (tick w), clock := ?c + max 0 delay\<rparr>"
    have "dl < clock ?v + int n * delay" using Suc.prems d by (simp add: algebra_simps)
    then have "wp (timeout_loop (Suc n) dl delay ping_attempt) (?ends w) ?v"
      by (intro wp_mono[OF Suc.IH]) (use k in auto)
    then show ?case using k
      by (subst timeout_loop.simps(2))
        (auto simp: ping_attempt_def wp_request wp_simps Let_def Now_def Sleep_def simp del: timeout_loop.simps split: option.split)
  qed
  have "timeout - delay < timeout div delay * delay"
    using div_mult_mod_eq[of timeout delay] pos_mod_bound[OF d, of timeout] by linarith
  moreover have "0 \<le> timeout div delay" using d t by (simp add: pos_imp_zdiv_nonneg_iff)
  ultimately have "clock w + timeout - delay < clock w + int (nat (timeout div delay)) * delay" for w :: world by simp
  then show ?thesis
    unfolding VM_WaitUntilReady_def TimeoutRetry_def Now_def adds_wp wp_bnd wp_gets outcome.case
    by (intro allI loop)
qed

text \<open>So does dialling: a retryable failure comes before the end of both time-outs.\<close>

lemma adds_Tunnel: "adds UNIV (Tunnel_Start (NewSSHTunnel o1))"
proof -
  let ?t = "NewSSHTunnel o1"
  let ?ends = "\<lambda>w r w'. r \<noteq> Hang \<and> answers w' = answers w \<and> (\<exists>ks. calls w' = calls w @ ks)"
  have params: "tn_startDialDelay ?t = 500000000" "tn_connectionRefusedTimeout ?t = 300000000000"
    "tn_authFailureTimeout ?t = 120000000000" by (simp_all add: NewSSHTunnel_def)
  have round: "wp (dial_loop (Suc n) ?t s) (?ends w) w"
    if "\<And>e s' v. IsRetryable ?t (clock v - 500000000) e s = (True, s') \<Longrightarrow> clock w + 500000000 \<le> clock v \<Longrightarrow>
      answers v = answers w \<and> (\<exists>ks. calls v = calls w @ ks) \<Longrightarrow> wp (dial_loop n ?t s') (?ends w) v" for n s and w :: world
    by (auto simp: wp_request wp_simps Let_def Now_def Sleep_def params intro!: that split: option.split prod.splits)
  have more: "wp (dial_loop (Suc n) ?t s) (?ends w) w"
    if "retry_inv ?t t0 s" "t0 + 420000000000 \<le> clock w + int n * 500000000" for n s t0 and w :: world
    using that
  proof (induction n arbitrary: w s)
    case 0
    show ?case by (rule round) (use 0 IsRetryable_inv[of ?t] in \<open>fastforce simp: params\<close>)
  next
    case (Suc n)
    show ?case
    proof (rule round, goal_cases)
      case (1 e s' v)
      have "wp (dial_loop (Suc n) ?t s') (?ends v) v"
        by (rule Suc.IH) (use IsRetryable_inv[OF 1(1) Suc.prems(1)] 1(2) Suc.prems(2) in \<open>auto simp: params\<close>)
      then show ?case by (rule wp_mono) (use 1(3) in auto)
    qed
  qed
  have "wp (dial_loop (dial_fuel ?t) ?t \<lparr>rt_initialized = False, rt_startTime = 0, rt_authStartTime = 0\<rparr>) (?ends w) w" for w :: world
    unfolding dial_fuel_def
  proof (rule round, goal_cases)
    case (1 e s' v)
    have "wp (dial_loop (Suc 840) ?t s') (?ends v) v"
      by (rule more[of "clock v - 500000000"]) (use IsRetryable_first[OF 1(1)] in \<open>auto simp: params\<close>)
    moreover have "nat ((tn_connectionRefusedTimeout ?t + tn_authFailureTimeout ?t) div tn_startDialDelay ?t) = 840"
      by (simp add: params)
    ultimately show ?case by (simp only:) (rule wp_mono, assumption, use 1(3) in auto)
  qed
  then have "adds UNIV (dial_loop (dial_fuel ?t) ?t \<lparr>rt_initialized = False, rt_startTime = 0, rt_authStartTime = 0\<rparr>)"
    unfolding adds_wp by simp
  then show ?thesis unfolding Tunnel_Start_def by (intro adds_intros UNIV_I)
qed

lemma adds_shutdown: "0 < d \<Longrightarrow> 0 \<le> t \<Longrightarrow> adds non_cpi (shutdown i t d stage)"
  unfolding shutdown_def stopJobs_def VM_Stop_def unmountDisks_def VM_Disks_def VM_UnmountDisk_def
  by (intro adds_intros adds_ping; simp)

lemma adds_Instance_Delete: "0 < d \<Longrightarrow> 0 \<le> t \<Longrightarrow> adds deleting (Instance_Delete p c i t d stage)"
  unfolding Instance_Delete_def VM_Exists_def by (intro adds_intros adds_deleting adds_shutdown)

text \<open>The deployment found was made with the delays of the factory.\<close>

definition ping_delays :: "Deployment \<Rightarrow> bool" where
  "ping_delays d \<longleftrightarrow> 0 < de_pingDelay d \<and> 0 \<le> de_pingTimeout d"

lemma adds_Deployment_Delete: "ping_delays d \<Longrightarrow> adds deleting (Deployment_Delete p c d stage)"
  unfolding Deployment_Delete_def Deployment_deleteDisk_def Deployment_deleteStemcell_def ping_delays_def
  by (intro adds_intros adds_Instance_Delete; simp)

lemma results_FindCurrent: "results (\<lambda>x. \<forall>d. x = Some d \<longrightarrow> ping_delays d) (DeploymentManager_FindCurrent p)"
  unfolding DeploymentManager_FindCurrent_def
  by (rule results_bnd[OF results_any])+ (rule results_ret, simp add: ping_delays_def NewDeployment_def Second_def Millisecond_def)

lemma adds_managers [adds_intros]:
  "adds K (DeploymentManager_FindCurrent p)" "adds deleting (DeploymentManager_Cleanup p c stage)"
  unfolding DeploymentManager_FindCurrent_def InstanceManager_FindCurrent_def VmManager_FindCurrent_def DiskManager_FindCurrent_def
    StemcellManager_FindCurrent_def DeploymentManager_Cleanup_def DiskManager_DeleteUnused_def DiskManager_FindUnused_def
    StemcellManager_DeleteUnused_def StemcellManager_FindUnused_def
  by (intro adds_intros)+

lemma adds_findAndDelete [adds_intros]: "adds deleting (findAndDeleteDeployment X p stage i dir mbus)"
proof -
  have "adds deleting (findCurrentDeploymentAndDelete p c stage)" for c
    unfolding findCurrentDeploymentAndDelete_def
    by (rule adds_results, intro adds_intros, rule results_wrap[OF results_FindCurrent])
      (intro adds_intros adds_Deployment_Delete; simp)
  then show ?thesis
    unfolding findAndDeleteDeployment_def deploymentManager_def CloudFactory_NewCloud_def NewCloud_def Let_def
    by (intro adds_intros)
qed

lemma adds_deferred_err [adds_intros]:
  assumes "adds K m" "adds K d" shows "adds K (deferred_err m d)"
proof -
  have "adds K (deferred m d)" using assms by (rule adds_deferred)
  then show ?thesis
    by (rule adds_same[rotated]) (auto simp: deferred_def deferred_err_def split: prod.splits outcome.splits)
qed

lemma adds_compile [adds_intros]: "adds non_cpi (JobDependencyCompiler iter1 iter2 h target js stage)"
  unfolding JobDependencyCompiler_def
proof (rule adds_DependencyCompiler)
  fix q
  have e: "adds non_cpi (Extract a b d)" for a b d unfolding Extract_def by (intro adds_intros) simp_all
  have "adds non_cpi (installPackages fnd h dir ps)" if "\<And>k. adds non_cpi (fnd k)" for fnd dir ps
    unfolding installPackages_def CompiledPackageRepo_Find_def by (intro adds_intros that e)
  note i = this
  show "adds non_cpi (InstallationStatePackageCompiler h target q)"
    unfolding InstallationStatePackageCompiler_def PackageCompiler_Compile_def Let_def CompiledPackageRepo_Find_def
      CompiledPackageRepo_Save_def installation_index_find_def installation_index_save_def
    by (intro adds_intros i) simp_all
qed

lemma adds_installer [adds_intros]: "adds non_cpi (loadCpiInstaller X h rels target m stage)"
proof -
  have "adds non_cpi (Extract a b d)" for a b d unfolding Extract_def by (intro adds_intros) simp_all
  moreover have "adds non_cpi (ChmodExecutables g)" for g unfolding ChmodExecutables_def by (intro adds_intros) simp_all
  moreover have "adds non_cpi (RenderAndUploadFrom script m js stage)" for script js stage
    unfolding RenderAndUploadFrom_def installation_renderJobTemplates_def JobListRenderer_Render_def compressAndUpload_def
      CompressFilesInDir_def
    by (intro adds_intros adds_render_jobs adds_modify) (simp_all add: set_file_def)
  ultimately show ?thesis
    unfolding loadCpiInstaller_def NewInstaller_def Install_def PackageCompiler_For_def Installer_installPackages_def installJob_def Let_def
    by (intro adds_intros)
qed

lemma adds_WithInstalled [adds_intros]:
  "(\<And>s. adds K (install m s)) \<Longrightarrow> (\<And>i. adds K (fn i)) \<Longrightarrow> non_cpi \<subseteq> K \<Longrightarrow> adds K (WithInstalledCpiRelease install m stage fn)"
  unfolding WithInstalledCpiRelease_def installCpiRelease_def cleanupInstall_def Installer_Cleanup_def Extractor_Cleanup_def
  by (intro adds_intros) (auto simp: non_cpi_def)

lemma adds_WithRunning [adds_intros]:
  "adds K fn \<Longrightarrow> non_cpi \<subseteq> K \<Longrightarrow> adds K (WithRunningRegistry i stage fn)"
  unfolding WithRunningRegistry_def StartRegistry_def stopRegistryNice_def StopRegistry_def ServerManager_Start_def Server_Stop_def Let_def
  by (intro adds_intros) (auto simp: non_cpi_def)

text \<open>Deleting a deployment asks the CPI only for the VM's existence and for deletions.\<close>

lemma adds_DeleteDeployment: "adds deleting (DeleteDeployment X ws p m stage)"
proof -
  have "adds non_cpi (validate_deletion X ws m s)" for s
    unfolding validate_deletion_def by (intro adds_intros)
  note V = adds_deleting[OF this]
  have E: "ends (\<lambda>_ _. True) (validate_deletion X ws m s)" for s
    unfolding validate_deletion_def split_beta by (rule ends_keeping_any | rule ends_ret | simp)+
  show ?thesis unfolding DeleteDeployment_def loadTargetProvider_def Uninstall_def
    by (intro adds_intros adds_validated[OF V E] adds_deleting[OF adds_PrepareAndSetTempRoot]
        adds_deleting[OF adds_installer] non_cpi_deleting)
qed

section \<open>The deletion of the current deployment\<close>

definition installed_cloud :: "Installation \<Rightarrow> string \<Rightarrow> cloud" where
  "installed_cloud i directorID = \<lparr>cl_CPI = \<lparr>cpi_JobPath = ij_Path (in_job i), cpi_JobsDir = JobsPath (in_target i),
     cpi_PackagesDir = PackagesPath (in_target i)\<rparr>, cl_DirectorID = directorID\<rparr>"

lemma does_FileExists: "does p st (FileExists q) (\<lambda>r ks st'. ks = [] \<and> st' = st \<and> (\<exists>x. r = Ok x))"
  by (rule does_frame) (simp add: FileExists_def wp_simps)

lemma does_check_post: "does p st (check b e) (\<lambda>r ks st'. ks = [] \<and> st' = st \<and> r = (if b then Ok () else Err e))"
  by (rule does_frame) (simp add: wp_simps)

lemma does_deploymentManager:
  "does p st (deploymentManager X i directorID mbus) (\<lambda>r ks st'. ks = [] \<and> st' = st \<and> plain_result r
    \<and> (\<forall>c. r = Ok c \<longrightarrow> c = installed_cloud i directorID))"
proof -
  have cloud: "does p st (CloudFactory_NewCloud i directorID) (\<lambda>r ks st'. ks = [] \<and> st' = st
    \<and> (\<forall>c. r = Ok c \<longrightarrow> c = installed_cloud i directorID))"
    unfolding CloudFactory_NewCloud_def NewCloud_def Let_def
    by (rule does_bnd[OF does_FileExists], clarsimp, rule does_seq[OF does_check_post])
       (auto simp: installed_cloud_def intro!: does_ret)
  show ?thesis unfolding deploymentManager_def
  proof (rule does_bnd_wrap[OF cloud], goal_cases)
    case (1 c ks st')
    then have "c = installed_cloud i directorID" "ks = []" "st' = st" by simp_all
    then show ?case
      by (simp only: append_Nil) (rule does_seq_wrap, rule does_lift_sum[where R = "\<lambda>r ks st'. ks = [] \<and> st' = st"], auto intro: does_ret)
  qed auto
qed

text \<open>
  On success nothing is left of the VM, the disks and the stemcells in the state; on every path
  a record disappears only after its deletion has been asked of the CPI.
\<close>

lemma does_findAndDelete:
  "does p st (findAndDeleteDeployment X p stage i directorID mbus) (clears (installed_cloud i directorID) cleared st)"
proof (rule does_wf, unfold findAndDeleteDeployment_def, rule does_bnd[OF does_deploymentManager], goal_cases)
  case (1 c ks st')
  then have s: "c = installed_cloud i directorID" "ks = []" "st' = st" by simp_all
  have cl: "does p st1 (DeploymentManager_Cleanup p c stage) (clears c (\<lambda>st. st\<lparr>Disks := filter (\<lambda>x. dr_ID x = CurrentDiskID st) (Disks st),
                              Stemcells := filter (\<lambda>x. sr_ID x = CurrentStemcellID st) (Stemcells st)\<rparr>) st1)" for st1
    by (rule does_mono[OF does_Cleanup]) (simp add: clears_def)
  have "does p st (findCurrentDeploymentAndDelete p c stage) (clears c without_current st)"
    unfolding findCurrentDeploymentAndDelete_def
  proof (rule does_bnd_wrap[OF does_DeploymentManager_FindCurrent], goal_cases)
    case (1 found ks st')
    then have s: "st' = st" "ks = []" "found = (if current_instances st = [] \<and> current_disks st = [] \<and> current_stemcells st = [] then None
      else Some (NewDeployment (current_instances st) (map NewDisk (current_disks st)) (map NewCloudStemcell (current_stemcells st))))"
      by auto
    show ?case unfolding s(1,2) append_Nil
    proof (rule does_PerformComplex, cases found)
      case None
      then have "without_current st = st"
        using s(3) by (auto simp: without_current_def clear_vm_def current_instances_def split: if_splits)
      then show "does p st (case found of None \<Rightarrow> ret () | Some d \<Rightarrow> Deployment_Delete p c d (Suc stage)) (clears c without_current st)"
        using None by (auto simp: clears_def accounts.none intro: does_ret)
    next
      case (Some d)
      then show "does p st (case found of None \<Rightarrow> ret () | Some d \<Rightarrow> Deployment_Delete p c d (Suc stage)) (clears c without_current st)"
        using s(3) does_Deployment_Delete by (auto split: if_splits)
    qed
  qed (auto simp: clears_def accounts.none)
  then have "does p st (wrap ''Deleting deployment'' (findCurrentDeploymentAndDelete p c stage)) (clears c without_current st)"
    by (intro does_wrap, elim does_mono) (auto simp: clears_def split: outcome.splits)
  note del = this
  show ?case unfolding s(2,3) append_Nil s(1)[symmetric]
    by (rule does_mono[OF clears_then[OF del cl]])
      (use clean_without_current[OF \<open>wf_state st\<close> refl] in \<open>auto simp: clears_def\<close>)
qed (auto simp: clears_def accounts.none)

text \<open>Without a state file nothing is deleted and nothing called.\<close>

lemma DeleteDeployment_no_state:
  assumes "files w p = None"
  shows "wp (DeleteDeployment X ws p m stage) (\<lambda>r w'. r = Ok () \<and> files w' = files w \<and> calls w' = calls w) w"
  using assms unfolding DeleteDeployment_def StateService_Exists_def FileExists_def PrintLinef_def put_ui_def
  by (simp add: wp_simps)

section \<open>A deployment is extended only\<close>

lemma adds_all: "adds K m \<Longrightarrow> adds UNIV m"
  by (erule adds_mono) simp

lemma adds_list3 [adds_intros]:
  "adds K m \<Longrightarrow> (\<And>x. adds K (f x)) \<Longrightarrow> adds K n \<Longrightarrow> adds K (case xs of [] \<Rightarrow> m | [x] \<Rightarrow> f x | _ \<Rightarrow> n)"
  by (cases xs rule: remdups_adj.cases) simp_all

lemma adds_deploy: "adds UNIV (deploy X p m s i dst stem im d stage)"
proof -
  have cmd: "adds UNIV (CmdRunner_Run c meth as)" for c meth as
    unfolding CmdRunner_Run_def Let_def by (intro adds_intros UNIV_I)
  have out: "adds K (check_output meth o1)" "adds K (cid_result o1)" for K meth o1
    unfolding check_output_def cid_result_def by (intro adds_intros | (cases "co_Result o1"; simp add: adds_intros))+
  have cloud: "adds UNIV (CreateStemcell c a1 a2)" "adds UNIV (CreateVM c a3 a4 a5 a6 a7)" "adds UNIV (SetVMMetadata c a8 a9)"
    "adds UNIV (CreateDisk c b1 b2 b3)" "adds UNIV (AttachDisk c b4 b5)" "adds UNIV (DetachDisk c b6 b7)"
    for c a1 a2 a3 a4 a5 a6 a7 a8 a9 b1 b2 b3 b4 b5 b6 b7
    unfolding CreateStemcell_def CreateVM_def SetVMMetadata_def CreateDisk_def AttachDisk_def DetachDisk_def
    by (intro adds_intros cmd out)+
  have repo: "adds K (VMRepo_UpdateCurrent p v)" "adds K (StemcellRepo_UpdateCurrent p v)" "adds K (StemcellRepo_Save p v v' v'')"
    "adds K (DiskRepo_UpdateCurrent p v)" "adds K (DiskRepo_Save p v sz cp)" "adds K (DeploymentRepo_UpdateCurrent p v)"
    "adds K (ReleaseRepo_Update p rs)" for K v v' v'' sz cp rs
    unfolding VMRepo_UpdateCurrent_def StemcellRepo_UpdateCurrent_def StemcellRepo_Save_def DiskRepo_UpdateCurrent_def DiskRepo_Save_def
      DeploymentRepo_UpdateCurrent_def ReleaseRepo_Update_def ReleaseRepo_newRecord_def StemcellRepo_updateConfig_def StemcellRepo_load_def
      DiskRepo_load_def Let_def
    by (intro adds_intros)+
  have disks: "adds UNIV (Disk_Delete p c dk)" "adds K (DiskManager_FindCurrent p)" "adds UNIV (DiskManager_DeleteUnused p c stage)"
    "adds UNIV (StemcellManager_DeleteUnused p c stage)" for K c dk stage
    by (rule adds_all, rule adds_intros) (unfold DiskManager_FindCurrent_def DiskManager_DeleteUnused_def DiskManager_FindUnused_def
      StemcellManager_DeleteUnused_def StemcellManager_FindUnused_def, (intro adds_intros adds_all[OF adds_record_deletions(2)] adds_all[OF adds_record_deletions(3)])+)
  have vm: "adds UNIV (VmManager_Create p c cid d)" "adds UNIV (VM_UpdateDisks p c stage vm pool)" for c cid stage vm pool
    unfolding VmManager_Create_def createAndRecordVm_def VM_UpdateDisks_def DiskDeployer_Deploy_def deployNewDisk_def deployExistingDisk_def
      migrateDisk_def attachDisk_def createDisk_def DiskManager_Create_def VM_AttachDisk_def VM_DetachDisk_def VM_MigrateDisk_def
      updateCurrentDiskRecord_def
    by (intro adds_intros cloud repo disks UNIV_I)+
  have ready: "adds UNIV (VM_WaitUntilReady (600 * Second) (500 * Millisecond))"
    by (rule adds_ping) (simp_all add: Second_def Millisecond_def)
  have new: "adds UNIV (InstanceManager_Create p c n k d stem1 rg stage)" for c n k stem1 rg stage
    unfolding InstanceManager_Create_def PromoteAsCurrent_def Instance_WaitUntilReady_def Instance_UpdateDisks_def Let_def
    by (intro adds_intros vm repo adds_Tunnel ready UNIV_I)
  have old: "adds UNIV (Instance_Delete p c i1 (10 * Second) (500 * Millisecond) stage)" for c i1 stage
    by (rule adds_all[OF adds_Instance_Delete]) (simp_all add: Second_def Millisecond_def)
  have build: "adds UNIV (UpdateJobs (loadBuilder X (fst s) (snd s)) i1 d stage)" for i1 stage
    unfolding loadBuilder_def by (rule adds_all, rule adds_UpdateJobs, rule adds_NewBuilder)
  have instances: "adds UNIV (createInstances p c (loadBuilder X (fst s) (snd s)) d stem1 rg stage jn ids acc)" for c stem1 rg stage jn ids acc
    by (induction ids arbitrary: acc) (auto intro!: adds_intros new build)
  have jobs: "adds UNIV (createJobs p c (loadBuilder X (fst s) (snd s)) d stem1 rg stage js acc)" for c stem1 rg stage js acc
    by (induction js arbitrary: acc) (auto intro!: adds_intros new build instances simp del: createInstances.simps)
  have "adds UNIV (Deploy p c (loadBuilder X (fst s) (snd s)) d stem1 rg stage)" for c stem1 rg stage
    unfolding Deploy_def DeleteAll_def createAllInstances_def InstanceManager_FindCurrent_def VmManager_FindCurrent_def
    by (intro adds_intros jobs old)
  note dep = this
  show ?thesis unfolding deploy_def CloudFactory_NewCloud_def NewCloud_def Upload_def Upload_step_def with_error_def Record_Clear_def Record_Update_def Let_def
    by (intro adds_intros dep disks cloud repo adds_all[OF adds_Calculate])
qed

text \<open>
  A deployment makes no CPI call, or first only other calls, up to the point where the
  validation has succeeded, on inputs that have passed the checks.
\<close>

definition after_checks :: "externals \<Rightarrow> string \<Rightarrow> string \<Rightarrow> nat \<Rightarrow> world \<Rightarrow> call list \<Rightarrow> bool" where
  "after_checks X ws m stage w ks \<longleftrightarrow> set ks \<subseteq> non_cpi \<or>
     (\<exists>kv kd s im d stem w1 w2. ks = kv @ kd \<and> set kv \<subseteq> non_cpi \<and> calls w2 = calls w @ kv
        \<and> complex_run stage ''validating'' (validate_step X ws m) w1 = (Ok (s, Ok (im, d, stem)), w2) \<and> checked X s im d stem)"

definition phased :: "externals \<Rightarrow> string \<Rightarrow> string \<Rightarrow> nat \<Rightarrow> (world, 'a) prog \<Rightarrow> bool" where
  "phased X ws m stage n \<longleftrightarrow>
     (\<forall>w. wp n (\<lambda>r w'. r \<noteq> Hang \<and> answers w' = answers w \<and> (\<exists>ks. calls w' = calls w @ ks \<and> after_checks X ws m stage w ks)) w)"

lemma phased_bnd:
  assumes n: "adds non_cpi n" and f: "\<And>x. phased X ws m stage (f x)"
  shows "phased X ws m stage (bnd n f)"
  unfolding phased_def
proof
  fix w :: world
  have step: "\<exists>ks. calls w'' = calls w @ ks \<and> after_checks X ws m stage w ks"
    if "calls w' = calls w @ k0" "set k0 \<subseteq> non_cpi" "calls w'' = calls w' @ ks" "after_checks X ws m stage w' ks" for w' w'' :: world and k0 ks
  proof (intro exI conjI)
    show "calls w'' = calls w @ (k0 @ ks)" using that by simp
    show "after_checks X ws m stage w (k0 @ ks)"
      using that(4) unfolding after_checks_def
    proof (elim disjE exE conjE, goal_cases)
      case 1
      then show ?case using that(2) by simp
    next
      case (2 kv kd s im d stem w1 w2)
      show ?case
        by (intro disjI2 exI[of _ "k0 @ kv"] exI[of _ kd] exI[of _ s] exI[of _ im] exI[of _ d] exI[of _ stem] exI[of _ w1] exI[of _ w2])
           (use 2 that(1,2) in auto)
    qed
  qed
  show "wp (bnd n f) (\<lambda>r w'. r \<noteq> Hang \<and> answers w' = answers w \<and> (\<exists>ks. calls w' = calls w @ ks \<and> after_checks X ws m stage w ks)) w"
  proof (rule wp_bnd_rule[OF addsD[OF n]], elim exE conjE, goal_cases)
    case (1 x w' k0)
    show ?case by (rule wp_mono[OF f[unfolded phased_def, rule_format]]) (use step[OF 1(3,4)] 1(2) in auto)
  qed (auto simp: after_checks_def)
qed

lemma phased_seq: "adds non_cpi n \<Longrightarrow> phased X ws m stage k \<Longrightarrow> phased X ws m stage (seq n k)"
  unfolding seq_def by (rule phased_bnd)

lemma phased_checked:
  assumes f: "\<And>s v. v \<noteq> Hang \<Longrightarrow> (\<And>x. v \<noteq> Ok x) \<Longrightarrow> adds non_cpi (f (s, v))" "\<And>s x. adds UNIV (f (s, Ok x))"
  shows "phased X ws m stage (bnd (complex_run stage ''validating'' (validate_step X ws m)) f)"
  unfolding phased_def
proof
  fix w :: world
  let ?V = "complex_run stage ''validating'' (validate_step X ws m)"
  have V: "adds non_cpi ?V" unfolding validate_step_def by (intro adds_intros)
  have "ends (\<lambda>s (im, d, stem). checked X s im d stem) ?V" by (rule ends_complex_run[OF validate_step_checked])
  then have E: "wp ?V (\<lambda>r w'. \<forall>s v. r = Ok (s, v) \<longrightarrow> v \<noteq> Hang \<and> (\<forall>im d stem. v = Ok (im, d, stem) \<longrightarrow> checked X s im d stem)) w"
    unfolding ends_def results_def by (elim allE[of _ w], elim wp_mono) auto
  have "wp ?V (\<lambda>r w'. ?V w = (r, w') \<and> r \<noteq> Hang \<and> answers w' = answers w \<and> (\<exists>ks. calls w' = calls w @ ks \<and> set ks \<subseteq> non_cpi)
      \<and> (\<forall>s v. r = Ok (s, v) \<longrightarrow> v \<noteq> Hang \<and> (\<forall>im d stem. v = Ok (im, d, stem) \<longrightarrow> checked X s im d stem))) w"
    by (rule wpI) (use wpD[OF E] wpD[OF addsD[OF V, of w]] in blast)
  then show "wp (bnd ?V f) (\<lambda>r w'. r \<noteq> Hang \<and> answers w' = answers w \<and> (\<exists>ks. calls w' = calls w @ ks \<and> after_checks X ws m stage w ks)) w"
  proof (rule wp_bnd_rule, elim exE conjE, goal_cases)
    case (1 x w2 kv)
    obtain s v where x: "x = (s, v)" by (cases x)
    show ?case
    proof (cases "\<exists>y. v = Ok y")
      case True
      then obtain im d stem where v: "v = Ok (im, d, stem)" by (metis prod_cases3)
      have "after_checks X ws m stage w (kv @ kd)" for kd
        unfolding after_checks_def
        by (intro disjI2 exI[of _ kv] exI[of _ kd] exI[of _ s] exI[of _ im] exI[of _ d] exI[of _ stem] exI[of _ w] exI[of _ w2])
           (use 1 x v in auto)
      moreover have "calls w2 = calls w @ kv" "answers w2 = answers w" using 1 by simp_all
      ultimately show ?thesis unfolding x v by (intro wp_mono[OF addsD[OF f(2)]]) auto
    next
      case False
      then have "adds non_cpi (f x)" unfolding x by (intro f(1)) (use 1 x in auto)
      then show ?thesis by (intro wp_mono[OF addsD]) (use 1 in \<open>auto simp: after_checks_def\<close>)
    qed
  qed (auto simp: after_checks_def)
qed

lemma PrepareDeployment_phased: "phased X ws m stage (PrepareDeployment X ws p m stage)"
proof -
  have inst: "adds UNIV (loadCpiInstaller X h rels target im s)" for h rels target im s by (rule adds_all[OF adds_installer])
  show ?thesis unfolding PrepareDeployment_def loadTargetProvider_def
  proof (rule phased_seq, rule adds_intros, rule phased_bnd, rule adds_intros, rule phased_seq, (intro adds_intros)[1],
      rule phased_bnd, (intro adds_intros)[1], rule phased_bnd, (intro adds_intros)[1], rule phased_seq, (intro adds_intros)[1],
      rule phased_checked, goal_cases)
    case (1 _ _ _ s v)
    have failing: "adds non_cpi (bnd (lift_outcome v) G)" for G :: "_ \<Rightarrow> (world, unit) prog"
      by (rule adds_bnd_result, rule adds_lift_outcome) (use 1 in \<open>auto simp: lift_outcome_def\<close>)
    show ?case unfolding prod.case by (rule adds_deferred[OF failing]) (intro adds_intros)
  next
    case (2 _ _ _ s x)
    show ?case unfolding prod.case by (intro adds_intros adds_all[OF adds_IsDeployed] inst adds_deploy subset_UNIV; simp)
  qed
qed

end
