(* ===== verification/CommandEnds.thy ===== *)
theory CommandEnds
  imports CommandTraces
begin

text \<open>
  How the commands end: the program returns an exit code or panics, whatever the outside answers,
  and a deletion that succeeds leaves no deployment state file.
\<close>

lemma wp_both: "wp m P w \<Longrightarrow> wp m Q w \<Longrightarrow> wp m (\<lambda>r w'. P r w' \<and> Q r w') w"
  by (simp add: wp_conj)

section \<open>The program ends\<close>

lemma adds_PrepareDeployment: "adds UNIV (PrepareDeployment X ws p m stage)"
  unfolding adds_wp
  by (rule allI, rule wp_mono[OF PrepareDeployment_phased[unfolded phased_def, rule_format]]) blast

lemma adds_with_manifest: "(\<And>m. adds UNIV (run m)) \<Longrightarrow> adds UNIV (with_manifest name run args)"
  unfolding with_manifest_def Abs_def ErrorLinef_def by (intro adds_intros)

lemma adds_commands: "adds UNIV (deployCmd_Run X ws stage args)" "adds UNIV (deleteCmd_Run X ws stage args)"
  "adds UNIV (helpCmd_Run args)" "adds UNIV (versionCmd_Run args)"
  unfolding deployCmd_Run_def deleteCmd_Run_def helpCmd_Run_def versionCmd_Run_def printGeneral_def printMissing_def printCommand_def
  by (intro adds_with_manifest adds_intros adds_PrepareDeployment adds_all[OF adds_DeleteDeployment])+

lemma adds_Runner_Run: "adds UNIV (Runner_Run X ws stage args)"
proof -
  have "adds UNIV (Cmd_Run X ws cmd stage rest)" for cmd rest
    by (cases cmd) (simp_all add: Cmd_Run_def adds_commands)
  then show ?thesis unfolding Runner_Run_def by (intro adds_intros)
qed

lemma adds_main_run: "adds UNIV (main_run X show text home args)"
  unfolding main_run_def ErrorLinef_def Let_def by (intro adds_intros adds_Runner_Run)

text \<open>The code is 0 when the command succeeds, and 1 when it fails.\<close>

definition exit_code :: "nat outcome \<Rightarrow> unit outcome \<Rightarrow> bool" where
  "exit_code r c \<longleftrightarrow> r = (case c of Ok _ \<Rightarrow> Ok 0 | Err _ \<Rightarrow> Ok 1 | Panic s \<Rightarrow> Panic s | Hang \<Rightarrow> Hang)"

lemma main_run_code:
  "wp (main_run X show text home args) (\<lambda>r w'. exit_code r (fst (Runner_Run X (JoinPath [home, ''.bosh_init'']) 0 args w))) w"
proof -
  let ?C = "Runner_Run X (JoinPath [home, ''.bosh_init'']) 0 args"
  have h: "wp (silently (Runner_Run X ws 0 (''help'' # args))) (\<lambda>r w'. r = Ok ()) w" for ws w
    using help_prints[of X ws args] unfolding prints_def silently_def
    by (simp add: wp_simps) (rule wp_mono, blast, auto elim!: returnsE simp: wp_simps)
  have tail: "wp (seq (ErrorLinef 0 '''') (seq (ErrorLinef 0 s) (seq (if b then seq (ErrorLinef 0 '''')
      (silently (Runner_Run X ws 0 (''help'' # args))) else ret ()) (ret 1)))) (\<lambda>r w'. r = Ok (1 :: nat)) w" for s b ws and w :: world
    by (cases b) (auto simp: ErrorLinef_def put_ui_def wp_simps intro!: wp_mono[OF h])
  have "wp ?C (\<lambda>r w'. r = fst (?C w)) w" by (rule wpI) simp
  then have "wp (attempt ?C) (\<lambda>x v. fst (?C w) = (case x of Ok (Inr u) \<Rightarrow> Ok u | Ok (Inl e) \<Rightarrow> Err e | Panic s \<Rightarrow> Panic s | Hang \<Rightarrow> Hang)
      \<and> (\<forall>e. x \<noteq> Err e)) w"
    by (simp add: wp_attempt) (erule wp_mono, auto split: outcome.split)
  then show ?thesis unfolding main_run_def Let_def
  proof (rule wp_bnd_rule, goal_cases)
    case (1 x v)
    show ?case
    proof (cases x)
      case (Inl e)
      show ?thesis unfolding Inl sum.case by (rule wp_mono[OF tail]) (use 1 Inl in \<open>simp add: exit_code_def\<close>)
    qed (use 1 in \<open>simp add: exit_code_def wp_ret\<close>)
  qed (auto simp: exit_code_def)
qed

section \<open>A successful deletion leaves no state file\<close>

definition missing :: "string \<Rightarrow> world \<Rightarrow> bool" where
  "missing p w \<longleftrightarrow> files w p = None"

lemma missing_frame: "steady (missing p)" "unseen (missing p)"
  by (simp_all add: steady_def unseen_def missing_def)

lemma keeps_missing:
  "keeps (missing p) (RemoveAll q)" "keeps (missing p) (PrintLinef d s)" "keeps (missing p) (request_unit k)"
  "keeps (missing p) (ext_unit f args)"
  by (rule keepsI, simp add: RemoveAll_def del_files_def PrintLinef_def put_ui_def ext_unit_def wp_request_unit missing_def
      wp_simps Let_def split: option.splits)+

lemma keeps_missing_steps:
  "keeps (missing p) (Installer_Cleanup i)" "keeps (missing p) (StopRegistry i)" "keeps (missing p) (ReleaseManager_DeleteAll rels)"
  unfolding Installer_Cleanup_def Extractor_Cleanup_def StopRegistry_def Server_Stop_def ReleaseManager_DeleteAll_def Release_Delete_def silently_def
  by (intro keeps_intros keeps_missing)+

lemma keeps_missing_ends:
  "keeps (missing p) (cleanupInstall i stage)" "keeps (missing p) (stopRegistryNice i stage)"
  "keeps (missing p) (silently (ReleaseManager_DeleteAll rels))"
  unfolding cleanupInstall_def stopRegistryNice_def silently_def
  by (intro keeps_intros keeps_Perform keeps_Perform_val missing_frame keeps_missing_steps)+

text \<open>\<open>gone p m\<close>: when \<open>m\<close> succeeds, with an outside that answers with errors of its own, the file is missing.\<close>

definition gone :: "string \<Rightarrow> (world, 'a) prog \<Rightarrow> bool" where
  "gone p m \<longleftrightarrow> (\<forall>w. plain_answers w \<longrightarrow> wp m (\<lambda>r w'. \<forall>x. r = Ok x \<longrightarrow> missing p w') w)"

lemma goneD: "gone p m \<Longrightarrow> plain_answers w \<Longrightarrow> wp m (\<lambda>r w'. \<forall>x. r = Ok x \<longrightarrow> missing p w') w"
  by (simp add: gone_def)

lemma adds_plain: "adds K m \<Longrightarrow> keeps plain_answers m"
  by (simp add: keeps_def adds_def plain_answers_def)

lemma gone_bnd: "keeps plain_answers n \<Longrightarrow> (\<And>x. gone p (f x)) \<Longrightarrow> gone p (bnd n f)"
  unfolding gone_def by (intro allI impI wp_bnd_rule, erule (1) keepsD) auto

lemma gone_seq: "keeps plain_answers n \<Longrightarrow> gone p m \<Longrightarrow> gone p (seq n m)"
  unfolding seq_def by (rule gone_bnd)

lemma gone_deferred:
  assumes "gone p m" "keeps (missing p) d"
  shows "gone p (deferred m d)" "gone p (deferred_err m d)"
proof -
  have "wp m (\<lambda>r w'. \<forall>x. r = Ok x \<longrightarrow> missing p (snd (d w'))) w" if "plain_answers w" for w
    by (rule wp_mono[OF goneD[OF assms(1) that]]) (use assms(2) in \<open>simp add: keeps_def\<close>)
  note m = this
  show "gone p (deferred m d)" "gone p (deferred_err m d)"
    unfolding gone_def wp_deferred wp_deferred_err
    by (intro allI impI, erule wp_mono[OF m], fastforce simp: wp_def split: outcome.splits prod.splits)+
qed

lemma gone_exists: "gone p m \<Longrightarrow> gone p (bnd (StateService_Exists p) (\<lambda>exists. if \<not> exists then PrintLinef d s else m))"
  unfolding gone_def StateService_Exists_def FileExists_def
  by (auto simp: wp_simps PrintLinef_def put_ui_def missing_def)

lemma plain_not_skip: "plain e \<Longrightarrow> \<not> is_skip e"
  by (cases e) simp_all

lemma gone_uninstalling: "gone p (Perform d n (seq (Uninstall target) (StateFile.Cleanup p)))"
  unfolding gone_def
proof (intro allI impI wp_Perform)
  fix w u s assume "plain_answers w"
  then show "wp (seq (Uninstall target) (StateFile.Cleanup p)) (\<lambda>r w'. \<forall>x. unskip () r = Ok x \<longrightarrow> missing p w') (w\<lparr>ui := u, simple_mode := s\<rparr>)"
    by (auto simp: Uninstall_def StateFile.Cleanup_def RemoveAll_def wp_simps Let_def del_files_def missing_def below_def
        dest: plain_answersD(1) plain_not_skip split: option.split)
qed (simp add: unseen_def missing_def)

lemma gone_DeleteDeployment: "gone p (DeleteDeployment X ws p m stage)"
proof -
  have V: "adds non_cpi (complex_run stage ''validating'' (validate_deletion X ws m))"
    unfolding validate_deletion_def by (intro adds_intros)
  have L: "keeps plain_answers (lift_outcome v)" for v :: "'b outcome" by (simp add: keeps_def lift_outcome_def)
  have I: "adds non_cpi (installCpiRelease (loadCpiInstaller X h rels target) im stage)" for h rels target im
    unfolding installCpiRelease_def by (intro adds_intros)
  have R: "adds non_cpi (Perform_val stage ''Starting registry'' i (StartRegistry i))" for i
    unfolding StartRegistry_def ServerManager_Start_def Let_def by (intro adds_intros) (simp_all add: non_cpi_def)
  note P = adds_plain[where K = non_cpi]
  show ?thesis
    unfolding DeleteDeployment_def loadTargetProvider_def
  proof (rule gone_seq[OF adds_plain[OF adds_lines(1)]], rule gone_exists, rule gone_bnd[OF P], (intro adds_intros)[1],
      rule gone_bnd[OF P], (intro adds_intros)[1], rule gone_seq[OF P], (intro adds_intros)[1], rule gone_bnd[OF adds_plain[OF V]],
      clarify, goal_cases)
    case (1 _ target s v)
    show ?case
      unfolding WithInstalledCpiRelease_def WithRunningRegistry_def
      by (rule gone_deferred, rule gone_bnd[OF L], rule gone_bnd[OF adds_plain[OF I]], rule gone_deferred,
          rule gone_bnd[OF adds_plain[OF R]], rule gone_deferred, rule gone_seq[OF adds_plain[OF adds_findAndDelete]],
          rule gone_uninstalling, (rule keeps_missing_ends)+)
  qed
qed

end
