(* ===== verification/Registry.thy ===== *)
theory Registry
  imports GoStrings
begin

text \<open>
  The registry of agent settings: registry/registry.go and registry/instance_handler.go. A
  request is its method, path, Authorization header and body (which may fail to be read); the
  handler is a function of the registry. Shown: that the registry is changed only by requests
  that carry the encoded user and password, which determine each other; that reading needs no
  such header; and that a setting is read back until it is replaced or deleted.
\<close>

section \<open>registry/registry.go\<close>

type_synonym registry = "string \<rightharpoonup> string"

definition Registry_Save :: "registry \<Rightarrow> string \<Rightarrow> string \<Rightarrow> registry \<times> bool" where
  "Registry_Save r key value = (r(key \<mapsto> value), r key \<noteq> None)"

definition Registry_Get :: "registry \<Rightarrow> string \<Rightarrow> string option" where
  "Registry_Get r key = r key"

definition Registry_Delete :: "registry \<Rightarrow> string \<Rightarrow> registry" where
  "Registry_Delete r key = r(key := None)"

section \<open>\<^verbatim>\<open>base64.StdEncoding.EncodeToString\<close>\<close>

definition b64_alphabet :: string where
  "b64_alphabet = ''ABCDEFGHIJKLMNOPQRSTUVWXYZabcdefghijklmnopqrstuvwxyz0123456789+/''"

definition b64_char :: "nat \<Rightarrow> char" where
  "b64_char n = b64_alphabet ! (n mod 64)"

fun EncodeToString :: "string \<Rightarrow> string" where
  "EncodeToString [] = []"
| "EncodeToString [a] = (let n = of_char a * 65536 in [b64_char (n div 262144), b64_char (n div 4096), CHR ''='', CHR ''=''])"
| "EncodeToString [a, b] = (let n = of_char a * 65536 + of_char b * 256 in
     [b64_char (n div 262144), b64_char (n div 4096), b64_char (n div 64), CHR ''=''])"
| "EncodeToString (a # b # c # s) = (let n = of_char a * 65536 + of_char b * 256 + of_char c in
     [b64_char (n div 262144), b64_char (n div 4096), b64_char (n div 64), b64_char n] @ EncodeToString s)"

section \<open>registry/instance\_handler.go\<close>

datatype http_method = GET | PUT | DELETE | Other

record request =
  rq_Method :: http_method
  rq_Path :: string
  rq_Authorization :: string
  rq_Body :: "string option"

text \<open>The body of a response: the settings response with its two fields, or nothing.\<close>

record response =
  rp_Status :: nat
  rp_Authenticate :: bool
  rp_Body :: "(string \<times> string) option"

text \<open>The leftmost match of \<^verbatim>\<open>/instances/([^/]+)/settings\<close> in the path.\<close>

definition match_here :: "string \<Rightarrow> string option" where
  "match_here s =
     (if HasPrefix s ''/instances/''
      then let r = drop (length ''/instances/'') s; i = takeWhile (\<lambda>c. c \<noteq> CHR ''/'') r
           in if i \<noteq> '''' \<and> HasPrefix (drop (length i) r) ''/settings'' then Some i else None
      else None)"

fun getInstanceID :: "string \<Rightarrow> string option" where
  "getInstanceID [] = None"
| "getInstanceID (c # s) = (case match_here (c # s) of Some i \<Rightarrow> Some i | None \<Rightarrow> getInstanceID s)"

definition isAuthorized :: "string \<Rightarrow> string \<Rightarrow> request \<Rightarrow> bool" where
  "isAuthorized username password req \<longleftrightarrow>
     ''Basic '' @ EncodeToString (username @ '':'' @ password) = rq_Authorization req"

definition handleNotFound :: response where
  "handleNotFound = \<lparr>rp_Status = 404, rp_Authenticate = False, rp_Body = Some ('''', ''not_found'')\<rparr>"

definition handleBadRequest :: response where
  "handleBadRequest = \<lparr>rp_Status = 400, rp_Authenticate = False, rp_Body = Some ('''', ''error'')\<rparr>"

definition handleUnauthorized :: response where
  "handleUnauthorized = \<lparr>rp_Status = 401, rp_Authenticate = True, rp_Body = None\<rparr>"

definition HandleGet :: "registry \<Rightarrow> string \<Rightarrow> response" where
  "HandleGet r instanceID = (case Registry_Get r instanceID of
      None \<Rightarrow> handleNotFound
    | Some settings \<Rightarrow> \<lparr>rp_Status = 200, rp_Authenticate = False, rp_Body = Some (settings, ''ok'')\<rparr>)"

definition HandlePut :: "string \<Rightarrow> string \<Rightarrow> registry \<Rightarrow> string \<Rightarrow> request \<Rightarrow> registry \<times> response" where
  "HandlePut username password r instanceID req =
     (if \<not> isAuthorized username password req then (r, handleUnauthorized)
      else case rq_Body req of
          None \<Rightarrow> (r, handleBadRequest)
        | Some reqBody \<Rightarrow> let (r', isUpdated) = Registry_Save r instanceID reqBody in
            (r', \<lparr>rp_Status = (if isUpdated then 200 else 201), rp_Authenticate = False, rp_Body = None\<rparr>))"

definition HandleDelete :: "string \<Rightarrow> string \<Rightarrow> registry \<Rightarrow> string \<Rightarrow> request \<Rightarrow> registry \<times> response" where
  "HandleDelete username password r instanceID req =
     (if \<not> isAuthorized username password req then (r, handleUnauthorized)
      else (Registry_Delete r instanceID, \<lparr>rp_Status = 200, rp_Authenticate = False, rp_Body = None\<rparr>))"

definition HandleFunc :: "string \<Rightarrow> string \<Rightarrow> registry \<Rightarrow> request \<Rightarrow> registry \<times> response" where
  "HandleFunc username password r req = (case getInstanceID (rq_Path req) of
      None \<Rightarrow> (r, handleNotFound)
    | Some instanceID \<Rightarrow> (case rq_Method req of
          GET \<Rightarrow> (r, HandleGet r instanceID)
        | PUT \<Rightarrow> HandlePut username password r instanceID req
        | DELETE \<Rightarrow> HandleDelete username password r instanceID req
        | Other \<Rightarrow> (r, handleNotFound)))"

text \<open>A server answers its requests one after the other, from an empty registry.\<close>

fun serve :: "string \<Rightarrow> string \<Rightarrow> registry \<Rightarrow> request list \<Rightarrow> registry \<times> response list" where
  "serve username password r [] = (r, [])"
| "serve username password r (q # qs) =
     (let (r', a) = HandleFunc username password r q; (r'', as) = serve username password r' qs in (r'', a # as))"

section \<open>The encoding is injective\<close>

definition b64_val :: "char \<Rightarrow> nat" where
  "b64_val c = length (takeWhile (\<lambda>d. d \<noteq> c) b64_alphabet)"

lemma b64_val_char: "b64_val (b64_char n) = n mod 64"
proof -
  have "list_all (\<lambda>k. b64_val (b64_char k) = k) [0..<64]" by code_simp
  then have "b64_val (b64_char (n mod 64)) = n mod 64" by (simp add: list_all_iff)
  then show ?thesis by (simp add: b64_char_def)
qed

lemma b64_not_pad: "b64_char n \<noteq> CHR ''=''"
proof -
  have "list_all (\<lambda>k. b64_char k \<noteq> CHR ''='') [0..<64]" by code_simp
  then have "b64_char (n mod 64) \<noteq> CHR ''=''" by (simp add: list_all_iff)
  then show ?thesis by (simp add: b64_char_def)
qed

text \<open>Decoding, the inverse.\<close>

fun b64_decode :: "string \<Rightarrow> string" where
  "b64_decode (w # x # y # z # s) =
     (let n = b64_val w * 262144 + b64_val x * 4096 in
      if y = CHR ''='' then [char_of (n div 65536)]
      else if z = CHR ''='' then let n = n + b64_val y * 64 in [char_of (n div 65536), char_of (n div 256)]
      else let n = n + b64_val y * 64 + b64_val z in
        [char_of (n div 65536), char_of (n div 256), char_of n] @ b64_decode s)"
| "b64_decode _ = []"

lemma sextets:
  fixes n :: nat
  assumes "n < 16777216"
  shows "n div 262144 mod 64 * 262144 + n div 4096 mod 64 * 4096 + n div 64 mod 64 * 64 + n mod 64 = n"
proof -
  have d: "n div 4096 = n div 64 div 64" "n div 262144 = n div 64 div 64 div 64" by (simp_all add: div_mult2_eq[symmetric])
  have "n div 64 div 64 div 64 < 64" using assms by (simp add: div_mult2_eq[symmetric] less_mult_imp_div_less)
  then have "n div 64 div 64 div 64 mod 64 = n div 64 div 64 div 64" by simp
  then show ?thesis unfolding d
    using div_mult_mod_eq[of n 64] div_mult_mod_eq[of "n div 64" 64] div_mult_mod_eq[of "n div 64 div 64" 64] by linarith
qed

lemma char_of_octet: "char_of (n :: nat) = c" if "n mod 256 = of_char c"
  using that by (metis char_of_mod_256 char_of_char)

lemma octets:
  fixes a b c :: nat
  assumes "a < 256" "b < 256" "c < 256"
  shows "(a * 65536 + b * 256 + c) div 65536 = a" "(a * 65536 + b * 256 + c) div 256 mod 256 = b"
    "(a * 65536 + b * 256 + c) mod 256 = c" "a * 65536 + b * 256 + c < 16777216"
proof -
  have e: "a * 65536 + b * 256 + c = (a * 256 + b) * 256 + c" by simp
  have d: "(a * 65536 + b * 256 + c) div 256 = a * 256 + b" unfolding e using assms by simp
  show "(a * 65536 + b * 256 + c) div 256 mod 256 = b" unfolding d using assms by simp
  have "(a * 65536 + b * 256 + c) div 65536 = (a * 65536 + b * 256 + c) div 256 div 256" by (simp add: div_mult2_eq[symmetric])
  then show "(a * 65536 + b * 256 + c) div 65536 = a" unfolding d using assms by simp
  show "(a * 65536 + b * 256 + c) mod 256 = c" unfolding e mod_mult_self3 using assms by simp
  show "a * 65536 + b * 256 + c < 16777216" using assms by linarith
qed

text \<open>The four sextets of three octets give the number back; missing octets are zero.\<close>

lemma b64_roundtrip: "b64_decode (EncodeToString s) = s"
proof (induction s rule: EncodeToString.induct)
  case 1
  then show ?case by simp
next
  case (2 a)
  have "(0 :: nat) < 256" by simp
  note o = octets[OF nat_of_char_less_256[of a] this this]
  have z: "of_char a * 65536 div 64 mod 64 = (0 :: nat)"
  proof -
    have "of_char a * 65536 = of_char a * 1024 * (64 :: nat)" by simp
    then have "of_char a * 65536 div 64 = (of_char a * 1024 :: nat)" by (metis nonzero_mult_div_cancel_right zero_neq_numeral)
    moreover have "of_char a * 1024 mod 64 = (0 :: nat)" by (simp add: mod_eq_0_iff_dvd)
    ultimately show ?thesis by simp
  qed
  have m: "of_char a * 65536 mod 64 = (0 :: nat)" by (simp add: mod_eq_0_iff_dvd)
  have n: "n div 262144 mod 64 * 262144 + n div 4096 mod 64 * 4096 = n" if "n = of_char a * 65536" for n :: nat
    using sextets[OF o(4)] unfolding that by (simp only: z m mult_zero_left add_0_right)
  have "char_of (n div 65536) = a" if "n = of_char a * 65536" for n :: nat using that by simp
  then show ?case by (simp only: EncodeToString.simps Let_def b64_decode.simps b64_val_char n simp_thms if_True)
next
  case (3 a b)
  have "(0 :: nat) < 256" by simp
  note o = octets[OF nat_of_char_less_256[of a] nat_of_char_less_256[of b] this]
  let ?n = "of_char a * 65536 + of_char b * 256 :: nat"
  have m: "?n mod 64 = 0" by (simp add: mod_eq_0_iff_dvd)
  have s: "?n div 262144 mod 64 * 262144 + ?n div 4096 mod 64 * 4096 + ?n div 64 mod 64 * 64 = ?n"
    using sextets[OF o(4)] by (simp only: m add_0_right)
  have c: "char_of (?n div 65536) = a" "char_of (?n div 256) = b"
    using o(1) char_of_octet[OF o(2)] by (simp_all only: add_0_right char_of_char)
  show ?case
    by (simp only: EncodeToString.simps Let_def b64_decode.simps b64_val_char b64_not_pad s c simp_thms if_True if_False)
next
  case (4 a b c s)
  note o = octets[OF nat_of_char_less_256[of a] nat_of_char_less_256[of b] nat_of_char_less_256[of c]]
  let ?n = "of_char a * 65536 + of_char b * 256 + of_char c :: nat"
  have c: "char_of (?n div 65536) = a" "char_of (?n div 256) = b" "char_of ?n = c"
    using char_of_octet[OF o(2)] char_of_octet[OF o(3)] by (simp_all only: o(1) char_of_char)
  show ?case
    by (simp only: EncodeToString.simps Let_def append.simps b64_decode.simps b64_val_char b64_not_pad sextets[OF o(4)] c 4[OF refl]
        simp_thms if_True if_False)
qed

lemma EncodeToString_inj: "EncodeToString s = EncodeToString t \<Longrightarrow> s = t"
  by (metis b64_roundtrip)

section \<open>Who may change the registry\<close>

lemma isAuthorized_same: "isAuthorized u p q \<Longrightarrow> isAuthorized u' p' q \<Longrightarrow> u @ '':'' @ p = u' @ '':'' @ p'"
  unfolding isAuthorized_def by (metis EncodeToString_inj same_append_eq)

lemma HandleFunc_unauthorized: "\<not> isAuthorized u p q \<Longrightarrow> fst (HandleFunc u p r q) = r"
  by (auto simp: HandleFunc_def HandlePut_def HandleDelete_def split: option.splits http_method.splits)

lemma serve_unauthorized:
  assumes "\<forall>q \<in> set qs. \<not> isAuthorized u p q"
  shows "fst (serve u p r qs) = r"
  using assms
proof (induction qs arbitrary: r)
  case (Cons q qs)
  obtain a where a: "HandleFunc u p r q = (r, a)"
    using HandleFunc_unauthorized[of u p q r] Cons.prems by (cases "HandleFunc u p r q") auto
  show ?case using Cons.IH[of r] Cons.prems by (cases "serve u p r qs") (simp add: a Let_def)
qed simp

text \<open>A user name without a colon is determined too.\<close>

lemma credentials_unique:
  assumes "isAuthorized u p q" "isAuthorized u' p' q" "CHR '':'' \<notin> set u" "CHR '':'' \<notin> set u'"
  shows "u = u' \<and> p = p'"
proof -
  have "u @ '':'' @ p = u' @ '':'' @ p'" using isAuthorized_same[OF assms(1,2)] .
  then have "SplitChar CHR '':'' (u @ CHR '':'' # p) = SplitChar CHR '':'' (u' @ CHR '':'' # p')" by simp
  then have u: "u = u'" unfolding SplitChar_append[OF assms(3)] SplitChar_append[OF assms(4)] by simp
  then show ?thesis using isAuthorized_same[OF assms(1,2)] by simp
qed

section \<open>What is read\<close>

text \<open>A response to a read depends on the registry only; the header is not looked at.\<close>

lemma HandleFunc_GET: "rq_Method q = GET \<Longrightarrow> HandleFunc u p r q = (r, case getInstanceID (rq_Path q) of
    None \<Rightarrow> handleNotFound | Some i \<Rightarrow> HandleGet r i)"
  by (auto simp: HandleFunc_def split: option.splits)

text \<open>
  The specification of the server: the value of an instance is the body of the last
  authorized request of its path that stored one, unless a later one deleted it.
\<close>

definition writes_to :: "string \<Rightarrow> string \<Rightarrow> string \<Rightarrow> request \<Rightarrow> string option option" where
  "writes_to u p i q = (if getInstanceID (rq_Path q) \<noteq> Some i \<or> \<not> isAuthorized u p q then None
     else case rq_Method q of
        PUT \<Rightarrow> (case rq_Body q of None \<Rightarrow> None | Some b \<Rightarrow> Some (Some b))
      | DELETE \<Rightarrow> Some None
      | _ \<Rightarrow> None)"

fun last_written :: "string \<Rightarrow> string \<Rightarrow> string \<Rightarrow> string option \<Rightarrow> request list \<Rightarrow> string option" where
  "last_written u p i v [] = v"
| "last_written u p i v (q # qs) = last_written u p i (case writes_to u p i q of None \<Rightarrow> v | Some v' \<Rightarrow> v') qs"

lemma HandleFunc_value: "fst (HandleFunc u p r q) i = (case writes_to u p i q of None \<Rightarrow> r i | Some v \<Rightarrow> v)"
  by (auto simp: HandleFunc_def HandlePut_def HandleDelete_def Registry_Save_def Registry_Delete_def writes_to_def Let_def
      split: option.splits http_method.splits)

lemma serve_value: "fst (serve u p r qs) i = last_written u p i (r i) qs"
proof (induction qs arbitrary: r)
  case (Cons q qs)
  have "fst (serve u p r (q # qs)) = fst (serve u p (fst (HandleFunc u p r q)) qs)"
    by (simp add: Let_def split: prod.splits)
  then show ?case using Cons HandleFunc_value by simp
qed simp

text \<open>So a read after a run of requests answers from that specification.\<close>

lemma serve_read:
  assumes "rq_Method q = GET" "getInstanceID (rq_Path q) = Some i"
  shows "snd (HandleFunc u p (fst (serve u p Map.empty qs)) q) =
    (case last_written u p i None qs of
       None \<Rightarrow> handleNotFound
     | Some b \<Rightarrow> \<lparr>rp_Status = 200, rp_Authenticate = False, rp_Body = Some (b, ''ok'')\<rparr>)"
  using assms by (simp add: HandleFunc_GET HandleGet_def Registry_Get_def serve_value split: option.splits)

lemma takeWhile_to: "c \<notin> set i \<Longrightarrow> takeWhile (\<lambda>d. d \<noteq> c) (i @ c # r) = i"
  by (induction i) auto

lemma getInstanceID_path: "i \<noteq> '''' \<Longrightarrow> CHR ''/'' \<notin> set i \<Longrightarrow> getInstanceID (''/instances/'' @ i @ ''/settings'') = Some i"
  using takeWhile_to[of "CHR ''/''" i "''settings''"] by (simp add: match_here_def Let_def HasPrefix_def)

end
