(* ===== verification/Scenarios.thy ===== *)
theory Scenarios
  imports Examples Installation ManifestParser Registry
begin

text \<open>
  A deployment that has run once, on which the properties of the operations are applied: its
  state file names a VM, two disks and two stemcells, one of each in use; the outside answers
  every request with success.
\<close>

definition ex_state :: DeploymentState where
  "ex_state = \<lparr>DirectorID = ''d'', InstallationID = ''i'', CurrentVMCID = ''vm'', CurrentStemcellID = ''s1'',
     CurrentDiskID = ''d1'', CurrentReleaseIDs = [], CurrentManifestSHA1 = '''',
     Disks = [\<lparr>dr_ID = ''d0'', dr_CID = ''c0'', dr_Size = 512, dr_CloudProperties = Some []\<rparr>,
              \<lparr>dr_ID = ''d1'', dr_CID = ''c1'', dr_Size = 1024, dr_CloudProperties = Some [(''fast'', PBool True)]\<rparr>],
     Stemcells = [\<lparr>sr_ID = ''s0'', sr_Name = ''n'', sr_Version = ''1'', sr_CID = ''k0''\<rparr>,
                  \<lparr>sr_ID = ''s1'', sr_Name = ''n'', sr_Version = ''2'', sr_CID = ''k1''\<rparr>],
     Releases = []\<rparr>"

definition ex_deployed :: world where
  "ex_deployed = ex_world\<lparr>files := [''/s'' \<mapsto> CJson (json_of_state ex_state), ''/m'' \<mapsto> CBytes ''m'']\<rparr>"

lemma ex_state_at: "state_at ''/s'' ex_deployed ex_state"
proof -
  have l: "loaded ''/s'' ex_deployed ex_state"
    by (simp add: loaded_def ex_deployed_def ex_state_def storable_def int64_def reload_state_fix reload_disk_def reload_map_def)
  have "wf_state ex_state" by (simp add: ex_state_def wf_state_def wf_disks_def wf_stemcells_def wf_releases_def stemcell_key_def)
  moreover have "fresh_ids ex_deployed (record_ids ex_state)"
    by (auto simp: fresh_ids_def ex_deployed_def ex_world_def ok_answer_def record_ids_def ex_state_def)
  moreover have "atomic_writes ex_deployed" by (simp add: ex_deployed_def)
  moreover have "plain_answers ex_deployed"
    by (simp add: plain_answers_def ex_deployed_def ex_world_def ok_answer_def)
  ultimately show ?thesis using l by (auto simp: state_at_def repo_inv_def)
qed

text \<open>What a specified program does there.\<close>

lemma does_here:
  assumes "does ''/s'' ex_state m R"
  shows "\<exists>r w' ks st'. m ex_deployed = (r, w') \<and> returns r \<and> calls w' = ks \<and> state_at ''/s'' w' st' \<and> R r ks st'"
proof -
  obtain r w' where m: "m ex_deployed = (r, w')" by fastforce
  have "returns r \<and> (\<exists>ks st'. moved ex_deployed ks w' \<and> state_at ''/s'' w' st' \<and> R r ks st')"
    using wpD[OF doesD[OF assms ex_state_at] m] .
  moreover have "calls ex_deployed = []" by (simp add: ex_deployed_def ex_world_def)
  ultimately show ?thesis using m by (auto simp: moved_def)
qed

section \<open>A manifest\<close>

definition ex_cloud :: cloud where
  "ex_cloud = \<lparr>cl_CPI = \<lparr>cpi_JobPath = ''/j/cpi'', cpi_JobsDir = ''/j'', cpi_PackagesDir = ''/p''\<rparr>, cl_DirectorID = ''d''\<rparr>"

definition ex_rels :: "ReleaseRef list" where
  "ex_rels = [\<lparr>ref_Name = ''r'', ref_Source = \<lparr>src_URL = ''file:///r.tgz'', src_SHA1 = ''''\<rparr>\<rparr>]"

definition ex_manifest_job :: ManifestJob where
  "ex_manifest_job = \<lparr>mj_Name = ''job'', mj_Instances = 1, mj_Lifecycle = ''service'',
     mj_Templates = [\<lparr>rj_Name = ''j'', rj_Release = ''r'', rj_Properties = None\<rparr>],
     mj_Networks = [\<lparr>jn_Name = ''net'', jn_Defaults = [], jn_StaticIPs = [''10.0.0.5'']\<rparr>],
     mj_PersistentDisk = 0, mj_PersistentDiskPool = ''disks'', mj_ResourcePool = ''vms'', mj_Properties = None\<rparr>"

definition ex_manifest :: Manifest where
  "ex_manifest = \<lparr>mf_Name = ''dep'', mf_Properties = Some [], mf_Jobs = [ex_manifest_job],
     mf_Networks = [\<lparr>nw_Name = ''net'', nw_Type = ''manual'', nw_CloudProperties = Some [], nw_DNS = [],
       nw_Subnets = [\<lparr>sn_Range = ''10.0.0.0/24'', sn_Gateway = ''10.0.0.1'', sn_DNS = [], sn_CloudProperties = Some []\<rparr>]\<rparr>],
     mf_DiskPools = [\<lparr>dp_Name = ''disks'', dp_DiskSize = 2048, dp_CloudProperties = Some []\<rparr>],
     mf_ResourcePools = [\<lparr>rp_Name = ''vms'', rp_Network = ''net'', rp_CloudProperties = Some [], rp_Env = Some [],
       rp_Stemcell = \<lparr>src_URL = ''file:///s.tgz'', src_SHA1 = ''''\<rparr>\<rparr>],
     mf_UpdateWatchTime = \<lparr>wt_Start = 0, wt_End = 300000\<rparr>\<rparr>"

text \<open>Parsing by rewriting: code evaluation would count the bounds of the parser in unary.\<close>

lemma octets4: "parse_octets 4 s = parse_octets (Suc (Suc (Suc (Suc 0)))) s"
  by (simp add: numeral_eq_Suc)

lemma v4_prefix: "v4InV6Prefix = [0, 0, 0, 0, 0, 0, 0, 0, 0, 0, 255, 255]"
  by code_simp

lemmas parse_eval = dtoi_def number_at_def digit_val_def parseIPv4_def v4_prefix octets4

definition ex_net :: ipnet where
  "ex_net = \<lparr>in_IP = [10, 0, 0, 0], in_Mask = [255, 255, 255, 0]\<rparr>"

lemma ex_range: "ParseCIDR ''10.0.0.0/24'' = Some ([0, 0, 0, 0, 0, 0, 0, 0, 0, 0, 255, 255, 10, 0, 0, 0], ex_net)"
proof -
  have "CIDRMask 24 32 = [255, 255, 255, 0]" by code_simp
  moreover have "ip_Mask [0, 0, 0, 0, 0, 0, 0, 0, 0, 0, 255, 255, 10, 0, 0, 0] [255, 255, 255, 0] = [10, 0, 0, 0]" by code_simp
  moreover have "parseIPv4 ''10.0.0.0'' = Some [0, 0, 0, 0, 0, 0, 0, 0, 0, 0, 255, 255, 10, 0, 0, 0]" by (simp add: parse_eval)
  ultimately show ?thesis by (simp add: ParseCIDR_def ex_net_def dtoi_def number_at_def digit_val_def)
qed

lemma ex_gateway: "ParseIP ''10.0.0.1'' = Some [0, 0, 0, 0, 0, 0, 0, 0, 0, 0, 255, 255, 10, 0, 0, 1]"
  by (simp add: parse_eval)

lemma ex_address: "ParseIP ''10.0.0.5'' = Some [0, 0, 0, 0, 0, 0, 0, 0, 0, 0, 255, 255, 10, 0, 0, 5]"
  by (simp add: parse_eval)

lemma ex_gateway_ok: "gateway_ok ''10.0.0.1'' ex_net"
  unfolding gateway_ok_def by (rule exI, intro conjI, rule ex_gateway) code_simp+

lemma ex_manifest_valid: "valid_manifest ex_manifest ex_rels"
proof -
  have "network_ok (hd (mf_Networks ex_manifest))"
    using ex_range ex_gateway_ok by (auto simp: network_ok_def ex_manifest_def isBlank_iff is_space_def Manual_def)
  moreover have "resource_pool_ok ex_manifest (hd (mf_ResourcePools ex_manifest))"
    by (simp add: resource_pool_ok_def ex_manifest_def isBlank_iff is_space_def url_matches_def HasPrefix_def)
  moreover have "net_Contains ex_net [0, 0, 0, 0, 0, 0, 0, 0, 0, 0, 255, 255, 10, 0, 0, 5]" by code_simp
  then have "Validator.job_ok ex_manifest ex_rels ex_manifest_job"
    using ex_range ex_address
    by (auto simp: Validator.job_ok_def ex_manifest_job_def ex_manifest_def isBlank_iff is_space_def job_network_ok_def matchingNetwork_def
      static_ip_ok_def defaults_ok_def defaultCount_def template_ok_def ex_rels_def Manual_def)
  ultimately show ?thesis by (simp add: valid_manifest_def ex_manifest_def isBlank_iff is_space_def)
qed

lemma ex_manifest_validates: "Manifest_Validate ex_manifest ex_rels = Inr ()"
  by (simp add: Manifest_Validate_iff ex_manifest_valid)

lemma ex_manifest_deployable: "deployable ex_manifest"
  by (rule valid_deployable[OF ex_manifest_valid])
    (simp_all add: ex_manifest_def sizes_int64_def int64_def ex_manifest_job_def)

definition ex_stemcell :: CloudStemcell where
  "ex_stemcell = \<lparr>cs_CID = ''k1'', cs_Name = ''n'', cs_Version = ''2''\<rparr>"

definition ex_extracted :: ExtractedStemcell where
  "ex_extracted = \<lparr>es_manifest = \<lparr>sm_ImagePath = ''/x/image'', sm_Name = ''n'', sm_Version = ''2'', sm_OS = ''o'', sm_SHA1 = ''s'',
     sm_CloudProperties = Some []\<rparr>, es_extractedPath = ''/x''\<rparr>"

definition ex_registry :: RegistryConf where
  "ex_registry = zero_registry"

definition ex_release :: Release where
  "ex_release = \<lparr>rl_Name = ''r'', rl_Version = ''1'', rl_Jobs = [ex_job []], rl_Packages = [], rl_ExtractedPath = ''/r'', rl_isCompiled = False\<rparr>"

lemma ex_stemcell_current: "stemcell_is_current ex_state ex_extracted"
  by (simp add: stemcell_is_current_def current_stemcell_def ex_state_def ex_extracted_def stemcell_key_def)

definition ex_disk :: Disk where
  "ex_disk = \<lparr>dk_CID = ''c1'', dk_Size = 1024, dk_CloudProperties = None\<rparr>"

definition ex_record :: "property \<Rightarrow> DiskRecord" where
  "ex_record v = \<lparr>dr_ID = ''d0'', dr_CID = ''c0'', dr_Size = 512, dr_CloudProperties = Some [(''k'', v)]\<rparr>"

definition ex_compiled :: CompiledPackageRecord where
  "ex_compiled = \<lparr>cr_BlobID = ''b'', cr_BlobSHA1 = ''s''\<rparr>"

section \<open>What YAML could have given for it\<close>

definition ex_raw_job :: RawJob where
  "ex_raw_job = \<lparr>rwj_Name = ''job'', rwj_Instances = 1, rwj_Lifecycle = ''service'',
     rwj_Templates = [\<lparr>rwf_Name = ''j'', rwf_Release = ''r'', rwf_Properties = None\<rparr>], rwj_Jobs = [],
     rwj_Networks = [\<lparr>rwo_Name = ''net'', rwo_Defaults = [], rwo_StaticIPs = [''10.0.0.5'']\<rparr>],
     rwj_PersistentDisk = 0, rwj_PersistentDiskPool = ''disks'', rwj_ResourcePool = ''vms'', rwj_Properties = None\<rparr>"

definition ex_raw :: RawManifest where
  "ex_raw = \<lparr>dm_Name = ''dep'', dm_UpdateWatchTime = None,
     dm_Networks = [\<lparr>rwn_Name = ''net'', rwn_Type = ''manual'', rwn_CloudProperties = [],
       rwn_Subnets = [\<lparr>rws_Range = ''10.0.0.0/24'', rws_Gateway = ''10.0.0.1'', rws_DNS = [], rws_CloudProperties = []\<rparr>],
       rwn_IP = '''', rwn_Netmask = '''', rwn_Gateway = '''', rwn_DNS = []\<rparr>],
     dm_ResourcePools = [\<lparr>rwp_Name = ''vms'', rwp_Network = ''net'', rwp_CloudProperties = [], rwp_Env = [],
       rwp_Stemcell = \<lparr>src_URL = ''file:///s.tgz'', src_SHA1 = ''''\<rparr>\<rparr>],
     dm_DiskPools = [\<lparr>rwd_Name = ''disks'', rwd_DiskSize = 2048, rwd_CloudProperties = []\<rparr>],
     dm_Jobs = [ex_raw_job], dm_InstanceGroups = [], dm_Properties = []\<rparr>"

section \<open>The installation and the registry\<close>

definition ex_provider :: provider where
  "ex_provider = \<lparr>pv_basePath = ''/c'', pv_downloadAttempts = 3, pv_delayTimeout = 500000000\<rparr>"

lemma ex_apart: "apart ex_world (Cache_Path (\<lambda>_. ''u'') ''/c'' \<lparr>src_URL = ''http://h/r'', src_SHA1 = ''sha''\<rparr>)"
proof -
  have "JoinPath [''/c'', ''u-sha''] = ''/c/u-sha''" by code_simp
  then show ?thesis by (simp add: apart_def ex_world_def ok_answer_def below_def HasPrefix_def Cache_Path_def)
qed

definition ex_raw_installation :: RawInstallation where
  "ex_raw_installation = \<lparr>ri_Name = ''dep'', ri_Template = \<lparr>tr_Name = ''j'', tr_Release = ''r''\<rparr>, ri_Properties = [],
     ri_SSHTunnel = zero_tunnel, ri_Mbus = ''https://h''\<rparr>"

definition ex_installation_manifest :: InstallationManifest where
  "ex_installation_manifest = \<lparr>im_Name = ''dep'', im_Template = \<lparr>tr_Name = ''j'', tr_Release = ''r''\<rparr>, im_Properties = [],
     im_Mbus = ''https://h'', im_Registry = zero_registry\<lparr>rg_Username := ''u'', rg_Password := ''p'', rg_Host := ''127.0.0.1'', rg_Port := 6301\<rparr>\<rparr>"

definition ex_installation :: Installation where
  "ex_installation = \<lparr>in_target = ''/t'', in_job = \<lparr>ij_Ref = \<lparr>jr_Name = ''j'', jr_Version = ''f'', jr_BlobstoreID = ''b'', jr_SHA1 = ''s''\<rparr>,
     ij_Path = ''/t/jobs/j''\<rparr>, in_manifest = ex_installation_manifest, in_registryServer = False\<rparr>"

definition ex_put :: request where
  "ex_put = \<lparr>rq_Method = PUT, rq_Path = ''/instances/vm/settings'', rq_Authorization = ''Basic '' @ EncodeToString ''u:p'',
     rq_Body = Some ''body''\<rparr>"

definition ex_get :: request where
  "ex_get = \<lparr>rq_Method = GET, rq_Path = ''/instances/vm/settings'', rq_Authorization = '''', rq_Body = None\<rparr>"

end
