(* ===== verification/RubyContext.thy ===== *)
theory RubyContext
  imports Templates
begin

text \<open>
  The evaluation context of the templates: the Ruby program that the Go constant of
  templatescompiler/erbrenderer/template\_evaluation\_context\_rb.go holds. Ruby's strings, arrays
  and hashes are objects that the program shares and updates in place, so they are addresses in
  a heap; an exception is an error. A key of a hash is a string, or nil (\<open>None\<close>). The renderer and the
  script itself are in \<^verbatim>\<open>RubyRender\<close>. Shown: which value a template sees for a property its job declares.
\<close>

section \<open>Ruby's objects\<close>

datatype rval = RNil | RBool bool | RNum rat | RRef nat

datatype robj = RString string | RArray "rval list" | RHash "(string option \<times> rval) list"

type_synonym rheap = "robj list"

text \<open>An exception: its class, and the names of an \<^verbatim>\<open>UnknownProperty\<close>.\<close>

definition throw :: "string \<Rightarrow> (rheap, 'a) prog" where
  "throw cls = fail (External cls)"

definition truthy :: "rval \<Rightarrow> bool" where
  "truthy v \<longleftrightarrow> v \<noteq> RNil \<and> v \<noteq> RBool False"

definition new_obj :: "robj \<Rightarrow> (rheap, rval) prog" where
  "new_obj ob h = (Ok (RRef (length h)), h @ [ob])"

definition put_obj :: "nat \<Rightarrow> robj \<Rightarrow> (rheap, unit) prog" where
  "put_obj a ob = modify (\<lambda>h. h[a := ob])"

definition hash_of :: "rheap \<Rightarrow> rval \<Rightarrow> (string option \<times> rval) list option" where
  "hash_of h v = (case v of RRef a \<Rightarrow> (case h ! a of RHash ps \<Rightarrow> Some ps | _ \<Rightarrow> None) | _ \<Rightarrow> None)"

text \<open>\<open>[]\<close> and \<open>[]=\<close> with a string: a string answers with the part asked for, and replaces it.\<close>

definition ruby_get :: "rval \<Rightarrow> string option \<Rightarrow> (rheap, rval) prog" where
  "ruby_get v k h = (case v of
      RRef a \<Rightarrow> (case h ! a of
          RHash ps \<Rightarrow> (Ok (case map_of ps k of None \<Rightarrow> RNil | Some x \<Rightarrow> x), h)
        | RString s \<Rightarrow> (case k of
              None \<Rightarrow> throw ''TypeError'' h
            | Some t \<Rightarrow> if Contains s t then new_obj (RString t) h else (Ok RNil, h))
        | RArray vs \<Rightarrow> throw ''TypeError'' h)
    | RNum r \<Rightarrow> throw ''TypeError'' h
    | _ \<Rightarrow> throw ''NoMethodError'' h)"

fun replace_first :: "string \<Rightarrow> string \<Rightarrow> string \<Rightarrow> string" where
  "replace_first [] t u = (if t = [] then u else [])"
| "replace_first (c # s) t u = (if HasPrefix (c # s) t then u @ drop (length t) (c # s) else c # replace_first s t u)"

definition ruby_set :: "rval \<Rightarrow> string option \<Rightarrow> rval \<Rightarrow> (rheap, unit) prog" where
  "ruby_set v k x h = (case v of
      RRef a \<Rightarrow> (case h ! a of
          RHash ps \<Rightarrow> put_obj a (RHash (AList.update k x ps)) h
        | RString s \<Rightarrow> (case (k, x) of
              (Some t, RRef b) \<Rightarrow> if \<not> Contains s t then throw ''IndexError'' h
                else (case h ! b of RString u \<Rightarrow> put_obj a (RString (replace_first s t u)) h | _ \<Rightarrow> throw ''TypeError'' h)
            | (Some t, _) \<Rightarrow> if \<not> Contains s t then throw ''IndexError'' h else throw ''TypeError'' h
            | _ \<Rightarrow> throw ''TypeError'' h)
        | RArray vs \<Rightarrow> throw ''TypeError'' h)
    | _ \<Rightarrow> throw ''NoMethodError'' h)"

text \<open>\<^verbatim>\<open>JSON.load\<close> of a document.\<close>

fun load_json :: "json \<Rightarrow> rheap \<Rightarrow> rval \<times> rheap"
and load_list :: "json list \<Rightarrow> rheap \<Rightarrow> rval list \<times> rheap"
and load_pairs :: "(string \<times> json) list \<Rightarrow> rheap \<Rightarrow> (string option \<times> rval) list \<times> rheap" where
  "load_json JNull h = (RNil, h)"
| "load_json (JBool b) h = (RBool b, h)"
| "load_json (JNum r) h = (RNum r, h)"
| "load_json (JStr s) h = (RRef (length h), h @ [RString s])"
| "load_json (JArr js) h = (let (vs, h') = load_list js h in (RRef (length h'), h' @ [RArray vs]))"
| "load_json (JObj kvs) h = (let (ps, h') = load_pairs kvs h in (RRef (length h'), h' @ [RHash ps]))"
| "load_list [] h = ([], h)"
| "load_list (j # js) h = (let (v, h1) = load_json j h; (vs, h2) = load_list js h1 in (v # vs, h2))"
| "load_pairs [] h = ([], h)"
| "load_pairs ((k, j) # kvs) h = (let (v, h1) = load_json j h; (ps, h2) = load_pairs kvs h1 in ((Some k, v) # ps, h2))"

definition JSON_load :: "json \<Rightarrow> (rheap, rval) prog" where
  "JSON_load j h = (let (v, h') = load_json j h in (Ok v, h'))"

section \<open>Hash#recursive\_merge!\<close>

text \<open>A cyclic hash would exhaust Ruby's stack; the fuel is the number of objects, which bounds the depth of any other.\<close>

definition merge_entry :: "(rval \<Rightarrow> rval \<Rightarrow> (rheap, rval) prog) \<Rightarrow> rval \<Rightarrow> string option \<times> rval \<Rightarrow> (rheap, unit) prog" where
  "merge_entry merge self = (\<lambda>(k, new_value). bnd (gets (\<lambda>h. h)) (\<lambda>h.
     case map_of (the (hash_of h self)) k of
       None \<Rightarrow> ruby_set self k new_value
     | Some old_value \<Rightarrow>
         if hash_of h old_value \<noteq> None \<and> hash_of h new_value \<noteq> None
         then bnd (merge old_value new_value) (ruby_set self k)
         else ruby_set self k new_value))"

primrec recursive_merge :: "nat \<Rightarrow> rval \<Rightarrow> rval \<Rightarrow> (rheap, rval) prog" where
  "recursive_merge 0 self other = throw ''SystemStackError''"
| "recursive_merge (Suc n) self other =
     bnd (gets (\<lambda>h. (hash_of h self, hash_of h other))) (\<lambda>hashes. case hashes of
       (Some _, Some ps) \<Rightarrow> seq (for_each (merge_entry (recursive_merge n) self) ps) (ret self)
     | (Some _, None) \<Rightarrow> throw ''TypeError''
     | _ \<Rightarrow> throw ''NoMethodError'')"

section \<open>TemplateEvaluationContext\<close>

definition split_name :: "string \<Rightarrow> string list" where
  "split_name name = rev (dropWhile (\<lambda>s. s = []) (rev (SplitChar CHR ''.'' name)))"

text \<open>The loop of \<^verbatim>\<open>lookup_property\<close>, and the first one of \<^verbatim>\<open>copy_property\<close>.\<close>

primrec follow :: "string list \<Rightarrow> rval \<Rightarrow> (rheap, rval) prog" where
  "follow [] ref = ret ref"
| "follow (key # keys) ref = bnd (ruby_get ref (Some key)) (\<lambda>x. if x = RNil then ret RNil else follow keys x)"

definition lookup_property :: "rval \<Rightarrow> string \<Rightarrow> (rheap, rval) prog" where
  "lookup_property collection name = follow (split_name name) collection"

text \<open>\<open>ref[key] ||= {}\<close>, and the second loop of \<^verbatim>\<open>copy_property\<close>.\<close>

definition default_hash :: "rval \<Rightarrow> string option \<Rightarrow> (rheap, unit) prog" where
  "default_hash ref key = bnd (ruby_get ref key) (\<lambda>v. if truthy v then ret () else bnd (new_obj (RHash [])) (ruby_set ref key))"

primrec descend :: "string list \<Rightarrow> rval \<Rightarrow> (rheap, rval) prog" where
  "descend [] ref = ret ref"
| "descend (key # keys) ref = seq (default_hash ref (Some key)) (bnd (ruby_get ref (Some key)) (descend keys))"

definition copy_property :: "rval \<Rightarrow> rval \<Rightarrow> string \<Rightarrow> rval \<Rightarrow> (rheap, unit) prog" where
  "copy_property dst src name value = (let keys = split_name name; key = (if keys = [] then None else Some (last keys)) in
     bnd (follow keys src) (\<lambda>src_ref.
     bnd (descend (butlast keys) dst) (\<lambda>dst_ref.
     seq (default_hash dst_ref key)
         (ruby_set dst_ref key (if src_ref = RNil then value else src_ref)))))"

text \<open>
  \<^verbatim>\<open>openstruct\<close>: the same tree with \<^verbatim>\<open>OpenStruct\<close> objects, whose keys must be strings.
\<close>

datatype ostruct = OLeaf rval | OStruct "(string \<times> ostruct) list" | OList "ostruct list"

primrec openstruct :: "nat \<Rightarrow> rval \<Rightarrow> (rheap, ostruct) prog" where
  "openstruct 0 v = throw ''SystemStackError''"
| "openstruct (Suc n) v = bnd (gets (\<lambda>h. case v of RRef a \<Rightarrow> Some (h ! a) | _ \<Rightarrow> None)) (\<lambda>object. case object of
      Some (RHash ps) \<Rightarrow> bnd (map_prog (\<lambda>(k, x). bnd (openstruct n x) (\<lambda>y. ret (k, y))) ps) (\<lambda>mapped.
        if None \<in> fst ` set mapped then throw ''NoMethodError'' else ret (OStruct (map (\<lambda>(k, y). (the k, y)) mapped)))
    | Some (RArray vs) \<Rightarrow> bnd (map_prog (openstruct n) vs) (\<lambda>ys. ret (OList ys))
    | _ \<Rightarrow> ret (OLeaf v))"

record TemplateEvaluationContext =
  tc_name :: rval
  tc_index :: rval
  tc_properties :: ostruct
  tc_raw_properties :: rval
  tc_spec :: ostruct

definition depth_fuel :: "rheap \<Rightarrow> nat" where
  "depth_fuel h = Suc (length h)"

definition effective_properties :: "rval \<Rightarrow> (rheap, rval) prog" where
  "effective_properties spec =
     bnd (ruby_get spec (Some ''job_properties'')) (\<lambda>job_properties.
     if job_properties \<noteq> RNil then ret job_properties
     else bnd (ruby_get spec (Some ''global_properties'')) (\<lambda>global_properties.
          bnd (ruby_get spec (Some ''cluster_properties'')) (\<lambda>cluster_properties.
          bnd (gets depth_fuel) (\<lambda>n. recursive_merge n global_properties cluster_properties))))"

definition copy_declared :: "rval \<Rightarrow> rval \<Rightarrow> (string option \<times> rval) list \<Rightarrow> (rheap, unit) prog" where
  "copy_declared properties properties1 = for_each (\<lambda>(name, value).
     case name of None \<Rightarrow> throw ''NoMethodError'' | Some n \<Rightarrow> copy_property properties properties1 n value)"

text \<open>
  \<^verbatim>\<open>initialize\<close>, in two parts: the hash of the declared properties, and the rest. The declared
  properties come as a hash (an array, which Ruby would walk as well, is not what Go writes).
\<close>

definition build_properties :: "rval \<Rightarrow> (rheap, rval) prog" where
  "build_properties spec =
     bnd (effective_properties spec) (\<lambda>properties1.
     bnd (new_obj (RHash [])) (\<lambda>properties.
     bnd (ruby_get spec (Some ''default_properties'')) (\<lambda>default_properties.
     bnd (gets (\<lambda>h. hash_of h default_properties)) (\<lambda>declared. case declared of
       None \<Rightarrow> throw ''NoMethodError''
     | Some ps \<Rightarrow> seq (copy_declared properties properties1 ps) (ret properties)))))"

definition context_initialize :: "rval \<Rightarrow> (rheap, TemplateEvaluationContext) prog" where
  "context_initialize spec =
     bnd (ruby_get spec (Some ''job'')) (\<lambda>job.
     bnd (gets (\<lambda>h. hash_of h job)) (\<lambda>is_hash.
     bnd (if is_hash \<noteq> None then ruby_get job (Some ''name'') else ret RNil) (\<lambda>name.
     bnd (ruby_get spec (Some ''index'')) (\<lambda>index.
     bnd (build_properties spec) (\<lambda>properties.
     bnd (gets depth_fuel) (\<lambda>n.
     bnd (openstruct n properties) (\<lambda>properties_struct.
     bnd (openstruct n spec) (\<lambda>spec_struct.
     ret \<lparr>tc_name = name, tc_index = index, tc_properties = properties_struct, tc_raw_properties = properties,
          tc_spec = spec_struct\<rparr>))))))))"

text \<open>\<^verbatim>\<open>p\<close> with its names, and the default when it has two arguments.\<close>

primrec first_property :: "rval \<Rightarrow> string list \<Rightarrow> (rheap, rval) prog" where
  "first_property raw [] = ret RNil"
| "first_property raw (name # names) = bnd (lookup_property raw name) (\<lambda>result.
     if result \<noteq> RNil then ret result else first_property raw names)"

definition UnknownProperty :: "string list \<Rightarrow> goerr" where
  "UnknownProperty names = Errorf ''Can't find property %s'' [AStr (Join names '', or '')]"

definition context_p :: "TemplateEvaluationContext \<Rightarrow> string list \<Rightarrow> rval option \<Rightarrow> (rheap, rval) prog" where
  "context_p t names otherwise = bnd (first_property (tc_raw_properties t) names) (\<lambda>result.
     if result \<noteq> RNil then ret result
     else case otherwise of Some d \<Rightarrow> ret d | None \<Rightarrow> fail (UnknownProperty names))"

text \<open>\<^verbatim>\<open>if_p\<close> with its block, and the objects that wait for an \<^verbatim>\<open>else\<close>.\<close>

datatype else_block = ActiveElseBlock TemplateEvaluationContext | InactiveElseBlock

primrec all_properties :: "rval \<Rightarrow> string list \<Rightarrow> (rheap, rval list option) prog" where
  "all_properties raw [] = ret (Some [])"
| "all_properties raw (name # names) = bnd (lookup_property raw name) (\<lambda>value.
     if value = RNil then ret None
     else bnd (all_properties raw names) (\<lambda>values. ret (map_option (Cons value) values)))"

definition if_p :: "TemplateEvaluationContext \<Rightarrow> string list \<Rightarrow> (rval list \<Rightarrow> (rheap, unit) prog) \<Rightarrow> (rheap, else_block) prog" where
  "if_p t names block = bnd (all_properties (tc_raw_properties t) names) (\<lambda>values. case values of
      None \<Rightarrow> ret (ActiveElseBlock t)
    | Some vs \<Rightarrow> seq (block vs) (ret InactiveElseBlock))"

primrec else_run :: "else_block \<Rightarrow> (rheap, unit) prog \<Rightarrow> (rheap, unit) prog" where
  "else_run (ActiveElseBlock t) block = block"
| "else_run InactiveElseBlock block = ret ()"

primrec else_if_p :: "else_block \<Rightarrow> string list \<Rightarrow> (rval list \<Rightarrow> (rheap, unit) prog) \<Rightarrow> (rheap, else_block) prog" where
  "else_if_p (ActiveElseBlock t) names block = if_p t names block"
| "else_if_p InactiveElseBlock names block = ret InactiveElseBlock"

definition if_link :: "string \<Rightarrow> bool" where
  "if_link name = False"

end
