(* ===== verification/RubyTrees.thy ===== *)
theory RubyTrees
  imports RubyContext "HOL-Library.Sublist"
begin

text \<open>
  The objects of a JSON document in Ruby's heap: \<open>tree F h v j\<close> says that \<open>v\<close> stands for \<open>j\<close> and
  that its objects are those at \<open>F\<close>, each used once. Shown: what loading a document, following
  the keys of a property name, and merging two hashes make of it.
\<close>

inductive tree :: "nat set \<Rightarrow> rheap \<Rightarrow> rval \<Rightarrow> json \<Rightarrow> bool"
  and trees :: "nat set \<Rightarrow> rheap \<Rightarrow> rval list \<Rightarrow> json list \<Rightarrow> bool" where
  tree_null: "tree {} h RNil JNull"
| tree_bool: "tree {} h (RBool b) (JBool b)"
| tree_num: "tree {} h (RNum r) (JNum r)"
| tree_str: "a < length h \<Longrightarrow> h ! a = RString s \<Longrightarrow> tree {a} h (RRef a) (JStr s)"
| tree_arr: "a < length h \<Longrightarrow> h ! a = RArray vs \<Longrightarrow> trees F h vs js \<Longrightarrow> a \<notin> F \<Longrightarrow> tree (insert a F) h (RRef a) (JArr js)"
| tree_obj: "a < length h \<Longrightarrow> h ! a = RHash ps \<Longrightarrow> map fst ps = map (Some \<circ> fst) kvs \<Longrightarrow> distinct (map fst kvs)
    \<Longrightarrow> trees F h (map snd ps) (map snd kvs) \<Longrightarrow> a \<notin> F \<Longrightarrow> tree (insert a F) h (RRef a) (JObj kvs)"
| trees_Nil: "trees {} h [] []"
| trees_Cons: "tree F h v j \<Longrightarrow> trees G h vs js \<Longrightarrow> F \<inter> G = {} \<Longrightarrow> trees (F \<union> G) h (v # vs) (j # js)"

inductive_cases tree_jsonE: "tree F h v JNull" "tree F h v (JBool b)" "tree F h v (JNum r)" "tree F h v (JStr s)"
  "tree F h v (JArr js)" "tree F h v (JObj kvs)"
inductive_cases treesE: "trees F h [] js" "trees F h vs []" "trees F h (v # vs) js" "trees F h vs (j # js)"

lemma tree_frame:
  "tree F h v j \<Longrightarrow> (\<And>a. a \<in> F \<Longrightarrow> a < length h' \<and> h' ! a = h ! a) \<Longrightarrow> tree F h' v j"
  "trees F h vs js \<Longrightarrow> (\<And>a. a \<in> F \<Longrightarrow> a < length h' \<and> h' ! a = h ! a) \<Longrightarrow> trees F h' vs js"
  by (induction rule: tree_trees.inducts) (auto intro: tree_trees.intros)

lemma tree_in:
  "tree F h v j \<Longrightarrow> F \<subseteq> {..<length h}"
  "trees F h vs js \<Longrightarrow> F \<subseteq> {..<length h} \<and> length vs = length js"
  by (induction rule: tree_trees.inducts) auto

lemma tree_append:
  assumes "tree F h v j" shows "tree F (h @ e) v j"
  by (rule tree_frame(1)[OF assms]) (use tree_in(1)[OF assms] in \<open>auto simp: nth_append\<close>)

lemma tree_nil_iff: "tree F h v j \<Longrightarrow> v = RNil \<longleftrightarrow> j = JNull"
  by (cases rule: tree.cases) auto

text \<open>What is at a key of a hash.\<close>

lemma trees_map_of:
  assumes "trees F h (map snd ps) (map snd kvs)" "map fst ps = map (Some \<circ> fst) kvs"
  shows "case map_of kvs k of None \<Rightarrow> map_of ps (Some k) = None
    | Some j \<Rightarrow> \<exists>v G. map_of ps (Some k) = Some v \<and> tree G h v j \<and> G \<subseteq> F"
  using assms
proof (induction ps arbitrary: kvs F)
  case step: (Cons p ps)
  then obtain k' j kvs' where kvs: "kvs = (k', j) # kvs'" by (cases kvs) auto
  from step.prems(1) obtain F1 F2 where F: "F = F1 \<union> F2" "tree F1 h (snd p) j" "trees F2 h (map snd ps) (map snd kvs')"
    by (auto simp: kvs elim: treesE)
  have p: "fst p = Some k'" "map fst ps = map (Some \<circ> fst) kvs'" using step.prems(2) by (simp_all add: kvs)
  show ?case
  proof (cases "k = k'")
    case True
    then show ?thesis using F(1,2) p(1) by (auto simp: kvs)
  next
    case False
    then have "map_of (p # ps) (Some k) = map_of ps (Some k)" "map_of kvs k = map_of kvs' k"
      using False p(1) by (cases p; simp add: kvs)+
    then show ?thesis using step.IH[OF F(3) p(2)] F(1) by (auto split: option.splits)
  qed
qed auto

section \<open>Following the keys of a name\<close>

fun json_index :: "json \<Rightarrow> string \<Rightarrow> json option" where
  "json_index (JObj kvs) k = Some (case map_of kvs k of None \<Rightarrow> JNull | Some j \<Rightarrow> j)"
| "json_index (JStr s) k = Some (if Contains s k then JStr k else JNull)"
| "json_index j k = None"

primrec json_path :: "string list \<Rightarrow> json \<Rightarrow> json option" where
  "json_path [] j = Some j"
| "json_path (k # ks) j = (case json_index j k of None \<Rightarrow> None | Some x \<Rightarrow> if x = JNull then Some JNull else json_path ks x)"

text \<open>\<open>gives F h j m\<close>: \<open>m\<close> answers with the value \<open>j\<close>, using the objects at \<open>F\<close> and new ones; without a value it raises.\<close>

definition gives :: "nat set \<Rightarrow> rheap \<Rightarrow> json option \<Rightarrow> (rheap, rval) prog \<Rightarrow> bool" where
  "gives F h x m \<longleftrightarrow> (\<exists>e. case x of None \<Rightarrow> \<exists>cls. m h = (Err (External cls), h @ e)
     | Some j \<Rightarrow> \<exists>v G. m h = (Ok v, h @ e) \<and> tree G (h @ e) v j \<and> G \<subseteq> F \<union> {length h..<length (h @ e)})"

lemma ruby_get_gives:
  assumes t: "tree F h v j" shows "gives F h (json_index j k) (ruby_get v (Some k))"
proof (cases j)
  case (JObj kvs)
  then obtain a ps G where v: "v = RRef a" "h ! a = RHash ps" and F: "F = insert a G"
    and ps: "map fst ps = map (Some \<circ> fst) kvs" "trees G h (map snd ps) (map snd kvs)"
    using t by (auto elim: tree_jsonE)
  show ?thesis
  proof (cases "map_of kvs k")
    case None
    then have "map_of ps (Some k) = None" using trees_map_of[OF ps(2,1), of k] by simp
    then have "ruby_get v (Some k) h = (Ok RNil, h @ [])" by (simp add: ruby_get_def v)
    moreover have "tree {} (h @ []) RNil JNull" by (rule tree_null)
    ultimately show ?thesis unfolding gives_def JObj json_index.simps None option.case by blast
  next
    case (Some x)
    then obtain u H where u: "map_of ps (Some k) = Some u" "tree H h u x" "H \<subseteq> G"
      using trees_map_of[OF ps(2,1), of k] by auto
    then have "ruby_get v (Some k) h = (Ok u, h @ [])" by (simp add: ruby_get_def v)
    moreover have "tree H (h @ []) u x" "H \<subseteq> F \<union> {length h..<length (h @ [])}" using u F by auto
    ultimately show ?thesis unfolding gives_def JObj json_index.simps Some option.case by blast
  qed
next
  case (JStr s)
  then obtain a where v: "v = RRef a" "h ! a = RString s" using t by (auto elim: tree_jsonE)
  show ?thesis
  proof (cases "Contains s k")
    case True
    then have "ruby_get v (Some k) h = (Ok (RRef (length h)), h @ [RString k])" by (simp add: ruby_get_def v new_obj_def)
    moreover have "tree {length h} (h @ [RString k]) (RRef (length h)) (JStr k)" by (rule tree_str) simp_all
    moreover have "{length h} \<subseteq> F \<union> {length h..<length (h @ [RString k])}" by simp
    ultimately show ?thesis unfolding gives_def JStr json_index.simps if_P[OF True] option.case by blast
  next
    case False
    then have "ruby_get v (Some k) h = (Ok RNil, h @ [])" by (simp add: ruby_get_def v)
    moreover have "tree {} (h @ []) RNil JNull" by (rule tree_null)
    ultimately show ?thesis unfolding gives_def JStr json_index.simps if_not_P[OF False] option.case by blast
  qed
qed (use t in \<open>auto elim!: tree_jsonE simp: gives_def ruby_get_def throw_def fail_def\<close>)

lemma follow_gives: "tree F h v j \<Longrightarrow> gives F h (json_path ks j) (follow ks v)"
proof (induction ks arbitrary: F h v j)
  case Nil
  then show ?case by (auto simp: gives_def ret_def intro!: exI[of _ "[]"] exI[of _ F])
next
  case (Cons k ks)
  note g = ruby_get_gives[OF Cons.prems, of k]
  show ?case
  proof (cases "json_index j k")
    case None
    then show ?thesis using g by (auto simp: gives_def bnd_def)
  next
    case (Some x)
    then obtain e u G where u: "ruby_get v (Some k) h = (Ok u, h @ e)" "tree G (h @ e) u x" "G \<subseteq> F \<union> {length h..<length (h @ e)}"
      using g by (auto simp: gives_def)
    show ?thesis
    proof (cases "x = JNull")
      case True
      then have "u = RNil" using tree_nil_iff[OF u(2)] by simp
      then have "follow (k # ks) v h = (Ok RNil, h @ e)" using u(1) by (simp add: bnd_def ret_def)
      then show ?thesis using tree_null[of "h @ e"] by (auto simp: gives_def Some True)
    next
      case False
      then have n: "u \<noteq> RNil" using tree_nil_iff[OF u(2)] by simp
      have f: "follow (k # ks) v h = follow ks u (h @ e)" using u(1) n by (simp add: bnd_def)
      have "gives G (h @ e) (json_path ks x) (follow ks u)" by (rule Cons.IH[OF u(2)])
      then obtain e' where e': "case json_path ks x of None \<Rightarrow> \<exists>cls. follow ks u (h @ e) = (Err (External cls), (h @ e) @ e')
          | Some y \<Rightarrow> \<exists>w H. follow ks u (h @ e) = (Ok w, (h @ e) @ e') \<and> tree H ((h @ e) @ e') w y
              \<and> H \<subseteq> G \<union> {length (h @ e)..<length ((h @ e) @ e')}"
        unfolding gives_def by blast
      have p: "json_path (k # ks) j = json_path ks x" by (simp add: Some False)
      show ?thesis unfolding gives_def p f
        by (rule exI[of _ "e @ e'"]) (use e' u(3) in \<open>auto split: option.splits; fastforce\<close>)
    qed
  qed
qed

section \<open>Loading a document\<close>

fun wf_json :: "json \<Rightarrow> bool" where
  "wf_json (JObj kvs) \<longleftrightarrow> distinct (map fst kvs) \<and> list_all (\<lambda>p. wf_json (snd p)) kvs"
| "wf_json (JArr js) \<longleftrightarrow> list_all wf_json js"
| "wf_json j \<longleftrightarrow> True"

lemma load_extends:
  "load_json j h = (v, h') \<Longrightarrow> \<exists>e. h' = h @ e"
  "load_list js h = (vs, h') \<Longrightarrow> \<exists>e. h' = h @ e"
  "load_pairs kvs h = (ps, h') \<Longrightarrow> \<exists>e. h' = h @ e"
  by (induction j h and js h and kvs h arbitrary: v h' and vs h' and ps h' rule: load_json_load_list_load_pairs.induct)
     (fastforce split: prod.splits)+

lemma intervals: "l \<le> m \<Longrightarrow> m \<le> n \<Longrightarrow> {l..<m} \<union> {m..<n} = {l..<n :: nat}"
  by auto

lemma load_tree:
  "load_json j h = (v, h') \<Longrightarrow> wf_json j \<Longrightarrow> tree {length h..<length h'} h' v j"
  "load_list js h = (vs, h') \<Longrightarrow> list_all wf_json js \<Longrightarrow> trees {length h..<length h'} h' vs js"
  "load_pairs kvs h = (ps, h') \<Longrightarrow> list_all (\<lambda>p. wf_json (snd p)) kvs
     \<Longrightarrow> trees {length h..<length h'} h' (map snd ps) (map snd kvs) \<and> map fst ps = map (Some \<circ> fst) kvs"
proof (induction j h and js h and kvs h arbitrary: v h' and vs h' and ps h' rule: load_json_load_list_load_pairs.induct)
  case (4 s h)
  then have "v = RRef (length h)" "h' = h @ [RString s]" by simp_all
  then show ?case using tree_str[of "length h" "h @ [RString s]" s] by simp
next
  case (5 js h)
  then obtain vs h1 where l: "load_list js h = (vs, h1)" "v = RRef (length h1)" "h' = h1 @ [RArray vs]" by (auto split: prod.splits)
  obtain e where e: "h1 = h @ e" using load_extends(2)[OF l(1)] by blast
  have t: "trees {length h..<length h1} h1 vs js" using 5 l(1) by auto
  have "trees {length h..<length h1} h' vs js" by (rule tree_frame(2)[OF t]) (simp add: l nth_append)
  then have "tree (insert (length h1) {length h..<length h1}) h' v (JArr js)" using l by (auto intro: tree_arr)
  moreover have "insert (length h1) {length h..<length h1} = {length h..<length h'}" using l(3) e by auto
  ultimately show ?case by simp
next
  case (6 kvs h)
  then obtain ps h1 where l: "load_pairs kvs h = (ps, h1)" "v = RRef (length h1)" "h' = h1 @ [RHash ps]" by (auto split: prod.splits)
  obtain e where e: "h1 = h @ e" using load_extends(3)[OF l(1)] by blast
  have t: "trees {length h..<length h1} h1 (map snd ps) (map snd kvs)" "map fst ps = map (Some \<circ> fst) kvs" using 6 l(1) by auto
  have "trees {length h..<length h1} h' (map snd ps) (map snd kvs)" by (rule tree_frame(2)[OF t(1)]) (simp add: l nth_append)
  then have "tree (insert (length h1) {length h..<length h1}) h' v (JObj kvs)" using l t(2) 6(3) by (auto intro: tree_obj)
  moreover have "insert (length h1) {length h..<length h1} = {length h..<length h'}" using l(3) e by auto
  ultimately show ?case by simp
next
  case (8 j js h)
  then obtain v1 h1 vs1 where l: "load_json j h = (v1, h1)" "load_list js h1 = (vs1, h')" "vs = v1 # vs1" by (auto split: prod.splits)
  obtain e e' where e: "h1 = h @ e" "h' = h1 @ e'" using load_extends(1)[OF l(1)] load_extends(2)[OF l(2)] by blast
  have "tree {length h..<length h1} h' v1 j" unfolding e(2) by (rule tree_append) (use 8 l(1) in auto)
  moreover have "trees {length h1..<length h'} h' vs1 js" using 8 l(1,2) by auto
  ultimately have "trees ({length h..<length h1} \<union> {length h1..<length h'}) h' vs (j # js)" unfolding l(3) by (rule trees_Cons) auto
  then show ?case using e by (simp add: intervals)
next
  case (10 k j kvs h)
  then obtain v1 h1 ps1 where l: "load_json j h = (v1, h1)" "load_pairs kvs h1 = (ps1, h')" "ps = (Some k, v1) # ps1" by (auto split: prod.splits)
  obtain e e' where e: "h1 = h @ e" "h' = h1 @ e'" using load_extends(1)[OF l(1)] load_extends(3)[OF l(2)] by blast
  have "tree {length h..<length h1} h' v1 j" unfolding e(2) by (rule tree_append) (use 10 l(1) in auto)
  moreover have m: "trees {length h1..<length h'} h' (map snd ps1) (map snd kvs) \<and> map fst ps1 = map (Some \<circ> fst) kvs" using 10 l(1,2) by auto
  ultimately have "trees ({length h..<length h1} \<union> {length h1..<length h'}) h' (map snd ps) (map snd ((k, j) # kvs))"
    unfolding l(3) by (auto intro: trees_Cons)
  then show ?case using e m l(3) by (simp add: intervals)
qed (auto intro: tree_trees.intros)

section \<open>Merging\<close>

fun json_merge :: "json \<Rightarrow> json \<Rightarrow> json" where
  "json_merge (JObj a) (JObj b) = JObj (foldl (\<lambda>acc p. AList.update (fst p)
     (case map_of acc (fst p) of None \<Rightarrow> snd p | Some old \<Rightarrow> json_merge old (snd p)) acc) a b)"
| "json_merge a b = b"

fun objs :: "json \<Rightarrow> nat" where
  "objs (JObj kvs) = Suc (sum_list (map (\<lambda>p. objs (snd p)) kvs))"
| "objs (JArr js) = Suc (sum_list (map objs js))"
| "objs (JStr s) = 1"
| "objs j = 0"

lemma tree_finite: "tree F h v j \<Longrightarrow> finite F" "trees F h vs js \<Longrightarrow> finite F"
  by (blast dest: tree_in finite_subset)+

lemma tree_objs:
  "tree F h v j \<Longrightarrow> card F = objs j"
  "trees F h vs js \<Longrightarrow> card F = sum_list (map objs js)"
  by (induction rule: tree_trees.inducts) (simp_all add: tree_finite card_Un_disjoint comp_def)

lemma objs_bounded: "tree F h v j \<Longrightarrow> objs j \<le> length h"
  using card_mono[of "{..<length h}" F] tree_in(1)[of F h v j] by (auto simp: tree_objs(1)[symmetric])

lemma hash_of_tree: "tree F h v j \<Longrightarrow> hash_of h v \<noteq> None \<longleftrightarrow> (\<exists>kvs. j = JObj kvs)"
  by (cases rule: tree.cases) (auto simp: hash_of_def)

lemma trees_put:
  assumes "trees F h (map snd ps) (map snd kvs)" "map fst ps = map (Some \<circ> fst) kvs" "distinct (map fst kvs)"
  shows "\<exists>Fo Fr. Fo \<inter> Fr = {} \<and> F = Fo \<union> Fr
    \<and> (case map_of kvs k of None \<Rightarrow> map_of ps (Some k) = None | Some j \<Rightarrow> \<exists>v. map_of ps (Some k) = Some v \<and> tree Fo h v j)
    \<and> (\<forall>h' H v' x. tree H h' v' x \<longrightarrow> H \<inter> Fr = {} \<longrightarrow> (\<forall>a \<in> Fr. a < length h' \<and> h' ! a = h ! a)
         \<longrightarrow> trees (H \<union> Fr) h' (map snd (AList.update (Some k) v' ps)) (map snd (AList.update k x kvs)))"
  using assms
proof (induction ps arbitrary: kvs F)
  case Nil
  then have "kvs = []" "F = {}" by (auto elim: treesE)
  moreover have "trees H h' [v'] [x]" if "tree H h' v' x" for H h' v' x using trees_Cons[OF that trees_Nil] by simp
  ultimately show ?case by (intro exI[of _ "{}"]) auto
next
  case step: (Cons p ps)
  then obtain k' j kvs' where kvs: "kvs = (k', j) # kvs'" by (cases kvs) auto
  from step.prems(1) obtain F1 F2 where F: "F = F1 \<union> F2" "tree F1 h (snd p) j" "trees F2 h (map snd ps) (map snd kvs')" "F1 \<inter> F2 = {}"
    by (auto simp: kvs elim: treesE)
  obtain v0 where p: "p = (Some k', v0)" "map fst ps = map (Some \<circ> fst) kvs'" "distinct (map fst kvs')" "k' \<notin> fst ` set kvs'"
    using step.prems(2,3) by (cases p) (auto simp: kvs)
  show ?case
  proof (cases "k = k'")
    case True
    have "trees (H \<union> F2) h' (map snd (AList.update (Some k) v' (p # ps))) (map snd (AList.update k x kvs))"
      if "tree H h' v' x" "H \<inter> F2 = {}" "\<forall>a \<in> F2. a < length h' \<and> h' ! a = h ! a" for h' H v' x
      using that tree_frame(2)[OF F(3), of h'] True p(1) by (auto simp: kvs intro: trees_Cons)
    then show ?thesis using F True p(1) by (intro exI[of _ F1] exI[of _ F2] conjI) (auto simp: kvs split: option.splits)
  next
    case False
    obtain Fo Fr where IH: "Fo \<inter> Fr = {}" "F2 = Fo \<union> Fr"
      "case map_of kvs' k of None \<Rightarrow> map_of ps (Some k) = None | Some j \<Rightarrow> \<exists>v. map_of ps (Some k) = Some v \<and> tree Fo h v j"
      "\<And>h' H v' x. tree H h' v' x \<Longrightarrow> H \<inter> Fr = {} \<Longrightarrow> (\<forall>a \<in> Fr. a < length h' \<and> h' ! a = h ! a)
         \<Longrightarrow> trees (H \<union> Fr) h' (map snd (AList.update (Some k) v' ps)) (map snd (AList.update k x kvs'))"
      using step.IH[OF F(3) p(2,3)] by blast
    have m: "map_of (p # ps) (Some k) = map_of ps (Some k)" "map_of kvs k = map_of kvs' k" using False p(1) by (cases p; simp add: kvs)+
    have "trees (H \<union> (F1 \<union> Fr)) h' (map snd (AList.update (Some k) v' (p # ps))) (map snd (AList.update k x kvs))"
      if "tree H h' v' x" "H \<inter> (F1 \<union> Fr) = {}" "\<forall>a \<in> F1 \<union> Fr. a < length h' \<and> h' ! a = h ! a" for h' H v' x
    proof -
      have "trees (F1 \<union> (H \<union> Fr)) h' (snd p # map snd (AList.update (Some k) v' ps)) (j # map snd (AList.update k x kvs'))"
        by (rule trees_Cons[OF tree_frame(1)[OF F(2)] IH(4)]) (use that IH(2) F(4) in auto)
      moreover have "F1 \<union> (H \<union> Fr) = H \<union> (F1 \<union> Fr)" by auto
      ultimately show ?thesis using False by (simp add: p(1) kvs)
    qed
    moreover have "case map_of kvs k of None \<Rightarrow> map_of (p # ps) (Some k) = None
      | Some j \<Rightarrow> \<exists>v. map_of (p # ps) (Some k) = Some v \<and> tree Fo h v j" unfolding m by (rule IH(3))
    moreover have "Fo \<inter> (F1 \<union> Fr) = {}" "F = Fo \<union> (F1 \<union> Fr)" using F(1,4) IH(1,2) by auto
    ultimately show ?thesis by (intro exI[of _ "F1 \<union> Fr"] exI[of _ Fo] conjI allI impI)
  qed
qed

text \<open>The values of \<open>self\<close> are updated in place; nothing else is.\<close>

definition merged :: "nat set \<Rightarrow> nat set \<Rightarrow> rheap \<Rightarrow> rval \<Rightarrow> json \<Rightarrow> rheap \<Rightarrow> bool" where
  "merged F G h self j h' \<longleftrightarrow> (\<exists>H. tree H h' self j \<and> H \<subseteq> F \<union> G) \<and> length h' = length h \<and> (\<forall>a. a \<notin> F \<union> G \<longrightarrow> h' ! a = h ! a)"

lemma mergedD: "merged F G h self j h' \<Longrightarrow> \<exists>H. tree H h' self j \<and> H \<subseteq> F \<union> G"
  "merged F G h self j h' \<Longrightarrow> length h' = length h" "merged F G h self j h' \<Longrightarrow> a \<notin> F \<union> G \<Longrightarrow> h' ! a = h ! a"
  by (auto simp: merged_def)

definition merges :: "(rval \<Rightarrow> rval \<Rightarrow> (rheap, rval) prog) \<Rightarrow> nat \<Rightarrow> bool" where
  "merges m n \<longleftrightarrow> (\<forall>F G h self other a b. tree F h self (JObj a) \<longrightarrow> tree G h other (JObj b) \<longrightarrow> F \<inter> G = {} \<longrightarrow> objs (JObj b) < n \<longrightarrow>
     (\<exists>h'. m self other h = (Ok self, h') \<and> merged F G h self (json_merge (JObj a) (JObj b)) h'))"

lemma json_merge_other: "\<not> ((\<exists>a. x = JObj a) \<and> (\<exists>b. y = JObj b)) \<Longrightarrow> json_merge x y = y"
  by (cases x; cases y) auto

lemma update_keys_Some:
  "map fst ps = map (Some \<circ> fst) kvs \<Longrightarrow> map fst (AList.update (Some k) v ps) = map (Some \<circ> fst) (AList.update k x kvs)"
proof (induction ps arbitrary: kvs)
  case (Cons p ps)
  then show ?case by (cases kvs; cases p) auto
qed auto

text \<open>A value is written to a hash whose other values are still those of \<open>h\<close>.\<close>

lemma ruby_set_put:
  assumes self: "a < length h1" "h1 ! a = RHash ps" and ps: "map fst ps = map (Some \<circ> fst) acc" "distinct (map fst acc)"
    and put: "\<And>h' H v' x. tree H h' v' x \<Longrightarrow> H \<inter> Fr = {} \<Longrightarrow> (\<forall>a \<in> Fr. a < length h' \<and> h' ! a = h ! a)
       \<Longrightarrow> trees (H \<union> Fr) h' (map snd (AList.update (Some k) v' ps)) (map snd (AList.update k x acc))"
    and u: "tree H h1 u y" "H \<inter> Fr = {}" "a \<notin> H \<union> Fr" and same: "\<And>b. b \<in> Fr \<Longrightarrow> b < length h1 \<and> h1 ! b = h ! b"
  shows "\<exists>h'. ruby_set (RRef a) (Some k) u h1 = (Ok (), h') \<and> tree (insert a (H \<union> Fr)) h' (RRef a) (JObj (AList.update k y acc))
    \<and> length h' = length h1 \<and> (\<forall>b. b \<noteq> a \<longrightarrow> h' ! b = h1 ! b)"
proof -
  let ?h = "h1[a := RHash (AList.update (Some k) u ps)]"
  have neq: "a \<noteq> b" if "b \<in> H \<union> Fr" for b using that u(3) by auto
  then have "tree H ?h u y" by (intro tree_frame(1)[OF u(1)]) (use tree_in(1)[OF u(1)] in auto)
  moreover have "\<forall>b \<in> Fr. b < length ?h \<and> ?h ! b = h ! b" using same neq by auto
  ultimately have "trees (H \<union> Fr) ?h (map snd (AList.update (Some k) u ps)) (map snd (AList.update k y acc))"
    by (intro put u(2))
  then have "tree (insert a (H \<union> Fr)) ?h (RRef a) (JObj (AList.update k y acc))"
    using self by (intro tree_obj[OF _ _ update_keys_Some[OF ps(1)] distinct_update[OF ps(2)] _ u(3)]) simp_all
  then show ?thesis by (auto simp: ruby_set_def self put_obj_def modify_def)
qed

lemma merge_entry_tree:
  assumes m: "merges m n" and t: "tree F h self (JObj acc)" and v: "tree G h v x" and disj: "F \<inter> G = {}" and n: "objs x < n"
  shows "\<exists>h'. merge_entry m self (Some k, v) h = (Ok (), h')
    \<and> merged F G h self (JObj (AList.update k (case map_of acc k of None \<Rightarrow> x | Some old \<Rightarrow> json_merge old x) acc)) h'"
proof -
  obtain a ps F' where self: "self = RRef a" "a < length h" "h ! a = RHash ps" and F: "F = insert a F'" "a \<notin> F'"
    and ps: "map fst ps = map (Some \<circ> fst) acc" "distinct (map fst acc)" "trees F' h (map snd ps) (map snd acc)"
    using t by (auto elim: tree_jsonE)
  have hash: "the (hash_of h self) = ps" by (simp add: hash_of_def self)
  obtain Fo Fr where put: "Fo \<inter> Fr = {}" "F' = Fo \<union> Fr"
     "case map_of acc k of None \<Rightarrow> map_of ps (Some k) = None | Some j \<Rightarrow> \<exists>v. map_of ps (Some k) = Some v \<and> tree Fo h v j"
     "\<And>h' H v' x. tree H h' v' x \<Longrightarrow> H \<inter> Fr = {} \<Longrightarrow> (\<forall>a \<in> Fr. a < length h' \<and> h' ! a = h ! a)
       \<Longrightarrow> trees (H \<union> Fr) h' (map snd (AList.update (Some k) v' ps)) (map snd (AList.update k x acc))"
    using trees_put[OF ps(3,1,2), of k] by blast
  have Fr: "b < length h" if "b \<in> Fr" for b using that put(2) tree_in(2)[OF ps(3)] by auto
  have puts: "\<exists>h'. ruby_set self (Some k) u h1 = (Ok (), h') \<and> merged F G h self (JObj (AList.update k y acc)) h'"
    if u: "tree H h1 u y" "H \<subseteq> Fo \<union> G" and h1: "length h1 = length h" "\<And>b. b \<notin> Fo \<union> G \<Longrightarrow> h1 ! b = h ! b" for H h1 u y
  proof -
    have "\<exists>h'. ruby_set (RRef a) (Some k) u h1 = (Ok (), h') \<and> tree (insert a (H \<union> Fr)) h' (RRef a) (JObj (AList.update k y acc))
      \<and> length h' = length h1 \<and> (\<forall>b. b \<noteq> a \<longrightarrow> h' ! b = h1 ! b)"
    proof (rule ruby_set_put[OF _ _ ps(1,2) put(4) u(1)])
      show "a < length h1" "h1 ! a = RHash ps" using h1 self F put(2) disj by auto
      show "H \<inter> Fr = {}" "a \<notin> H \<union> Fr" using u(2) disj F put(1,2) by auto
      show "b < length h1 \<and> h1 ! b = h ! b" if "b \<in> Fr" for b using that h1 Fr put(1,2) disj F by auto
    qed
    then obtain h' where h': "ruby_set (RRef a) (Some k) u h1 = (Ok (), h')" "tree (insert a (H \<union> Fr)) h' (RRef a) (JObj (AList.update k y acc))"
      "length h' = length h1" "\<And>b. b \<noteq> a \<Longrightarrow> h' ! b = h1 ! b" by blast
    have "insert a (H \<union> Fr) \<subseteq> F \<union> G" "\<And>b. b \<notin> F \<union> G \<Longrightarrow> h' ! b = h ! b" using u(2) F put(2) h1(2) h'(4) by auto
    then show ?thesis using h' h1(1) self(1) by (auto simp: merged_def)
  qed
  have plain: "\<exists>h'. ruby_set self (Some k) v h = (Ok (), h') \<and> merged F G h self (JObj (AList.update k x acc)) h'"
    by (rule puts[OF v]) auto
  show ?thesis
  proof (cases "map_of acc k")
    case None
    then show ?thesis using plain put(3) by (simp add: merge_entry_def bnd_def gets_def hash)
  next
    case (Some old)
    then obtain u where u: "map_of ps (Some k) = Some u" "tree Fo h u old" using put(3) by auto
    show ?thesis
    proof (cases "(\<exists>a. old = JObj a) \<and> (\<exists>b. x = JObj b)")
      case False
      then have "\<not> (hash_of h u \<noteq> None \<and> hash_of h v \<noteq> None)" unfolding hash_of_tree[OF u(2)] hash_of_tree[OF v] by blast
      then show ?thesis using plain json_merge_other[OF False] by (auto simp: merge_entry_def bnd_def gets_def hash u(1) Some)
    next
      case True
      then obtain a' b' where o: "old = JObj a'" "x = JObj b'" by blast
      then have hs: "hash_of h u \<noteq> None \<and> hash_of h v \<noteq> None" unfolding hash_of_tree[OF u(2)] hash_of_tree[OF v] by blast
      have "Fo \<inter> G = {}" using disj F put(2) by auto
      then obtain h1 where h1: "m u v h = (Ok u, h1)" "merged Fo G h u (json_merge old x) h1"
        using m u(2) v n unfolding o merges_def by blast
      obtain H where H: "tree H h1 u (json_merge old x)" "H \<subseteq> Fo \<union> G" using mergedD(1)[OF h1(2)] by blast
      have "merge_entry m self (Some k, v) h = ruby_set self (Some k) u h1"
        using hs by (simp add: merge_entry_def bnd_def gets_def hash u(1) h1(1))
      then show ?thesis using puts[OF H mergedD(2)[OF h1(2)] mergedD(3)[OF h1(2)]] by (simp add: Some)
    qed
  qed
qed

lemma merge_entries_tree:
  assumes m: "merges m n"
  shows "tree F h self (JObj acc) \<Longrightarrow> trees G h (map snd ps) (map snd kvs) \<Longrightarrow> map fst ps = map (Some \<circ> fst) kvs \<Longrightarrow> F \<inter> G = {}
    \<Longrightarrow> list_all (\<lambda>p. objs (snd p) < n) kvs
    \<Longrightarrow> \<exists>h'. for_each (merge_entry m self) ps h = (Ok (), h') \<and> merged F G h self (json_merge (JObj acc) (JObj kvs)) h'"
proof (induction ps arbitrary: kvs acc F G h)
  case Nil
  then show ?case by (auto simp: merged_def ret_def elim!: treesE)
next
  case step: (Cons p ps)
  then obtain k x kvs' where kvs: "kvs = (k, x) # kvs'" by (cases kvs) auto
  obtain v where p: "p = (Some k, v)" "map fst ps = map (Some \<circ> fst) kvs'" using step.prems(3) by (cases p) (auto simp: kvs)
  obtain G1 G2 where G: "G = G1 \<union> G2" "tree G1 h v x" "trees G2 h (map snd ps) (map snd kvs')" "G1 \<inter> G2 = {}"
    using step.prems(2) by (auto simp: kvs p elim: treesE)
  let ?acc = "AList.update k (case map_of acc k of None \<Rightarrow> x | Some old \<Rightarrow> json_merge old x) acc"
  have "\<exists>h'. merge_entry m self (Some k, v) h = (Ok (), h') \<and> merged F G1 h self (JObj ?acc) h'"
    by (rule merge_entry_tree[OF m step.prems(1) G(2)]) (use step.prems(4,5) G(1) in \<open>auto simp: kvs\<close>)
  then obtain h1 where h1: "merge_entry m self p h = (Ok (), h1)" "merged F G1 h self (JObj ?acc) h1" by (auto simp: p)
  obtain H where H: "tree H h1 self (JObj ?acc)" "H \<subseteq> F \<union> G1" using mergedD(1)[OF h1(2)] by blast
  have "trees G2 h1 (map snd ps) (map snd kvs')"
  proof (rule tree_frame(2)[OF G(3)])
    fix a assume a: "a \<in> G2"
    then have "a \<notin> F \<union> G1" using step.prems(4) G(1,4) by auto
    then show "a < length h1 \<and> h1 ! a = h ! a" using mergedD(2,3)[OF h1(2)] a tree_in(2)[OF G(3)] by auto
  qed
  note T = this
  have HG: "H \<inter> G2 = {}" using H(2) step.prems(4) G(1,4) by auto
  have "list_all (\<lambda>p. objs (snd p) < n) kvs'" using step.prems(5) by (simp add: kvs)
  from step.IH[OF H(1) T p(2) HG this]
  obtain h2 where h2: "for_each (merge_entry m self) ps h1 = (Ok (), h2)" "merged H G2 h1 self (json_merge (JObj ?acc) (JObj kvs')) h2"
    by blast
  have "json_merge (JObj acc) (JObj kvs) = json_merge (JObj ?acc) (JObj kvs')" by (cases "map_of acc k") (simp_all add: kvs)
  moreover have "merged F G h self (json_merge (JObj ?acc) (JObj kvs')) h2"
  proof -
    obtain K where "tree K h2 self (json_merge (JObj ?acc) (JObj kvs'))" "K \<subseteq> H \<union> G2" using mergedD(1)[OF h2(2)] by blast
    moreover have "H \<union> G2 \<subseteq> F \<union> G" "F \<union> G1 \<subseteq> F \<union> G" using H(2) G(1) by auto
    moreover have "length h2 = length h" using mergedD(2)[OF h2(2)] mergedD(2)[OF h1(2)] by simp
    moreover have "h2 ! a = h ! a" if "a \<notin> F \<union> G" for a
    proof -
      have "a \<notin> H \<union> G2" "a \<notin> F \<union> G1" using that H(2) G(1) by auto
      then show ?thesis using mergedD(3)[OF h2(2)] mergedD(3)[OF h1(2)] by auto
    qed
    ultimately show ?thesis unfolding merged_def by blast
  qed
  ultimately show ?case using h1(1) h2(1) by (auto simp: seq_def bnd_def)
qed

text \<open>Merging two hashes, with more fuel than there are objects to merge in.\<close>

lemma recursive_merge_merges: "merges (recursive_merge n) n"
proof (induction n)
  case (Suc n)
  show ?case unfolding merges_def
  proof (intro allI impI)
    fix F G h self other a b
    assume self: "tree F h self (JObj a)" and other: "tree G h other (JObj b)" and disj: "F \<inter> G = {}" and n: "objs (JObj b) < Suc n"
    obtain c ps G' where o: "other = RRef c" "h ! c = RHash ps" "G = insert c G'" "map fst ps = map (Some \<circ> fst) b"
      "trees G' h (map snd ps) (map snd b)" using other by (auto elim: tree_jsonE)
    obtain ss where ss: "hash_of h self = Some ss" using hash_of_tree[OF self] by auto
    have "objs (snd p) \<le> sum_list (map (\<lambda>p. objs (snd p)) b)" if "p \<in> set b" for p
      using that by (intro member_le_sum_list) auto
    then have "list_all (\<lambda>p. objs (snd p) < n) b" using n by (fastforce simp: list_all_iff)
    then obtain h' where h': "for_each (merge_entry (recursive_merge n) self) ps h = (Ok (), h')"
      "merged F G' h self (json_merge (JObj a) (JObj b)) h'"
      using merge_entries_tree[OF Suc.IH self o(5,4)] disj o(3) by blast
    have "recursive_merge (Suc n) self other h = (Ok self, h')"
      using h'(1) ss o(1,2) by (simp add: bnd_def gets_def seq_def ret_def hash_of_def)
    moreover have "merged F G h self (json_merge (JObj a) (JObj b)) h'" using h'(2) o(3) unfolding merged_def by blast
    ultimately show "\<exists>h'. recursive_merge (Suc n) self other h = (Ok self, h') \<and> merged F G h self (json_merge (JObj a) (JObj b)) h'" by blast
  qed
qed (simp add: merges_def)

end
