(* ===== verification/RubyLookup.thy ===== *)
theory RubyLookup
  imports RubyTrees
begin

text \<open>
  What the evaluation context holds of the declared properties. The hash it builds has an inner
  hash for every proper prefix of a declared name; these are its own, while the values are shared
  with the document. Shown, for names none of which is a prefix of another: each name is looked
  up as the value of the document, or the declared default.
\<close>

section \<open>The inner hashes\<close>

text \<open>
  \<open>A\<close> gives the address of the inner hash of a prefix, \<open>V\<close> the value of a whole name.
\<close>

definition spine :: "rheap \<Rightarrow> (string list \<rightharpoonup> nat) \<Rightarrow> (string list \<rightharpoonup> rval) \<Rightarrow> bool" where
  "spine h A V \<longleftrightarrow> inj_on A (dom A)
     \<and> (\<forall>q a. A q = Some a \<longrightarrow> a < length h \<and> (\<exists>ps. h ! a = RHash ps
          \<and> (\<forall>k. map_of ps (Some k) = (case A (q @ [k]) of Some b \<Rightarrow> Some (RRef b) | None \<Rightarrow> V (q @ [k])))))
     \<and> (\<forall>q. A q \<noteq> None \<longrightarrow> V q = None)
     \<and> (\<forall>q k. A (q @ [k]) \<noteq> None \<or> V (q @ [k]) \<noteq> None \<longrightarrow> A q \<noteq> None)"

definition kept :: "(string list \<rightharpoonup> nat) \<Rightarrow> rheap \<Rightarrow> (string list \<rightharpoonup> nat) \<Rightarrow> rheap \<Rightarrow> bool" where
  "kept A h A' h' \<longleftrightarrow> length h \<le> length h' \<and> (\<forall>x < length h. x \<notin> Map.ran A \<longrightarrow> h' ! x = h ! x)
     \<and> Map.ran A' \<subseteq> Map.ran A \<union> {length h..<length h'}"

lemma kept_refl: "kept A h A h"
  by (simp add: kept_def)

lemma kept_trans:
  assumes "kept A h A1 h1" "kept A1 h1 A2 h2" shows "kept A h A2 h2"
proof -
  have "h2 ! x = h ! x" if x: "x < length h" "x \<notin> Map.ran A" for x
  proof -
    have "x \<notin> Map.ran A1" "x < length h1" using assms(1) x by (auto simp: kept_def)
    then show ?thesis using assms x by (auto simp: kept_def)
  qed
  moreover have "length h \<le> length h1" "length h1 \<le> length h2" "Map.ran A1 \<subseteq> Map.ran A \<union> {length h..<length h1}"
    "Map.ran A2 \<subseteq> Map.ran A1 \<union> {length h1..<length h2}" using assms by (simp_all add: kept_def)
  moreover have "Map.ran A2 \<subseteq> Map.ran A \<union> {length h..<length h2}"
    using calculation(4,5) unfolding intervals[OF calculation(2,3), symmetric] by blast
  ultimately show ?thesis by (simp add: kept_def)
qed

lemma spineI:
  assumes "inj_on A (dom A)" "\<And>q a. A q = Some a \<Longrightarrow> a < length h"
    "\<And>q a. A q = Some a \<Longrightarrow> \<exists>ps. h ! a = RHash ps
       \<and> (\<forall>k. map_of ps (Some k) = (case A (q @ [k]) of Some b \<Rightarrow> Some (RRef b) | None \<Rightarrow> V (q @ [k])))"
    "\<And>q a. A q = Some a \<Longrightarrow> V q = None" "\<And>q k. A (q @ [k]) \<noteq> None \<or> V (q @ [k]) \<noteq> None \<Longrightarrow> A q \<noteq> None"
  shows "spine h A V"
proof -
  have "\<forall>q. A q \<noteq> None \<longrightarrow> V q = None" using assms(4) by auto
  then show ?thesis using assms(1-3,5) unfolding spine_def by blast
qed

lemma spine_inj: "spine h A V \<Longrightarrow> inj_on A (dom A)"
  and spine_apart: "spine h A V \<Longrightarrow> A q = Some a \<Longrightarrow> V q = None"
  and spine_closed: "spine h A V \<Longrightarrow> A (q @ [k]) \<noteq> None \<or> V (q @ [k]) \<noteq> None \<Longrightarrow> A q \<noteq> None"
  unfolding spine_def by blast+

lemma spine_hash:
  assumes "spine h A V" "A q = Some a"
  shows "\<exists>ps. a < length h \<and> h ! a = RHash ps
    \<and> (\<forall>k. map_of ps (Some k) = (case A (q @ [k]) of Some b \<Rightarrow> Some (RRef b) | None \<Rightarrow> V (q @ [k])))"
  using assms unfolding spine_def by blast

lemma spine_get:
  assumes "spine h A V" "A q = Some a"
  shows "ruby_get (RRef a) (Some k) h = (Ok (case A (q @ [k]) of Some b \<Rightarrow> RRef b
    | None \<Rightarrow> (case V (q @ [k]) of None \<Rightarrow> RNil | Some v \<Rightarrow> v)), h)"
proof -
  obtain ps where "h ! a = RHash ps" "map_of ps (Some k) = (case A (q @ [k]) of Some b \<Rightarrow> Some (RRef b) | None \<Rightarrow> V (q @ [k]))"
    using spine_hash[OF assms] by blast
  then show ?thesis by (simp add: ruby_get_def split: option.split)
qed

lemma spine_frame:
  assumes "spine h A V" "\<And>a. a \<in> Map.ran A \<Longrightarrow> a < length h' \<and> h' ! a = h ! a" shows "spine h' A V"
  using assms unfolding spine_def by (metis ranI)

lemma spine_put:
  assumes s: "spine h A V" and a: "A q = Some a" "h ! a = RHash ps"
    and h': "length h \<le> length h'" "h' ! a = RHash ps'" "\<And>x. x < length h \<Longrightarrow> x \<noteq> a \<Longrightarrow> h' ! x = h ! x"
    and ps': "\<And>k'. k' \<noteq> k \<Longrightarrow> map_of ps' (Some k') = map_of ps (Some k')" "map_of ps' (Some k) = Some x"
    and k: "A (q @ [k]) = None"
  shows "spine h' A (V(q @ [k] \<mapsto> x))"
proof -
  have inj: "inj_on A (dom A)" using s by (rule spine_inj)
  have nodes: "\<exists>ps. h' ! b = RHash ps \<and> (\<forall>k'. map_of ps (Some k') = (case A (r @ [k']) of Some b \<Rightarrow> Some (RRef b) | None \<Rightarrow> (V(q @ [k] \<mapsto> x)) (r @ [k'])))"
    if b: "A r = Some b" for r b
  proof (cases "r = q")
    case True
    obtain qs where "h ! a = RHash qs" "\<And>k. map_of qs (Some k) = (case A (q @ [k]) of Some b \<Rightarrow> Some (RRef b) | None \<Rightarrow> V (q @ [k]))"
      using spine_hash[OF s a(1)] by blast
    then have "map_of ps' (Some k') = (case A (q @ [k']) of Some b \<Rightarrow> Some (RRef b) | None \<Rightarrow> (V(q @ [k] \<mapsto> x)) (q @ [k']))" for k'
      using a(2) ps' k by (cases "k' = k") (auto split: option.splits)
    then show ?thesis using True b a(1) h'(2) by auto
  next
    case False
    then have "b \<noteq> a" using inj a(1) b by (auto simp: inj_on_def dom_def)
    obtain ps where "b < length h" "h ! b = RHash ps"
      "\<And>k. map_of ps (Some k) = (case A (r @ [k]) of Some b \<Rightarrow> Some (RRef b) | None \<Rightarrow> V (r @ [k]))"
      using spine_hash[OF s b] by blast
    moreover have "(V(q @ [k] \<mapsto> x)) (r @ [k']) = V (r @ [k'])" for k' using False by simp
    ultimately show ?thesis using \<open>b \<noteq> a\<close> False by (simp add: h'(3) split: option.split)
  qed
  have bounded: "b < length h'" if "A r = Some b" for r b
  proof -
    have "b < length h" using spine_hash[OF s that] by blast
    then show ?thesis using h'(1) by simp
  qed
  show ?thesis
  proof (rule spineI[OF inj])
    show "A r \<noteq> None" if "A (r @ [k']) \<noteq> None \<or> (V(q @ [k] \<mapsto> x)) (r @ [k']) \<noteq> None" for r k'
      using that spine_closed[OF s, of r k'] a(1) by (auto split: if_splits)
    show "(V(q @ [k] \<mapsto> x)) r = None" if "A r = Some b" for r b using spine_apart[OF s that] that k by auto
  qed (use nodes bounded in blast)+
qed

text \<open>\<open>ref[key] ||= {}\<close> of a key that is not yet there makes the next inner hash.\<close>

lemma spine_new:
  assumes s: "spine h A V" and a: "A q = Some a" and k: "A (q @ [k]) = None" "V (q @ [k]) = None"
  shows "\<exists>h'. default_hash (RRef a) (Some k) h = (Ok (), h') \<and> spine h' (A(q @ [k] \<mapsto> length h)) V
    \<and> kept A h (A(q @ [k] \<mapsto> length h)) h'"
proof -
  obtain ps where ps: "a < length h" "h ! a = RHash ps"
    "\<And>k. map_of ps (Some k) = (case A (q @ [k]) of Some b \<Rightarrow> Some (RRef b) | None \<Rightarrow> V (q @ [k]))"
    using spine_hash[OF s a] by blast
  let ?A = "A(q @ [k] \<mapsto> length h)"
  let ?h = "(h @ [RHash []])[a := RHash (AList.update (Some k) (RRef (length h)) ps)]"
  have run: "default_hash (RRef a) (Some k) h = (Ok (), ?h)"
    using ps(1,2) k by (simp add: default_hash_def bnd_def spine_get[OF s a] truthy_def new_obj_def ruby_set_def nth_append put_obj_def modify_def)
  have old: "b < length h" if "A r = Some b" for r b using spine_hash[OF s that] by blast
  note inj = spine_inj[OF s] and closed = spine_closed[OF s]
  have above: "A (q @ [k] @ [k']) = None" "V (q @ [k] @ [k']) = None" for k' using closed[of "q @ [k]" k'] k(1) by fastforce+
  have "\<exists>qs. ?h ! b = RHash qs \<and> (\<forall>k'. map_of qs (Some k') = (case ?A (r @ [k']) of Some b \<Rightarrow> Some (RRef b) | None \<Rightarrow> V (r @ [k'])))"
    if b: "?A r = Some b" for r b
  proof (cases "r = q @ [k]")
    case True
    then have "b = length h" using b by simp
    then have "?h ! b = RHash []" using ps(1) by simp
    then show ?thesis using above by (auto simp: True)
  next
    case r: False
    then have b: "A r = Some b" using b by simp
    show ?thesis
    proof (cases "r = q")
      case True
      then have "b = a" using a b by simp
      then have "?h ! b = RHash (AList.update (Some k) (RRef (length h)) ps)" using ps(1) by simp
      moreover have "map_of (AList.update (Some k) (RRef (length h)) ps) (Some k')
          = (case ?A (r @ [k']) of Some b \<Rightarrow> Some (RRef b) | None \<Rightarrow> V (r @ [k']))" for k'
        unfolding True using ps(3)[of k'] by (cases "k' = k") (simp_all add: update_conv')
      ultimately show ?thesis by blast
    next
      case False
      then have "b \<noteq> a" using inj a b by (auto simp: inj_on_def dom_def)
      then have "?h ! b = h ! b" using old[OF b] by (simp add: nth_append)
      moreover have "?A (r @ [k']) = A (r @ [k'])" for k' using False by simp
      ultimately show ?thesis using spine_hash[OF s b] by simp
    qed
  qed
  moreover have "inj_on ?A (dom ?A)" using inj old by (force simp: inj_on_def dom_def split: if_splits)
  moreover have "b < length ?h" if "?A r = Some b" for r b using that old[of r b] by (auto split: if_splits)
  moreover have "V r = None" if "?A r = Some b" for r b using spine_apart[OF s] k(2) that by (auto split: if_splits)
  moreover have "?A r \<noteq> None" if "?A (r @ [k']) \<noteq> None \<or> V (r @ [k']) \<noteq> None" for r k'
    using closed[of r k'] that a by (auto split: if_splits)
  ultimately have "spine ?h ?A V" by (intro spineI) blast+
  moreover have "kept A h ?A ?h"
  proof -
    have "?h ! x = h ! x" if "x < length h" "x \<notin> Map.ran A" for x
    proof -
      have "a \<noteq> x" using that(2) a by (auto simp: Map.ran_def)
      then show ?thesis using that(1) by (simp add: nth_append)
    qed
    moreover have "Map.ran ?A \<subseteq> Map.ran A \<union> {length h..<length ?h}" by (auto simp: Map.ran_def split: if_splits)
    ultimately show ?thesis by (simp add: kept_def)
  qed
  ultimately show ?thesis using run by blast
qed

lemma descend_spine:
  "spine h A V \<Longrightarrow> A q = Some a \<Longrightarrow> (\<And>r. prefix r ks \<Longrightarrow> V (q @ r) = None) \<Longrightarrow>
   \<exists>h' A' b. descend ks (RRef a) h = (Ok (RRef b), h') \<and> spine h' A' V \<and> A' (q @ ks) = Some b \<and> kept A h A' h'
     \<and> dom A' = dom A \<union> {q @ r |r. prefix r ks} \<and> (\<forall>r b. A r = Some b \<longrightarrow> A' r = Some b)"
proof (induction ks arbitrary: h A q a)
  case Nil
  then have "dom A = dom A \<union> {q @ r |r. prefix r []}" by auto
  moreover have "descend [] (RRef a) h = (Ok (RRef a), h)" by (simp add: ret_def)
  moreover have "A (q @ []) = Some a" using Nil by simp
  ultimately show ?case using Nil.prems(1) kept_refl by blast
next
  case (Cons k ks)
  note s = Cons.prems(1) and a = Cons.prems(2) and V = Cons.prems(3)
  have prefixes: "{q @ r |r. prefix r (k # ks)} = insert q {(q @ [k]) @ r |r. prefix r ks}"
    by (auto simp: prefix_Cons)
  have Vk: "V ((q @ [k]) @ r) = None" if "prefix r ks" for r using V[of "k # r"] that by simp
  have step: "\<exists>h1 A1 b. default_hash (RRef a) (Some k) h = (Ok (), h1) \<and> spine h1 A1 V \<and> A1 (q @ [k]) = Some b
      \<and> kept A h A1 h1 \<and> dom A1 = insert (q @ [k]) (dom A) \<and> (\<forall>r b. A r = Some b \<longrightarrow> A1 r = Some b)"
  proof (cases "A (q @ [k])")
    case None
    have "V (q @ [k]) = None" using Vk[of "[]"] by simp
    from spine_new[OF s a None this] obtain h1 where "default_hash (RRef a) (Some k) h = (Ok (), h1)"
      "spine h1 (A(q @ [k] \<mapsto> length h)) V" "kept A h (A(q @ [k] \<mapsto> length h)) h1" by blast
    then show ?thesis using None by (intro exI[of _ h1] exI[of _ "A(q @ [k] \<mapsto> length h)"] exI[of _ "length h"]) auto
  next
    case (Some b)
    then have "default_hash (RRef a) (Some k) h = (Ok (), h)"
      by (simp add: default_hash_def bnd_def spine_get[OF s a] truthy_def ret_def)
    then show ?thesis using s Some kept_refl by (metis domI insert_absorb)
  qed
  then obtain h1 A1 b where 1: "default_hash (RRef a) (Some k) h = (Ok (), h1)" "spine h1 A1 V" "A1 (q @ [k]) = Some b"
      "kept A h A1 h1" "dom A1 = insert (q @ [k]) (dom A)" "\<And>r b. A r = Some b \<Longrightarrow> A1 r = Some b" by blast
  have "ruby_get (RRef a) (Some k) h1 = (Ok (RRef b), h1)" using spine_get[OF 1(2) 1(6)[OF a], of k] 1(3) by simp
  then have run: "descend (k # ks) (RRef a) h = descend ks (RRef b) h1" using 1(1) by (simp add: seq_def bnd_def)
  obtain h2 A2 c where 2: "descend ks (RRef b) h1 = (Ok (RRef c), h2)" "spine h2 A2 V" "A2 ((q @ [k]) @ ks) = Some c"
    "kept A1 h1 A2 h2" "dom A2 = dom A1 \<union> {(q @ [k]) @ r |r. prefix r ks}" "\<And>r b. A1 r = Some b \<Longrightarrow> A2 r = Some b"
    using Cons.IH[OF 1(2,3) Vk] by blast
  have "dom A2 = dom A \<union> {q @ r |r. prefix r (k # ks)}"
    unfolding prefixes 2(5) 1(5) using a by (auto simp: dom_def)
  moreover have "kept A h A2 h2" using 1(4) 2(4) by (rule kept_trans)
  moreover have "A2 (q @ k # ks) = Some c" using 2(3) by simp
  ultimately show ?case using run 2(1,2) 1(6) 2(6) by (auto intro!: exI[of _ h2] exI[of _ A2] exI[of _ c])
qed

lemma write_spine:
  assumes s: "spine h A V" and a: "A q = Some a" and k: "A (q @ [k]) = None"
  shows "\<exists>h'. seq (default_hash (RRef a) (Some k)) (ruby_set (RRef a) (Some k) x) h = (Ok (), h')
    \<and> spine h' A (V(q @ [k] \<mapsto> x)) \<and> kept A h A h'"
proof -
  obtain ps where ps: "a < length h" "h ! a = RHash ps" using spine_hash[OF s a] by blast
  have "\<exists>h1 ps1. default_hash (RRef a) (Some k) h = (Ok (), h1) \<and> h1 ! a = RHash ps1 \<and> length h \<le> length h1
      \<and> (\<forall>y. y < length h \<longrightarrow> y \<noteq> a \<longrightarrow> h1 ! y = h ! y) \<and> (\<forall>k'. k' \<noteq> k \<longrightarrow> map_of ps1 (Some k') = map_of ps (Some k'))"
  proof (cases "truthy (case V (q @ [k]) of None \<Rightarrow> RNil | Some v \<Rightarrow> v)")
    case True
    then have "default_hash (RRef a) (Some k) h = (Ok (), h)"
      using k by (simp add: default_hash_def bnd_def spine_get[OF s a] ret_def)
    then show ?thesis using ps by blast
  next
    case False
    let ?h = "(h @ [RHash []])[a := RHash (AList.update (Some k) (RRef (length h)) ps)]"
    have "default_hash (RRef a) (Some k) h = (Ok (), ?h)"
      using ps k False by (simp add: default_hash_def bnd_def spine_get[OF s a] new_obj_def ruby_set_def nth_append put_obj_def modify_def)
    moreover have "\<forall>y. y < length h \<longrightarrow> y \<noteq> a \<longrightarrow> ?h ! y = h ! y" by (simp add: nth_append)
    ultimately show ?thesis using ps(1) by (intro exI[of _ ?h]) (auto simp: update_conv')
  qed
  then obtain h1 ps1 where 1: "default_hash (RRef a) (Some k) h = (Ok (), h1)" "h1 ! a = RHash ps1" "length h \<le> length h1"
      "\<And>y. y < length h \<Longrightarrow> y \<noteq> a \<Longrightarrow> h1 ! y = h ! y" "\<And>k'. k' \<noteq> k \<Longrightarrow> map_of ps1 (Some k') = map_of ps (Some k')" by blast
  let ?h = "h1[a := RHash (AList.update (Some k) x ps1)]"
  have "seq (default_hash (RRef a) (Some k)) (ruby_set (RRef a) (Some k) x) h = (Ok (), ?h)"
    using 1(1,2) by (simp add: seq_def bnd_def ruby_set_def put_obj_def modify_def)
  moreover have "spine ?h A (V(q @ [k] \<mapsto> x))"
    by (rule spine_put[where ps' = "AList.update (Some k) x ps1", OF s a ps(2)]) (use 1 ps(1) k in \<open>auto simp: update_conv'\<close>)
  moreover have "kept A h A ?h"
  proof -
    have "a \<noteq> y" if "y \<notin> Map.ran A" for y using that a by (auto simp: Map.ran_def)
    then show ?thesis using 1(3,4) by (auto simp: kept_def)
  qed
  ultimately show ?thesis by blast
qed

lemma follow_spine:
  "spine h A V \<Longrightarrow> A q = Some a \<Longrightarrow> V (q @ ks) = Some v \<Longrightarrow> ks \<noteq> [] \<Longrightarrow> (\<And>r. strict_prefix r ks \<Longrightarrow> A (q @ r) \<noteq> None)
    \<Longrightarrow> follow ks (RRef a) h = (Ok v, h)"
proof (induction ks arbitrary: q a)
  case (Cons k ks)
  note s = Cons.prems(1)
  note g = spine_get[OF s Cons.prems(2), of k]
  show ?case
  proof (cases ks)
    case Nil
    then have "V (q @ [k]) = Some v" using Cons.prems(3) by simp
    moreover have "A (q @ [k]) = None" using s calculation unfolding spine_def by (metis option.distinct(1))
    ultimately show ?thesis using g Nil by (simp add: bnd_def ret_def)
  next
    case c: (Cons k' ks')
    have "strict_prefix [k] (k # ks)" by (simp add: c)
    then obtain b where b: "A (q @ [k]) = Some b" using Cons.prems(5)[of "[k]"] by auto
    have "follow ks (RRef b) h = (Ok v, h)"
    proof (rule Cons.IH[OF s b])
      show "A ((q @ [k]) @ r) \<noteq> None" if "strict_prefix r ks" for r using Cons.prems(5)[of "k # r"] that by simp
    qed (use Cons.prems(3) c in simp_all)
    then show ?thesis using g b by (simp add: bnd_def)
  qed
qed simp

section \<open>Copying the declared properties\<close>

definition unrelated :: "string list \<Rightarrow> string list \<Rightarrow> bool" where
  "unrelated ks ks' \<longleftrightarrow> \<not> prefix ks ks' \<and> \<not> prefix ks' ks"

text \<open>
  \<open>copied h0 h A V W\<close>: from \<open>h0\<close>, the hash at \<open>length h0\<close> has come to hold the values \<open>W\<close> of the
  names copied so far.
\<close>

definition copied :: "rheap \<Rightarrow> rheap \<Rightarrow> (string list \<rightharpoonup> nat) \<Rightarrow> (string list \<rightharpoonup> rval) \<Rightarrow> (string list \<rightharpoonup> json) \<Rightarrow> bool" where
  "copied h0 h A V W \<longleftrightarrow> spine h A V \<and> A [] = Some (length h0) \<and> (\<forall>x < length h0. h ! x = h0 ! x)
     \<and> (\<forall>a \<in> Map.ran A. length h0 \<le> a) \<and> dom V = dom W
     \<and> (\<forall>ks v j. V ks = Some v \<longrightarrow> W ks = Some j \<longrightarrow> (\<exists>G. tree G h v j \<and> G \<inter> Map.ran A = {}))
     \<and> (\<forall>q. A q \<noteq> None \<longleftrightarrow> q = [] \<or> (\<exists>ks \<in> dom W. strict_prefix q ks))"

lemma copiedD:
  assumes "copied h0 h A V W"
  shows "spine h A V" "A [] = Some (length h0)" "x < length h0 \<Longrightarrow> h ! x = h0 ! x" "a \<in> Map.ran A \<Longrightarrow> length h0 \<le> a"
    "dom V = dom W" "V ks = Some v \<Longrightarrow> W ks = Some j \<Longrightarrow> \<exists>G. tree G h v j \<and> G \<inter> Map.ran A = {}"
    "A q \<noteq> None \<longleftrightarrow> q = [] \<or> (\<exists>ks \<in> dom W. strict_prefix q ks)"
  using assms unfolding copied_def by simp_all

lemma copied_start: "copied h0 (h0 @ [RHash []]) [[] \<mapsto> length h0] Map.empty Map.empty"
proof -
  have "spine (h0 @ [RHash []]) [[] \<mapsto> length h0] Map.empty" by (rule spineI) (auto split: if_splits)
  then show ?thesis by (auto simp: copied_def nth_append)
qed

lemma leaf_kept:
  assumes "tree G h v j" "G \<inter> Map.ran A = {}" "kept A h A' h'"
  shows "tree G h' v j \<and> G \<inter> Map.ran A' = {}"
proof -
  have lt: "a < length h" "a \<notin> Map.ran A" if "a \<in> G" for a using tree_in(1)[OF assms(1)] assms(2) that by auto
  have "tree G h' v j"
  proof (rule tree_frame(1)[OF assms(1)])
    fix a assume "a \<in> G"
    note a = lt[OF this]
    then show "a < length h' \<and> h' ! a = h ! a" using assms(3) unfolding kept_def by auto
  qed
  moreover have "a \<notin> Map.ran A'" if "a \<in> G" for a
  proof
    assume "a \<in> Map.ran A'"
    then have "a \<in> Map.ran A \<union> {length h..<length h'}" using assms(3) unfolding kept_def by blast
    then show False using lt[OF that] by simp
  qed
  ultimately show ?thesis by blast
qed

lemma strict_prefix_butlast: "ks \<noteq> [] \<Longrightarrow> strict_prefix q ks \<longleftrightarrow> prefix q (butlast ks)"
  by (cases ks rule: rev_cases) (auto simp: strict_prefix_def)

definition declared_value :: "json \<Rightarrow> string list \<Rightarrow> json \<Rightarrow> json option" where
  "declared_value src ks d = map_option (\<lambda>x. if x = JNull then d else x) (json_path ks src)"

lemma copy_property_copied:
  assumes c: "copied h0 h A V W" and src: "tree F h0 src sj" and d: "tree D h0 dv dj"
    and ks: "split_name name \<noteq> []" "\<And>ks'. ks' \<in> dom W \<Longrightarrow> unrelated (split_name name) ks'"
  shows "case declared_value sj (split_name name) dj of
      None \<Rightarrow> \<exists>e h'. copy_property (RRef (length h0)) src name dv h = (Err e, h')
    | Some x \<Rightarrow> \<exists>h' A' V'. copy_property (RRef (length h0)) src name dv h = (Ok (), h') \<and> copied h0 h' A' V' (W(split_name name \<mapsto> x))"
proof -
  define ks where "ks = split_name name"
  let ?n = "length h0"
  note s = copiedD(1)[OF c] and root = copiedD(2)[OF c] and low = copiedD(3)[OF c] and own = copiedD(4)[OF c]
    and dom = copiedD(5)[OF c] and leaf = copiedD(6)[OF c] and shape = copiedD(7)[OF c]
  have n: "?n < length h" using spine_hash[OF s root] by blast
  have old: "a < length h" if a: "a \<in> Map.ran A" for a
  proof -
    obtain q where "A q = Some a" using a by (auto simp: Map.ran_def)
    then show ?thesis using spine_hash[OF s] by blast
  qed
  have outside: "tree T h t j \<and> T \<inter> Map.ran A = {}" if t: "tree T h0 t j" for T t j
  proof -
    have "a < ?n" if "a \<in> T" for a using tree_in(1)[OF t] that by auto
    then show ?thesis using tree_frame(1)[OF t, of h] low n own by fastforce
  qed
  have "gives F h (json_path ks sj) (follow ks src)" using outside[OF src] follow_gives by blast
  then obtain e where e: "case json_path ks sj of None \<Rightarrow> \<exists>cls. follow ks src h = (Err (External cls), h @ e)
      | Some j \<Rightarrow> \<exists>v G. follow ks src h = (Ok v, h @ e) \<and> tree G (h @ e) v j \<and> G \<subseteq> F \<union> {length h..<length (h @ e)}"
    unfolding gives_def by blast
  show ?thesis
  proof (cases "json_path ks sj")
    case None
    then show ?thesis using e by (auto simp: declared_value_def ks_def[symmetric] copy_property_def Let_def bnd_def)
  next
    case (Some j)
    then obtain v G where f: "follow ks src h = (Ok v, h @ e)" "tree G (h @ e) v j" "G \<subseteq> F \<union> {length h..<length (h @ e)}"
      using e by auto
    let ?x = "if j = JNull then dj else j" and ?v = "if v = RNil then dv else v"
    have k0: "kept A h A (h @ e)" by (auto simp: kept_def nth_append old)
    have "G \<inter> Map.ran A = {}"
    proof -
      have "a \<notin> Map.ran A" if "a \<in> G" for a
      proof
        assume a: "a \<in> Map.ran A"
        then have "a \<in> F" using f(3) that old by fastforce
        then show False using a outside[OF src] by blast
      qed
      then show ?thesis by blast
    qed
    moreover have "tree D (h @ e) dv dj \<and> D \<inter> Map.ran A = {}" using outside[OF d] leaf_kept k0 by blast
    ultimately obtain X where X: "tree X (h @ e) ?v ?x" "X \<inter> Map.ran A = {}"
      using f(2) tree_nil_iff[OF f(2)] by (cases "j = JNull") auto
    have s1: "spine (h @ e) A V" by (rule spine_frame[OF s]) (simp add: old nth_append trans_less_add1)
    have V: "V ([] @ r) = None" if "prefix r (butlast ks)" for r
    proof (rule ccontr)
      assume "V ([] @ r) \<noteq> None"
      then have "unrelated ks r" using ks(2) dom unfolding ks_def by (metis append_Nil domIff)
      moreover have "prefix r ks" using that ks(1) strict_prefix_butlast[of ks r] by (simp add: ks_def strict_prefix_def)
      ultimately show False by (simp add: unrelated_def)
    qed
    obtain h2 A2 b where 2: "descend (butlast ks) (RRef ?n) (h @ e) = (Ok (RRef b), h2)" "spine h2 A2 V" "A2 ([] @ butlast ks) = Some b"
      "kept A (h @ e) A2 h2" "dom A2 = dom A \<union> {[] @ r |r. prefix r (butlast ks)}" "\<And>r b. A r = Some b \<Longrightarrow> A2 r = Some b"
      using descend_spine[OF s1 root V] by blast
    have whole: "butlast ks @ [last ks] = ks" using ks(1) by (simp add: ks_def)
    have "ks \<notin> dom A"
    proof
      assume "ks \<in> dom A"
      then obtain ks' where "ks' \<in> dom W" "strict_prefix ks ks'" using shape[of ks] ks(1) by (auto simp: ks_def)
      then show False using ks(2)[of ks'] by (simp add: ks_def unrelated_def strict_prefix_def)
    qed
    moreover have "\<not> prefix ks (butlast ks)" using ks(1) prefix_length_le[of ks "butlast ks"] by (cases ks) (auto simp: ks_def)
    ultimately have free: "A2 (butlast ks @ [last ks]) = None" unfolding whole using 2(5) by (auto simp: domIff)
    have "A2 (butlast ks) = Some b" using 2(3) by simp
    then obtain h3 where 3: "seq (default_hash (RRef b) (Some (last ks))) (ruby_set (RRef b) (Some (last ks)) ?v) h2 = (Ok (), h3)"
      "spine h3 A2 (V(ks \<mapsto> ?v))" "kept A2 h2 A2 h3"
      using write_spine[OF 2(2) _ free, of b ?v] unfolding whole by blast
    have run: "copy_property (RRef ?n) src name dv h = (Ok (), h3)"
      using f(1) 2(1) 3(1) ks(1) by (simp add: copy_property_def Let_def ks_def[symmetric] bnd_def)
    have k: "kept A (h @ e) A2 h3" using 2(4) 3(3) by (rule kept_trans)
    note K = kept_trans[OF k0 k]
    have "copied h0 h3 A2 (V(ks \<mapsto> ?v)) (W(ks \<mapsto> ?x))"
      unfolding copied_def
    proof (intro conjI allI impI)
      show "spine h3 A2 (V(ks \<mapsto> ?v))" by (rule 3(2))
      show "A2 [] = Some ?n" by (rule 2(6)[OF root])
      show "h3 ! x = h0 ! x" if "x < ?n" for x
      proof -
        have "x \<notin> Map.ran A" using own[of x] that by auto
        then show ?thesis using K low[OF that] that n by (auto simp: kept_def)
      qed
      show "\<forall>a \<in> Map.ran A2. ?n \<le> a"
      proof
        fix a assume "a \<in> Map.ran A2"
        then have "a \<in> Map.ran A \<union> {length h..<length h3}" using K unfolding kept_def by blast
        then show "?n \<le> a" using own n by auto
      qed
      show "dom (V(ks \<mapsto> ?v)) = dom (W(ks \<mapsto> ?x))" using dom by simp
      show "\<exists>G. tree G h3 u y \<and> G \<inter> Map.ran A2 = {}" if vu: "(V(ks \<mapsto> ?v)) ks' = Some u" "(W(ks \<mapsto> ?x)) ks' = Some y" for ks' u y
      proof (cases "ks' = ks")
        case True
        then have "u = ?v" "y = ?x" using vu by simp_all
        then show ?thesis using leaf_kept[OF X k] by blast
      next
        case False
        then obtain G where "tree G h u y" "G \<inter> Map.ran A = {}" using leaf[of ks' u y] vu by auto
        then show ?thesis using leaf_kept[OF _ _ K] by blast
      qed
      show "A2 q \<noteq> None \<longleftrightarrow> q = [] \<or> (\<exists>ks' \<in> dom (W(ks \<mapsto> ?x)). strict_prefix q ks')" for q
      proof -
        have "A2 q \<noteq> None \<longleftrightarrow> A q \<noteq> None \<or> prefix q (butlast ks)" using 2(5) by (auto simp: domIff set_eq_iff)
        then show ?thesis unfolding shape using strict_prefix_butlast[of ks q] ks(1) by (auto simp: ks_def)
      qed
    qed
    note copied = this
    have "declared_value sj ks dj = Some ?x" by (simp add: declared_value_def Some)
    then show ?thesis using run copied unfolding ks_def by (simp only: option.case) blast
  qed
qed

text \<open>All the declared properties, with their defaults in the heap \<open>h0\<close>.\<close>

definition declares :: "rheap \<Rightarrow> (string option \<times> rval) list \<Rightarrow> (string \<times> json) list \<Rightarrow> bool" where
  "declares h0 ps ds \<longleftrightarrow> list_all2 (\<lambda>p q. fst p = Some (fst q) \<and> (\<exists>D. tree D h0 (snd p) (snd q))) ps ds"

definition unambiguous :: "string list list \<Rightarrow> bool" where
  "unambiguous names \<longleftrightarrow> [] \<notin> set names \<and> sorted_wrt unrelated names"

lemma unrelated_sym: "unrelated x y = unrelated y x"
  by (auto simp: unrelated_def)

lemma copy_declared_copied:
  assumes "copied h0 h A V W" "tree F h0 src sj" "declares h0 ps ds" "unambiguous (map (split_name \<circ> fst) ds)"
    "\<And>ks q. ks \<in> dom W \<Longrightarrow> q \<in> set ds \<Longrightarrow> unrelated (split_name (fst q)) ks"
  shows "if (\<exists>q \<in> set ds. declared_value sj (split_name (fst q)) (snd q) = None)
    then \<exists>e h'. copy_declared (RRef (length h0)) src ps h = (Err e, h')
    else \<exists>h' A' V' W'. copy_declared (RRef (length h0)) src ps h = (Ok (), h') \<and> copied h0 h' A' V' W'
      \<and> (\<forall>q \<in> set ds. W' (split_name (fst q)) = declared_value sj (split_name (fst q)) (snd q))
      \<and> (\<forall>ks. ks \<notin> split_name ` fst ` set ds \<longrightarrow> W' ks = W ks)"
  using assms
proof (induction ps arbitrary: ds h A V W)
  case Nil
  then have "ds = []" by (simp add: declares_def)
  then show ?case using Nil.prems(1) by (auto simp: copy_declared_def ret_def)
next
  case step: (Cons p ps)
  then obtain name dj ds' where ds: "ds = (name, dj) # ds'" by (cases ds) (auto simp: declares_def)
  obtain dv D where p: "p = (Some name, dv)" "tree D h0 dv dj" and rest: "declares h0 ps ds'"
    using step.prems(3) by (cases p) (auto simp: ds declares_def)
  have un: "split_name name \<noteq> []" "unambiguous (map (split_name \<circ> fst) ds')"
    "\<And>q. q \<in> set ds' \<Longrightarrow> unrelated (split_name name) (split_name (fst q))"
    using step.prems(4) by (auto simp: ds unambiguous_def comp_def)
  note one = copy_property_copied[OF step.prems(1,2) p(2) un(1) step.prems(5)[of _ "(name, dj)", simplified ds fst_conv]]
  show ?case
  proof (cases "declared_value sj (split_name name) dj")
    case None
    then obtain e h1 where "copy_property (RRef (length h0)) src name dv h = (Err e, h1)" using one by (auto simp: ds)
    then have "\<exists>e h'. copy_declared (RRef (length h0)) src (p # ps) h = (Err e, h')"
      by (simp add: copy_declared_def p(1) seq_def bnd_def)
    then show ?thesis using None by (auto simp: ds)
  next
    case (Some x)
    then obtain h1 A1 V1 where 1: "copy_property (RRef (length h0)) src name dv h = (Ok (), h1)"
      "copied h0 h1 A1 V1 (W(split_name name \<mapsto> x))" using one by (auto simp: ds)
    have run: "copy_declared (RRef (length h0)) src (p # ps) h = copy_declared (RRef (length h0)) src ps h1"
      using 1(1) by (simp add: copy_declared_def p(1) seq_def bnd_def)
    have fresh: "unrelated (split_name (fst q)) ks" if "ks \<in> dom (W(split_name name \<mapsto> x))" "q \<in> set ds'" for ks q
      using that un(3)[of q] step.prems(5)[of ks q] unrelated_sym by (auto simp: ds split: if_splits)
    have name: "split_name name \<notin> split_name ` fst ` set ds'" 
    proof
      assume "split_name name \<in> split_name ` fst ` set ds'"
      then obtain q where q: "q \<in> set ds'" "split_name (fst q) = split_name name" by auto
      show False using un(3)[OF q(1)] unfolding q(2) by (simp add: unrelated_def)
    qed
    have IH: "if (\<exists>q \<in> set ds'. declared_value sj (split_name (fst q)) (snd q) = None)
      then \<exists>e h'. copy_declared (RRef (length h0)) src ps h1 = (Err e, h')
      else \<exists>h' A' V' W'. copy_declared (RRef (length h0)) src ps h1 = (Ok (), h') \<and> copied h0 h' A' V' W'
        \<and> (\<forall>q \<in> set ds'. W' (split_name (fst q)) = declared_value sj (split_name (fst q)) (snd q))
        \<and> (\<forall>ks. ks \<notin> split_name ` fst ` set ds' \<longrightarrow> W' ks = (W(split_name name \<mapsto> x)) ks)"
      by (rule step.IH[OF 1(2) step.prems(2) rest un(2) fresh])
    show ?thesis
    proof (cases "\<exists>q \<in> set ds'. declared_value sj (split_name (fst q)) (snd q) = None")
      case True
      then show ?thesis using IH unfolding run by (auto simp: ds)
    next
      case False
      then obtain h' A' V' W' where r: "copy_declared (RRef (length h0)) src ps h1 = (Ok (), h')" "copied h0 h' A' V' W'"
        "\<And>q. q \<in> set ds' \<Longrightarrow> W' (split_name (fst q)) = declared_value sj (split_name (fst q)) (snd q)"
        "\<And>ks. ks \<notin> split_name ` fst ` set ds' \<Longrightarrow> W' ks = (W(split_name name \<mapsto> x)) ks"
        using IH unfolding if_not_P[OF False] by blast
      have "W' (split_name name) = Some x" using r(4)[OF name] by simp
      moreover have "W' ks = W ks" if "ks \<notin> split_name ` fst ` set ds" for ks using r(4)[of ks] that by (auto simp: ds)
      moreover have "W' (split_name (fst q)) = declared_value sj (split_name (fst q)) (snd q)" if "q \<in> set ds" for q
        using that r(3)[of q] calculation(1) Some by (auto simp: ds)
      moreover have no: "\<not> (\<exists>q \<in> set ds. declared_value sj (split_name (fst q)) (snd q) = None)" using False Some by (simp add: ds)
      ultimately show ?thesis unfolding if_not_P[OF no] run using r(1,2) by blast
    qed
  qed
qed

lemma lookup_copied:
  assumes c: "copied h0 h A V W" and x: "W (split_name name) = Some x" and ks: "split_name name \<noteq> []"
  shows "\<exists>v G. lookup_property (RRef (length h0)) name h = (Ok v, h) \<and> tree G h v x"
proof -
  obtain v where v: "V (split_name name) = Some v" using x copiedD(5)[OF c] by (metis domIff not_None_eq)
  have "follow (split_name name) (RRef (length h0)) h = (Ok v, h)"
  proof (rule follow_spine[OF copiedD(1,2)[OF c] _ ks])
    show "V ([] @ split_name name) = Some v" using v by simp
    show "A ([] @ r) \<noteq> None" if "strict_prefix r (split_name name)" for r
      using copiedD(7)[OF c, of r] that x by auto
  qed
  then show ?thesis using copiedD(6)[OF c v x] by (auto simp: lookup_property_def)
qed

section \<open>The context of a document\<close>

definition field :: "(string \<times> json) list \<Rightarrow> string \<Rightarrow> json" where
  "field kvs k = (case map_of kvs k of None \<Rightarrow> JNull | Some j \<Rightarrow> j)"

text \<open>The job's own properties if it has any, else the global ones with the cluster's merged into them.\<close>

definition effective :: "(string \<times> json) list \<Rightarrow> json option" where
  "effective kvs = (if field kvs ''job_properties'' \<noteq> JNull then Some (field kvs ''job_properties'')
     else case (field kvs ''global_properties'', field kvs ''cluster_properties'') of
       (JObj a, JObj b) \<Rightarrow> Some (json_merge (JObj a) (JObj b)) | _ \<Rightarrow> None)"

text \<open>The fields of a hash use different objects.\<close>

lemma trees_fields:
  assumes "trees F h (map snd ps) (map snd kvs)" "map fst ps = map (Some \<circ> fst) kvs"
  shows "\<exists>f. (\<forall>k. f k \<subseteq> F \<and> (\<exists>v. (case map_of ps (Some k) of None \<Rightarrow> RNil | Some v \<Rightarrow> v) = v \<and> tree (f k) h v (field kvs k)))
    \<and> (\<forall>k k'. k \<noteq> k' \<longrightarrow> f k \<inter> f k' = {})"
  using assms
proof (induction ps arbitrary: kvs F)
  case Nil
  then show ?case by (intro exI[of _ "\<lambda>_. {}"]) (auto simp: field_def intro: tree_null)
next
  case step: (Cons p ps)
  then obtain k j kvs' where kvs: "kvs = (k, j) # kvs'" by (cases kvs) auto
  obtain v where p: "p = (Some k, v)" "map fst ps = map (Some \<circ> fst) kvs'" using step.prems(2) by (cases p) (auto simp: kvs)
  obtain F1 F2 where F: "F = F1 \<union> F2" "tree F1 h v j" "trees F2 h (map snd ps) (map snd kvs')" "F1 \<inter> F2 = {}"
    using step.prems(1) by (auto simp: kvs p elim: treesE)
  obtain f where f: "\<And>k. f k \<subseteq> F2" "\<And>k. tree (f k) h (case map_of ps (Some k) of None \<Rightarrow> RNil | Some v \<Rightarrow> v) (field kvs' k)"
    "\<And>k k'. k \<noteq> k' \<Longrightarrow> f k \<inter> f k' = {}" using step.IH[OF F(3) p(2)] by auto
  have "(f(k := F1)) k' \<subseteq> F" for k' using f(1) F(1) by auto
  moreover have "tree ((f(k := F1)) k') h (case map_of (p # ps) (Some k') of None \<Rightarrow> RNil | Some v \<Rightarrow> v) (field kvs k')" for k'
    using f(2)[of k'] F(2) by (cases "k' = k") (simp_all add: p kvs field_def)
  moreover have "(f(k := F1)) k' \<inter> (f(k := F1)) k'' = {}" if "k' \<noteq> k''" for k' k''
    using f(1)[of k'] f(1)[of k''] f(3)[OF that] F(4) that by auto
  ultimately show ?case by blast
qed

lemma tree_fields:
  assumes "tree F h v (JObj kvs)"
  obtains f where "\<And>k. \<exists>u. ruby_get v (Some k) h = (Ok u, h) \<and> tree (f k) h u (field kvs k)" "\<And>k k'. k \<noteq> k' \<Longrightarrow> f k \<inter> f k' = {}"
    "\<And>k h'. (\<forall>a < length h. (\<forall>k. a \<notin> f k) \<longrightarrow> h' ! a = h ! a) \<Longrightarrow> ruby_get v (Some k) h' = (fst (ruby_get v (Some k) h), h')"
proof -
  obtain a ps G where v: "v = RRef a" "h ! a = RHash ps" "a \<notin> G" "a < length h"
    and ps: "map fst ps = map (Some \<circ> fst) kvs" "trees G h (map snd ps) (map snd kvs)"
    using assms by (auto elim: tree_jsonE)
  obtain f where f: "\<And>k. f k \<subseteq> G" "\<And>k. tree (f k) h (case map_of ps (Some k) of None \<Rightarrow> RNil | Some v \<Rightarrow> v) (field kvs k)"
    "\<And>k k'. k \<noteq> k' \<Longrightarrow> f k \<inter> f k' = {}" using trees_fields[OF ps(2,1)] by auto
  show ?thesis
  proof (rule that)
    show "\<exists>u. ruby_get v (Some k) h = (Ok u, h) \<and> tree (f k) h u (field kvs k)" for k using f(2) by (simp add: ruby_get_def v)
    show "k \<noteq> k' \<Longrightarrow> f k \<inter> f k' = {}" for k k' by (rule f(3))
    show "ruby_get v (Some k) h' = (fst (ruby_get v (Some k) h), h')" if "\<forall>a < length h. (\<forall>k. a \<notin> f k) \<longrightarrow> h' ! a = h ! a" for k h'
    proof -
      have "h' ! a = h ! a" using that f(1) v(3,4) by blast
      then show ?thesis by (simp add: ruby_get_def v)
    qed
  qed
qed

lemma effective_properties_tree:
  assumes f: "\<And>k. \<exists>u. ruby_get s (Some k) h = (Ok u, h) \<and> tree (f k) h u (field kvs k)" "\<And>k k'. k \<noteq> k' \<Longrightarrow> f k \<inter> f k' = {}"
  shows "case effective kvs of None \<Rightarrow> \<exists>e h'. effective_properties s h = (Err e, h')
    | Some j \<Rightarrow> \<exists>v T h'. effective_properties s h = (Ok v, h') \<and> tree T h' v j \<and> length h' = length h
        \<and> (\<forall>a. a \<notin> f ''global_properties'' \<union> f ''cluster_properties'' \<longrightarrow> h' ! a = h ! a)"
proof -
  obtain j g c where j: "ruby_get s (Some ''job_properties'') h = (Ok j, h)" "tree (f ''job_properties'') h j (field kvs ''job_properties'')"
    and g: "ruby_get s (Some ''global_properties'') h = (Ok g, h)" "tree (f ''global_properties'') h g (field kvs ''global_properties'')"
    and c: "ruby_get s (Some ''cluster_properties'') h = (Ok c, h)" "tree (f ''cluster_properties'') h c (field kvs ''cluster_properties'')"
    using f(1) by meson
  show ?thesis
  proof (cases "field kvs ''job_properties'' = JNull")
    case False
    then have "effective_properties s h = (Ok j, h)" using tree_nil_iff[OF j(2)] by (simp add: effective_properties_def bnd_def j(1) ret_def)
    then show ?thesis using j(2) False by (auto simp: effective_def)
  next
    case True
    then have run: "effective_properties s h = recursive_merge (depth_fuel h) g c h"
      using tree_nil_iff[OF j(2)] by (simp add: effective_properties_def bnd_def gets_def j(1) g(1) c(1))
    show ?thesis
    proof (cases "(\<exists>a. field kvs ''global_properties'' = JObj a) \<and> (\<exists>b. field kvs ''cluster_properties'' = JObj b)")
      case both: True
      then obtain a b where ab: "field kvs ''global_properties'' = JObj a" "field kvs ''cluster_properties'' = JObj b" by blast
      have n: "objs (JObj b) < depth_fuel h" using objs_bounded[OF c(2)] by (simp add: ab depth_fuel_def)
      obtain h' where h': "recursive_merge (depth_fuel h) g c h = (Ok g, h')"
        "merged (f ''global_properties'') (f ''cluster_properties'') h g (json_merge (JObj a) (JObj b)) h'"
        using recursive_merge_merges[of "depth_fuel h"] g(2) c(2) f(2)[of "''global_properties''" "''cluster_properties''"] n
        unfolding merges_def ab by blast
      then show ?thesis using True by (auto simp: run effective_def ab merged_def simp del: json_merge.simps)
    next
      case False
      then have "\<not> (hash_of h g \<noteq> None \<and> hash_of h c \<noteq> None)" unfolding hash_of_tree[OF g(2)] hash_of_tree[OF c(2)] by blast
      then have "\<exists>e. effective_properties s h = (Err e, h)"
        unfolding run depth_fuel_def by (auto simp: bnd_def gets_def throw_def fail_def split: option.split)
      moreover have "effective kvs = None" using True False by (auto simp: effective_def split: json.split)
      ultimately show ?thesis by auto
    qed
  qed
qed

lemma trees_declares:
  "trees F h (map snd ps) (map snd ds) \<Longrightarrow> map fst ps = map (Some \<circ> fst) ds \<Longrightarrow> declares h ps ds"
proof (induction ps arbitrary: ds F)
  case (Cons p ps)
  then obtain d ds' where "ds = d # ds'" by (cases ds) auto
  then show ?case using Cons by (auto simp: declares_def elim!: treesE)
qed (simp add: declares_def)

lemma build_properties_run:
  assumes t: "tree F h s (JObj kvs)" and ds: "field kvs ''default_properties'' = JObj ds" and un: "unambiguous (map (split_name \<circ> fst) ds)"
  shows "case effective kvs of None \<Rightarrow> \<exists>e h'. build_properties s h = (Err e, h')
    | Some src \<Rightarrow> if (\<exists>q \<in> set ds. declared_value src (split_name (fst q)) (snd q) = None) then \<exists>e h'. build_properties s h = (Err e, h')
      else \<exists>raw h'. build_properties s h = (Ok raw, h') \<and> (\<forall>q \<in> set ds. \<exists>x v G.
        declared_value src (split_name (fst q)) (snd q) = Some x \<and> lookup_property raw (fst q) h' = (Ok v, h') \<and> tree G h' v x)"
proof -
  obtain f where f: "\<And>k. \<exists>u. ruby_get s (Some k) h = (Ok u, h) \<and> tree (f k) h u (field kvs k)" "\<And>k k'. k \<noteq> k' \<Longrightarrow> f k \<inter> f k' = {}"
    "\<And>k h'. (\<forall>a < length h. (\<forall>k. a \<notin> f k) \<longrightarrow> h' ! a = h ! a) \<Longrightarrow> ruby_get s (Some k) h' = (fst (ruby_get s (Some k) h), h')"
    using tree_fields[OF t] by blast
  note E = effective_properties_tree[OF f(1,2)]
  show ?thesis
  proof (cases "effective kvs")
    case None
    then show ?thesis using E by (auto simp: build_properties_def bnd_def)
  next
    case (Some src)
    then obtain v T h0 where e: "effective_properties s h = (Ok v, h0)" "tree T h0 v src" "length h0 = length h"
      "\<And>a. a \<notin> f ''global_properties'' \<union> f ''cluster_properties'' \<Longrightarrow> h0 ! a = h ! a" using E by auto
    let ?h = "h0 @ [RHash []]"
    obtain u where u: "ruby_get s (Some ''default_properties'') h = (Ok u, h)" "tree (f ''default_properties'') h u (JObj ds)"
      using f(1)[of "''default_properties''"] ds by auto
    have u': "tree (f ''default_properties'') h0 u (JObj ds)"
    proof (rule tree_frame(1)[OF u(2)])
      fix a assume a: "a \<in> f ''default_properties''"
      then have "a \<notin> f ''global_properties'' \<union> f ''cluster_properties''"
        using f(2)[of "''default_properties''" "''global_properties''"] f(2)[of "''default_properties''" "''cluster_properties''"] by auto
      then show "a < length h0 \<and> h0 ! a = h ! a" using e(3,4) tree_in(1)[OF u(2)] a by auto
    qed
    then obtain b ps where b: "u = RRef b" "b < length h0" "h0 ! b = RHash ps" and dec: "declares h0 ps ds"
      by (auto elim!: tree_jsonE intro: trees_declares)
    have "ruby_get s (Some ''default_properties'') ?h = (Ok u, ?h)"
      using f(3)[of ?h "''default_properties''"] e(3,4) u(1) by (auto simp: nth_append)
    then have run: "build_properties s h = seq (copy_declared (RRef (length h0)) v ps) (ret (RRef (length h0))) ?h"
      using b by (simp add: build_properties_def bnd_def e(1) new_obj_def gets_def hash_of_def nth_append)
    have C: "if (\<exists>q \<in> set ds. declared_value src (split_name (fst q)) (snd q) = None)
      then \<exists>e h'. copy_declared (RRef (length h0)) v ps ?h = (Err e, h')
      else \<exists>h' A' V' W'. copy_declared (RRef (length h0)) v ps ?h = (Ok (), h') \<and> copied h0 h' A' V' W'
        \<and> (\<forall>q \<in> set ds. W' (split_name (fst q)) = declared_value src (split_name (fst q)) (snd q))
        \<and> (\<forall>ks. ks \<notin> split_name ` fst ` set ds \<longrightarrow> W' ks = Map.empty ks)"
      by (rule copy_declared_copied[OF copied_start e(2) dec un]) simp
    show ?thesis
    proof (cases "\<exists>q \<in> set ds. declared_value src (split_name (fst q)) (snd q) = None")
      case True
      then have "\<exists>e h'. copy_declared (RRef (length h0)) v ps ?h = (Err e, h')" using C by simp
      then show ?thesis unfolding Some option.case if_P[OF True] run by (auto simp: seq_def bnd_def)
    next
      case False
      then obtain h' A' V' W' where c: "copy_declared (RRef (length h0)) v ps ?h = (Ok (), h')" "copied h0 h' A' V' W'"
        "\<And>q. q \<in> set ds \<Longrightarrow> W' (split_name (fst q)) = declared_value src (split_name (fst q)) (snd q)" using C unfolding if_not_P[OF False] by blast
      have "\<exists>x v G. declared_value src (split_name (fst q)) (snd q) = Some x
          \<and> lookup_property (RRef (length h0)) (fst q) h' = (Ok v, h') \<and> tree G h' v x" if q: "q \<in> set ds" for q
      proof -
        obtain x where x: "declared_value src (split_name (fst q)) (snd q) = Some x" using False q by auto
        have "split_name (fst q) \<noteq> []" using un q by (force simp: unambiguous_def)
        then show ?thesis using lookup_copied[OF c(2), of "fst q" x] c(3)[OF q] x by auto
      qed
      then show ?thesis unfolding Some option.case if_not_P[OF False] run using c(1) by (auto simp: seq_def bnd_def ret_def)
    qed
  qed
qed

text \<open>
  What \<^verbatim>\<open>p\<close> answers for a declared name, in a context that has these properties: the value, or an
  error when it is nil.
\<close>

lemma context_p_one:
  assumes "lookup_property (tc_raw_properties t) name h = (Ok v, h)" "tree G h v x"
  shows "context_p t [name] None h = (if x = JNull then Err (UnknownProperty [name]) else Ok v, h)"
  using assms tree_nil_iff[OF assms(2)] by (simp add: context_p_def bnd_def ret_def fail_def)

text \<open>A template's view of a document: the error, or what each declared name gives.\<close>

definition sees :: "json \<Rightarrow> (string \<times> json) list \<Rightarrow> rval \<Rightarrow> rheap \<Rightarrow> bool" where
  "sees src ds raw h \<longleftrightarrow> (\<forall>(name, d) \<in> set ds. \<exists>x. declared_value src (split_name name) d = Some x
     \<and> (\<forall>t. tc_raw_properties t = raw \<longrightarrow> (if x = JNull then context_p t [name] None h = (Err (UnknownProperty [name]), h)
          else \<exists>v G. context_p t [name] None h = (Ok v, h) \<and> tree G h v x)))"

lemma declared_properties_seen:
  assumes "wf_json (JObj kvs)" "field kvs ''default_properties'' = JObj ds" "unambiguous (map (split_name \<circ> fst) ds)"
  shows "wp (bnd (JSON_load (JObj kvs)) build_properties) (\<lambda>r h'. case r of
      Ok raw \<Rightarrow> \<exists>src. effective kvs = Some src \<and> sees src ds raw h'
    | Err e \<Rightarrow> effective kvs = None \<or> (\<exists>src. effective kvs = Some src \<and> (\<exists>(name, d) \<in> set ds. json_path (split_name name) src = None))
    | _ \<Rightarrow> False) h"
proof -
  obtain s h1 where l: "load_json (JObj kvs) h = (s, h1)" by fastforce
  have t: "tree {length h..<length h1} h1 s (JObj kvs)" using load_tree(1)[OF l assms(1)] .
  have run: "bnd (JSON_load (JObj kvs)) build_properties h = build_properties s h1" by (simp add: bnd_def JSON_load_def l del: load_json.simps)
  have none: "declared_value src ks d = None \<longleftrightarrow> json_path ks src = None" for src ks d by (simp add: declared_value_def)
  note B = build_properties_run[OF t assms(2,3)]
  show ?thesis
  proof (cases "effective kvs")
    case None
    then show ?thesis using B by (auto simp: wp_def run)
  next
    case (Some src)
    show ?thesis
    proof (cases "\<exists>q \<in> set ds. declared_value src (split_name (fst q)) (snd q) = None")
      case True
      then have n: "\<exists>(name, d) \<in> set ds. json_path (split_name name) src = None" unfolding none by force
      obtain e h' where "build_properties s h1 = (Err e, h')" using B True by (auto simp: Some)
      then show ?thesis using Some n by (simp add: wp_def run)
    next
      case False
      then obtain raw h' where b: "build_properties s h1 = (Ok raw, h')" "\<And>q. q \<in> set ds \<Longrightarrow> \<exists>x v G.
        declared_value src (split_name (fst q)) (snd q) = Some x \<and> lookup_property raw (fst q) h' = (Ok v, h') \<and> tree G h' v x"
        using B unfolding Some option.case if_not_P[OF False] by blast
      have "sees src ds raw h'" unfolding sees_def
      proof (rule ballI, clarify)
        fix name d assume "(name, d) \<in> set ds"
        then obtain x v G where x: "declared_value src (split_name name) d = Some x" "lookup_property raw name h' = (Ok v, h')" "tree G h' v x"
          using b(2) by fastforce
        have "context_p t [name] None h' = (if x = JNull then Err (UnknownProperty [name]) else Ok v, h')" if "tc_raw_properties t = raw" for t
          using context_p_one[of t name h' v G x] x(2,3) that by simp
        then show "\<exists>x. declared_value src (split_name name) d = Some x
           \<and> (\<forall>t. tc_raw_properties t = raw \<longrightarrow> (if x = JNull then context_p t [name] None h' = (Err (UnknownProperty [name]), h')
                else \<exists>v G. context_p t [name] None h' = (Ok v, h') \<and> tree G h' v x))"
          using x(1,3) by auto
      qed
      then show ?thesis using Some b(1) by (auto simp: wp_def run)
    qed
  qed
qed

section \<open>The context the renderer writes\<close>

text \<open>What the merged hash has at a key.\<close>

lemma json_merge_map_of:
  assumes "distinct (map fst b)"
  shows "\<exists>m. json_merge (JObj a) (JObj b) = JObj m \<and> (\<forall>k. map_of m k = (case map_of b k of None \<Rightarrow> map_of a k
    | Some y \<Rightarrow> Some (case map_of a k of None \<Rightarrow> y | Some x \<Rightarrow> json_merge x y)))"
  using assms
proof (induction b arbitrary: a)
  case (Cons p b)
  let ?a = "AList.update (fst p) (case map_of a (fst p) of None \<Rightarrow> snd p | Some old \<Rightarrow> json_merge old (snd p)) a"
  obtain m where m: "json_merge (JObj ?a) (JObj b) = JObj m" "\<And>k. map_of m k = (case map_of b k of None \<Rightarrow> map_of ?a k
    | Some y \<Rightarrow> Some (case map_of ?a k of None \<Rightarrow> y | Some x \<Rightarrow> json_merge x y))" using Cons.IH[of ?a] Cons.prems by auto
  have "map_of m k = (case map_of (p # b) k of None \<Rightarrow> map_of a k
    | Some y \<Rightarrow> Some (case map_of a k of None \<Rightarrow> y | Some x \<Rightarrow> json_merge x y))" for k
  proof (cases "k = fst p")
    case True
    then have "map_of b k = None" using Cons.prems by (simp add: map_of_eq_None_iff)
    then show ?thesis using True by (cases p) (simp add: m(2) update_conv' split: option.split)
  qed (cases p; simp add: m(2) update_conv' cong: option.case_cong)
  then show ?case using m(1) by simp
qed simp

definition context_properties :: "jobEvaluationContext \<Rightarrow> json option" where
  "context_properties ec = (case ec_releaseJobProperties ec of
      Some own \<Rightarrow> Some (marshal_map (Some own))
    | None \<Rightarrow> (case (ec_globalProperties ec, ec_jobProperties ec) of
        (Some g, Some c) \<Rightarrow> Some (json_merge (marshal_map (Some g)) (marshal_map (Some c))) | _ \<Rightarrow> None))"

definition context_defaults :: "jobEvaluationContext \<Rightarrow> (string \<times> json) list" where
  "context_defaults ec = map (\<lambda>(k, d). (k, marshal_prop (pd_Default d))) (jb_Properties (ec_releaseJob ec))"

lemma declared_properties_of_job:
  assumes "wf_json (Context_MarshalJSON ec)" "unambiguous (map (split_name \<circ> fst) (jb_Properties (ec_releaseJob ec)))"
  shows "wp (bnd (JSON_load (Context_MarshalJSON ec)) build_properties) (\<lambda>r h'. case r of
      Ok raw \<Rightarrow> \<exists>src. context_properties ec = Some src \<and> sees src (context_defaults ec) raw h'
    | Err e \<Rightarrow> context_properties ec = None \<or> (\<exists>src. context_properties ec = Some src
        \<and> (\<exists>(name, d) \<in> set (context_defaults ec). json_path (split_name name) src = None))
    | _ \<Rightarrow> False) h"
proof -
  obtain kvs where kvs: "Context_MarshalJSON ec = JObj kvs" by (simp add: Context_MarshalJSON_def)
  have f: "field kvs ''job_properties'' = marshal_map (ec_releaseJobProperties ec)"
    "field kvs ''global_properties'' = marshal_map (ec_globalProperties ec)" "field kvs ''cluster_properties'' = marshal_map (ec_jobProperties ec)"
    "field kvs ''default_properties'' = JObj (context_defaults ec)"
    using kvs by (auto simp: Context_MarshalJSON_def field_def marshal_map_def propertyDefaults_def context_defaults_def split_beta comp_def)
  have "effective kvs = context_properties ec"
    unfolding effective_def f context_properties_def by (auto simp: marshal_map_def split: option.split)
  note eff = this
  have "map (split_name \<circ> fst) (context_defaults ec) = map (split_name \<circ> fst) (jb_Properties (ec_releaseJob ec))"
    by (simp add: context_defaults_def split_beta)
  then show ?thesis
    using declared_properties_seen[OF assms(1)[unfolded kvs] f(4), of h] assms(2) unfolding kvs eff by simp
qed

end
