(* ===== verification/RubyRender.thy ===== *)
theory RubyRender
  imports RubyLookup
begin

text \<open>
  The rest of the Ruby program in templatescompiler/erbrenderer/template\_evaluation\_context\_rb.go:
  the patch of \<^verbatim>\<open>JSON.dump\<close>, \<^verbatim>\<open>ERBRenderer\<close>, and what the script does with its arguments. ERB, the
  files and the text of values are the outside, given by the functions of the record \<open>ruby\<close>. Shown:
  what a rendered template leaves in its file, and the message of one that fails.
\<close>

section \<open>The outside of the script\<close>

text \<open>An exception: its \<^verbatim>\<open>inspect\<close> and its \<^verbatim>\<open>backtrace\<close>.\<close>

record exn =
  ex_inspect :: string
  ex_backtrace :: "string list"

record rworld =
  rw_heap :: rheap
  rw_files :: "string \<rightharpoonup> string"

text \<open>
  \<^verbatim>\<open>File.read\<close>, \<^verbatim>\<open>File.open\<close> for writing (its exception), what a \<^verbatim>\<open>write\<close> leaves in the file and its
  exception, \<^verbatim>\<open>JSON\<close>'s parser, \<^verbatim>\<open>ERB.new\<close>, \<^verbatim>\<open>erb.result\<close> with the file name and the context, \<^verbatim>\<open>to_s\<close>.
\<close>

record 'e ruby =
  rb_read :: "(string \<rightharpoonup> string) \<Rightarrow> string \<Rightarrow> exn + string"
  rb_open :: "string \<Rightarrow> exn option"
  rb_write :: "string \<Rightarrow> string \<Rightarrow> string \<times> exn option"
  rb_parse :: "string \<Rightarrow> exn + json"
  rb_new :: "string \<Rightarrow> exn + 'e"
  rb_result :: "'e \<Rightarrow> string \<Rightarrow> TemplateEvaluationContext \<Rightarrow> rheap \<Rightarrow> (exn + string) \<times> rheap"
  rb_to_s :: "rheap \<Rightarrow> rval \<Rightarrow> string"

text \<open>\<^verbatim>\<open>JSON.dump\<close> of a string or a number is its \<^verbatim>\<open>inspect\<close>, of anything else what it was before.\<close>

definition JSON_dump :: "(rheap \<Rightarrow> rval \<Rightarrow> string) \<Rightarrow> (rheap \<Rightarrow> rval \<Rightarrow> (exn + string)) \<Rightarrow> rheap \<Rightarrow> rval \<Rightarrow> exn + string" where
  "JSON_dump inspect dump_array_or_hash h arg = (case arg of
      RNum r \<Rightarrow> Inr (inspect h arg)
    | RRef a \<Rightarrow> (case h ! a of RString s \<Rightarrow> Inr (inspect h arg) | _ \<Rightarrow> dump_array_or_hash h arg)
    | _ \<Rightarrow> dump_array_or_hash h arg)"

section \<open>ERBRenderer\<close>

text \<open>
  The body of \<^verbatim>\<open>render\<close>, up to the exception it ends with; the boolean says whether \<^verbatim>\<open>erb\<close> has been
  assigned, which is nil before. Opening the file empties it.
\<close>

definition set_rfile :: "string \<Rightarrow> string \<Rightarrow> rworld \<Rightarrow> rworld" where
  "set_rfile p s w = w\<lparr>rw_files := (rw_files w)(p \<mapsto> s)\<rparr>"

definition render_body ::
  "'e ruby \<Rightarrow> TemplateEvaluationContext \<Rightarrow> string \<Rightarrow> string \<Rightarrow> rworld \<Rightarrow> bool \<times> exn option \<times> rworld" where
  "render_body R ctx src_path dst_path w = (case rb_read R (rw_files w) src_path of
      Inl e \<Rightarrow> (False, Some e, w)
    | Inr source \<Rightarrow> (case rb_new R source of
        Inl e \<Rightarrow> (False, Some e, w)
      | Inr erb \<Rightarrow> (case rb_open R dst_path of
          Some e \<Rightarrow> (True, Some e, w)
        | None \<Rightarrow> let w1 = set_rfile dst_path '''' w in (case rb_result R erb src_path ctx (rw_heap w1) of
            (Inl e, h) \<Rightarrow> (True, Some e, w1\<lparr>rw_heap := h\<rparr>)
          | (Inr output, h) \<Rightarrow> (case rb_write R dst_path output of
              (left, e) \<Rightarrow> (True, e, set_rfile dst_path left (w1\<lparr>rw_heap := h\<rparr>)))))))"

text \<open>The line of the template, from the first entry of the backtrace that has its name.\<close>

definition template_line :: "string \<Rightarrow> exn \<Rightarrow> string" where
  "template_line filename e = (case find (\<lambda>l. Contains l filename) (ex_backtrace e) of
      None \<Rightarrow> ''unknown''
    | Some l \<Rightarrow> (case SplitChar CHR '':'' l of _ # line_num # _ \<Rightarrow> line_num | _ \<Rightarrow> ''''))"

definition filling_in :: "string \<Rightarrow> string \<Rightarrow> string \<Rightarrow> string \<Rightarrow> string \<Rightarrow> goerr" where
  "filling_in src_path name index line_num inspected =
     Errorf ''Error filling in template %s for %s/%s (line %s: %s)'' (map AStr [src_path, name, index, line_num, inspected])"

text \<open>The \<^verbatim>\<open>rescue\<close> asks \<^verbatim>\<open>erb\<close> for its file name at each entry of the backtrace; nil has none.\<close>

definition ERBRenderer_render :: "'e ruby \<Rightarrow> TemplateEvaluationContext \<Rightarrow> string \<Rightarrow> string \<Rightarrow> (rworld, unit) prog" where
  "ERBRenderer_render R ctx src_path dst_path w = (case render_body R ctx src_path dst_path w of
      (assigned, None, w') \<Rightarrow> (Ok (), w')
    | (assigned, Some e, w') \<Rightarrow>
        if \<not> assigned \<and> ex_backtrace e \<noteq> [] then (Err (External ''NoMethodError''), w')
        else (Err (filling_in src_path (rb_to_s R (rw_heap w') (tc_name ctx)) (rb_to_s R (rw_heap w') (tc_index ctx))
                     (template_line src_path e) (ex_inspect e)), w'))"

text \<open>What the script does; an exception it does not catch ends it.\<close>

definition on_heap :: "(rheap, 'a) prog \<Rightarrow> (rworld, 'a) prog" where
  "on_heap m w = (case m (rw_heap w) of (r, h) \<Rightarrow> (r, w\<lparr>rw_heap := h\<rparr>))"

definition uncaught :: "exn + 'a \<Rightarrow> (rworld, 'a) prog" where
  "uncaught x = (case x of Inl e \<Rightarrow> fail (External (ex_inspect e)) | Inr y \<Rightarrow> ret y)"

definition erb_script :: "'e ruby \<Rightarrow> string \<Rightarrow> string \<Rightarrow> string \<Rightarrow> (rworld, unit) prog" where
  "erb_script R context_path src_path dst_path =
     bnd (bnd (gets (\<lambda>w. rb_read R (rw_files w) context_path)) uncaught) (\<lambda>text.
     bnd (uncaught (rb_parse R text)) (\<lambda>document.
     bnd (on_heap (bnd (JSON_load document) context_initialize)) (\<lambda>ctx.
     ERBRenderer_render R ctx src_path dst_path)))"

section \<open>What is rendered\<close>

text \<open>Only the file of the result is touched, whatever happens.\<close>

lemma render_touches: "q \<noteq> dst \<Longrightarrow> rw_files (snd (ERBRenderer_render R ctx src dst w)) q = rw_files w q"
  by (auto simp: ERBRenderer_render_def render_body_def set_rfile_def Let_def split: sum.splits option.splits prod.splits)

text \<open>
  A template that is read and compiled by ERB: its result is in the file when it can be evaluated
  and written; otherwise the error names the template, its job and the line, and the file that was
  opened is left, empty when the template could not be evaluated.
\<close>

definition rendered_as ::
  "'e ruby \<Rightarrow> 'e \<Rightarrow> TemplateEvaluationContext \<Rightarrow> string \<Rightarrow> string \<Rightarrow> rworld \<Rightarrow> unit outcome \<Rightarrow> rworld \<Rightarrow> bool" where
  "rendered_as R erb ctx src dst w r w' \<longleftrightarrow> (case rb_result R erb src ctx (rw_heap w) of (x, h) \<Rightarrow> rw_heap w' = h \<and>
     (let failing = \<lambda>e. r = Err (filling_in src (rb_to_s R h (tc_name ctx)) (rb_to_s R h (tc_index ctx)) (template_line src e) (ex_inspect e)) in
      case x of Inl e \<Rightarrow> failing e \<and> rw_files w' dst = Some ''''
      | Inr output \<Rightarrow> rw_files w' dst = Some (fst (rb_write R dst output))
          \<and> (case snd (rb_write R dst output) of None \<Rightarrow> r = Ok () | Some e \<Rightarrow> failing e)))"

lemma template_rendered:
  assumes "rb_read R (rw_files w) src = Inr source" "rb_new R source = Inr erb" "rb_open R dst = None"
  shows "wp (ERBRenderer_render R ctx src dst) (rendered_as R erb ctx src dst w) w"
  using assms
  by (auto simp: wp_def ERBRenderer_render_def render_body_def rendered_as_def set_rfile_def Let_def
      split: sum.splits option.splits prod.splits)

text \<open>
  When the template cannot be read or compiled there is no \<^verbatim>\<open>erb\<close> to ask for its name, and the message
  with the template's name is lost: the \<^verbatim>\<open>rescue\<close> itself ends in a \<^verbatim>\<open>NoMethodError\<close>.
\<close>

lemma unreadable_template_masked:
  assumes "rb_read R (rw_files w) src = Inl e \<or> (\<exists>source. rb_read R (rw_files w) src = Inr source \<and> rb_new R source = Inl e)"
    "ex_backtrace e \<noteq> []"
  shows "ERBRenderer_render R ctx src dst w = (Err (External ''NoMethodError''), w)"
  using assms by (auto simp: ERBRenderer_render_def render_body_def)

section \<open>The script on what Go writes\<close>

text \<open>Making the structs changes no object, so the heap of the context is that of its properties.\<close>

lemma openstruct_heap: "openstruct n v h = (r, h') \<Longrightarrow> h' = h"
proof -
  have "keeps ((=) h) (openstruct n v)" for h v
  proof (induction n arbitrary: v)
    case (Suc n)
    then show ?case by (auto simp: throw_def split: robj.split intro!: keeps_intros)
  qed (simp add: throw_def keeps_intros)
  then show "openstruct n v h = (r, h') \<Longrightarrow> h' = h" by (metis keeps_def snd_conv)
qed

lemma context_initialize_properties:
  assumes t: "tree F h s (JObj kvs)" and run: "context_initialize s h = (r, h')"
  shows "(\<exists>ctx. r = Ok ctx \<and> build_properties s h = (Ok (tc_raw_properties ctx), h')) \<or> (\<forall>ctx. r \<noteq> Ok ctx)"
proof (cases r)
  case (Ok ctx)
  obtain f where f: "\<And>k. \<exists>u. ruby_get s (Some k) h = (Ok u, h) \<and> tree (f k) h u (field kvs k)"
    by (rule tree_fields[OF t], rule that)
  have same: "v = h" if "ruby_get s (Some k) h = (Ok u, v)" for k u v
    using f[of k] by (elim exE conjE) (simp add: that)
  have hash: "v' = v" if "(if hash_of v job \<noteq> None then ruby_get job k else ret RNil) v = (Ok u, v')" for job k u v v'
  proof (cases "hash_of v job")
    case (Some ps)
    then obtain a where "job = RRef a" "v ! a = RHash ps"
      by (auto simp: hash_of_def split: rval.splits robj.splits)
    then show ?thesis using that Some by (auto simp: ruby_get_def)
  qed (use that in \<open>simp add: ret_def\<close>)
  show ?thesis using run unfolding context_initialize_def Ok
    by (elim bnd_OkE) (auto simp: ret_def gets_def dest!: openstruct_heap same hash[simplified])
qed auto

text \<open>
  On the document that Go writes for a job, the script fails with the error of building the
  context, having written nothing, or it renders the template in a context in which each declared
  property is looked up as it was given.
\<close>

definition renders_in_context :: "'e ruby \<Rightarrow> jobEvaluationContext \<Rightarrow> string \<Rightarrow> string \<Rightarrow> rworld \<Rightarrow> unit outcome \<Rightarrow> rworld \<Rightarrow> bool" where
  "renders_in_context R ec src dst w r w' \<longleftrightarrow> (\<exists>ctx h props. context_properties ec = Some props
     \<and> sees props (context_defaults ec) (tc_raw_properties ctx) h \<and> ERBRenderer_render R ctx src dst (w\<lparr>rw_heap := h\<rparr>) = (r, w'))"

lemma erb_script_renders:
  assumes "wf_json (Context_MarshalJSON ec)" "unambiguous (map (split_name \<circ> fst) (jb_Properties (ec_releaseJob ec)))"
    "rb_read R (rw_files w) context_path = Inr text" "rb_parse R text = Inr (Context_MarshalJSON ec)"
  shows "wp (erb_script R context_path src dst) (\<lambda>r w'.
      (\<exists>x. bnd (JSON_load (Context_MarshalJSON ec)) context_initialize (rw_heap w) = (x, rw_heap w') \<and> (\<forall>ctx. x \<noteq> Ok ctx)
         \<and> rw_files w' = rw_files w \<and> (\<forall>u. r \<noteq> Ok u))
      \<or> renders_in_context R ec src dst w r w') w"
proof -
  let ?j = "Context_MarshalJSON ec" and ?h = "rw_heap w"
  obtain kvs where kvs: "?j = JObj kvs" by (simp add: Context_MarshalJSON_def)
  obtain s h1 where l: "load_json ?j ?h = (s, h1)" by fastforce
  have t: "tree {length ?h..<length h1} h1 s (JObj kvs)" using load_tree(1)[OF l[unfolded kvs] assms(1)[unfolded kvs]] .
  have load: "bnd (JSON_load ?j) m ?h = m s h1" for m :: "rval \<Rightarrow> (rheap, 'b) prog"
    by (simp add: bnd_def JSON_load_def l del: load_json.simps)
  obtain r h' where init: "context_initialize s h1 = (r, h')" by fastforce
  have run: "erb_script R context_path src dst w = bnd (on_heap (bnd (JSON_load ?j) context_initialize)) (\<lambda>ctx. ERBRenderer_render R ctx src dst) w"
    by (simp add: erb_script_def bnd_def gets_def uncaught_def assms(3,4) ret_def)
  show ?thesis
  proof (cases r)
    case (Ok ctx)
    then have "build_properties s h1 = (Ok (tc_raw_properties ctx), h')"
      using context_initialize_properties[OF t init] by auto
    then have "bnd (JSON_load ?j) build_properties ?h = (Ok (tc_raw_properties ctx), h')" by (simp add: load)
    then have "\<exists>props. context_properties ec = Some props \<and> sees props (context_defaults ec) (tc_raw_properties ctx) h'"
      using wpD[OF declared_properties_of_job[OF assms(1,2), of ?h]] by fastforce
    then show ?thesis
      by (auto simp: wp_def run bnd_def[of "on_heap _"] on_heap_def load init Ok renders_in_context_def split: prod.split)
  qed (simp_all add: wp_def run bnd_def[of "on_heap _"] on_heap_def load init)
qed

lemma script_rendered:
  assumes "wf_json (Context_MarshalJSON ec)" "unambiguous (map (split_name \<circ> fst) (jb_Properties (ec_releaseJob ec)))"
    "rb_read R (rw_files w) context_path = Inr text" "rb_parse R text = Inr (Context_MarshalJSON ec)"
    "rb_read R (rw_files w) src = Inr source" "rb_new R source = Inr erb" "rb_open R dst = None"
  shows "wp (erb_script R context_path src dst) (\<lambda>r w'.
      (\<exists>x. bnd (JSON_load (Context_MarshalJSON ec)) context_initialize (rw_heap w) = (x, rw_heap w') \<and> (\<forall>ctx. x \<noteq> Ok ctx)
         \<and> rw_files w' = rw_files w \<and> (\<forall>u. r \<noteq> Ok u))
      \<or> (\<exists>ctx h props. context_properties ec = Some props \<and> sees props (context_defaults ec) (tc_raw_properties ctx) h
           \<and> rendered_as R erb ctx src dst (w\<lparr>rw_heap := h\<rparr>) r w')) w"
proof (rule wp_mono[OF erb_script_renders[OF assms(1-4)]], erule disj_forward, assumption, unfold renders_in_context_def, elim exE conjE)
  fix r w' ctx h props
  assume p: "context_properties ec = Some props" "sees props (context_defaults ec) (tc_raw_properties ctx) h"
    and run: "ERBRenderer_render R ctx src dst (w\<lparr>rw_heap := h\<rparr>) = (r, w')"
  have "rendered_as R erb ctx src dst (w\<lparr>rw_heap := h\<rparr>) r w'"
    by (rule wpD[OF template_rendered run]) (use assms(5-7) in simp_all)
  then show "\<exists>ctx h props. context_properties ec = Some props \<and> sees props (context_defaults ec) (tc_raw_properties ctx) h
     \<and> rendered_as R erb ctx src dst (w\<lparr>rw_heap := h\<rparr>) r w'" using p by blast
qed

end
