(* ===== verification/CommandScenarios.thy ===== *)
theory CommandScenarios
  imports CommandTraces Scenarios RubyRender
begin

text \<open>
  The concrete outside on which the properties of the commands are applied, and a workspace that
  still has the deployment file of the older tool; and the context of a job with two declared
  properties, with a Ruby that renders templates in it.
\<close>

definition ex_externals :: externals where
  "ex_externals = \<lparr>x_sha1_str = (\<lambda>_. ''u''), x_sha1_files = (\<lambda>_. ''sha''), x_release_set = (\<lambda>_. Inr ex_rels),
     x_installation = (\<lambda>_. Inr ex_raw_installation), x_deployment = (\<lambda>_. Inr ex_raw),
     x_release = (\<lambda>_. Inl (GoError ''no release'')), x_job = (\<lambda>_. Inl (GoError ''no job'')),
     x_stemcell = (\<lambda>_. Inl (GoError ''no stemcell'')), x_legacy = (\<lambda>_. Inl (GoError ''no legacy file'')),
     x_script = ''erb'', x_iter1 = id, x_iter2 = id,
     x_url = (\<lambda>_. Inr \<lparr>pu_Scheme = ''https'', pu_Host = ''h'', pu_User = Some (''u'', ''p'')\<rparr>)\<rparr>"

definition ex_legacy :: legacyDeploymentState where
  "ex_legacy = \<lparr>ld_Instances = [\<lparr>li_UUID = ''d'', li_VMCID = ''vm'', li_DiskCID = ''disk'', li_StemcellCID = ''sc'', li_StemcellName = ''n''\<rparr>]\<rparr>"

definition ex_legacy_world :: world where
  "ex_legacy_world = ex_world\<lparr>files := [''/bosh-deployments.yml'' \<mapsto> CBytes ''---'']\<rparr>"

lemma ex_legacy_fresh: "fresh_ids ex_legacy_world {}"
  by (auto simp: fresh_ids_def ex_legacy_world_def ex_world_def ok_answer_def)

lemma ex_legacy_atomic: "atomic_writes ex_legacy_world"
  by (simp add: ex_legacy_world_def)

lemma ex_deployed_plain: "plain_answers ex_deployed"
  using ex_state_at by (simp add: state_at_def)

text \<open>An installation target's work for an agent that answers.\<close>

lemma ping_runs: "wp (request_unit CallPing) (\<lambda>r w'. returns r \<and> (\<exists>ks. calls w' = calls w @ ks \<and> ks = [CallPing])) w"
  by (simp add: wp_request_unit wp_simps split: option.splits)

text \<open>A job that declares \<open>a.b\<close> without a default and \<open>a.c\<close> with one; its manifest sets \<open>a.b\<close>.\<close>

definition ex_context :: jobEvaluationContext where
  "ex_context = \<lparr>ec_releaseJob = (ex_job [])\<lparr>jb_Properties := [(''a.b'', \<lparr>pd_Description = ''b'', pd_Default = PNil\<rparr>),
       (''a.c'', \<lparr>pd_Description = ''c'', pd_Default = PInt 3\<rparr>)]\<rparr>,
     ec_releaseJobProperties = None, ec_jobProperties = Some [(''a'', PMap [(''b'', PInt 7)])],
     ec_globalProperties = Some [(''a'', PMap [(''b'', PInt 1), (''x'', PStr ''y'')])],
     ec_deploymentName = ''dep'', ec_address = ''10.0.0.5''\<rparr>"

lemma ex_context_wf: "wf_json (Context_MarshalJSON ex_context)"
  by (simp add: ex_context_def Context_MarshalJSON_def marshal_map_def propertyDefaults_def buildNetworkContexts_def ex_job_def)

lemma ex_context_unambiguous: "unambiguous (map (split_name \<circ> fst) (jb_Properties (ec_releaseJob ex_context)))"
proof -
  have "split_name ''a.b'' = [''a'', ''b'']" "split_name ''a.c'' = [''a'', ''c'']" by code_simp+
  then show ?thesis by (simp add: ex_context_def unambiguous_def unrelated_def)
qed

text \<open>A Ruby whose templates are the names of properties, which it looks up.\<close>

definition ex_ruby :: "string ruby" where
  "ex_ruby = \<lparr>rb_read = (\<lambda>fs p. case fs p of None \<Rightarrow> Inl \<lparr>ex_inspect = ''Errno::ENOENT'', ex_backtrace = [''in read'']\<rparr> | Some s \<Rightarrow> Inr s),
     rb_open = (\<lambda>_. None), rb_write = (\<lambda>_ s. (s, None)), rb_parse = (\<lambda>_. Inr (Context_MarshalJSON ex_context)), rb_new = Inr,
     rb_result = (\<lambda>name f ctx h. case context_p ctx [name] None h of
         (Ok v, h') \<Rightarrow> (Inr (if v = RNum 7 then ''7'' else ''?''), h')
       | (_, h') \<Rightarrow> (Inl \<lparr>ex_inspect = ''UnknownProperty'', ex_backtrace = [f @ '':1:in get'']\<rparr>, h')),
     rb_to_s = (\<lambda>h v. case v of RRef a \<Rightarrow> (case h ! a of RString s \<Rightarrow> s | _ \<Rightarrow> ''?'') | _ \<Rightarrow> ''0'')\<rparr>"

definition ex_rworld :: rworld where
  "ex_rworld = \<lparr>rw_heap = [], rw_files = [''/ctx'' \<mapsto> ''{}'', ''/t'' \<mapsto> ''a.b'']\<rparr>"

lemma ex_script_runs:
  "let (r, w) = erb_script ex_ruby ''/ctx'' ''/t'' ''/out'' ex_rworld in r = Ok () \<and> rw_files w ''/out'' = Some ''7''"
  by code_simp

end
