(* ===== verification/Spec2Isabelle.thy ===== *)
theory Spec2Isabelle
  imports Wiring Examples Index RepoSteps Tarball InstallManifest CommandEnds CommandScenarios
begin

text \<open>
  A model of bosh-init and its correctness.

  \<^bold>\<open>The program.\<close> bosh-init deploys one VM (the director of BOSH). \<^verbatim>\<open>deploy\<close> reads a manifest,
  fetches the releases and the stemcell it names, installs the CPI (a local program that talks to
  a cloud) from one of the releases, and has the CPI delete the old VM, create a new one from the
  stemcell and attach its disk; the agent on the VM is then sent the jobs. \<^verbatim>\<open>delete\<close> removes it all.
  Between runs it remembers what exists in one JSON file next to the manifest, the deployment
  state. All paths below are under src/.

  \<^bold>\<open>The model.\<close> A piece of Go code is a program \<open>world \<Rightarrow> outcome \<times> world\<close> (\<^verbatim>\<open>Prelude\<close>): the outcome
  is \<open>Ok x\<close>, an error \<open>Err e\<close>, a \<open>Panic\<close>, or \<open>Hang\<close> for code that never returns; errors are
  values of the type \<open>goerr\<close>, with the wrapping of bosh-utils and the error types of cloud/errors.go
  and ui/skip_stage_error.go. The world (\<^verbatim>\<open>World\<close>) has the file system, the list of calls made to
  the outside (\<open>calls\<close>, oldest first), the clock, the lines printed, the in-memory index, and
  \<open>answers\<close>: the \<open>n\<close>-th request, file operation or UUID gets the answer number \<open>n\<close> (\<open>tick\<close>
  counts them). The answers are arbitrary, so a statement about all worlds is one about every
  behaviour of the CPI, the agent, the network and the disk. Go's integers are \<open>int\<close>, with the
  64-bit range written out where it matters (\<open>int64\<close>), IP bytes are numbers combined bit by bit;
  strings are byte strings, with letter case and white space of ASCII; a Go map is an
  association list, the iteration order of Go an argument where it can be seen. \<open>Errorf\<close> keeps the
  format and its arguments; single quotes around a verb are left out of the formats. Logging is
  left out everywhere.

  \<^bold>\<open>How it is specified.\<close> \<open>wp m Q w\<close>: running \<open>m\<close> in \<open>w\<close> ends in an outcome and a world with \<open>Q\<close>.
  \<open>yields I m\<close>: it returns (no panic, no \<open>Hang\<close>), a success satisfying \<open>I\<close>. \<open>adds K m\<close>
  (\<^verbatim>\<open>Traces\<close>): it comes to an end, by returning or by a panic, and its calls are all in \<open>K\<close>. \<open>does p st m R\<close> (\<^verbatim>\<open>Effects\<close>): from any world whose file
  \<open>p\<close> holds the well-formed state \<open>st\<close>, \<open>m\<close> returns, makes calls \<open>ks\<close> and leaves a well-formed
  state \<open>st'\<close> with \<open>R r ks st'\<close>. The hypothesis \<open>state_at\<close> of \<open>does\<close> says more than that: the UUIDs
  still to come are new, a write that fails leaves the file as it was (the file service writes by
  renaming), and the errors of the machine and the agent are ordinary errors, not the typed ones
  that only the CPI reports.

  \<^bold>\<open>The theories\<close>, in the order of their imports:
  \<^item> \<^verbatim>\<open>Prelude, GoStrings, Properties, Net, World\<close>: outcomes and programs; Go's strings, paths and
    numbers; YAML and JSON values with \<^verbatim>\<open>reflect.DeepEqual\<close>; IP addresses and
    common/net/ip_helper.go; the outside.
  \<^item> \<^verbatim>\<open>StateFile, Repos, RepoSteps\<close>: config/*.go, the deployment state and the repositories over it;
    the locale \<open>state_service\<close> is their contract. The steps of \<^verbatim>\<open>RepoSteps\<close> are a transition system
    whose reachable states are well formed.
  \<^item> \<^verbatim>\<open>PackageGraph, PackageSort\<close>: release/pkg, state/pkg: packages are addresses in a heap, as the
    code compares pointers; resolution of dependencies and the topological sort.
  \<^item> \<^verbatim>\<open>Compile, Index\<close>: state/job, deployment/instance/state/remote_package_compiler.go,
    installation/pkg, blobstore, index: compiling packages on the VM and locally; the locales
    \<open>compiled_repo\<close> and \<open>record_index\<close> are the contracts of the repository and the two indices.
  \<^item> \<^verbatim>\<open>Ui, Cloud, Retry\<close>: ui, the CPI client of cloud, the retry strategies.
  \<^item> \<^verbatim>\<open>Manifest, Validator, ManifestParser\<close>: deployment/manifest.
  \<^item> \<^verbatim>\<open>Release, Tarball, Stemcell, Templates\<close>: release, installation/tarball, stemcell,
    templatescompiler.
  \<^item> \<^verbatim>\<open>RubyContext, RubyTrees, RubyLookup, RubyRender\<close>: the Ruby program that the constant of
    templatescompiler/erbrenderer/template_evaluation_context_rb.go holds, over a heap of Ruby
    objects: merging and copying the properties of a job, what its templates see of them, and the script
    around ERB, which is a parameter.
  \<^item> \<^verbatim>\<open>Effects, Frames, Resources, Traces\<close>: the rules for programs that keep records, with the
    locales \<open>cloud_records\<close> (what deleting a recorded disk or stemcell does) and \<open>journal\<close>, \<open>frame\<close>
    (what a piece of code may touch).
  \<^item> \<^verbatim>\<open>Disk, Vm, Tunnel, Instance, AgentState, Deployment\<close>: deployment/disk, deployment/vm,
    deployment/sshtunnel, deployment/instance and its state, and the deployer, the deletion and
    the record of deployment.
  \<^item> \<^verbatim>\<open>InstallManifest, Installation, Registry, CpiRelease\<close>: installation, registry, cpi/release.
  \<^item> \<^verbatim>\<open>Migrator, Commands, CommandLine, CommandTraces, CommandEnds\<close>: the migration of the old state
    file, cmd, the help, ui/fmt/error.go and main.go, which calls the commands make and how they end. The parameters of everything outside are one record
    \<open>externals\<close>; deferred calls and the variables that closures set are written out.
  \<^item> \<^verbatim>\<open>Wiring\<close>: cmd/factory.go and installation/installer\_factory.go: which object each collaborator is
    made from, and which are shared.
  \<^item> \<^verbatim>\<open>Examples, Scenarios, CommandScenarios\<close>: the concrete inputs of the witnesses.

  \<^bold>\<open>Loops.\<close> Every loop is a recursion on its data; dependency resolution terminates by the
  packages not yet visited, the sort by the edges left. The retry loops count: the attempts
  of \<open>attempt_loop\<close> are an argument in the code, \<open>dial_loop\<close> gets one round for each delay in both
  time-outs together, and two more; the timeout loop gets one more round
  than the time-out has delays (\<open>timeout_loop\<close>), and it is proved that it never runs out, for a
  positive delay, as all delays of the code are; so the fuel of no loop is ever used up, and the
  whole program ends (\<open>the_program_ends\<close>). The two recursions over Ruby objects (\<open>recursive_merge\<close>, \<open>openstruct\<close>) get the
  number of objects as fuel; for the merge it is proved to be enough, and running out is Ruby's
  stack error.

  \<^bold>\<open>Where the properties show a mistake of the code:\<close> C3, C22, C27, C30 and C31 state behaviour
  that its authors cannot have meant; the others state what it is meant to do.

  \<^bold>\<open>Not modelled.\<close> Unmarshalling YAML, unpacking and compressing, HTTP and SSH transport, SHA-1 and
  the Ruby interpreter with ERB are the outside. The bytes forwarded by the tunnel, the
  constructors that only store their arguments, director and uaa (two files that nothing imports, of
  packages whose other files are not in the repository), signals and loggers have no logic to model; the fakes, mocks and the acceptance
  tests are not part of the program.
\<close>

section \<open>Deploying\<close>

text \<open>
  C1. A deployment, on any answers of the outside, makes no CPI call, or makes its CPI calls
  only after the validation has succeeded, and then: the manifest it has parsed is valid, its
  templates are jobs of the releases, the CPI release has the job and the CPI program, and no
  release is compiled but those of the templates, for the operating system and version of the
  stemcell.
\<close>

theorem deployment_checks_first:
  "wp (PrepareDeployment X ws p m stage)
     (\<lambda>r w'. \<exists>ks. calls w' = calls w @ ks \<and> after_checks X ws m stage w ks) w"
  by (rule wp_mono[OF PrepareDeployment_phased[unfolded phased_def, rule_format]]) blast

text \<open>
  C2. A deployment's calls are those that delete the old VM, then those that create the new
  one, then the update of its jobs, which makes no CPI call; nothing is created while the VM
  that the state names still stands, unless its deletion has been requested. This holds
  whatever the outside answers, on every error path.
\<close>

theorem deploy_in_order:
  assumes "state_at p w st" "deployable d"
  shows "wp (Deploy p c (NewBuilder sha1_files script iter1 iter2 h releases) d stem rg stage)
    (\<lambda>r w'. \<exists>ks. calls w' = calls w @ ks \<and> deploys c rg (CurrentVMCID st) ks
      \<and> (\<forall>pre k rest. ks = pre @ k # rest \<and> k \<in> cpi_calls c {''create_vm''} \<and> CurrentVMCID st \<noteq> ''''
            \<longrightarrow> delete_vm_call c (CurrentVMCID st) \<in> set pre)) w"
  by (rule wp_mono[OF Deploy_calls[OF assms adds_NewBuilder]]) (blast intro: create_vm_not_before)

theorem deploy_in_order_witness:
  "wp (Deploy ''/s'' ex_cloud (NewBuilder (\<lambda>_. ''sha'') ''erb'' id id [] [ex_release]) ex_manifest ex_stemcell ex_registry 0)
    (\<lambda>r w'. \<exists>ks. calls w' = calls ex_deployed @ ks \<and> deploys ex_cloud ex_registry (CurrentVMCID ex_state) ks
      \<and> (\<forall>pre k rest. ks = pre @ k # rest \<and> k \<in> cpi_calls ex_cloud {''create_vm''} \<and> CurrentVMCID ex_state \<noteq> ''''
            \<longrightarrow> delete_vm_call ex_cloud (CurrentVMCID ex_state) \<in> set pre)) ex_deployed"
  by (rule deploy_in_order[OF ex_state_at ex_manifest_deployable])



text \<open>
  C4. Recording a deployment and then asking whether it is deployed: the answer, when neither
  step fails, is yes exactly if there is a release, the checksum of the manifest is not empty,
  and the stemcell asked about is the current one by name and version.
\<close>

theorem deployed_is_recognised:
  assumes "repo_inv p w" "loaded p w st" "files w m = Some (CBytes b)" "m \<noteq> p"
  shows "wp (seq (Record_Update sha1_files p m rels) (IsDeployed sha1_files p m rels stem)) (\<lambda>r w'. returns r
    \<and> (\<forall>x. r = Ok x \<longrightarrow> x = (sha1_files [CBytes b] \<noteq> '''' \<and> rels \<noteq> [] \<and> stemcell_is_current st stem))) w"
  using assms by (rule Update_then_IsDeployed)

theorem deployed_is_recognised_witness:
  "wp (seq (Record_Update (\<lambda>_. ''sha'') ''/s'' ''/m'' [ex_release]) (IsDeployed (\<lambda>_. ''sha'') ''/s'' ''/m'' [ex_release] ex_extracted))
    (\<lambda>r w'. returns r \<and> (\<forall>x. r = Ok x \<longrightarrow> x)) ex_deployed"
proof -
  have "repo_inv ''/s'' ex_deployed" "loaded ''/s'' ex_deployed ex_state" using ex_state_at by (simp_all add: state_at_def)
  moreover have "files ex_deployed ''/m'' = Some (CBytes ''m'')" "''/m'' \<noteq> ''/s''" by (simp_all add: ex_deployed_def)
  ultimately have "wp (seq (Record_Update (\<lambda>_. ''sha'') ''/s'' ''/m'' [ex_release])
      (IsDeployed (\<lambda>_. ''sha'') ''/s'' ''/m'' [ex_release] ex_extracted)) (\<lambda>r w'. returns r
      \<and> (\<forall>x. r = Ok x \<longrightarrow> x = ((\<lambda>_::content list. ''sha'') [CBytes ''m''] \<noteq> '''' \<and> [ex_release] \<noteq> [] \<and> stemcell_is_current ex_state ex_extracted))) ex_deployed"
    by (rule deployed_is_recognised)
  then show ?thesis by (rule wp_mono) (auto simp: ex_stemcell_current)
qed

text \<open>
  C5. Once the deployment record has been cleared, which is done before a deployment starts,
  the deployment is never taken to be deployed: an interrupted deployment is tried again.
\<close>

theorem cleared_is_not_deployed:
  assumes "repo_inv p w" "loaded p w st" "files w m = Some (CBytes b)" "m \<noteq> p"
  shows "wp (seq (Record_Clear p) (IsDeployed sha1_files p m rels stem)) (\<lambda>r w'. returns r \<and> r \<noteq> Ok True) w"
  using assms by (rule Clear_then_IsDeployed)

theorem cleared_is_not_deployed_witness:
  "wp (seq (Record_Clear ''/s'') (IsDeployed (\<lambda>_. ''sha'') ''/s'' ''/m'' [ex_release] ex_extracted))
    (\<lambda>r w'. returns r \<and> r \<noteq> Ok True) ex_deployed"
  by (rule cleared_is_not_deployed[where st = ex_state and b = "''m''"])
    (use ex_state_at in \<open>simp_all add: state_at_def ex_deployed_def\<close>)





section \<open>Deleting\<close>



text \<open>
  C9. Deleting a deployment, from its manifest to the end, asks the CPI only whether a VM
  exists and for the deletion of VMs, disks and stemcells; when it succeeds the state file is
  gone; without a state file it succeeds, having changed no file and called nothing.
\<close>

theorem deleting_creates_nothing:
  assumes "plain_answers w"
  shows "wp (DeleteDeployment X ws p m stage) (\<lambda>r w'. (\<exists>ks. calls w' = calls w @ ks \<and> set ks \<subseteq> deleting)
     \<and> (r = Ok () \<longrightarrow> files w' p = None)
     \<and> (if files w p = None then r = Ok () \<and> files w' = files w \<and> calls w' = calls w else True)) w"
proof (cases "files w p")
  case None
  then show ?thesis by (intro wp_mono[OF DeleteDeployment_no_state]) auto
next
  case (Some c)
  show ?thesis
    by (rule wp_mono[OF wp_both[OF addsD[OF adds_DeleteDeployment] goneD[OF gone_DeleteDeployment assms]]])
      (use Some in \<open>auto simp: missing_def\<close>)
qed

theorem deleting_creates_nothing_witness:
  "wp (DeleteDeployment ex_externals ''/ws'' ''/s'' ''/m'' 0) (\<lambda>r w'. (\<exists>ks. calls w' = calls ex_deployed @ ks \<and> set ks \<subseteq> deleting)
     \<and> (r = Ok () \<longrightarrow> files w' ''/s'' = None)
     \<and> (if files ex_deployed ''/s'' = None then r = Ok () \<and> files w' = files ex_deployed \<and> calls w' = calls ex_deployed else True)) ex_deployed"
  by (rule deleting_creates_nothing[OF ex_deployed_plain])

text \<open>
  C10. Working with an installed CPI: when the installation fails its error is returned and
  the work is not begun; otherwise the work gets an installation with the given target and
  manifest and the template's job under the target, and after it, whatever its result, the
  rendered job is deleted from the blobstore; an error of the work comes before an error of
  the cleanup.
\<close>

theorem installed_cpi_is_cleaned_up:
  fixes compile :: "Job list \<Rightarrow> nat \<Rightarrow> (world, CompiledPackageRef list) prog"
  assumes "\<And>js n. total (compile js n)"
    and "\<And>i w. installed target m i \<Longrightarrow> wp (fn i) (\<lambda>r w'. returns r \<and> (\<exists>ks. calls w' = calls w @ ks \<and> R i r ks)) w"
  shows "wp (WithInstalledCpiRelease (Install target releases compile script) m stage fn) (\<lambda>r w'. returns r \<and>
    (let (r0, w0) = installCpiRelease (Install target releases compile script) m stage w in
     (\<exists>e. r0 = Err e \<and> r = Err e \<and> w' = w0)
     \<or> (\<exists>i rf ks. installed target m i \<and> R i rf ks \<and> ((\<exists>e. rf = Err e) \<longrightarrow> r = rf) \<and> (r = rf \<or> (\<exists>e. r = Err e))
         \<and> calls w' = calls w0 @ ks @ [delete_blob_call i]))) w"
  unfolding Let_def split_beta
  by (rule WithInstalledCpiRelease_wp[where I = "installed target m" and R = R]) (rule Install_yields, rule assms, rule assms)

theorem installed_cpi_is_cleaned_up_witness:
  "wp (WithInstalledCpiRelease (Install ''/t'' [ex_release] (\<lambda>_ _. ret []) ''erb'') ex_installation_manifest 0 (\<lambda>_. request_unit CallPing))
    (\<lambda>r w'. returns r \<and>
    (let (r0, w0) = installCpiRelease (Install ''/t'' [ex_release] (\<lambda>_ _. ret []) ''erb'') ex_installation_manifest 0 ex_world in
     (\<exists>e. r0 = Err e \<and> r = Err e \<and> w' = w0)
     \<or> (\<exists>i rf ks. installed ''/t'' ex_installation_manifest i \<and> ks = [CallPing] \<and> ((\<exists>e. rf = Err e) \<longrightarrow> r = rf) \<and> (r = rf \<or> (\<exists>e. r = Err e))
         \<and> calls w' = calls w0 @ ks @ [delete_blob_call i]))) ex_world"
  by (rule installed_cpi_is_cleaned_up[where R = "\<lambda>_ _ ks. ks = [CallPing]"], rule yields_ret, rule TrueI, rule ping_runs)

text \<open>
  C11. Migrating the state file of the older tool: true means that the new state file holds a
  state made from the old one, which satisfies the repositories' invariant, and that the old
  file is gone; false, that there was none; after an error the old file is still there. No
  call is made.
\<close>

theorem legacy_state_migrated:
  assumes "fresh_ids w {}" "atomic_writes w" "p \<noteq> ''''" "\<not> below q p"
  shows "wp (MigrateIfExists unmarshal p q) (\<lambda>r w'. calls w' = calls w \<and> (case r of
      Ok True \<Rightarrow> files w' q = None \<and> repo_inv p w' \<and> (\<exists>st c l. loaded p w' st \<and> files w q = Some c
          \<and> unmarshal (parsable c) = Inr l \<and> migrated_from l st)
    | Ok False \<Rightarrow> files w q = None \<and> w' = w
    | Err e \<Rightarrow> files w q \<noteq> None \<and> files w' q = files w q
    | _ \<Rightarrow> False)) w"
  using MigrateIfExists_wp[OF assms] unfolding migration_post_def .

theorem legacy_state_migrated_witness:
  "wp (MigrateIfExists (\<lambda>_. Inr ex_legacy) ''/m-state.json'' ''/bosh-deployments.yml'') (\<lambda>r w'. r \<noteq> Ok False
    \<and> (r = Ok True \<longrightarrow> files w' ''/bosh-deployments.yml'' = None \<and> (\<exists>st. loaded ''/m-state.json'' w' st \<and> CurrentVMCID st = ''vm'')))
    ex_legacy_world"
  by (rule wp_mono[OF legacy_state_migrated[where w = ex_legacy_world, OF ex_legacy_fresh ex_legacy_atomic]])
    (auto simp: ex_legacy_world_def below_def HasPrefix_def migrated_from_def ex_legacy_def)

section \<open>The command line\<close>



section \<open>The deployment state\<close>



text \<open>
  C15. A state that is saved and then loaded is read back as it was, except that the cloud
  properties of its disks take their JSON form (ints become floats, nested maps become generic
  maps); either step may instead fail with an error.
\<close>

theorem state_read_back:
  assumes "p \<noteq> ''''" "atomic_writes w" "storable st" "DirectorID st \<noteq> ''''"
  shows "wp (seq (Save p st) (Load p)) (\<lambda>r w'. r = Ok (reload_state st) \<or> (\<exists>e. r = Err e)) w"
proof (rule wp_seq_rule[OF Save_saved[OF assms(1,2)]], goal_cases)
  case (1 x w')
  then have "loaded p w' (reload_state st)" using assms by (auto simp: loaded_def dest: saved_frame(7))
  then show ?case by (rule wp_mono[OF Load_loaded]) auto
qed auto

theorem state_read_back_witness:
  "wp (seq (Save ''/s'' (zero_state\<lparr>DirectorID := ''d''\<rparr>)) (Load ''/s''))
     (\<lambda>r w'. r = Ok (reload_state (zero_state\<lparr>DirectorID := ''d''\<rparr>)) \<or> (\<exists>e. r = Err e)) ex_world"
  by (rule state_read_back) (simp_all add: storable_def zero_state_def)

section \<open>Manifests\<close>

text \<open>
  C16. The validator accepts a deployment manifest exactly if it is valid in the declarative
  sense: names, network types, one subnet per manual network with its gateway inside the range
  and neither its first nor its last address, static addresses inside the subnet, known pools,
  positive disk sizes, at most one job, unambiguous defaults, unique templates of known
  releases.
\<close>

theorem manifest_accepted_iff_valid:
  "Manifest_Validate d rels = Inr () \<longleftrightarrow> valid_manifest d rels"
  by (rule Manifest_Validate_iff)

text \<open>
  C17. For a manifest the validator accepts with a job, every lookup the deployment makes
  succeeds: the job's name, its network interfaces (which are built without a panic), its
  resource pool, its stemcell, whose URL has a supported scheme, and its disk pool.
\<close>

theorem valid_manifest_is_looked_up:
  assumes "Manifest_Validate d rels = Inr ()" "mf_Jobs d = [j]"
  shows "lookups_succeed d (mj_Name j)"
  using assms valid_lookups unfolding Manifest_Validate_iff by blast

theorem valid_manifest_is_looked_up_witness: "lookups_succeed ex_manifest ''job''"
  using valid_manifest_is_looked_up[OF ex_manifest_validates, of ex_manifest_job]
  by (simp add: ex_manifest_def ex_manifest_job_def)



section \<open>Packages and their dependencies\<close>

text \<open>
  C19. The dependency resolution of a package always returns, on any finite package graph,
  cycles included, and returns exactly the packages reachable from it through one or more
  dependency edges, other than itself, each once.
\<close>

theorem dependencies_closure:
  assumes "wf_heap h"
  shows "\<exists>ds. ResolveDependencies h p = Some ds \<and> distinct ds \<and> set ds = {x. (p, x) \<in> (edges h)\<^sup>+} - {p}"
  using assms by (rule ResolveDependencies_spec)

theorem dependencies_closure_witness:
  "(\<exists>ds. ResolveDependencies ex_cycle 0 = Some ds \<and> distinct ds \<and> set ds = {x. (0, x) \<in> (edges ex_cycle)\<^sup>+} - {0})
   \<and> ResolveDependencies ex_cycle 0 = Some [2, 1]"
proof
  have "wf_heap ex_cycle" by (auto simp: wf_heap_def ex_cycle_def ex_package_def)
  then show "\<exists>ds. ResolveDependencies ex_cycle 0 = Some ds \<and> distinct ds \<and> set ds = {x. (0, x) \<in> (edges ex_cycle)\<^sup>+} - {0}"
    by (rule dependencies_closure)
  show "ResolveDependencies ex_cycle 0 = Some [2, 1]" by code_simp
qed

text \<open>
  C20. For every order in which Go may iterate over the map of edges, the sort of release
  packages ends without a panic: when the dependency edges have no cycle it returns each
  listed package and each direct dependency once, every dependency before the packages that
  depend on it; otherwise it returns the circular dependency error.
\<close>

theorem sort_topological:
  assumes "distinct order" "set order = sort_keys h ps"
  shows "if acyclic (sort_edges h ps)
    then \<exists>ts. Sort h order ps = Some (Inr ts) \<and> distinct ts \<and> set ts = sort_keys h ps \<and> topo (sort_edges h ps) ts
    else Sort h order ps = Some (Inl circular_error)"
  using Sort_spec[OF assms] by (auto split: if_splits)

theorem sort_topological_witness:
  "(if acyclic (sort_edges ex_chain [0, 1])
    then \<exists>ts. Sort ex_chain [2, 0, 1] [0, 1] = Some (Inr ts) \<and> distinct ts \<and> set ts = sort_keys ex_chain [0, 1]
           \<and> topo (sort_edges ex_chain [0, 1]) ts
    else Sort ex_chain [2, 0, 1] [0, 1] = Some (Inl circular_error))
   \<and> Sort ex_chain [2, 0, 1] [0, 1] = Some (Inr [2, 1, 0])"
proof
  have "set [2, 0, 1] = sort_keys ex_chain [0, 1]" by (auto simp: sort_keys_def deps_def ex_chain_def ex_package_def)
  then show "if acyclic (sort_edges ex_chain [0, 1])
    then \<exists>ts. Sort ex_chain [2, 0, 1] [0, 1] = Some (Inr ts) \<and> distinct ts \<and> set ts = sort_keys ex_chain [0, 1]
           \<and> topo (sort_edges ex_chain [0, 1]) ts
    else Sort ex_chain [2, 0, 1] [0, 1] = Some (Inl circular_error)"
    by (intro sort_topological) simp_all
  show "Sort ex_chain [2, 0, 1] [0, 1] = Some (Inr [2, 1, 0])" by code_simp
qed

text \<open>
  C21. The packages compiled for a set of jobs are, when the names of the collected packages
  are distinct, the packages the jobs name and two levels of dependencies below them,
  dependencies first, or the circular dependency error; the collection never panics and
  changes nothing.
\<close>

theorem compilation_collects_two_levels:
  assumes "rearranges iter1" "rearranges iter2"
    and "unique_names h (one_level h (concat (map jb_Packages jobs)))"
  shows "\<exists>r. resolveJobCompilationDependencies iter1 iter2 h jobs w = (r, w) \<and>
    (if acyclic (level_edges h (concat (map jb_Packages jobs)))
     then \<exists>ts. r = Ok ts \<and> distinct ts \<and> set ts = two_levels h (concat (map jb_Packages jobs))
            \<and> topo (level_edges h (concat (map jb_Packages jobs))) ts
     else r = Err circular_error)"
  using assms by (rule resolveJobCompilationDependencies_spec)

theorem compilation_collects_two_levels_witness:
  "\<exists>r. resolveJobCompilationDependencies id id ex_chain [ex_job [0]] ex_world = (r, ex_world) \<and>
    (if acyclic (level_edges ex_chain (concat (map jb_Packages [ex_job [0]])))
     then \<exists>ts. r = Ok ts \<and> distinct ts \<and> set ts = two_levels ex_chain (concat (map jb_Packages [ex_job [0]]))
            \<and> topo (level_edges ex_chain (concat (map jb_Packages [ex_job [0]]))) ts
     else r = Err circular_error)"
  by (rule compilation_collects_two_levels)
    (simp_all add: rearranges_def unique_names_def one_level_def ex_job_def ex_chain_def ex_package_def deps_def pkgKey_def)


text \<open>
  C23. Compiling a list of packages on the VM, on any answers of the agent and the blobstore:
  nothing in the index of compiled packages is lost, after success every package of the list
  is in it, and when a package cannot be compiled, for instance because a dependency is not in
  the index, an error is returned and not a panic.
\<close>

theorem compiled_packages_are_found:
  assumes "mem_index_holds compiled_fields json_of_compiled w f" "atomic_writes w"
  shows "wp (compilePackages h (RemotePackageCompiler_Compile (InMemoryIndex_Find dec_compiled)
        (\<lambda>k v. InMemoryIndex_Save k (json_of_compiled v)) h) d ps refs) (\<lambda>r w'.
    \<exists>f'. mem_index_holds compiled_fields json_of_compiled w' f' \<and> (\<forall>k. f k \<noteq> None \<longrightarrow> f' k \<noteq> None) \<and> (case r of
      Ok _ \<Rightarrow> \<forall>p \<in> set ps. f' (compiledPkgKey h (h ! p)) \<noteq> None | Err e \<Rightarrow> True | _ \<Rightarrow> False)) w"
  by (rule wp_mono[OF memory_index.compilePackages_records[where f = f]])
    (use assms in \<open>auto simp: memory_index.indexed_def\<close>)

theorem compiled_packages_are_found_witness:
  "wp (compilePackages ex_chain (RemotePackageCompiler_Compile (InMemoryIndex_Find dec_compiled)
        (\<lambda>k v. InMemoryIndex_Save k (json_of_compiled v)) ex_chain) 0 [3, 2] []) (\<lambda>r w'.
    \<exists>f'. mem_index_holds compiled_fields json_of_compiled w' f' \<and> (\<forall>k. (Map.empty :: index_key \<rightharpoonup> CompiledPackageRecord) k \<noteq> None \<longrightarrow> f' k \<noteq> None)
      \<and> (case r of Ok _ \<Rightarrow> \<forall>p \<in> set [3, 2]. f' (compiledPkgKey ex_chain (ex_chain ! p)) \<noteq> None | Err e \<Rightarrow> True | _ \<Rightarrow> False)) ex_world"
  by (rule compiled_packages_are_found) (simp_all add: mem_index_holds_def ex_world_def[THEN arg_cong[of _ _ mem_index]])



section \<open>Disks, stemcells and VMs\<close>





text \<open>
  C27. A disk whose requested size and cloud properties have not changed is migrated all the
  same, once its record has been read back from the state file, exactly if some property is
  not stable under JSON: integers come back as floats and nested maps as generic maps, and the
  comparison then fails.
\<close>

theorem reloaded_disk_needs_migration:
  assumes "wf_map props" "dr_CloudProperties r = Some props"
  shows "NeedsMigration (NewDisk (reload_disk r)) (dr_Size r) (dr_CloudProperties r)
    \<longleftrightarrow> (\<exists>e \<in> set props. \<not> json_stable (snd e))"
  using assms by (rule NeedsMigration_reloaded)

theorem reloaded_disk_needs_migration_witness:
  "NeedsMigration (NewDisk (reload_disk (ex_record (PInt 3)))) 512 (Some [(''k'', PInt 3)])
   \<and> \<not> NeedsMigration (NewDisk (reload_disk (ex_record (PStr ''v'')))) 512 (Some [(''k'', PStr ''v'')])"
  using reloaded_disk_needs_migration[of "[(''k'', PInt 3)]" "ex_record (PInt 3)"]
    reloaded_disk_needs_migration[of "[(''k'', PStr ''v'')]" "ex_record (PStr ''v'')"]
  by (simp add: ex_record_def wf_map_def)



section \<open>The agent\<close>

text \<open>
  C29. Waiting for the jobs to run returns, and if it succeeds, either the window for the
  agent allows no attempt at all or the agent has reported the state running in one of the
  answers received.
\<close>

theorem running_was_reported:
  assumes "plain_answers w"
  shows "wp (waitUntilJobsAreRunning i t stage) (\<lambda>r w'. returns r \<and>
    (r = Ok () \<longrightarrow> watch_attempts t \<le> 0 \<or> reported_running w w')) w"
  using assms by (rule waits_until_running)

theorem running_was_reported_witness:
  "wp (waitUntilJobsAreRunning \<lparr>it_jobName = ''job'', it_id = 0, it_vm = ''vm''\<rparr> (mf_UpdateWatchTime ex_manifest) 0)
    (\<lambda>r w'. returns r \<and> (r = Ok () \<longrightarrow> watch_attempts (mf_UpdateWatchTime ex_manifest) \<le> 0 \<or> reported_running ex_deployed w')) ex_deployed"
  by (rule running_was_reported) (use ex_state_at in \<open>simp add: state_at_def\<close>)

text \<open>
  C30. With a watch window below one second, the wait allows no attempt and succeeds without
  asking the agent for its state.
\<close>

theorem short_window_succeeds_unasked:
  assumes "0 \<le> wt_Start t" "wt_Start t \<le> wt_End t" "wt_End t < wt_Start t + 1000" "wt_End t < 2 ^ 63 div Millisecond"
  shows "wp (waitUntilJobsAreRunning i t stage) (\<lambda>r w'. r = Ok () \<and> calls w' = calls w) w"
  by (rule window_below_second) (use assms(1-3) watch_attempts_window[OF assms(1,2,4)] in simp)

theorem short_window_succeeds_unasked_witness:
  "wp (waitUntilJobsAreRunning \<lparr>it_jobName = ''job'', it_id = 0, it_vm = ''vm''\<rparr> \<lparr>wt_Start = 0, wt_End = 999\<rparr> 0)
    (\<lambda>r w'. r = Ok () \<and> calls w' = calls ex_deployed) ex_deployed"
  by (rule short_window_succeeds_unasked) (simp_all add: Millisecond_def)



text \<open>
  C32. Starting the tunnel returns whatever the outside answers, with at most 844 requests
  (its two timeouts divided by its delay), all of them parsing the key, dialling or listening
  with the tunnel's own options; the state file is untouched.
\<close>

theorem tunnel_start_ends:
  "does p st (Tunnel_Start (NewSSHTunnel o1))
    (\<lambda>r ks st'. st' = st \<and> plain_result r \<and> set ks \<subseteq> tunnel_calls o1
     \<and> length ks \<le> 844)"
  by (rule does_Tunnel_Start)

theorem tunnel_start_ends_witness:
  "\<exists>r w' ks st'. (Tunnel_Start (NewSSHTunnel (tunnel_options ex_registry))) ex_deployed = (r, w') \<and> returns r \<and> calls w' = ks \<and> state_at ''/s'' w' st'
    \<and> (st' = ex_state \<and> plain_result r \<and> set ks \<subseteq> tunnel_calls (tunnel_options ex_registry)
       \<and> length ks \<le> 844)"
  by (rule does_here, rule tunnel_start_ends)

section \<open>Downloads, templates and the installation\<close>

text \<open>
  C33. Getting a tarball by HTTP: it returns; at most as many requests are made as attempts
  are allowed; on success the path is the cache's path for the URL and checksum, and the file
  there was in the cache before or has the checksum of the source.
\<close>

theorem download_is_verified:
  fixes source :: SourceRef and sha1_str :: "string \<Rightarrow> string" and pv :: provider
  assumes "HasPrefix (src_URL source) ''http''" "0 < pv_downloadAttempts pv"
    and "apart w (Cache_Path sha1_str (pv_basePath pv) source)"
  shows "wp (Provider_Get sha1_str sha1_files pv source description stage)
    (\<lambda>r w'. returns r \<and> fetched (nat (pv_downloadAttempts pv)) w w' \<and> (\<forall>q. r = Ok q \<longrightarrow>
       q = Cache_Path sha1_str (pv_basePath pv) source
       \<and> (files w q \<noteq> None \<or> verified sha1_files (src_SHA1 source) q w'))) w"
  using assms by (rule Provider_Get_http)

theorem download_is_verified_witness:
  "wp (Provider_Get (\<lambda>_. ''u'') (\<lambda>_. ''sha'') ex_provider \<lparr>src_URL = ''http://h/r'', src_SHA1 = ''sha''\<rparr> ''r'' 0)
    (\<lambda>r w'. returns r \<and> fetched 3 ex_world w' \<and> (\<forall>q. r = Ok q \<longrightarrow>
       q = Cache_Path (\<lambda>_. ''u'') ''/c'' \<lparr>src_URL = ''http://h/r'', src_SHA1 = ''sha''\<rparr>
       \<and> (files ex_world q \<noteq> None \<or> verified (\<lambda>_. ''sha'') ''sha'' q w'))) ex_world"
  using download_is_verified[of "\<lparr>src_URL = ''http://h/r'', src_SHA1 = ''sha''\<rparr>" ex_provider ex_world "\<lambda>_. ''u''" "\<lambda>_. ''sha''" "''r''" 0]
    ex_apart by (simp add: ex_provider_def HasPrefix_def)

text \<open>
  C34. Rendering a list of jobs returns; on success the rendered jobs are those jobs in order,
  and the ruby program was run once for each template of each job, to its destination, and
  once for the job's monit file, in order, and for nothing else.
\<close>

theorem templates_are_rendered:
  "wp (JobListRenderer_Render script js ps p2 p3 n a) (\<lambda>r w'. returns r \<and> (\<forall>l. r = Ok l \<longrightarrow> map rn_job l = js
      \<and> ran w (concat (map (\<lambda>rj. job_runs (rn_job rj) (rn_path rj)) l)) w')) w"
  by (rule JobListRenderer_Render_runs)

theorem templates_are_rendered_witness:
  "wp (JobListRenderer_Render ''erb'' [ex_job []] [] (Some []) (Some []) ''dep'' '''') (\<lambda>r w'. returns r \<and> (\<forall>l. r = Ok l \<longrightarrow>
      map rn_job l = [ex_job []] \<and> ran ex_world (concat (map (\<lambda>rj. job_runs (rn_job rj) (rn_path rj)) l)) w')) ex_world"
  by (rule templates_are_rendered)

text \<open>
  C35. What a template sees of its job's properties, with the Ruby objects shared and updated
  in place: the job's own properties count if it has any, else the global ones with the
  cluster's merged into them; for every declared name, none a prefix of another, p answers
  with the value there, else with the declared default, else with an unknown property error.
  Building them fails only if there are no properties, or the path of a name runs into a value
  that is not a hash or a string.
\<close>

theorem templates_see_declared_properties:
  assumes "wf_json (Context_MarshalJSON ec)" "unambiguous (map (split_name \<circ> fst) (jb_Properties (ec_releaseJob ec)))"
  shows "wp (bnd (JSON_load (Context_MarshalJSON ec)) build_properties) (\<lambda>r h'. case r of
      Ok raw \<Rightarrow> \<exists>src. context_properties ec = Some src \<and> sees src (context_defaults ec) raw h'
    | Err e \<Rightarrow> context_properties ec = None \<or> (\<exists>src. context_properties ec = Some src
        \<and> (\<exists>(name, d) \<in> set (context_defaults ec). json_path (split_name name) src = None))
    | _ \<Rightarrow> False) h"
  using assms by (rule declared_properties_of_job)

theorem templates_see_declared_properties_witness:
  "wp (bnd (JSON_load (Context_MarshalJSON ex_context)) build_properties) (\<lambda>r h'. \<exists>raw. r = Ok raw
    \<and> (\<forall>t. tc_raw_properties t = raw \<longrightarrow> context_p t [''a.b''] None h' = (Ok (RNum 7), h') \<and> context_p t [''a.c''] None h' = (Ok (RNum 3), h'))) []"
proof -
  let ?src = "JObj [(''a'', JObj [(''b'', JNum 7), (''x'', JStr ''y'')])]"
  have src: "context_properties ex_context = Some ?src"
    by (simp add: context_properties_def ex_context_def marshal_map_def)
  have ds: "context_defaults ex_context = [(''a.b'', JNull), (''a.c'', JNum 3)]"
    by (simp add: context_defaults_def ex_context_def)
  have names: "split_name ''a.b'' = [''a'', ''b'']" "split_name ''a.c'' = [''a'', ''c'']" by code_simp+
  have seven: "tree G h v (JNum x) \<Longrightarrow> v = RNum x" for G h v x by (auto elim: tree_jsonE)
  show ?thesis
    by (rule wp_mono[OF templates_see_declared_properties[OF ex_context_wf ex_context_unambiguous]])
      (auto simp: src ds names sees_def declared_value_def dest!: seven split: outcome.splits)
qed





text \<open>
  C38. A configured registry runs exactly while the function does: the calls are the start,
  the function's calls, the stop, also when the function fails, and the result is the
  function's; if it cannot be started, nothing else is called and an error is returned;
  without a configuration the function just runs.
\<close>

theorem registry_runs_around:
  assumes "does p st fn R" "\<not> in_registryServer i"
  shows "does p st (WithRunningRegistry i stage fn)
    (\<lambda>r ks st'.
    if Registry_IsEmpty (im_Registry (in_manifest i)) then R r ks st'
    else (ks = [registry_call i] \<and> st' = st \<and> (\<exists>e. r = Err e))
      \<or> (\<exists>ks'. ks = registry_call i # ks' @ [CallStopRegistry] \<and> R r ks' st'))"
  using assms by (rule does_WithRunningRegistry)

theorem registry_runs_around_witness:
  "\<exists>r w' ks st'. (WithRunningRegistry ex_installation 0 (request_unit CallPing)) ex_deployed = (r, w') \<and> returns r \<and> calls w' = ks \<and> state_at ''/s'' w' st'
    \<and> (if Registry_IsEmpty (im_Registry (in_manifest ex_installation)) then (\<lambda>r ks st'. ks = [CallPing] \<and> st' = ex_state \<and> plain_result r) r ks st'
      else (ks = [registry_call ex_installation] \<and> st' = ex_state \<and> (\<exists>e. r = Err e))
        \<or> (\<exists>ks'. ks = registry_call ex_installation # ks' @ [CallStopRegistry] \<and> (\<lambda>r ks st'. ks = [CallPing] \<and> st' = ex_state \<and> plain_result r) r ks' st'))"
  by (rule does_here, rule registry_runs_around, rule does_request_unit) (simp add: ex_installation_def)

section \<open>The registry\<close>

text \<open>
  C39. The registry refines a map from instance ids to their last authorised value: after any
  sequence of requests, reading an instance gives the body of the last authorised PUT for it
  since the last authorised DELETE, and not found otherwise.
\<close>

theorem registry_reads_last_write:
  assumes "rq_Method q = GET" "getInstanceID (rq_Path q) = Some i"
  shows "snd (HandleFunc u p (fst (serve u p Map.empty qs)) q) =
    (case last_written u p i None qs of
       None \<Rightarrow> handleNotFound
     | Some b \<Rightarrow> \<lparr>rp_Status = 200, rp_Authenticate = False, rp_Body = Some (b, ''ok'')\<rparr>)"
  using assms by (rule serve_read)

theorem registry_reads_last_write_witness:
  "snd (HandleFunc ''u'' ''p'' (fst (serve ''u'' ''p'' Map.empty [ex_put])) ex_get)
    = \<lparr>rp_Status = 200, rp_Authenticate = False, rp_Body = Some (''body'', ''ok'')\<rparr>"
proof -
  have "getInstanceID ''/instances/vm/settings'' = Some ''vm''" by code_simp
  then have g: "getInstanceID (rq_Path ex_get) = Some ''vm''" "getInstanceID (rq_Path ex_put) = Some ''vm''" by (simp_all add: ex_get_def ex_put_def)
  have a: "isAuthorized ''u'' ''p'' ex_put" by (simp add: isAuthorized_def ex_put_def)
  show ?thesis using registry_reads_last_write[of ex_get "''vm''" "''u''" "''p''" "[ex_put]"] g a
    by (simp add: writes_to_def ex_put_def ex_get_def)
qed

text \<open>
  C40. Requests without the credentials of the registry never change it, however many there
  are.
\<close>

theorem registry_needs_credentials:
  assumes "\<forall>q \<in> set qs. \<not> isAuthorized u p q"
  shows "fst (serve u p r qs) = r"
  using assms by (rule serve_unauthorized)

theorem registry_needs_credentials_witness:
  "fst (serve ''u'' ''p'' [''vm'' \<mapsto> ''old''] [ex_get, ex_put\<lparr>rq_Authorization := ''''\<rparr>]) = [''vm'' \<mapsto> ''old'']"
  by (rule registry_needs_credentials) (auto simp: isAuthorized_def ex_get_def ex_put_def)

end
